(* ===== verification/Prelude.thy ===== *)
theory Prelude
  imports Complex_Main "HOL-Library.List_Lexorder" "HOL-Library.Char_ord"
begin

text \<open>
  Shared vocabulary of the development.

  \<^item> Statements that run on a database connection are functions from the state to a result
    and a new state (\<open>('s, 'e, 'a) db\<close>). A raised exception is \<open>Inl\<close>; the writes made before
    it are still in the state next to it, as they are on an open connection, and
    \<open>transaction\<close> undoes them, as the engine's \<open>begin()\<close> block does.
  \<^item> A Python \<open>str\<close> is an Isabelle \<open>string\<close> that holds its UTF-8 bytes: equality,
    concatenation, substring search and the order of \<open>sorted\<close> agree with Python's on the
    code points. \<open>strip\<close> is modelled on the encodings of Python's whitespace characters.
  \<^item> A JSON value is a \<open>json\<close>; \<open>py_eq\<close> is Python's \<open>==\<close> on the decoded values (a bool equals
    the integer 0 or 1, an object does not depend on the order of its keys).
\<close>

named_theorems db_simps \<open>unfolding the statements of a connection\<close>
named_theorems store_inv \<open>operations that keep a store invariant\<close>

section \<open>Statements on a connection\<close>

type_synonym ('s, 'e, 'a) db = "'s \<Rightarrow> ('e + 'a) \<times> 's"

definition ret :: "'a \<Rightarrow> ('s, 'e, 'a) db" where
  "ret x = (\<lambda>s. (Inr x, s))"

definition raise :: "'e \<Rightarrow> ('s, 'e, 'a) db" where
  "raise e = (\<lambda>s. (Inl e, s))"

definition bind :: "('s, 'e, 'a) db \<Rightarrow> ('a \<Rightarrow> ('s, 'e, 'b) db) \<Rightarrow> ('s, 'e, 'b) db" where
  "bind m k = (\<lambda>s. case m s of (Inl e, s') \<Rightarrow> (Inl e, s') | (Inr x, s') \<Rightarrow> k x s')"

definition gets :: "('s \<Rightarrow> 'a) \<Rightarrow> ('s, 'e, 'a) db" where
  "gets f = (\<lambda>s. (Inr (f s), s))"

definition modify :: "('s \<Rightarrow> 's) \<Rightarrow> ('s, 'e, unit) db" where
  "modify f = (\<lambda>s. (Inr (), f s))"

definition guard :: "bool \<Rightarrow> 'e \<Rightarrow> ('s, 'e, unit) db" where
  "guard b e = (if b then ret () else raise e)"

definition then_db :: "('s, 'e, unit) db \<Rightarrow> ('s, 'e, 'b) db \<Rightarrow> ('s, 'e, 'b) db" where
  "then_db m k = bind m (\<lambda>_. k)"

fun for_each :: "('a \<Rightarrow> ('s, 'e, unit) db) \<Rightarrow> 'a list \<Rightarrow> ('s, 'e, unit) db" where
  "for_each f [] = ret ()"
| "for_each f (x # xs) = then_db (f x) (for_each f xs)"

definition transaction :: "('s, 'e, 'a) db \<Rightarrow> ('s, 'e, 'a) db" where
  "transaction m = (\<lambda>s. case m s of (Inl e, _) \<Rightarrow> (Inl e, s) | (Inr x, s') \<Rightarrow> (Inr x, s'))"

lemma ret_eq [simp, db_simps]: "ret x s = (Inr x, s)"
  by (simp add: ret_def)

lemma raise_eq [simp, db_simps]: "raise e s = (Inl e, s)"
  by (simp add: raise_def)

lemma gets_eq [simp, db_simps]: "gets f s = (Inr (f s), s)"
  by (simp add: gets_def)

lemma modify_eq [simp, db_simps]: "modify f s = (Inr (), f s)"
  by (simp add: modify_def)

lemma guard_eq [simp, db_simps]: "guard b e s = (if b then (Inr (), s) else (Inl e, s))"
  by (simp add: guard_def)

lemma bind_eq [db_simps]:
  "bind m k s = (case m s of (Inl e, s') \<Rightarrow> (Inl e, s') | (Inr x, s') \<Rightarrow> k x s')"
  by (simp add: bind_def)

lemma then_db_eq [db_simps]:
  "then_db m k s = (case m s of (Inl e, s') \<Rightarrow> (Inl e, s') | (Inr x, s') \<Rightarrow> k s')"
  by (simp add: then_db_def bind_eq)

lemma bind_Inr:
  "bind m k s = (Inr y, s') \<longleftrightarrow> (\<exists>x s1. m s = (Inr x, s1) \<and> k x s1 = (Inr y, s'))"
  by (auto simp: bind_eq split: prod.splits sum.splits)

lemma then_db_Inr:
  "then_db m k s = (Inr y, s') \<longleftrightarrow> (\<exists>s1. m s = (Inr (), s1) \<and> k s1 = (Inr y, s'))"
  by (auto simp: then_db_def bind_Inr)

lemma guard_Inr: "guard b e s = (Inr u, s') \<longleftrightarrow> b \<and> s' = s"
  by auto

lemma transaction_Inr [simp]: "transaction m s = (Inr x, s') \<longleftrightarrow> m s = (Inr x, s')"
  by (auto simp: transaction_def split: prod.splits sum.splits)

lemma transaction_Inl:
  "transaction m s = (Inl e, s') \<longleftrightarrow> s' = s \<and> (\<exists>t. m s = (Inl e, t))"
  by (auto simp: transaction_def split: prod.splits sum.splits)

lemma transaction_cases:
  obtains (ok) x s' where "m s = (Inr x, s')" "transaction m s = (Inr x, s')"
  | (err) e t where "m s = (Inl e, t)" "transaction m s = (Inl e, s)"
proof (cases "fst (m s)")
  case (Inl e)
  then show ?thesis
    by (cases "m s") (auto intro: err simp: transaction_def)
next
  case (Inr x)
  then show ?thesis
    by (cases "m s") (auto intro: ok)
qed

lemma after_transaction: "P s \<Longrightarrow> (\<And>x t. m s = (Inr x, t) \<Longrightarrow> P t) \<Longrightarrow> P (snd (transaction m s))"
  by (cases "m s") (auto simp: transaction_def split: sum.splits)

text \<open>Code that may raise and touches no connection, alone, in sequence, over a list and inside a statement.\<close>

definition sum_bind :: "'e + 'a \<Rightarrow> ('a \<Rightarrow> 'e + 'b) \<Rightarrow> 'e + 'b" where
  "sum_bind r f = (case r of Inl e \<Rightarrow> Inl e | Inr x \<Rightarrow> f x)"

fun sum_map :: "('a \<Rightarrow> 'e + 'b) \<Rightarrow> 'a list \<Rightarrow> 'e + 'b list" where
  "sum_map f [] = Inr []"
| "sum_map f (x # xs) = sum_bind (f x) (\<lambda>y. sum_bind (sum_map f xs) (\<lambda>ys. Inr (y # ys)))"

definition of_sum :: "'e + 'a \<Rightarrow> ('s, 'e, 'a) db" where
  "of_sum r = (case r of Inl e \<Rightarrow> raise e | Inr x \<Rightarrow> ret x)"

lemma of_sum_Inr [simp]: "of_sum r s = (Inr x, t) \<longleftrightarrow> r = Inr x \<and> t = s"
  by (cases r) (auto simp: of_sum_def)

lemma sum_bind_Inr: "sum_bind r f = Inr y \<longleftrightarrow> (\<exists>x. r = Inr x \<and> f x = Inr y)"
  by (cases r) (auto simp: sum_bind_def)

lemma sum_map_Inr: "sum_map f xs = Inr ys \<longleftrightarrow> list_all2 (\<lambda>x y. f x = Inr y) xs ys"
  by (induction xs arbitrary: ys) (auto simp: sum_bind_Inr list_all2_Cons1)

text \<open>
  What every statement of a connection keeps: \<open>keeps P m\<close> says that \<open>m\<close> leads from a state
  with \<open>P\<close> to one with \<open>P\<close> whether it returns or raises.
\<close>

definition keeps :: "('s \<Rightarrow> bool) \<Rightarrow> ('s, 'e, 'a) db \<Rightarrow> bool" where
  "keeps P m \<longleftrightarrow> (\<forall>s. P s \<longrightarrow> P (snd (m s)))"

lemma keepsI: "(\<And>s. P s \<Longrightarrow> P (snd (m s))) \<Longrightarrow> keeps P m"
  by (simp add: keeps_def)

lemma keepsD: "keeps P m \<Longrightarrow> P s \<Longrightarrow> P (snd (m s))"
  by (simp add: keeps_def)

lemma keeps_ret [simp, store_inv]: "keeps P (ret x)"
  by (simp add: keeps_def)

lemma keeps_raise [simp, store_inv]: "keeps P (raise e)"
  by (simp add: keeps_def)

lemma keeps_gets [simp, store_inv]: "keeps P (gets f)"
  by (simp add: keeps_def)

lemma keeps_guard [simp, store_inv]: "keeps P (guard b e)"
  by (simp add: keeps_def)

lemma keeps_bind [store_inv]: "keeps P m \<Longrightarrow> (\<And>x. keeps P (k x)) \<Longrightarrow> keeps P (bind m k)"
  by (fastforce simp: keeps_def bind_eq split: prod.splits sum.splits)

lemma keeps_then [store_inv]: "keeps P m \<Longrightarrow> keeps P k \<Longrightarrow> keeps P (then_db m k)"
  by (simp add: then_db_def keeps_bind)

lemma keeps_for_each [store_inv]: "(\<And>x. x \<in> set xs \<Longrightarrow> keeps P (f x)) \<Longrightarrow> keeps P (for_each f xs)"
  by (induction xs) (auto intro!: keeps_then)

lemma keeps_transaction [store_inv]: "keeps P m \<Longrightarrow> keeps P (transaction m)"
  by (fastforce simp: keeps_def transaction_def split: prod.splits sum.splits)

lemma keeps_if [store_inv]: "keeps P m \<Longrightarrow> keeps P k \<Longrightarrow> keeps P (if b then m else k)"
  by simp

section \<open>Python strings\<close>

definition ws1 :: "char \<Rightarrow> bool" where
  "ws1 a \<longleftrightarrow> (let n = of_char a :: nat in (9 \<le> n \<and> n \<le> 13) \<or> (28 \<le> n \<and> n \<le> 32))"

definition ws2 :: "char \<Rightarrow> char \<Rightarrow> bool" where
  "ws2 a b \<longleftrightarrow> a = CHR 0xC2 \<and> b \<in> {CHR 0x85, CHR 0xA0}"

definition ws3 :: "char \<Rightarrow> char \<Rightarrow> char \<Rightarrow> bool" where
  "ws3 a b c \<longleftrightarrow>
     (a = CHR 0xE1 \<and> b = CHR 0x9A \<and> c = CHR 0x80) \<or>
     (a = CHR 0xE2 \<and> b = CHR 0x80 \<and>
        (let n = of_char c :: nat in (128 \<le> n \<and> n \<le> 138) \<or> n = 168 \<or> n = 169 \<or> n = 175)) \<or>
     (a = CHR 0xE2 \<and> b = CHR 0x81 \<and> c = CHR 0x9F) \<or>
     (a = CHR 0xE3 \<and> b = CHR 0x80 \<and> c = CHR 0x80)"

fun drop_ws :: "(char \<Rightarrow> char \<Rightarrow> bool) \<Rightarrow> (char \<Rightarrow> char \<Rightarrow> char \<Rightarrow> bool) \<Rightarrow> string \<Rightarrow> string" where
  "drop_ws p q (a # b # c # s) =
     (if ws1 a then drop_ws p q (b # c # s)
      else if p a b then drop_ws p q (c # s)
      else if q a b c then drop_ws p q s
      else a # b # c # s)"
| "drop_ws p q [a, b] =
     (if ws1 a then drop_ws p q [b] else if p a b then [] else [a, b])"
| "drop_ws p q [a] = (if ws1 a then [] else [a])"
| "drop_ws p q [] = []"

definition py_lstrip :: "string \<Rightarrow> string" where
  "py_lstrip = drop_ws ws2 ws3"

definition py_rstrip :: "string \<Rightarrow> string" where
  "py_rstrip s = rev (drop_ws (\<lambda>b a. ws2 a b) (\<lambda>c b a. ws3 a b c) (rev s))"

definition py_strip :: "string \<Rightarrow> string" where
  "py_strip s = py_rstrip (py_lstrip s)"

definition blank :: "string \<Rightarrow> bool" where
  "blank s \<longleftrightarrow> py_strip s = []"

lemma blank_Nil [simp]: "blank []"
  by (simp add: blank_def py_strip_def py_lstrip_def py_rstrip_def)

text \<open>\<open>str(n)\<close> of an integer: its decimal digits.\<close>

fun nat_digits :: "nat \<Rightarrow> string" where
  "nat_digits n =
     (if n < 10 then [char_of (48 + n)] else nat_digits (n div 10) @ [char_of (48 + n mod 10)])"

declare nat_digits.simps [simp del]

definition str_int :: "int \<Rightarrow> string" where
  "str_int i = (if i < 0 then ''-'' @ nat_digits (nat (- i)) else nat_digits (nat i))"

definition digits_value :: "string \<Rightarrow> nat" where
  "digits_value = foldl (\<lambda>a c. a * 10 + (of_char c - 48)) 0"

lemma digit_char: "n < 10 \<Longrightarrow> of_char (char_of (48 + n) :: char) - 48 = (n :: nat)"
  by simp

lemma digits_value_nat_digits: "digits_value (nat_digits n) = n"
proof (induction n rule: nat_digits.induct)
  case (1 n)
  show ?case
  proof (cases "n < 10")
    case True
    then show ?thesis by (subst nat_digits.simps) (simp add: digits_value_def)
  next
    case False
    have "digits_value (nat_digits (n div 10) @ [char_of (48 + n mod 10)]) =
        digits_value (nat_digits (n div 10)) * 10 + n mod 10"
      by (simp add: digits_value_def)
    with 1[OF False] False show ?thesis by (subst nat_digits.simps) simp
  qed
qed

lemma hd_nat_digits: "\<exists>k < 10. hd (nat_digits n) = char_of (48 + k :: nat) \<and> nat_digits n \<noteq> []"
proof (induction n rule: nat_digits.induct)
  case (1 n)
  show ?case
  proof (cases "n < 10")
    case True
    then show ?thesis by (subst nat_digits.simps, subst (2) nat_digits.simps) auto
  next
    case False
    then show ?thesis using 1 by (subst nat_digits.simps, subst (2) nat_digits.simps) (auto simp: hd_append)
  qed
qed

lemma str_int_inject [simp]: "str_int i = str_int j \<longleftrightarrow> i = j"
proof -
  have minus: "nat_digits n \<noteq> CHR ''-'' # xs" for n xs
  proof
    assume "nat_digits n = CHR ''-'' # xs"
    with hd_nat_digits[of n] obtain k where "k < 10" "CHR ''-'' = char_of (48 + k :: nat)" by auto
    then have "(of_char (CHR ''-'') :: nat) = of_char (char_of (48 + k :: nat) :: char)" by simp
    with \<open>k < 10\<close> show False by simp
  qed
  have inj: "nat_digits n = nat_digits m \<longleftrightarrow> n = m" for n m
    by (metis digits_value_nat_digits)
  show ?thesis
    using minus minus[symmetric] by (auto simp: str_int_def inj)
qed

section \<open>Dictionaries, sets and sorting\<close>

text \<open>A dict built by a comprehension: of two entries with one key the later one stays.\<close>

definition dict_of :: "('k \<times> 'v) list \<Rightarrow> 'k \<rightharpoonup> 'v" where
  "dict_of xs = map_of (rev xs)"

lemma dict_of_distinct: "distinct (map fst xs) \<Longrightarrow> dict_of xs = map_of xs"
  by (rule ext) (metis dict_of_def distinct_rev map_of_eq_Some_iff not_Some_eq rev_map set_rev)

lemma dict_of_Some: "dict_of xs k = Some v \<Longrightarrow> (k, v) \<in> set xs"
  by (auto simp: dict_of_def dest: map_of_SomeD)

lemma dom_dict_of: "dom (dict_of xs) = fst ` set xs"
  by (simp add: dict_of_def dom_map_of_conv_image_fst)

lemma dict_of_in: "k \<in> fst ` set xs \<Longrightarrow> \<exists>v. dict_of xs k = Some v \<and> (k, v) \<in> set xs"
  using dom_dict_of[of xs] dict_of_Some[of xs k] by (metis domD)

text \<open>
  A dict as the list of its items: a key keeps the place of its first insertion and the value
  of its last. \<open>group_items\<close> is \<open>setdefault(k, []).append(v)\<close> over a list of pairs.
\<close>

definition dict_items :: "('k \<times> 'v) list \<Rightarrow> ('k \<times> 'v) list" where
  "dict_items xs = map (\<lambda>k. (k, the (dict_of xs k))) (rev (remdups (rev (map fst xs))))"

definition group_items :: "('k \<times> 'v) list \<Rightarrow> ('k \<times> 'v list) list" where
  "group_items xs =
     map (\<lambda>k. (k, map snd (filter (\<lambda>(j, v). j = k) xs))) (rev (remdups (rev (map fst xs))))"

lemma keys_dict_items [simp]: "fst ` set (dict_items xs) = fst ` set xs"
  by (force simp: dict_items_def image_image)

lemma keys_group_items: "fst ` set (group_items xs) = fst ` set xs"
  by (force simp: group_items_def image_image)

lemma distinct_group_items: "distinct (map fst (group_items xs))"
  by (simp add: group_items_def comp_def)

lemma group_items_nonempty: "(k, vs) \<in> set (group_items xs) \<Longrightarrow> vs \<noteq> []"
  by (auto simp: group_items_def filter_empty_conv)

lemma set_group_items: "(k, vs) \<in> set (group_items xs) \<Longrightarrow> set vs = {v. (k, v) \<in> set xs}"
  by (force simp: group_items_def)

lemma sum_group_items: "sum_list (map (length \<circ> snd) (group_items xs)) = length xs"
proof -
  have c: "length (map snd (filter (\<lambda>(j, v). j = k) xs)) = count_list (map fst xs) k" for k
    by (induction xs) auto
  have "sum_list (map (length \<circ> snd) (group_items xs)) =
      (\<Sum>k\<in>set (rev (remdups (rev (map fst xs)))). count_list (map fst xs) k)"
    by (simp add: group_items_def comp_def c[unfolded length_map] sum_list_distinct_conv_sum_set)
  also have "\<dots> = length (map fst xs)"
    by (simp only: set_rev set_remdups sum_count_set[OF subset_refl] List.finite_set)
  finally show ?thesis by simp
qed

lemma find_SomeD: "find P xs = Some x \<Longrightarrow> x \<in> set xs \<and> P x"
  by (auto simp: find_Some_iff)

text \<open>A table keyed by its id: \<open>UPDATE ... WHERE id = i\<close>, and the row an \<open>INSERT\<close> appends.\<close>

definition update_row :: "'k \<Rightarrow> ('v \<Rightarrow> 'v) \<Rightarrow> ('k \<times> 'v) list \<Rightarrow> ('k \<times> 'v) list" where
  "update_row i f = map (\<lambda>(j, v). (j, if j = i then f v else v))"

lemma map_fst_update_row [simp]: "map fst (update_row i f xs) = map fst xs"
  by (auto simp: update_row_def)

lemma fst_set_update_row [simp]: "fst ` set (update_row i f xs) = fst ` set xs"
  by (metis map_fst_update_row list.set_map)

lemma map_of_update_row [simp]:
  "map_of (update_row i f xs) k = (if k = i then map_option f (map_of xs i) else map_of xs k)"
  by (induction xs) (auto simp: update_row_def)

lemma length_update_row [simp]: "length (update_row i f xs) = length xs"
  by (simp add: update_row_def)

lemma map_of_snoc: "i \<notin> fst ` set xs \<Longrightarrow> map_of (xs @ [(i, v)]) k = (if k = i then Some v else map_of xs k)"
  by (induction xs) auto

lemma map_of_mem: "map_of xs i = Some v \<Longrightarrow> i \<in> fst ` set xs"
  by (force dest: map_of_SomeD)

lemma mem_map_of: "distinct (map fst xs) \<Longrightarrow> (i, v) \<in> set xs \<longleftrightarrow> map_of xs i = Some v"
  by simp

text \<open>The next id of a table that never loses a row.\<close>

definition next_id :: "'a list \<Rightarrow> int" where
  "next_id xs = int (length xs) + 1"

lemma distinct_singleton: "distinct xs \<Longrightarrow> set xs = {x} \<Longrightarrow> xs = [x]"
  by (cases xs; cases "tl xs") auto

text \<open>\<open>sorted(set(xs))\<close>: ascending and without repetitions.\<close>

definition sorted_set :: "'a::linorder list \<Rightarrow> 'a list" where
  "sorted_set xs = sort (remdups xs)"

lemma set_sorted_set [simp]: "set (sorted_set xs) = set xs"
  by (simp add: sorted_set_def)

lemma distinct_sorted_set [simp]: "distinct (sorted_set xs)"
  by (simp add: sorted_set_def)

lemma sorted_sorted_set [simp]: "sorted (sorted_set xs)"
  by (simp add: sorted_set_def)

lemma sorted_set_Nil_iff [simp]: "sorted_set xs = [] \<longleftrightarrow> xs = []"
  by (metis set_empty set_sorted_set)

lemma sorted_set_cong: "set xs = set ys \<Longrightarrow> sorted_set xs = sorted_set ys"
  by (rule sorted_distinct_set_unique) simp_all

lemma length_sorted_set: "length (sorted_set xs) = card (set xs)"
  by (metis distinct_card distinct_sorted_set set_sorted_set)

text \<open>\<open>Counter(xs)\<close> as a dict: the keys in the order of their first occurrence.\<close>

definition count_dict :: "'a list \<Rightarrow> ('a \<times> nat) list" where
  "count_dict xs = map (\<lambda>x. (x, count_list xs x)) (rev (remdups (rev xs)))"

lemma set_count_dict: "(x, n) \<in> set (count_dict xs) \<longleftrightarrow> x \<in> set xs \<and> n = count_list xs x"
  by (auto simp: count_dict_def)

lemma distinct_count_dict: "distinct (map fst (count_dict xs))"
  by (simp add: count_dict_def comp_def)

lemma sum_count_dict: "sum_list (map snd (count_dict xs)) = length xs"
proof -
  have "sum_list (map snd (count_dict xs)) = (\<Sum>x\<in>set (rev (remdups (rev xs))). count_list xs x)"
    by (simp add: count_dict_def comp_def sum_list_distinct_conv_sum_set)
  then show ?thesis
    by (simp add: sum_count_set)
qed

section \<open>JSON values\<close>

datatype json =
    JNull
  | JBool bool
  | JInt int
  | JFloat rat
  | JStr string
  | JArr "json list"
  | JObj "(string \<times> json) list"

type_synonym jobject = "(string \<times> json) list"

primrec py_canon :: "json \<Rightarrow> json" where
  "py_canon JNull = JNull"
| "py_canon (JBool b) = JFloat (if b then 1 else 0)"
| "py_canon (JInt i) = JFloat (of_int i)"
| "py_canon (JFloat r) = JFloat r"
| "py_canon (JStr s) = JStr s"
| "py_canon (JArr xs) = JArr (map py_canon xs)"
| "py_canon (JObj kvs) = JObj (sort_key fst (map (map_prod id py_canon) kvs))"

definition py_eq :: "json \<Rightarrow> json \<Rightarrow> bool" where
  "py_eq a b \<longleftrightarrow> py_canon a = py_canon b"

lemma py_eq_refl [simp]: "py_eq a a"
  by (simp add: py_eq_def)

lemma py_eq_sym: "py_eq a b \<Longrightarrow> py_eq b a"
  by (simp add: py_eq_def)

lemma py_eq_trans: "py_eq a b \<Longrightarrow> py_eq b c \<Longrightarrow> py_eq a c"
  by (simp add: py_eq_def)

text \<open>A set of Python values: of two equal elements the first stays.\<close>

fun py_set :: "json list \<Rightarrow> json list" where
  "py_set [] = []"
| "py_set (x # xs) = x # filter (\<lambda>y. \<not> py_eq x y) (py_set xs)"

lemma py_set_mem: "x \<in> set xs \<Longrightarrow> \<exists>y \<in> set (py_set xs). py_eq y x"
proof (induction xs)
  case (Cons a xs)
  show ?case
  proof (cases "py_eq a x")
    case False
    with Cons obtain y where "y \<in> set (py_set xs)" "py_eq y x" by auto
    moreover have "\<not> py_eq a y" using False \<open>py_eq y x\<close> py_eq_trans by blast
    ultimately show ?thesis by auto
  qed auto
qed simp

lemma py_set_subset: "set (py_set xs) \<subseteq> set xs"
  by (induction xs) auto

lemma py_set_Nil_iff: "py_set xs = [] \<longleftrightarrow> xs = []"
  by (cases xs) auto

text \<open>\<open>d.get(k)\<close> on a decoded object: a missing key and a null both give \<open>None\<close>.\<close>

definition jget :: "jobject \<Rightarrow> string \<Rightarrow> json" where
  "jget d k = (case map_of d k of None \<Rightarrow> JNull | Some v \<Rightarrow> v)"

text \<open>Python's truth value of a decoded JSON value, and an optional text as one.\<close>

fun truthy :: "json \<Rightarrow> bool" where
  "truthy JNull = False"
| "truthy (JBool b) = b"
| "truthy (JInt i) = (i \<noteq> 0)"
| "truthy (JFloat r) = (r \<noteq> 0)"
| "truthy (JStr s) = (s \<noteq> [])"
| "truthy (JArr xs) = (xs \<noteq> [])"
| "truthy (JObj d) = (d \<noteq> [])"

definition json_opt :: "string option \<Rightarrow> json" where
  "json_opt v = (case v of None \<Rightarrow> JNull | Some x \<Rightarrow> JStr x)"

text \<open>\<open>{**d, **e}\<close>: the keys of \<open>e\<close> replace those of \<open>d\<close> in place, new ones follow.\<close>

definition jmerge :: "jobject \<Rightarrow> jobject \<Rightarrow> jobject" where
  "jmerge d e =
     map (\<lambda>(k, v). (k, case map_of e k of None \<Rightarrow> v | Some w \<Rightarrow> w)) d @
     filter (\<lambda>(k, v). k \<notin> fst ` set d) e"

lemma map_of_jmerge: "map_of (jmerge d e) k = (case map_of e k of None \<Rightarrow> map_of d k | Some w \<Rightarrow> Some w)"
proof -
  have 1: "map_of (map (\<lambda>(k, v). (k, case map_of e k of None \<Rightarrow> v | Some w \<Rightarrow> w)) d) k =
      (case map_of d k of None \<Rightarrow> None | Some v \<Rightarrow> Some (case map_of e k of None \<Rightarrow> v | Some w \<Rightarrow> w))"
    by (induction d) (auto split: option.splits)
  have 2: "k \<notin> fst ` set d \<Longrightarrow> map_of (filter (\<lambda>(k, v). k \<notin> fst ` set d) e) k = map_of e k"
    by (induction e) (auto simp: image_iff split: if_splits)
  show ?thesis
  proof (cases "map_of d k")
    case None
    then have "k \<notin> fst ` set d" by (simp add: map_of_eq_None_iff)
    with None 1 2 show ?thesis
      by (auto simp: jmerge_def map_add_def split: option.splits)
  next
    case (Some v)
    then have "k \<in> fst ` set d" by (metis map_of_eq_None_iff option.distinct(1))
    then have "map_of (filter (\<lambda>(k, v). k \<notin> fst ` set d) e) k = None"
      by (fastforce simp: map_of_eq_None_iff image_iff)
    with Some 1 show ?thesis
      by (auto simp: jmerge_def map_add_def split: option.splits)
  qed
qed

end
