(* ===== verification/Policy_Model.thy ===== *)
theory Policy_Model
  imports Prelude
begin

text \<open>
  The policy graph's data and its lifecycle: \<open>packages/algorithm/policy_model.py\<close> (the frozen
  dataclasses and what their \<open>__post_init__\<close> refuses) and
  \<open>packages/algorithm/policy_lifecycle.py\<close> (the transition table). A constructor that can
  raise is a function into \<open>model_error + record\<close>.
\<close>

section \<open>Constants\<close>

definition NODE_TYPES :: "string list" where
  "NODE_TYPES = [''human'', ''rule'', ''gate'', ''data_quality'', ''ml'', ''hybrid'']"

definition ACTIVATABLE_NODE_TYPES :: "string list" where
  "ACTIVATABLE_NODE_TYPES = [''human'', ''rule'', ''gate'', ''data_quality'']"

definition LIFECYCLE_STATUSES :: "string list" where
  "LIFECYCLE_STATUSES =
     [''draft'', ''simulation'', ''business_review'', ''risk_review'', ''approved'', ''active'',
      ''retired'', ''rejected'', ''suspended'']"

definition IMMUTABLE_STATUSES :: "string list" where
  "IMMUTABLE_STATUSES = [''approved'', ''active'']"

section \<open>The dataclasses\<close>

record policy_graph =
  pg_name :: string
  pg_owner :: string
  pg_description :: "string option"

record policy_version =
  pv_graph_id :: int
  pv_version_number :: int
  pv_status :: string
  pv_created_by :: string
  pv_research_dossier_id :: "int option"

record policy_node =
  pn_version_id :: int
  node_key :: string
  node_type :: string
  title :: string
  purpose :: string
  owner :: string
  execution_mode :: string
  input_contract :: "(string \<times> string) list"
  output_contract :: "(string \<times> string) list"
  preconditions :: "string list"
  evidence_requirements :: "string list"
  reason_codes :: "string list"
  test_cases :: "json list"
  monitoring_metrics :: "string list"
  timeout_seconds :: "int option"
  retry_policy :: "jobject option"
  fallback_node_key :: "string option"
  required_role :: "string option"
  financial_impact :: bool
  legal_impact :: bool
  model_or_policy_dependency :: "string option"

record policy_edge =
  pe_version_id :: int
  from_node_key :: string
  to_node_key :: string
  condition_label :: "string option"

record policy_version_transition =
  pt_version_id :: int
  from_status :: string
  to_status :: string
  changed_by :: string
  reason :: "string option"

text \<open>The \<open>ValueError\<close>s of the constructors.\<close>

datatype model_error =
    UnknownLifecycleStatus string
  | VersionNumberBelowOne
  | UnknownNodeType string
  | NodeTypeNotActivatable string
  | EmptyNodeKey
  | EmptyTitle
  | EmptyOwner
  | EmptyEdgeEnd

definition mk_policy_version :: "policy_version \<Rightarrow> model_error + policy_version" where
  "mk_policy_version v =
     (if pv_status v \<notin> set LIFECYCLE_STATUSES then Inl (UnknownLifecycleStatus (pv_status v))
      else if pv_version_number v < 1 then Inl VersionNumberBelowOne
      else Inr v)"

definition mk_policy_node :: "policy_node \<Rightarrow> model_error + policy_node" where
  "mk_policy_node n =
     (if node_type n \<notin> set NODE_TYPES then Inl (UnknownNodeType (node_type n))
      else if node_type n \<notin> set ACTIVATABLE_NODE_TYPES then Inl (NodeTypeNotActivatable (node_type n))
      else if blank (node_key n) then Inl EmptyNodeKey
      else if blank (title n) then Inl EmptyTitle
      else if blank (owner n) then Inl EmptyOwner
      else Inr n)"

definition mk_policy_edge :: "policy_edge \<Rightarrow> model_error + policy_edge" where
  "mk_policy_edge e =
     (if blank (from_node_key e) \<or> blank (to_node_key e) then Inl EmptyEdgeEnd else Inr e)"

section \<open>The lifecycle table\<close>

definition ALLOWED_TRANSITIONS :: "(string \<times> string list) list" where
  "ALLOWED_TRANSITIONS =
     [(''draft'', [''simulation'']),
      (''simulation'', [''business_review'', ''rejected'']),
      (''business_review'', [''risk_review'', ''rejected'']),
      (''risk_review'', [''approved'', ''rejected'']),
      (''approved'', [''active'']),
      (''active'', [''retired'', ''suspended'']),
      (''suspended'', [''active'', ''retired'']),
      (''retired'', []),
      (''rejected'', [])]"

definition can_transition :: "string \<Rightarrow> string \<Rightarrow> bool" where
  "can_transition a b = (b \<in> set (case map_of ALLOWED_TRANSITIONS a of None \<Rightarrow> [] | Some ts \<Rightarrow> ts))"

lemmas model_consts = NODE_TYPES_def ACTIVATABLE_NODE_TYPES_def LIFECYCLE_STATUSES_def
  IMMUTABLE_STATUSES_def

text \<open>The table as a relation: one rule per arrow.\<close>

inductive lifecycle_step :: "string \<Rightarrow> string \<Rightarrow> bool" where
  simulate: "lifecycle_step ''draft'' ''simulation''"
| review: "lifecycle_step ''simulation'' ''business_review''"
| reject_sim: "lifecycle_step ''simulation'' ''rejected''"
| risk: "lifecycle_step ''business_review'' ''risk_review''"
| reject_business: "lifecycle_step ''business_review'' ''rejected''"
| approve: "lifecycle_step ''risk_review'' ''approved''"
| reject_risk: "lifecycle_step ''risk_review'' ''rejected''"
| activate: "lifecycle_step ''approved'' ''active''"
| retire: "lifecycle_step ''active'' ''retired''"
| suspend: "lifecycle_step ''active'' ''suspended''"
| reactivate: "lifecycle_step ''suspended'' ''active''"
| retire_suspended: "lifecycle_step ''suspended'' ''retired''"

inductive_simps lifecycle_step_iff: "lifecycle_step a b"
inductive_cases into_approved: "lifecycle_step a ''approved''"
inductive_cases into_active: "lifecycle_step a ''active''"
inductive_cases into_draft: "lifecycle_step a ''draft''"
inductive_cases from_retired: "lifecycle_step ''retired'' b"
inductive_cases from_rejected: "lifecycle_step ''rejected'' b"

lemma can_transition_iff: "can_transition a b \<longleftrightarrow> lifecycle_step a b"
  by (auto simp: can_transition_def ALLOWED_TRANSITIONS_def lifecycle_step_iff split: if_splits)

lemma lifecycle_step_statuses:
  "lifecycle_step a b \<Longrightarrow> a \<in> set LIFECYCLE_STATUSES \<and> b \<in> set LIFECYCLE_STATUSES"
  by (auto simp: lifecycle_step_iff LIFECYCLE_STATUSES_def)

lemma can_transition_to_active: "can_transition a ''active'' \<longleftrightarrow> a = ''approved'' \<or> a = ''suspended''"
  by (auto simp: can_transition_iff lifecycle_step_iff)

lemma can_transition_to_approved: "can_transition a ''approved'' \<longleftrightarrow> a = ''risk_review''"
  by (auto simp: can_transition_iff lifecycle_step_iff)

lemma can_transition_to_suspended: "can_transition a ''suspended'' \<longleftrightarrow> a = ''active''"
  by (auto simp: can_transition_iff lifecycle_step_iff)

lemma can_transition_status: "can_transition a b \<Longrightarrow> b \<in> set LIFECYCLE_STATUSES"
  by (simp add: can_transition_iff lifecycle_step_statuses)

lemma not_transition_refl: "\<not> can_transition a a"
  by (auto simp: can_transition_iff lifecycle_step_iff)

text \<open>A sequence of statuses each of which the table allows after the one before.\<close>

inductive lifecycle_path :: "string \<Rightarrow> string list \<Rightarrow> string \<Rightarrow> bool" where
  here: "lifecycle_path a [] a"
| onward: "lifecycle_step a b \<Longrightarrow> lifecycle_path b ss c \<Longrightarrow> lifecycle_path a (b # ss) c"

inductive_simps lifecycle_path_simps [simp]:
  "lifecycle_path a [] c"
  "lifecycle_path a (b # ss) c"

lemma lifecycle_path_snoc:
  "lifecycle_path a (ss @ [c]) d \<longleftrightarrow> d = c \<and> (\<exists>b. lifecycle_path a ss b \<and> lifecycle_step b c)"
  by (induction ss arbitrary: a) auto

text \<open>
  On the way from a draft to an activation there is an approval, and before it the three
  reviews in their order: the lifecycle has no shortcut.
\<close>

definition review_prefix :: "string \<Rightarrow> string list" where
  "review_prefix b =
     (if b = ''draft'' then [] else if b = ''simulation'' then [''simulation'']
      else if b = ''business_review'' then [''simulation'', ''business_review'']
      else [''simulation'', ''business_review'', ''risk_review''])"

lemma path_through_reviews:
  "lifecycle_path ''draft'' ss b \<Longrightarrow>
   b \<in> {''draft'', ''simulation'', ''business_review'', ''risk_review''} \<Longrightarrow> ss = review_prefix b"
proof (induction ss arbitrary: b rule: rev_induct)
  case Nil
  then show ?case by (simp add: review_prefix_def)
next
  case (snoc c ss)
  from snoc.prems(1) obtain a where a: "lifecycle_path ''draft'' ss a" "lifecycle_step a c" "b = c"
    by (auto simp: lifecycle_path_snoc)
  from a(2,3) snoc.prems(2)
  consider "a = ''draft''" "c = ''simulation''" | "a = ''simulation''" "c = ''business_review''"
    | "a = ''business_review''" "c = ''risk_review''"
    by (auto simp: lifecycle_step_iff)
  then show ?case
    using snoc.IH[OF a(1)] a(3) by cases (simp_all add: review_prefix_def)
qed

lemma approved_from_draft:
  "lifecycle_path ''draft'' ss b \<Longrightarrow> b \<in> {''approved'', ''active'', ''suspended'', ''retired''} \<Longrightarrow>
   \<exists>rest. ss = [''simulation'', ''business_review'', ''risk_review'', ''approved''] @ rest"
proof (induction ss arbitrary: b rule: rev_induct)
  case Nil
  then show ?case by auto
next
  case (snoc c ss)
  from snoc.prems(1) obtain a where a: "lifecycle_path ''draft'' ss a" "lifecycle_step a c" "b = c"
    by (auto simp: lifecycle_path_snoc)
  show ?case
  proof (cases "c = ''approved''")
    case True
    with a have "a = ''risk_review''" by (auto simp: lifecycle_step_iff)
    with path_through_reviews[OF a(1)] True show ?thesis by (simp add: review_prefix_def)
  next
    case False
    with a snoc.prems(2) have "a \<in> {''approved'', ''active'', ''suspended'', ''retired''}"
      by (auto simp: lifecycle_step_iff)
    from snoc.IH[OF a(1) this] show ?thesis by auto
  qed
qed

end
