(* ===== verification/Policy_Validator.thy ===== *)
theory Policy_Validator
  imports Policy_Model
begin

text \<open>
  The structural validator of \<open>packages/algorithm/policy_validator.py\<close>: dangling references,
  reachability from the start nodes, cycles without an exit (Tarjan's algorithm), contracts
  along edges, and the branch coverage of rule nodes.

  A dict of lists (\<open>out_adj\<close>) is an association list. The Python stacks (\<open>frontier\<close>, \<open>stack\<close>)
  are lists whose head is the end that \<open>append\<close> and \<open>pop\<close> work on. An issue keeps its code,
  the values its message interpolates (in order) and its node key. Exceptions the code does
  not catch (a missing key, an unhashable set element) are \<open>Inl\<close>.
\<close>

datatype py_exc = KeyError string | TypeError

record issue =
  code :: string
  message :: "string list"
  issue_node :: "string option"

definition mk_issue :: "string \<Rightarrow> string list \<Rightarrow> string option \<Rightarrow> issue" where
  "mk_issue c m k = \<lparr>code = c, message = m, issue_node = k\<rparr>"

lemma mk_issue_sel [simp]:
  "code (mk_issue c m k) = c" "message (mk_issue c m k) = m" "issue_node (mk_issue c m k) = k"
  by (simp_all add: mk_issue_def)

type_synonym adjacency = "(string \<times> string list) list"

section \<open>Definitions\<close>

subsection \<open>Dangling references\<close>

definition node_keys :: "policy_node list \<Rightarrow> string list" where
  "node_keys nodes = map node_key nodes"

definition dangling_edge :: "string list \<Rightarrow> policy_edge \<Rightarrow> issue list" where
  "dangling_edge ks e =
     (if from_node_key e \<notin> set ks
      then [mk_issue ''dangling_reference'' [from_node_key e] (Some (from_node_key e))] else []) @
     (if to_node_key e \<notin> set ks
      then [mk_issue ''dangling_reference'' [to_node_key e] (Some (to_node_key e))] else [])"

definition dangling_fallback :: "string list \<Rightarrow> policy_node \<Rightarrow> issue list" where
  "dangling_fallback ks n =
     (case fallback_node_key n of
        None \<Rightarrow> []
      | Some fb \<Rightarrow> if fb \<notin> set ks
          then [mk_issue ''dangling_reference'' [node_key n, fb] (Some (node_key n))] else [])"

definition dangling_reference_issues :: "policy_node list \<Rightarrow> policy_edge list \<Rightarrow> issue list" where
  "dangling_reference_issues nodes edges =
     (let ks = node_keys nodes
      in concat (map (dangling_edge ks) edges) @ concat (map (dangling_fallback ks) nodes))"

subsection \<open>Adjacency\<close>

definition adj_get :: "adjacency \<Rightarrow> string \<Rightarrow> string list" where
  "adj_get adj k = (case map_of adj k of None \<Rightarrow> [] | Some xs \<Rightarrow> xs)"

definition adj_append :: "adjacency \<Rightarrow> string \<Rightarrow> string \<Rightarrow> adjacency" where
  "adj_append adj k v = map (\<lambda>(j, xs). (j, if j = k then xs @ [v] else xs)) adj"

definition adj_edge :: "adjacency \<times> adjacency \<Rightarrow> string \<times> string \<Rightarrow> adjacency \<times> adjacency" where
  "adj_edge = (\<lambda>(out, inc) (a, b). (adj_append out a b, adj_append inc b a))"

definition fallback_edges :: "policy_node list \<Rightarrow> (string \<times> string) list" where
  "fallback_edges nodes =
     concat (map (\<lambda>n. case fallback_node_key n of
        None \<Rightarrow> [] | Some fb \<Rightarrow> if fb \<in> set (node_keys nodes) then [(node_key n, fb)] else []) nodes)"

definition build_adjacency :: "policy_node list \<Rightarrow> policy_edge list \<Rightarrow> adjacency \<times> adjacency" where
  "build_adjacency nodes clean_edges =
     (let empty = map (\<lambda>k. (k, [])) (remdups (node_keys nodes));
          drawn = map (\<lambda>e. (from_node_key e, to_node_key e)) clean_edges
      in foldl adj_edge (empty, empty) (drawn @ fallback_edges nodes))"

subsection \<open>Reachability\<close>

fun push_unseen :: "string list \<Rightarrow> string list \<Rightarrow> string list \<Rightarrow> string list \<times> string list" where
  "push_unseen [] seen frontier = (seen, frontier)"
| "push_unseen (x # xs) seen frontier =
     (if x \<in> set seen then push_unseen xs seen frontier
      else push_unseen xs (x # seen) (x # frontier))"

definition adj_targets :: "adjacency \<Rightarrow> string set" where
  "adj_targets adj = set (concat (map snd adj))"

lemma finite_adj_targets [simp]: "finite (adj_targets adj)"
  by (simp add: adj_targets_def)

lemma adj_get_targets: "set (adj_get adj k) \<subseteq> adj_targets adj"
proof (cases "map_of adj k")
  case None
  then show ?thesis by (simp add: adj_get_def)
next
  case (Some xs)
  then have "(k, xs) \<in> set adj" by (rule map_of_SomeD)
  with Some show ?thesis by (force simp: adj_get_def adj_targets_def)
qed

lemma push_unseen_measure:
  assumes "push_unseen xs seen frontier = (seen', frontier')" and "set xs \<subseteq> U" and "finite U"
  shows "card (U - set seen') + length frontier' = card (U - set seen) + length frontier"
  using assms
proof (induction xs seen frontier arbitrary: seen' frontier' rule: push_unseen.induct)
  case (1 seen frontier)
  then show ?case by simp
next
  case (2 x xs seen frontier)
  show ?case
  proof (cases "x \<in> set seen")
    case True
    with 2 show ?thesis by simp
  next
    case False
    with "2.prems" have x: "x \<in> U - set seen" by simp
    then have "card (U - set seen) = Suc (card (U - set seen - {x}))"
      using \<open>finite U\<close> by (metis card_Suc_Diff1 finite_Diff)
    moreover have "U - set (x # seen) = U - set seen - {x}" by auto
    ultimately show ?thesis
      using "2.IH"(2)[OF False] "2.prems" False by simp
  qed
qed

function reach_loop :: "adjacency \<Rightarrow> string list \<Rightarrow> string list \<Rightarrow> string list" where
  "reach_loop adj seen [] = seen"
| "reach_loop adj seen (current # frontier) =
     (let (seen', frontier') = push_unseen (adj_get adj current) seen frontier
      in reach_loop adj seen' frontier')"
  by pat_completeness auto
termination
proof (relation "measure (\<lambda>(adj, seen, frontier). card (adj_targets adj - set seen) + length frontier)")
  show "wf (measure (\<lambda>(adj, seen, frontier). card (adj_targets adj - set seen) + length frontier))"
    by simp
next
  fix adj seen current frontier x xa y
  assume "x = push_unseen (adj_get adj current) seen frontier" "(xa, y) = x"
  then have "push_unseen (adj_get adj current) seen frontier = (xa, y)" by simp
  from push_unseen_measure[OF this adj_get_targets finite_adj_targets]
  show "((adj, xa, y), adj, seen, current # frontier)
        \<in> measure (\<lambda>(adj, seen, frontier). card (adj_targets adj - set seen) + length frontier)"
    by simp
qed

definition reachability_issues ::
  "policy_node list \<Rightarrow> adjacency \<Rightarrow> adjacency \<Rightarrow> issue list" where
  "reachability_issues nodes out_adj incoming_adj =
     (let ks = remdups (node_keys nodes)
      in if ks = [] then [mk_issue ''empty_graph'' [] None]
         else if length ks = 1 then []
         else
           let islands = filter (\<lambda>k. adj_get incoming_adj k = [] \<and> adj_get out_adj k = []) ks;
               issues = map (\<lambda>k. mk_issue ''unreachable_node'' [k] (Some k)) (sorted_set islands);
               start_nodes = filter (\<lambda>k. k \<notin> set islands \<and> adj_get incoming_adj k = []) ks
           in if start_nodes = [] then issues @ [mk_issue ''no_start_node'' [] None]
              else
                let seen = reach_loop out_adj start_nodes (rev start_nodes);
                    lost = filter (\<lambda>k. k \<notin> set seen \<and> k \<notin> set islands) ks;
                    terminals = filter (\<lambda>k. adj_get out_adj k = []) ks
                in issues @
                   map (\<lambda>k. mk_issue ''unreachable_node'' [k] (Some k)) (sorted_set lost) @
                   (if filter (\<lambda>k. k \<in> set seen) terminals = []
                    then [mk_issue ''no_reachable_terminal'' [] None] else []))"

subsection \<open>Tarjan's strongly connected components\<close>

record tarjan =
  counter :: nat
  stack :: "string list"
  lowlink :: "string \<rightharpoonup> nat"
  index :: "string \<rightharpoonup> nat"
  on_stack :: "string \<Rightarrow> bool"
  components :: "string list list"

definition tarjan_init :: tarjan where
  "tarjan_init = \<lparr>counter = 0, stack = [], lowlink = Map.empty, index = Map.empty,
     on_stack = (\<lambda>_. False), components = []\<rparr>"

definition tarjan_enter :: "string \<Rightarrow> tarjan \<Rightarrow> tarjan" where
  "tarjan_enter v s =
     s\<lparr>index := (index s)(v \<mapsto> counter s), lowlink := (lowlink s)(v \<mapsto> counter s),
       counter := Suc (counter s), stack := v # stack s, on_stack := (on_stack s)(v := True)\<rparr>"

definition lower :: "string \<Rightarrow> nat \<Rightarrow> tarjan \<Rightarrow> tarjan" where
  "lower v n s = s\<lparr>lowlink := (lowlink s)(v \<mapsto> min (the (lowlink s v)) n)\<rparr>"

fun pop_until :: "string \<Rightarrow> string list \<Rightarrow> string list \<times> string list" where
  "pop_until v [] = ([], [])"
| "pop_until v (w # ws) =
     (if w = v then ([w], ws) else let (c, rest) = pop_until v ws in (w # c, rest))"

definition tarjan_leave :: "string \<Rightarrow> tarjan \<Rightarrow> tarjan" where
  "tarjan_leave v s =
     (if lowlink s v = index s v
      then let (component, rest) = pop_until v (stack s)
           in s\<lparr>stack := rest, on_stack := (\<lambda>w. if w \<in> set component then False else on_stack s w),
                components := components s @ [component]\<rparr>
      else s)"

fun strongconnect :: "nat \<Rightarrow> adjacency \<Rightarrow> string \<Rightarrow> tarjan \<Rightarrow> tarjan option"
and connect_succs :: "nat \<Rightarrow> adjacency \<Rightarrow> string \<Rightarrow> string list \<Rightarrow> tarjan \<Rightarrow> tarjan option" where
  "strongconnect 0 adj v s = None"
| "strongconnect (Suc fuel) adj v s =
     (case connect_succs fuel adj v (adj_get adj v) (tarjan_enter v s) of
        None \<Rightarrow> None | Some s' \<Rightarrow> Some (tarjan_leave v s'))"
| "connect_succs fuel adj v [] s = Some s"
| "connect_succs fuel adj v (w # ws) s =
     (if index s w = None
      then (case strongconnect fuel adj w s of
              None \<Rightarrow> None
            | Some s' \<Rightarrow> connect_succs fuel adj v ws (lower v (the (lowlink s' w)) s'))
      else if on_stack s w then connect_succs fuel adj v ws (lower v (the (index s w)) s)
      else connect_succs fuel adj v ws s)"

fun tarjan_roots :: "nat \<Rightarrow> adjacency \<Rightarrow> string list \<Rightarrow> tarjan \<Rightarrow> tarjan option" where
  "tarjan_roots fuel adj [] s = Some s"
| "tarjan_roots fuel adj (v # vs) s =
     (if index s v = None
      then (case strongconnect fuel adj v s of
              None \<Rightarrow> None | Some s' \<Rightarrow> tarjan_roots fuel adj vs s')
      else tarjan_roots fuel adj vs s)"

definition tarjan_sccs :: "string list \<Rightarrow> adjacency \<Rightarrow> string list list option" where
  "tarjan_sccs ks adj =
     map_option components (tarjan_roots (Suc (card (set ks \<union> adj_targets adj))) adj (sorted_set ks) tarjan_init)"

subsection \<open>Cycles\<close>

definition is_human :: "policy_node \<Rightarrow> bool" where
  "is_human n \<longleftrightarrow> node_type n = ''human''"

text \<open>\<open>isinstance(max_attempts, int) and max_attempts > 0\<close>: a JSON \<open>true\<close> is an \<open>int\<close> too.\<close>

definition positive_int :: "json \<Rightarrow> bool" where
  "positive_int j = (case j of JInt i \<Rightarrow> i > 0 | JBool b \<Rightarrow> b | _ \<Rightarrow> False)"

definition bounded_retry_exit :: "string list \<Rightarrow> policy_node \<Rightarrow> bool" where
  "bounded_retry_exit cs n =
     (case retry_policy n of
        None \<Rightarrow> False
      | Some rp \<Rightarrow> positive_int (jget rp ''max_attempts'') \<and>
          (case fallback_node_key n of None \<Rightarrow> False | Some fb \<Rightarrow> fb \<notin> set cs))"

fun has_exit :: "(string \<rightharpoonup> policy_node) \<Rightarrow> string list \<Rightarrow> string list \<Rightarrow> py_exc + bool" where
  "has_exit node_by_key cs [] = Inr False"
| "has_exit node_by_key cs (k # ks) =
     (case node_by_key k of
        None \<Rightarrow> Inl (KeyError k)
      | Some n \<Rightarrow> if is_human n \<or> bounded_retry_exit cs n then Inr True
                  else has_exit node_by_key cs ks)"

definition is_cycle :: "adjacency \<Rightarrow> string list \<Rightarrow> bool" where
  "is_cycle adj cs = (length cs > 1 \<or> hd cs \<in> set (adj_get adj (hd cs)))"

fun join_comma :: "string list \<Rightarrow> string" where
  "join_comma [] = []"
| "join_comma [x] = x"
| "join_comma (x # y # ys) = x @ '','' @ join_comma (y # ys)"

fun cycle_issues_of :: "(string \<rightharpoonup> policy_node) \<Rightarrow> adjacency \<Rightarrow> string list list \<Rightarrow> py_exc + issue list" where
  "cycle_issues_of node_by_key adj [] = Inr []"
| "cycle_issues_of node_by_key adj (cs # css) =
     (if \<not> is_cycle adj cs then cycle_issues_of node_by_key adj css
      else case has_exit node_by_key cs cs of
        Inl e \<Rightarrow> Inl e
      | Inr ok \<Rightarrow>
          (case cycle_issues_of node_by_key adj css of
             Inl e \<Rightarrow> Inl e
           | Inr iss \<Rightarrow>
               Inr (if ok then iss
                    else mk_issue ''unbounded_cycle_no_exit'' (sort cs) (Some (join_comma (sort cs))) # iss)))"

definition nodes_by_key :: "policy_node list \<Rightarrow> string \<rightharpoonup> policy_node" where
  "nodes_by_key nodes = dict_of (map (\<lambda>n. (node_key n, n)) nodes)"

text \<open>
  \<open>strongconnect\<close> runs with as much fuel as there are nodes, plus one: \<open>tarjan_total\<close> below
  shows that it never runs out.
\<close>

definition cycle_issues :: "policy_node list \<Rightarrow> adjacency \<Rightarrow> py_exc + issue list" where
  "cycle_issues nodes out_adj =
     (case tarjan_sccs (node_keys nodes) out_adj of
        None \<Rightarrow> Inl TypeError
      | Some comps \<Rightarrow> cycle_issues_of (nodes_by_key nodes) out_adj comps)"

subsection \<open>Contracts along edges\<close>

definition io_mismatch :: "(string \<rightharpoonup> policy_node) \<Rightarrow> policy_edge \<Rightarrow> py_exc + issue list" where
  "io_mismatch node_by_key e =
     (case node_by_key (from_node_key e) of
        None \<Rightarrow> Inl (KeyError (from_node_key e))
      | Some a \<Rightarrow>
          (case node_by_key (to_node_key e) of
             None \<Rightarrow> Inl (KeyError (to_node_key e))
           | Some b \<Rightarrow>
               let shared = sorted_set (filter (\<lambda>k. k \<in> set (map fst (input_contract b)))
                                          (map fst (output_contract a)));
                   bad = filter (\<lambda>k. map_of (output_contract a) k \<noteq> map_of (input_contract b) k) shared
               in Inr (map (\<lambda>k. mk_issue ''io_type_mismatch''
                    [from_node_key e, to_node_key e, k, the (map_of (output_contract a) k),
                     the (map_of (input_contract b) k)] (Some (from_node_key e))) bad)))"

fun io_type_mismatch_issues_of :: "(string \<rightharpoonup> policy_node) \<Rightarrow> policy_edge list \<Rightarrow> py_exc + issue list" where
  "io_type_mismatch_issues_of node_by_key [] = Inr []"
| "io_type_mismatch_issues_of node_by_key (e # es) =
     (case io_mismatch node_by_key e of
        Inl x \<Rightarrow> Inl x
      | Inr is1 \<Rightarrow>
          (case io_type_mismatch_issues_of node_by_key es of
             Inl x \<Rightarrow> Inl x | Inr is2 \<Rightarrow> Inr (is1 @ is2)))"

definition io_type_mismatch_issues :: "policy_node list \<Rightarrow> policy_edge list \<Rightarrow> py_exc + issue list" where
  "io_type_mismatch_issues nodes clean_edges = io_type_mismatch_issues_of (nodes_by_key nodes) clean_edges"

subsection \<open>The structural verdict\<close>

definition clean_edges :: "policy_node list \<Rightarrow> policy_edge list \<Rightarrow> policy_edge list" where
  "clean_edges nodes edges =
     filter (\<lambda>e. from_node_key e \<in> set (node_keys nodes) \<and> to_node_key e \<in> set (node_keys nodes)) edges"

definition validate_graph_structure :: "policy_node list \<Rightarrow> policy_edge list \<Rightarrow> py_exc + issue list" where
  "validate_graph_structure nodes edges =
     (let dangling = dangling_reference_issues nodes edges;
          clean = clean_edges nodes edges;
          (out_adj, incoming_adj) = build_adjacency nodes clean;
          unreachable = reachability_issues nodes out_adj incoming_adj
      in case cycle_issues nodes out_adj of
           Inl x \<Rightarrow> Inl x
         | Inr cycles \<Rightarrow>
             (case io_type_mismatch_issues nodes clean of
                Inl x \<Rightarrow> Inl x
              | Inr io \<Rightarrow> Inr (dangling @ unreachable @ cycles @ io)))"

subsection \<open>Branch coverage\<close>

fun hashable :: "json \<Rightarrow> bool" where
  "hashable (JArr xs) = False"
| "hashable (JObj kvs) = False"
| "hashable _ = True"

text \<open>The \<open>covers_condition\<close> of the entries that are objects.\<close>

definition covers_conditions :: "json list \<Rightarrow> json list" where
  "covers_conditions tcs =
     concat (map (\<lambda>tc. case tc of JObj d \<Rightarrow> [jget d ''covers_condition''] | _ \<Rightarrow> []) tcs)"

definition outgoing_edges :: "policy_edge list \<Rightarrow> string \<Rightarrow> policy_edge list" where
  "outgoing_edges edges k = filter (\<lambda>e. from_node_key e = k) edges"

definition branch_labels :: "policy_edge list \<Rightarrow> string list" where
  "branch_labels es =
     concat (map (\<lambda>e. case condition_label e of None \<Rightarrow> [] | Some l \<Rightarrow> if l = [] then [] else [l]) es)"

definition node_coverage :: "policy_edge list \<Rightarrow> policy_node \<Rightarrow> py_exc + issue list" where
  "node_coverage edges n =
     (let outgoing = outgoing_edges edges (node_key n)
      in if node_type n \<noteq> ''rule'' \<or> outgoing = [] then Inr []
         else if test_cases n = []
           then Inr [mk_issue ''no_test_cases'' [node_key n] (Some (node_key n))]
         else let covered = covers_conditions (test_cases n)
              in if \<not> list_all hashable covered then Inl TypeError
                 else Inr (map (\<lambda>l. mk_issue ''uncovered_branch'' [node_key n, l] (Some (node_key n)))
                        (sorted_set (filter (\<lambda>l. JStr l \<notin> set covered) (branch_labels outgoing)))))"

fun check_branch_coverage :: "policy_node list \<Rightarrow> policy_edge list \<Rightarrow> py_exc + issue list" where
  "check_branch_coverage [] edges = Inr []"
| "check_branch_coverage (n # ns) edges =
     (case node_coverage edges n of
        Inl x \<Rightarrow> Inl x
      | Inr is1 \<Rightarrow>
          (case check_branch_coverage ns edges of
             Inl x \<Rightarrow> Inl x | Inr is2 \<Rightarrow> Inr (is1 @ is2)))"

definition validate_graph :: "policy_node list \<Rightarrow> policy_edge list \<Rightarrow> py_exc + issue list" where
  "validate_graph nodes edges =
     (case validate_graph_structure nodes edges of
        Inl x \<Rightarrow> Inl x
      | Inr is1 \<Rightarrow>
          (case check_branch_coverage nodes edges of
             Inl x \<Rightarrow> Inl x | Inr is2 \<Rightarrow> Inr (is1 @ is2)))"

section \<open>The graph behind the adjacency\<close>

text \<open>
  \<open>edge_rel adj\<close> is the edge relation of an adjacency; \<open>graph_rel nodes edges\<close> is the shape of
  the policy graph itself: the drawn edges between known nodes, and the fallbacks.
\<close>

definition edge_rel :: "adjacency \<Rightarrow> (string \<times> string) set" where
  "edge_rel adj = {(a, b). b \<in> set (adj_get adj a)}"

definition graph_rel :: "policy_node list \<Rightarrow> policy_edge list \<Rightarrow> (string \<times> string) set" where
  "graph_rel nodes edges =
     {(from_node_key e, to_node_key e) |e. e \<in> set (clean_edges nodes edges)} \<union>
     {(node_key n, fb) |n fb. n \<in> set nodes \<and> fallback_node_key n = Some fb \<and> fb \<in> set (node_keys nodes)}"

definition graph_out :: "policy_node list \<Rightarrow> policy_edge list \<Rightarrow> adjacency" where
  "graph_out nodes edges = fst (build_adjacency nodes (clean_edges nodes edges))"

definition graph_in :: "policy_node list \<Rightarrow> policy_edge list \<Rightarrow> adjacency" where
  "graph_in nodes edges = snd (build_adjacency nodes (clean_edges nodes edges))"

lemma adj_get_append:
  "adj_get (adj_append adj k v) j = (if j = k \<and> k \<in> fst ` set adj then adj_get adj j @ [v] else adj_get adj j)"
proof -
  have "map_of (adj_append adj k v) j =
      map_option (\<lambda>xs. if j = k then xs @ [v] else xs) (map_of adj j)"
    by (induction adj) (auto simp: adj_append_def)
  moreover have "k \<in> fst ` set adj \<longleftrightarrow> map_of adj k \<noteq> None"
    by (metis map_of_eq_None_iff)
  ultimately show ?thesis
    by (cases "map_of adj j") (auto simp: adj_get_def)
qed

lemma fst_adj_append [simp]: "map fst (adj_append adj k v) = map fst adj"
  by (induction adj) (auto simp: adj_append_def)

lemma keys_adj_append [simp]: "fst ` set (adj_append adj k v) = fst ` set adj"
  by (metis fst_adj_append list.set_map)

lemma foldl_adj_edge:
  assumes "foldl adj_edge (out, inc) es = (out', inc')"
    and "fst ` set out = K" "fst ` set inc = K" "\<forall>(a, b) \<in> set es. a \<in> K \<and> b \<in> K"
  shows "(\<forall>a b. b \<in> set (adj_get out' a) \<longleftrightarrow> b \<in> set (adj_get out a) \<or> (a, b) \<in> set es) \<and>
         (\<forall>a b. b \<in> set (adj_get inc' a) \<longleftrightarrow> b \<in> set (adj_get inc a) \<or> (b, a) \<in> set es)"
  using assms
proof (induction es arbitrary: out inc)
  case Nil
  then show ?case by auto
next
  case (Cons e es)
  obtain a b where e: "e = (a, b)" by (cases e)
  from Cons.prems(1) have f: "foldl adj_edge (adj_append out a b, adj_append inc b a) es = (out', inc')"
    by (simp add: e adj_edge_def)
  from Cons.prems(4) have k: "a \<in> K" "b \<in> K" "\<forall>(a, b) \<in> set es. a \<in> K \<and> b \<in> K"
    by (auto simp: e)
  have ih: "(\<forall>a' b'. b' \<in> set (adj_get out' a') \<longleftrightarrow> b' \<in> set (adj_get (adj_append out a b) a') \<or> (a', b') \<in> set es) \<and>
      (\<forall>a' b'. b' \<in> set (adj_get inc' a') \<longleftrightarrow> b' \<in> set (adj_get (adj_append inc b a) a') \<or> (b', a') \<in> set es)"
    by (rule Cons.IH[OF f]) (use Cons.prems(2,3) k in auto)
  show ?case
    unfolding ih[THEN conjunct1, rule_format] ih[THEN conjunct2, rule_format] adj_get_append
    using k Cons.prems(2,3) by (auto simp: e)
qed

lemma adj_get_empty [simp]: "adj_get (map (\<lambda>k. (k, [])) ks) k = []"
  by (induction ks) (auto simp: adj_get_def)

lemma set_fallback_edges:
  "(a, b) \<in> set (fallback_edges nodes) \<longleftrightarrow>
   (\<exists>n \<in> set nodes. node_key n = a \<and> fallback_node_key n = Some b \<and> b \<in> set (node_keys nodes))"
  by (force simp: fallback_edges_def split: option.splits if_splits)

lemma in_graph_rel:
  "(a, b) \<in> graph_rel nodes edges \<longleftrightarrow>
   (a, b) \<in> (\<lambda>e. (from_node_key e, to_node_key e)) ` set (clean_edges nodes edges) \<or>
   (a, b) \<in> set (fallback_edges nodes)"
  by (auto simp: graph_rel_def set_fallback_edges)

lemma graph_rel_list:
  "graph_rel nodes edges =
   set (map (\<lambda>e. (from_node_key e, to_node_key e)) (clean_edges nodes edges) @ fallback_edges nodes)"
  by (auto simp: in_graph_rel)

lemma graph_rel_keys:
  "(a, b) \<in> graph_rel nodes edges \<Longrightarrow> a \<in> set (node_keys nodes) \<and> b \<in> set (node_keys nodes)"
  by (auto simp: graph_rel_def clean_edges_def node_keys_def)

lemma graph_adjacency:
  "b \<in> set (adj_get (graph_out nodes edges) a) \<longleftrightarrow> (a, b) \<in> graph_rel nodes edges"
  "b \<in> set (adj_get (graph_in nodes edges) a) \<longleftrightarrow> (b, a) \<in> graph_rel nodes edges"
proof -
  let ?empty = "map (\<lambda>k. (k, [] :: string list)) (remdups (node_keys nodes))"
  let ?es = "map (\<lambda>e. (from_node_key e, to_node_key e)) (clean_edges nodes edges) @ fallback_edges nodes"
  have f: "foldl adj_edge (?empty, ?empty) ?es = (graph_out nodes edges, graph_in nodes edges)"
    by (simp add: graph_out_def graph_in_def build_adjacency_def Let_def)
  have es: "(x, y) \<in> set ?es \<longleftrightarrow> (x, y) \<in> graph_rel nodes edges" for x y
    by (auto simp: in_graph_rel)
  have k: "\<forall>(a, b) \<in> set ?es. a \<in> set (node_keys nodes) \<and> b \<in> set (node_keys nodes)"
    using graph_rel_keys es by blast
  have d: "fst ` set ?empty = set (node_keys nodes)"
    by (simp add: image_image)
  show "b \<in> set (adj_get (graph_out nodes edges) a) \<longleftrightarrow> (a, b) \<in> graph_rel nodes edges"
    "b \<in> set (adj_get (graph_in nodes edges) a) \<longleftrightarrow> (b, a) \<in> graph_rel nodes edges"
    using foldl_adj_edge[OF f d d k] es by simp_all
qed

lemma edge_rel_graph_out: "edge_rel (graph_out nodes edges) = graph_rel nodes edges"
  by (auto simp: edge_rel_def graph_adjacency)

lemma adj_get_graph_Nil:
  "adj_get (graph_out nodes edges) a = [] \<longleftrightarrow> a \<notin> Domain (graph_rel nodes edges)"
  "adj_get (graph_in nodes edges) a = [] \<longleftrightarrow> a \<notin> Range (graph_rel nodes edges)"
  by (metis Domain_iff graph_adjacency(1) list.set_intros(1) neq_Nil_conv set_empty empty_iff,
      metis Range_iff graph_adjacency(2) list.set_intros(1) neq_Nil_conv set_empty empty_iff)

section \<open>The search finds exactly the reachable nodes\<close>

lemma push_unseen_props:
  assumes "push_unseen xs seen frontier = (seen', frontier')"
  shows "set seen' = set seen \<union> set xs" "set frontier' = set frontier \<union> (set xs - set seen)"
  using assms by (induction xs seen frontier rule: push_unseen.induct) (auto split: if_splits)

lemma reach_loop_reachable:
  assumes "set frontier \<subseteq> set seen"
    and "\<forall>x \<in> set seen - set frontier. set (adj_get adj x) \<subseteq> set seen"
  shows "set (reach_loop adj seen frontier) = (edge_rel adj)\<^sup>* `` set seen"
  using assms
proof (induction adj seen frontier rule: reach_loop.induct)
  case (1 adj seen)
  then have "edge_rel adj `` set seen \<subseteq> set seen"
    by (auto simp: edge_rel_def)
  then have "(edge_rel adj)\<^sup>* `` set seen = set seen"
    by (metis Image_closed_trancl)
  then show ?case by simp
next
  case (2 adj seen current frontier)
  obtain seen' frontier' where p: "push_unseen (adj_get adj current) seen frontier = (seen', frontier')"
    by fastforce
  note q = push_unseen_props[OF p]
  have "set frontier' \<subseteq> set seen'"
    using q "2.prems"(1) by auto
  moreover have "\<forall>x \<in> set seen' - set frontier'. set (adj_get adj x) \<subseteq> set seen'"
    using q "2.prems"(2) by auto
  ultimately have "set (reach_loop adj seen' frontier') = (edge_rel adj)\<^sup>* `` set seen'"
    using "2.IH"[OF p[symmetric] refl] by blast
  moreover have "(edge_rel adj)\<^sup>* `` set seen' = (edge_rel adj)\<^sup>* `` set seen"
  proof -
    have "current \<in> set seen" using "2.prems"(1) by simp
    then have "set (adj_get adj current) \<subseteq> (edge_rel adj)\<^sup>* `` set seen"
      by (auto simp: edge_rel_def)
    then have "set seen' \<subseteq> (edge_rel adj)\<^sup>* `` set seen"
      using q(1) by auto
    then have "(edge_rel adj)\<^sup>* `` set seen' \<subseteq> (edge_rel adj)\<^sup>* `` set seen"
      by (auto intro: rtrancl_trans)
    moreover have "set seen \<subseteq> set seen'" using q(1) by auto
    ultimately show ?thesis by auto
  qed
  ultimately show ?case by (simp add: p)
qed

end
