(* ===== verification/Decimals.thy ===== *)
theory Decimals
  imports Prelude
begin

text \<open>
  Python's \<open>decimal.Decimal\<close> as the code uses it: finite numbers (sign, coefficient, exponent)
  under the default context, 28 digits and round-half-even. The limits on the exponent and
  the special values (NaN, infinities) are left out: no amount in the program comes near
  them. The definitions follow the arithmetic of the standard library (\<open>_fix\<close>, \<open>__add__\<close>,
  \<open>__mul__\<close>, \<open>__truediv__\<close>, \<open>__str__\<close>).
\<close>

datatype dec = Dec (neg: bool) (coeff: nat) (expt: int)

abbreviation prec :: nat where
  "prec \<equiv> 28"

definition digits :: "nat \<Rightarrow> nat" where
  "digits n = length (nat_digits n)"

definition signed :: "dec \<Rightarrow> int" where
  "signed d = (if neg d then - int (coeff d) else int (coeff d))"

definition dec_val :: "dec \<Rightarrow> rat" where
  "dec_val d = of_int (signed d) * 10 powi expt d"

section \<open>Rounding\<close>

definition half_even :: "nat \<Rightarrow> nat \<Rightarrow> nat" where
  "half_even n m =
     (let q = n div m; r = n mod m
      in if 2 * r < m \<or> (2 * r = m \<and> even q) then q else q + 1)"

definition fix_dec :: "dec \<Rightarrow> dec" where
  "fix_dec d =
     (let k = digits (coeff d) - prec
      in if k = 0 then d
         else let c = half_even (coeff d) (10 ^ k)
              in if digits c > prec then Dec (neg d) (c div 10) (expt d + int k + 1)
                 else Dec (neg d) c (expt d + int k))"

section \<open>Arithmetic\<close>

definition scaled :: "int \<Rightarrow> dec \<Rightarrow> int" where
  "scaled e d = signed d * 10 ^ nat (expt d - e)"

definition of_signed :: "bool \<Rightarrow> int \<Rightarrow> int \<Rightarrow> dec" where
  "of_signed zero_neg n e = (if n = 0 then Dec zero_neg 0 e else Dec (n < 0) (nat \<bar>n\<bar>) e)"

definition dec_add :: "dec \<Rightarrow> dec \<Rightarrow> dec" where
  "dec_add a b =
     (let e = min (expt a) (expt b)
      in fix_dec (of_signed (neg a \<and> neg b) (scaled e a + scaled e b) e))"

definition dec_neg :: "dec \<Rightarrow> dec" where
  "dec_neg d = Dec (\<not> neg d) (coeff d) (expt d)"

definition dec_sub :: "dec \<Rightarrow> dec \<Rightarrow> dec" where
  "dec_sub a b = dec_add a (dec_neg b)"

definition dec_mul :: "dec \<Rightarrow> dec \<Rightarrow> dec" where
  "dec_mul a b = fix_dec (Dec (neg a \<noteq> neg b) (coeff a * coeff b) (expt a + expt b))"

fun to_ideal :: "nat \<Rightarrow> nat \<Rightarrow> int \<Rightarrow> int \<Rightarrow> nat \<times> int" where
  "to_ideal 0 c e ideal = (c, e)"
| "to_ideal (Suc n) c e ideal =
     (if e < ideal \<and> c mod 10 = 0 then to_ideal n (c div 10) (e + 1) ideal else (c, e))"

text \<open>\<open>None\<close> is the \<open>DivisionByZero\<close> or \<open>InvalidOperation\<close> of a zero divisor.\<close>

definition dec_div :: "dec \<Rightarrow> dec \<Rightarrow> dec option" where
  "dec_div a b =
     (if coeff b = 0 then None
      else
        let s = (neg a \<noteq> neg b); ideal = expt a - expt b
        in if coeff a = 0 then Some (fix_dec (Dec s 0 ideal))
           else
             let shift = int (digits (coeff b)) - int (digits (coeff a)) + int prec + 1;
                 e = ideal - shift;
                 n = (if shift \<ge> 0 then coeff a * 10 ^ nat shift else coeff a);
                 m = (if shift \<ge> 0 then coeff b else coeff b * 10 ^ nat (- shift));
                 q = n div m
             in if n mod m \<noteq> 0 then Some (fix_dec (Dec s (if q mod 5 = 0 then q + 1 else q) e))
                else let (c, e') = to_ideal (nat (ideal - e)) q e ideal
                     in Some (fix_dec (Dec s c e')))"

definition dec_le :: "dec \<Rightarrow> dec \<Rightarrow> bool" where
  "dec_le a b \<longleftrightarrow> (let e = min (expt a) (expt b) in scaled e a \<le> scaled e b)"

definition dec_less :: "dec \<Rightarrow> dec \<Rightarrow> bool" where
  "dec_less a b \<longleftrightarrow> (let e = min (expt a) (expt b) in scaled e a < scaled e b)"

definition dec_eq :: "dec \<Rightarrow> dec \<Rightarrow> bool" where
  "dec_eq a b \<longleftrightarrow> (let e = min (expt a) (expt b) in scaled e a = scaled e b)"

definition dec_of_int :: "int \<Rightarrow> dec" where
  "dec_of_int n = Dec (n < 0) (nat \<bar>n\<bar>) 0"

abbreviation dec_zero :: dec where
  "dec_zero \<equiv> Dec False 0 0"

section \<open>\<open>str\<close>\<close>

definition dec_str :: "dec \<Rightarrow> string" where
  "dec_str d =
     (let ds = nat_digits (coeff d); len = int (length ds); left = expt d + len;
          dot = (if expt d \<le> 0 \<and> left > - 6 then left else 1);
          int_part = (if dot \<le> 0 then ''0''
                      else if dot \<ge> len then ds @ replicate (nat (dot - len)) (CHR ''0'')
                      else take (nat dot) ds);
          frac_part = (if dot \<le> 0 then ''.'' @ replicate (nat (- dot)) (CHR ''0'') @ ds
                       else if dot \<ge> len then '''' else ''.'' @ drop (nat dot) ds);
          ex = (if left = dot then ''''
                else ''E'' @ (if left - dot \<ge> 0 then ''+'' else '''') @ str_int (left - dot))
      in (if neg d then ''-'' else '''') @ int_part @ frac_part @ ex)"

section \<open>The order is that of the values\<close>

lemma scaled_val:
  assumes "e \<le> expt d"
  shows "of_int (scaled e d) * 10 powi e = dec_val d"
proof -
  have "10 powi expt d = (10::rat) ^ nat (expt d - e) * 10 powi e"
    using assms by (simp add: power_int_add[symmetric] flip: power_int_of_nat)
  then show ?thesis by (simp add: scaled_def dec_val_def)
qed

lemma dec_order:
  "dec_le a b \<longleftrightarrow> dec_val a \<le> dec_val b" "dec_less a b \<longleftrightarrow> dec_val a < dec_val b"
  "dec_eq a b \<longleftrightarrow> dec_val a = dec_val b"
proof -
  let ?e = "min (expt a) (expt b)"
  have p: "(0::rat) < 10 powi ?e" by simp
  have "dec_val a = of_int (scaled ?e a) * 10 powi ?e" "dec_val b = of_int (scaled ?e b) * 10 powi ?e"
    by (simp_all add: scaled_val)
  then show "dec_le a b \<longleftrightarrow> dec_val a \<le> dec_val b" "dec_less a b \<longleftrightarrow> dec_val a < dec_val b"
    "dec_eq a b \<longleftrightarrow> dec_val a = dec_val b"
    using p by (simp_all add: dec_le_def dec_less_def dec_eq_def Let_def del: min_def)
qed

section \<open>Exact results\<close>

text \<open>Within 28 digits nothing is rounded.\<close>

lemma fix_dec_exact: "digits (coeff d) \<le> prec \<Longrightarrow> fix_dec d = d"
  by (simp add: fix_dec_def)

lemma dec_val_of_signed: "dec_val (of_signed z n e) = of_int n * 10 powi e"
  by (auto simp: of_signed_def dec_val_def signed_def)

lemma dec_add_exact:
  assumes "let e = min (expt a) (expt b) in digits (nat \<bar>scaled e a + scaled e b\<bar>) \<le> prec"
  shows "dec_val (dec_add a b) = dec_val a + dec_val b"
proof -
  let ?e = "min (expt a) (expt b)"
  have "fix_dec (of_signed z (scaled ?e a + scaled ?e b) ?e) = of_signed z (scaled ?e a + scaled ?e b) ?e" for z
    using assms by (intro fix_dec_exact) (auto simp: of_signed_def Let_def)
  moreover have "dec_val a = of_int (scaled ?e a) * 10 powi ?e" "dec_val b = of_int (scaled ?e b) * 10 powi ?e"
    by (simp_all add: scaled_val)
  ultimately show ?thesis
    by (simp add: dec_add_def Let_def dec_val_of_signed distrib_right)
qed

lemma dec_mul_exact:
  assumes "digits (coeff a * coeff b) \<le> prec"
  shows "dec_val (dec_mul a b) = dec_val a * dec_val b"
  using assms
  by (simp add: dec_mul_def fix_dec_exact dec_val_def signed_def power_int_add)

end
