(* ===== verification/Simulation.thy ===== *)
theory Simulation
  imports Policy_Validator Decimals
begin

text \<open>
  The replay engine of \<open>packages/algorithm/simulation_engine.py\<close>: a case walks through the
  graph, and at a branch the human-written test cases (or a recorded human decision) say
  which edge it takes. The loop of \<open>run_case\<close> is bounded in the code itself (\<open>step_cap\<close>).

  The exceptions the code lets escape are values of \<open>sim_error\<close>: the \<open>ValueError\<close> about the
  start nodes, the \<open>KeyError\<close> for an edge that leads to an unknown node, and the \<open>TypeError\<close> for
  a \<open>covers_condition\<close> that cannot be an element of a set.
\<close>

datatype sim_error = StartNodes nat | UnknownNode string | UnhashableCondition

record simulation_case =
  case_id :: string
  inputs :: jobject
  human_overrides :: "(string \<times> string) list"
  case_amount :: "dec option"
  case_currency :: "string option"
  case_outcome :: "string option"

record case_trace =
  trace_case_id :: string
  trace_status :: string
  path :: "string list"
  terminal_node_key :: "string option"
  trace_reason_codes :: "string list"
  undetermined_reason :: "string option"
  final_state :: jobject
  trace_amount :: "dec option"
  trace_currency :: "string option"
  trace_outcome :: "string option"

record version_comparison =
  cmp_case_id :: string
  terminal_a :: "string option"
  terminal_b :: "string option"
  reason_codes_a :: "string list"
  reason_codes_b :: "string list"
  agrees :: bool

section \<open>Definitions\<close>

definition build_out_adjacency :: "policy_node list \<Rightarrow> policy_edge list \<Rightarrow> string \<rightharpoonup> policy_edge list" where
  "build_out_adjacency nodes edges k =
     (if k \<in> set (node_keys nodes) \<or> outgoing_edges edges k \<noteq> []
      then Some (outgoing_edges edges k) else None)"

definition incoming_count :: "policy_node list \<Rightarrow> policy_edge list \<Rightarrow> string \<Rightarrow> nat" where
  "incoming_count nodes edges k =
     length (filter (\<lambda>e. to_node_key e = k) edges) +
     length (filter (\<lambda>n. fallback_node_key n = Some k) nodes)"

definition find_start_node :: "policy_node list \<Rightarrow> policy_edge list \<Rightarrow> sim_error + string" where
  "find_start_node nodes edges =
     (let starts = filter (\<lambda>k. incoming_count nodes edges k = 0) (remdups (node_keys nodes))
      in case starts of [k] \<Rightarrow> Inr k | _ \<Rightarrow> Inl (StartNodes (length starts)))"

definition input_matches :: "jobject \<Rightarrow> jobject \<Rightarrow> bool" where
  "input_matches tc_input state =
     list_all (\<lambda>(k, v). case map_of state k of None \<Rightarrow> False | Some w \<Rightarrow> py_eq w v) tc_input"

definition matching_test_cases :: "policy_node \<Rightarrow> jobject \<Rightarrow> jobject list" where
  "matching_test_cases node state =
     concat (map (\<lambda>tc. case tc of
        JObj d \<Rightarrow> (case jget d ''input'' of JObj i \<Rightarrow> if input_matches i state then [d] else [] | _ \<Rightarrow> [])
      | _ \<Rightarrow> []) (test_cases node))"

definition edge_label :: "policy_edge \<Rightarrow> json" where
  "edge_label e = (case condition_label e of None \<Rightarrow> JNull | Some l \<Rightarrow> JStr l)"

type_synonym choice = "policy_edge option \<times> string option \<times> json"

definition select_next_edge ::
  "policy_node \<Rightarrow> policy_edge list \<Rightarrow> jobject \<Rightarrow> (string \<times> string) list \<Rightarrow> sim_error + choice" where
  "select_next_edge node outgoing state overrides =
     (let matches = matching_test_cases node state
      in if length outgoing = 1 \<and> condition_label (hd outgoing) = None
         then Inr (Some (hd outgoing), None,
           (case matches of [tc] \<Rightarrow> jget tc ''expected_output'' | _ \<Rightarrow> JNull))
         else if is_human node \<and> map_of overrides (node_key node) \<noteq> None
         then (case filter (\<lambda>e. condition_label e = map_of overrides (node_key node)) outgoing of
                 [] \<Rightarrow> Inr (None, Some ''human_override_no_matching_edge'', JNull)
               | e # _ \<Rightarrow> Inr (Some e, None, JNull))
         else if \<not> list_all (\<lambda>tc. hashable (jget tc ''covers_condition'')) matches
         then Inl UnhashableCondition
         else (case py_set (map (\<lambda>tc. jget tc ''covers_condition'') matches) of
                 [] \<Rightarrow> if is_human node then Inr (None, Some ''awaiting_human'', JNull)
                       else Inr (None, Some ''no_matching_test_case'', JNull)
               | [label] \<Rightarrow>
                   (case filter (\<lambda>e. py_eq (edge_label e) label) outgoing of
                      [] \<Rightarrow> Inr (None, Some ''test_case_covers_unknown_edge'', JNull)
                    | e # _ \<Rightarrow>
                        Inr (Some e, None,
                          jget (hd (filter (\<lambda>tc. py_eq (jget tc ''covers_condition'') label) matches))
                            ''expected_output''))
               | _ \<Rightarrow> Inr (None, Some ''ambiguous_test_cases'', JNull)))"

definition merge_output :: "jobject \<Rightarrow> json \<Rightarrow> jobject" where
  "merge_output state out = (case out of JObj d \<Rightarrow> jmerge state d | _ \<Rightarrow> state)"

definition mk_trace ::
  "simulation_case \<Rightarrow> string \<Rightarrow> string list \<Rightarrow> string option \<Rightarrow> string list \<Rightarrow> string option \<Rightarrow> jobject \<Rightarrow> case_trace" where
  "mk_trace c st p term rcs why state =
     \<lparr>trace_case_id = case_id c, trace_status = st, path = p, terminal_node_key = term,
      trace_reason_codes = rcs, undetermined_reason = why, final_state = state,
      trace_amount = case_amount c, trace_currency = case_currency c, trace_outcome = case_outcome c\<rparr>"

fun run_steps ::
  "nat \<Rightarrow> (string \<rightharpoonup> policy_node) \<Rightarrow> (string \<rightharpoonup> policy_edge list) \<Rightarrow> simulation_case \<Rightarrow>
   string \<Rightarrow> jobject \<Rightarrow> string list \<Rightarrow> sim_error + case_trace" where
  "run_steps 0 node_by_key out_adj c current state p =
     Inr (mk_trace c ''undetermined'' p None [] (Some ''step_limit_exceeded'') state)"
| "run_steps (Suc n) node_by_key out_adj c current state p =
     (case node_by_key current of
        None \<Rightarrow> Inl (UnknownNode current)
      | Some node \<Rightarrow>
          (case (case out_adj current of None \<Rightarrow> [] | Some es \<Rightarrow> es) of
             [] \<Rightarrow> Inr (mk_trace c ''completed'' p (Some current) (reason_codes node) None state)
           | e # es \<Rightarrow>
               (case select_next_edge node (e # es) state (human_overrides c) of
                  Inl x \<Rightarrow> Inl x
                | Inr (None, why, out) \<Rightarrow>
                    Inr (mk_trace c (if why = Some ''awaiting_human'' then ''awaiting_human'' else ''undetermined'')
                      p None [] why state)
                | Inr (Some f, why, out) \<Rightarrow>
                    run_steps n node_by_key out_adj c (to_node_key f) (merge_output state out)
                      (p @ [to_node_key f]))))"

definition step_cap :: "policy_node list \<Rightarrow> nat" where
  "step_cap nodes = max (length nodes * 2) 1"

definition run_case :: "policy_node list \<Rightarrow> policy_edge list \<Rightarrow> simulation_case \<Rightarrow> sim_error + case_trace" where
  "run_case nodes edges c =
     (case find_start_node nodes edges of
        Inl x \<Rightarrow> Inl x
      | Inr s \<Rightarrow> run_steps (step_cap nodes) (nodes_by_key nodes) (build_out_adjacency nodes edges) c s (inputs c) [s])"

fun run_simulation ::
  "policy_node list \<Rightarrow> policy_edge list \<Rightarrow> simulation_case list \<Rightarrow> sim_error + case_trace list" where
  "run_simulation nodes edges [] = Inr []"
| "run_simulation nodes edges (c # cs) =
     (case run_case nodes edges c of
        Inl x \<Rightarrow> Inl x
      | Inr t \<Rightarrow> (case run_simulation nodes edges cs of Inl x \<Rightarrow> Inl x | Inr ts \<Rightarrow> Inr (t # ts)))"

definition traces_by_case :: "case_trace list \<Rightarrow> string \<rightharpoonup> case_trace" where
  "traces_by_case ts = dict_of (map (\<lambda>t. (trace_case_id t, t)) ts)"

definition compare_case :: "(string \<rightharpoonup> case_trace) \<Rightarrow> (string \<rightharpoonup> case_trace) \<Rightarrow> simulation_case \<Rightarrow> version_comparison" where
  "compare_case a b c =
     (let ta = the (a (case_id c)); tb = the (b (case_id c))
      in \<lparr>cmp_case_id = case_id c, terminal_a = terminal_node_key ta, terminal_b = terminal_node_key tb,
          reason_codes_a = trace_reason_codes ta, reason_codes_b = trace_reason_codes tb,
          agrees = (terminal_node_key ta = terminal_node_key tb \<and>
                    trace_reason_codes ta = trace_reason_codes tb)\<rparr>)"

definition compare_versions ::
  "policy_node list \<Rightarrow> policy_edge list \<Rightarrow> policy_node list \<Rightarrow> policy_edge list \<Rightarrow> simulation_case list \<Rightarrow>
   sim_error + version_comparison list" where
  "compare_versions nodes_a edges_a nodes_b edges_b cases =
     (case run_simulation nodes_a edges_a cases of
        Inl x \<Rightarrow> Inl x
      | Inr ta \<Rightarrow>
          (case run_simulation nodes_b edges_b cases of
             Inl x \<Rightarrow> Inl x
           | Inr tb \<Rightarrow> Inr (map (compare_case (traces_by_case ta) (traces_by_case tb)) cases)))"

section \<open>What a step may do\<close>

text \<open>
  The relation \<open>sim_step\<close> says which moves a person could justify from the graph and the case:
  the only edge if it carries no condition, the edge a recorded human decision names, or the
  edge named by the test cases that match the state, if they all name the same one.
\<close>

definition sole_edge :: "policy_edge list \<Rightarrow> bool" where
  "sole_edge es \<longleftrightarrow> length es = 1 \<and> condition_label (hd es) = None"

inductive sim_step ::
  "(string \<rightharpoonup> policy_node) \<Rightarrow> policy_edge list \<Rightarrow> (string \<times> string) list \<Rightarrow> string \<times> jobject \<Rightarrow> string \<times> jobject \<Rightarrow> bool"
  for by_key edges overrides where
  only_edge:
    "by_key k = Some node \<Longrightarrow> outgoing_edges edges k = [e] \<Longrightarrow> condition_label e = None \<Longrightarrow>
     st' = (case matching_test_cases node st of [tc] \<Rightarrow> merge_output st (jget tc ''expected_output'') | _ \<Rightarrow> st) \<Longrightarrow>
     sim_step by_key edges overrides (k, st) (to_node_key e, st')"
| decided:
    "by_key k = Some node \<Longrightarrow> \<not> sole_edge (outgoing_edges edges k) \<Longrightarrow>
     is_human node \<Longrightarrow> map_of overrides (node_key node) = Some l \<Longrightarrow>
     e \<in> set (outgoing_edges edges k) \<Longrightarrow> condition_label e = Some l \<Longrightarrow>
     sim_step by_key edges overrides (k, st) (to_node_key e, st)"
| replayed:
    "by_key k = Some node \<Longrightarrow> \<not> sole_edge (outgoing_edges edges k) \<Longrightarrow>
     \<not> (is_human node \<and> map_of overrides (node_key node) \<noteq> None) \<Longrightarrow> tc \<in> set (matching_test_cases node st) \<Longrightarrow>
     (\<forall>d \<in> set (matching_test_cases node st). py_eq (jget d ''covers_condition'') (edge_label e)) \<Longrightarrow>
     e \<in> set (outgoing_edges edges k) \<Longrightarrow> st' = merge_output st (jget tc ''expected_output'') \<Longrightarrow>
     sim_step by_key edges overrides (k, st) (to_node_key e, st')"

inductive sim_walk ::
  "(string \<rightharpoonup> policy_node) \<Rightarrow> policy_edge list \<Rightarrow> (string \<times> string) list \<Rightarrow>
   string \<times> jobject \<Rightarrow> string list \<Rightarrow> string \<times> jobject \<Rightarrow> bool"
  for by_key edges overrides where
  arrived: "sim_walk by_key edges overrides (k, st) [k] (k, st)"
| moved: "sim_step by_key edges overrides (k, st) (k', st') \<Longrightarrow>
    sim_walk by_key edges overrides (k', st') p z \<Longrightarrow>
    sim_walk by_key edges overrides (k, st) (k # p) z"

lemma py_set_single:
  assumes "py_set xs = [l]"
  shows "l \<in> set xs" "x \<in> set xs \<Longrightarrow> py_eq x l"
  using py_set_subset[of xs] py_set_mem[of x xs] assms by (auto intro: py_eq_sym)

lemma select_next_edge_step:
  assumes node: "by_key k = Some node" and og: "outgoing = outgoing_edges edges k"
    and sel: "select_next_edge node outgoing st ov = Inr (Some e, why, out)"
  shows "sim_step by_key edges ov (k, st) (to_node_key e, merge_output st out)" "e \<in> set outgoing"
proof -
  let ?ms = "matching_test_cases node st"
  consider (only) "length outgoing = 1" "condition_label (hd outgoing) = None"
    | (human) l where "\<not> (length outgoing = 1 \<and> condition_label (hd outgoing) = None)"
        "is_human node" "map_of ov (node_key node) = Some l"
    | (replay) "\<not> (length outgoing = 1 \<and> condition_label (hd outgoing) = None)"
        "\<not> (is_human node \<and> map_of ov (node_key node) \<noteq> None)"
    by fastforce
  then have "sim_step by_key edges ov (k, st) (to_node_key e, merge_output st out) \<and> e \<in> set outgoing"
  proof cases
    case only
    then obtain f where f: "outgoing = [f]" by (auto simp: length_Suc_conv)
    with sel only have e: "e = f"
      and out: "out = (case ?ms of [tc] \<Rightarrow> jget tc ''expected_output'' | _ \<Rightarrow> JNull)"
      by (auto simp: select_next_edge_def Let_def)
    have "merge_output st out = (case ?ms of [tc] \<Rightarrow> merge_output st (jget tc ''expected_output'') | _ \<Rightarrow> st)"
      by (simp add: out merge_output_def split: list.split)
    moreover have "outgoing_edges edges k = [f]" "condition_label f = None" using f og only(2) by auto
    ultimately have "sim_step by_key edges ov (k, st) (to_node_key f, merge_output st out)"
      using node by (intro sim_step.only_edge[where node = node and e = f])
    with f e show ?thesis by simp
  next
    case human
    have "(case filter (\<lambda>e. condition_label e = Some l) outgoing of
        [] \<Rightarrow> Inr (None, Some ''human_override_no_matching_edge'', JNull)
      | e # _ \<Rightarrow> Inr (Some e, None, JNull)) = (Inr (Some e, why, out) :: sim_error + choice)"
      using sel human(2,3) unfolding select_next_edge_def Let_def if_not_P[OF human(1)] by simp
    then have "e \<in> set (filter (\<lambda>e. condition_label e = Some l) outgoing)" "out = JNull"
      by (cases "filter (\<lambda>e. condition_label e = Some l) outgoing"; auto)+
    moreover from this have "sim_step by_key edges ov (k, st) (to_node_key e, st)"
      using human node og by (intro sim_step.decided[where node = node and l = l]) (auto simp: sole_edge_def)
    ultimately show ?thesis by (simp add: merge_output_def)
  next
    case replay
    let ?ls = "py_set (map (\<lambda>tc. jget tc ''covers_condition'') ?ms)"
    note sel' = sel[unfolded select_next_edge_def Let_def if_not_P[OF replay(1)] if_not_P[OF replay(2)]]
    then have r: "(case ?ls of
          [] \<Rightarrow> if is_human node then Inr (None, Some ''awaiting_human'', JNull)
                else Inr (None, Some ''no_matching_test_case'', JNull)
        | [label] \<Rightarrow>
            (case filter (\<lambda>e. py_eq (edge_label e) label) outgoing of
               [] \<Rightarrow> Inr (None, Some ''test_case_covers_unknown_edge'', JNull)
             | e # _ \<Rightarrow> Inr (Some e, None,
                 jget (hd (filter (\<lambda>tc. py_eq (jget tc ''covers_condition'') label) ?ms)) ''expected_output''))
        | _ \<Rightarrow> Inr (None, Some ''ambiguous_test_cases'', JNull)) = (Inr (Some e, why, out) :: sim_error + choice)"
      by (simp split: if_split_asm)
    then obtain l where l: "?ls = [l]" by (auto split: list.splits if_splits)
    from r l have e: "e \<in> set (filter (\<lambda>e. py_eq (edge_label e) l) outgoing)"
      and out: "out = jget (hd (filter (\<lambda>tc. py_eq (jget tc ''covers_condition'') l) ?ms)) ''expected_output''"
      by (cases "filter (\<lambda>e. py_eq (edge_label e) l) outgoing"; auto)+
    have all: "\<forall>d \<in> set ?ms. py_eq (jget d ''covers_condition'') l" and ne: "?ms \<noteq> []"
      using py_set_single[OF l] by auto
    then have "filter (\<lambda>tc. py_eq (jget tc ''covers_condition'') l) ?ms = ?ms" by (simp add: filter_id_conv)
    with out ne have "out = jget (hd ?ms) ''expected_output''" "hd ?ms \<in> set ?ms" by auto
    moreover have "\<forall>d \<in> set ?ms. py_eq (jget d ''covers_condition'') (edge_label e)"
      using all e by (auto intro: py_eq_trans py_eq_sym)
    ultimately have "sim_step by_key edges ov (k, st) (to_node_key e, merge_output st out)"
      using e og node replay by (intro sim_step.replayed[where node = node and tc = "hd ?ms"]) (auto simp: sole_edge_def)
    with e show ?thesis by simp
  qed
  then show "sim_step by_key edges ov (k, st) (to_node_key e, merge_output st out)" "e \<in> set outgoing" by auto
qed

definition undetermined_reasons :: "string list" where
  "undetermined_reasons = [''human_override_no_matching_edge'', ''no_matching_test_case'',
     ''ambiguous_test_cases'', ''test_case_covers_unknown_edge'']"

lemma select_next_edge_stuck:
  assumes node: "by_key k = Some node" and og: "outgoing = outgoing_edges edges k"
    and sel: "select_next_edge node outgoing st ov = Inr (None, why, out)"
  shows "\<not> sim_step by_key edges ov (k, st) z"
    "why = Some ''awaiting_human'' \<and> is_human node \<or> why \<in> Some ` set undetermined_reasons"
proof -
  let ?ms = "matching_test_cases node st"
  have c1: "\<not> (length outgoing = 1 \<and> condition_label (hd outgoing) = None)"
  proof
    assume c: "length outgoing = 1 \<and> condition_label (hd outgoing) = None"
    from sel[unfolded select_next_edge_def Let_def if_P[OF c]] show False by simp
  qed
  note sel1 = sel[unfolded select_next_edge_def Let_def if_not_P[OF c1]]
  show "why = Some ''awaiting_human'' \<and> is_human node \<or> why \<in> Some ` set undetermined_reasons"
    using sel1 by (auto simp: undetermined_reasons_def split: if_splits list.splits)
  show "\<not> sim_step by_key edges ov (k, st) z"
  proof
    assume "sim_step by_key edges ov (k, st) z"
    then show False
    proof (cases rule: sim_step.cases)
      case (only_edge n e st')
      with c1 og show ?thesis by simp
    next
      case (decided n l e)
      with node have "n = node" by simp
      with decided sel1 og show ?thesis by (auto simp: filter_empty_conv split: list.splits)
    next
      case (replayed n tc e st')
      with node have n: "n = node" by simp
      have eq: "py_eq (jget d ''covers_condition'') (edge_label e)" if "d \<in> set ?ms" for d
        using replayed n that by blast
      let ?ls = "py_set (map (\<lambda>tc. jget tc ''covers_condition'') ?ms)"
      have "?ms \<noteq> []" using replayed n by auto
      then obtain x rest where ls: "?ls = x # rest" by (cases ?ms) auto
      have sub: "y \<in> set ?ls \<Longrightarrow> py_eq y (edge_label e)" for y
        using py_set_subset[of "map (\<lambda>tc. jget tc ''covers_condition'') ?ms"] eq by auto
      have one: "?ls = [x]"
      proof (cases "map (\<lambda>tc. jget tc ''covers_condition'') ?ms")
        case (Cons a as)
        then have "?ls = a # filter (\<lambda>y. \<not> py_eq a y) (py_set as)" by simp
        moreover from this sub have "\<forall>y \<in> set (filter (\<lambda>y. \<not> py_eq a y) (py_set as)). py_eq a y"
          by (metis list.set_intros(1,2) py_eq_sym py_eq_trans)
        then have "filter (\<lambda>y. \<not> py_eq a y) (py_set as) = []" by (auto simp: filter_empty_conv)
        ultimately show ?thesis using ls by simp
      qed (use ls in simp)
      have "py_eq (edge_label e) x" using sub[of x] one py_eq_sym by simp
      then have "filter (\<lambda>e. py_eq (edge_label e) x) outgoing \<noteq> []"
        using replayed og by (auto simp: filter_empty_conv)
      with sel1 one n replayed show ?thesis
        by (auto split: if_splits list.splits)
    qed
  qed
qed

section \<open>What a run returns\<close>

text \<open>
  \<open>stopped\<close> says why a run ended where it ended: at a node without outgoing edges, at a node
  from which no move is justified, or because the step limit was used up.
\<close>

inductive stopped ::
  "(string \<rightharpoonup> policy_node) \<Rightarrow> policy_edge list \<Rightarrow> (string \<times> string) list \<Rightarrow> nat \<Rightarrow> nat \<Rightarrow>
   string \<times> jobject \<Rightarrow> case_trace \<Rightarrow> bool"
  for by_key edges overrides where
  at_terminal:
    "by_key k = Some node \<Longrightarrow> outgoing_edges edges k = [] \<Longrightarrow> trace_status tr = ''completed'' \<Longrightarrow>
     terminal_node_key tr = Some k \<Longrightarrow> trace_reason_codes tr = reason_codes node \<Longrightarrow>
     undetermined_reason tr = None \<Longrightarrow> final_state tr = st \<Longrightarrow>
     stopped by_key edges overrides moves limit (k, st) tr"
| waiting:
    "by_key k = Some node \<Longrightarrow> is_human node \<Longrightarrow> outgoing_edges edges k \<noteq> [] \<Longrightarrow>
     (\<And>z. \<not> sim_step by_key edges overrides (k, st) z) \<Longrightarrow>
     trace_status tr = ''awaiting_human'' \<Longrightarrow> terminal_node_key tr = None \<Longrightarrow> trace_reason_codes tr = [] \<Longrightarrow>
     undetermined_reason tr = Some ''awaiting_human'' \<Longrightarrow> final_state tr = st \<Longrightarrow>
     stopped by_key edges overrides moves limit (k, st) tr"
| no_move:
    "by_key k = Some node \<Longrightarrow> outgoing_edges edges k \<noteq> [] \<Longrightarrow>
     (\<And>z. \<not> sim_step by_key edges overrides (k, st) z) \<Longrightarrow>
     trace_status tr = ''undetermined'' \<Longrightarrow> terminal_node_key tr = None \<Longrightarrow> trace_reason_codes tr = [] \<Longrightarrow>
     undetermined_reason tr \<in> Some ` set undetermined_reasons \<Longrightarrow> final_state tr = st \<Longrightarrow>
     stopped by_key edges overrides moves limit (k, st) tr"
| out_of_steps:
    "moves = limit \<Longrightarrow> trace_status tr = ''undetermined'' \<Longrightarrow> terminal_node_key tr = None \<Longrightarrow>
     trace_reason_codes tr = [] \<Longrightarrow> undetermined_reason tr = Some ''step_limit_exceeded'' \<Longrightarrow>
     final_state tr = st \<Longrightarrow> stopped by_key edges overrides moves limit (k, st) tr"

lemma out_adj_get:
  "(case build_out_adjacency nodes edges k of None \<Rightarrow> [] | Some es \<Rightarrow> es) = outgoing_edges edges k"
  by (simp add: build_out_adjacency_def)

lemma mk_trace_sel [simp]:
  "trace_case_id (mk_trace c st p term rcs why state) = case_id c"
  "trace_status (mk_trace c st p term rcs why state) = st" "path (mk_trace c st p term rcs why state) = p"
  "terminal_node_key (mk_trace c st p term rcs why state) = term"
  "trace_reason_codes (mk_trace c st p term rcs why state) = rcs"
  "undetermined_reason (mk_trace c st p term rcs why state) = why"
  "final_state (mk_trace c st p term rcs why state) = state"
  "trace_amount (mk_trace c st p term rcs why state) = case_amount c"
  "trace_currency (mk_trace c st p term rcs why state) = case_currency c"
  "trace_outcome (mk_trace c st p term rcs why state) = case_outcome c"
  by (simp_all add: mk_trace_def)

lemma run_steps_sound:
  assumes "run_steps n by_key (build_out_adjacency nodes edges) c k st p = Inr tr"
  shows "\<exists>q z. path tr = p @ q \<and> sim_walk by_key edges (human_overrides c) (k, st) (k # q) z \<and> length q \<le> n \<and>
     stopped by_key edges (human_overrides c) (length q) n z tr"
  using assms
proof (induction n arbitrary: k st p)
  case 0
  then have "tr = mk_trace c ''undetermined'' p None [] (Some ''step_limit_exceeded'') st" by simp
  then have "stopped by_key edges (human_overrides c) 0 0 (k, st) tr" by (intro stopped.out_of_steps) simp_all
  with 0 show ?case by (intro exI[of _ "[]"] exI[of _ "(k, st)"]) (auto simp: sim_walk.arrived)
next
  case (Suc n)
  from Suc.prems obtain node where node: "by_key k = Some node" by (auto split: option.splits)
  show ?case
  proof (cases "outgoing_edges edges k")
    case Nil
    with Suc.prems node have tr: "tr = mk_trace c ''completed'' p (Some k) (reason_codes node) None st"
      by (simp add: out_adj_get)
    then have "stopped by_key edges (human_overrides c) 0 (Suc n) (k, st) tr"
      using node Nil by (intro stopped.at_terminal) simp_all
    with tr show ?thesis by (intro exI[of _ "[]"] exI[of _ "(k, st)"]) (simp add: sim_walk.arrived)
  next
    case (Cons e es)
    obtain ch where ch: "select_next_edge node (e # es) st (human_overrides c) = Inr ch"
      using Suc.prems node Cons by (auto simp: out_adj_get split: sum.splits)
    obtain oe why out where ch3: "ch = (oe, why, out)" by (cases ch)
    show ?thesis
    proof (cases oe)
      case None
      with Suc.prems node Cons ch ch3 have tr: "tr = mk_trace c (if why = Some ''awaiting_human'' then
          ''awaiting_human'' else ''undetermined'') p None [] why st"
        by (simp add: out_adj_get)
      note stuck = select_next_edge_stuck[where by_key = by_key and k = k and edges = edges and node = node,
          OF node Cons[symmetric] ch[unfolded ch3 None]]
      have "stopped by_key edges (human_overrides c) 0 (Suc n) (k, st) tr"
      proof (cases "why = Some ''awaiting_human''")
        case True
        then show ?thesis using tr node Cons stuck
          by (intro stopped.waiting[where node = node]) (auto simp: undetermined_reasons_def)
      next
        case False
        then show ?thesis using tr node Cons stuck
          by (intro stopped.no_move[where node = node]) auto
      qed
      with tr show ?thesis by (intro exI[of _ "[]"] exI[of _ "(k, st)"]) (simp add: sim_walk.arrived)
    next
      case (Some f)
      have step: "sim_step by_key edges (human_overrides c) (k, st) (to_node_key f, merge_output st out)"
        using select_next_edge_step(1)[where by_key = by_key and k = k and edges = edges and node = node,
          OF node Cons[symmetric] ch[unfolded ch3 Some]] .
      from Suc.prems node Cons ch ch3 Some
      have "run_steps n by_key (build_out_adjacency nodes edges) c (to_node_key f) (merge_output st out)
          (p @ [to_node_key f]) = Inr tr"
        by (simp add: out_adj_get)
      from Suc.IH[OF this] obtain q z where q: "path tr = (p @ [to_node_key f]) @ q"
        "sim_walk by_key edges (human_overrides c) (to_node_key f, merge_output st out) (to_node_key f # q) z"
        "length q \<le> n" "stopped by_key edges (human_overrides c) (length q) n z tr" by blast
      have "stopped by_key edges (human_overrides c) (length (to_node_key f # q)) (Suc n) z tr"
        using q(4) by (cases rule: stopped.cases) (auto intro: stopped.intros)
      with q(1-3) sim_walk.moved[OF step q(2)] show ?thesis
        by (intro exI[of _ "to_node_key f # q"] exI[of _ z]) simp
    qed
  qed
qed

lemma run_case_sound:
  assumes "run_case nodes edges c = Inr tr"
  obtains s z where "find_start_node nodes edges = Inr s"
    "sim_walk (nodes_by_key nodes) edges (human_overrides c) (s, inputs c) (path tr) z"
    "length (path tr) \<le> Suc (step_cap nodes)"
    "stopped (nodes_by_key nodes) edges (human_overrides c) (length (path tr) - 1) (step_cap nodes) z tr"
proof -
  from assms obtain s where s: "find_start_node nodes edges = Inr s" "run_steps (step_cap nodes) (nodes_by_key nodes)
      (build_out_adjacency nodes edges) c s (inputs c) [s] = Inr tr"
    by (auto simp: run_case_def split: sum.splits)
  from run_steps_sound[OF s(2)] obtain q z where "path tr = [s] @ q"
    "sim_walk (nodes_by_key nodes) edges (human_overrides c) (s, inputs c) (s # q) z" "length q \<le> step_cap nodes"
    "stopped (nodes_by_key nodes) edges (human_overrides c) (length q) (step_cap nodes) z tr" by blast
  with s(1) show thesis by (intro that[of s z]) simp_all
qed

section \<open>The step limit is never the reason on an acyclic graph\<close>

lemma dom_by_key: "nodes_by_key nodes k = Some n \<Longrightarrow> k \<in> set (node_keys nodes)"
  unfolding nodes_by_key_def node_keys_def by (force dest: dict_of_Some)

lemma sim_step_edge:
  assumes "sim_step (nodes_by_key nodes) edges ov (k, st) (k', st')"
  shows "k \<in> set (node_keys nodes)" "k' \<in> set (node_keys nodes) \<Longrightarrow> (k, k') \<in> graph_rel nodes edges"
proof -
  from assms obtain e where e: "e \<in> set (outgoing_edges edges k)" "k' = to_node_key e"
    and k: "k \<in> set (node_keys nodes)"
    by (cases rule: sim_step.cases) (auto dest: dom_by_key)
  show "k \<in> set (node_keys nodes)" by (rule k)
  assume "k' \<in> set (node_keys nodes)"
  with e k show "(k, k') \<in> graph_rel nodes edges"
    by (auto simp: graph_rel_def clean_edges_def outgoing_edges_def)
qed

lemma sim_walk_distinct:
  assumes "sim_walk (nodes_by_key nodes) edges ov a p z" and acyc: "acyclic (graph_rel nodes edges)"
  shows "p \<noteq> [] \<and> hd p = fst a \<and> set (butlast p) \<subseteq> set (node_keys nodes) \<and> distinct (butlast p) \<and>
    (\<forall>x \<in> set (butlast p). (hd p, x) \<in> (graph_rel nodes edges)\<^sup>*)"
  using assms(1)
proof (induction rule: sim_walk.induct)
  case (arrived k st)
  then show ?case by simp
next
  case (moved k st k' st' p z)
  let ?E = "graph_rel nodes edges"
  from moved.IH have p: "p \<noteq> []" "hd p = k'" "set (butlast p) \<subseteq> set (node_keys nodes)" "distinct (butlast p)"
    "\<forall>x \<in> set (butlast p). (hd p, x) \<in> ?E\<^sup>*" by auto
  have reach: "(k, x) \<in> ?E\<^sup>+" if x: "x \<in> set (butlast p)" for x
  proof -
    from x p(1,2) have "k' \<in> set (butlast p)" by (cases p) (auto split: if_splits)
    with p(3) have "(k, k') \<in> ?E" using sim_step_edge(2)[OF moved.hyps(1)] by blast
    moreover from x p(2,5) have "(k', x) \<in> ?E\<^sup>*" by simp
    ultimately show ?thesis by (rule rtrancl_into_trancl2)
  qed
  then have "k \<notin> set (butlast p)" using acyc by (auto simp: acyclic_def)
  moreover have "k \<in> set (node_keys nodes)" by (rule sim_step_edge(1)[OF moved.hyps(1)])
  ultimately show ?case
    using p reach by (auto simp: trancl_into_rtrancl)
qed

lemma sim_walk_all_distinct:
  assumes "sim_walk (nodes_by_key nodes) edges ov a p z" "fst z \<in> set (node_keys nodes)" and acyc: "acyclic (graph_rel nodes edges)"
  shows "p \<noteq> [] \<and> hd p = fst a \<and> set p \<subseteq> set (node_keys nodes) \<and> distinct p \<and> (\<forall>x \<in> set p. (hd p, x) \<in> (graph_rel nodes edges)\<^sup>*)"
  using assms(1,2)
proof (induction rule: sim_walk.induct)
  case (moved k st k' st' p z)
  let ?E = "graph_rel nodes edges"
  from moved have p: "p \<noteq> []" "hd p = k'" "set p \<subseteq> set (node_keys nodes)" "distinct p" "\<forall>x \<in> set p. (k', x) \<in> ?E\<^sup>*" by auto
  from p(1-3) have "k' \<in> set (node_keys nodes)" by (cases p) auto
  then have "(k, k') \<in> ?E" by (rule sim_step_edge(2)[OF moved.hyps(1)])
  with p(5) have reach: "\<forall>x \<in> set p. (k, x) \<in> ?E\<^sup>+" by (meson rtrancl_into_trancl2)
  then have "k \<notin> set p" using acyc by (auto simp: acyclic_def)
  with p reach sim_step_edge(1)[OF moved.hyps(1)] show ?case by (auto simp: trancl_into_rtrancl)
qed simp

lemma stopped_at_node:
  assumes "stopped (nodes_by_key nodes) edges ov m n z tr" "undetermined_reason tr \<noteq> Some ''step_limit_exceeded''"
  shows "fst z \<in> set (node_keys nodes)"
  using assms by (cases rule: stopped.cases) (auto dest: dom_by_key)

lemma no_step_limit:
  assumes run: "run_case nodes edges c = Inr tr" and acyc: "acyclic (graph_rel nodes edges)"
  shows "undetermined_reason tr \<noteq> Some ''step_limit_exceeded'' \<and> distinct (path tr) \<and> set (path tr) \<subseteq> set (node_keys nodes)"
proof -
  obtain s z where r: "find_start_node nodes edges = Inr s"
    "sim_walk (nodes_by_key nodes) edges (human_overrides c) (s, inputs c) (path tr) z"
    "stopped (nodes_by_key nodes) edges (human_overrides c) (length (path tr) - 1) (step_cap nodes) z tr"
    by (rule run_case_sound[OF run])
  note w = sim_walk_distinct[OF r(2) acyc]
  then have "length (butlast (path tr)) \<le> card (set (node_keys nodes))"
    by (metis card_mono distinct_card List.finite_set)
  also have "\<dots> \<le> length nodes" using card_length[of "node_keys nodes"] by (simp add: node_keys_def)
  finally have len: "length (path tr) - 1 \<le> length nodes" by simp
  from r(1) have "nodes \<noteq> []" by (auto simp: find_start_node_def node_keys_def)
  then have "length nodes < step_cap nodes" by (cases nodes) (auto simp: step_cap_def)
  moreover have "undetermined_reason tr = Some ''step_limit_exceeded'' \<Longrightarrow> length (path tr) - 1 = step_cap nodes"
    using r(3) by (cases rule: stopped.cases) (auto simp: undetermined_reasons_def)
  ultimately have no: "undetermined_reason tr \<noteq> Some ''step_limit_exceeded''" using len by auto
  with sim_walk_all_distinct[OF r(2) stopped_at_node[OF r(3) no] acyc] show ?thesis by blast
qed

end
