(* ===== verification/Tarjan.thy ===== *)
theory Tarjan
  imports Policy_Validator
begin

text \<open>
  Correctness of \<open>_tarjan_sccs\<close> (\<open>packages/algorithm/policy_validator.py\<close>): the recursion stops,
  and the components it returns are exactly the strongly connected components of the graph.

  The invariant is stated for a list \<open>gs\<close> of the nodes whose call of \<open>strongconnect\<close> is still
  open (the most recent first). What keeps the proof together: every node of the stack
  reaches every node that was entered later, and reaches an open node that was entered no
  later than itself; the nodes that have left the stack are closed under edges.
\<close>

definition is_scc :: "('a \<times> 'a) set \<Rightarrow> 'a set \<Rightarrow> bool" where
  "is_scc E C \<longleftrightarrow> C \<noteq> {} \<and> (\<forall>x \<in> C. \<forall>y. y \<in> C \<longleftrightarrow> (x, y) \<in> E\<^sup>* \<and> (y, x) \<in> E\<^sup>*)"

definition ix :: "tarjan \<Rightarrow> string \<Rightarrow> nat" where
  "ix s v = the (index s v)"

definition stack_ok :: "string list \<Rightarrow> tarjan \<Rightarrow> bool" where
  "stack_ok gs s \<longleftrightarrow>
     sorted_wrt (\<lambda>a b. ix s b < ix s a) (stack s) \<and> set gs \<subseteq> set (stack s) \<and>
     set (stack s) \<subseteq> dom (index s) \<and> (\<forall>v. on_stack s v \<longleftrightarrow> v \<in> set (stack s)) \<and>
     (\<forall>v \<in> dom (index s). ix s v < counter s)"

definition reach_ok :: "(string \<times> string) set \<Rightarrow> string list \<Rightarrow> tarjan \<Rightarrow> bool" where
  "reach_ok E gs s \<longleftrightarrow>
     (\<forall>x \<in> set (stack s). \<forall>y \<in> set (stack s). ix s x \<le> ix s y \<longrightarrow> (x, y) \<in> E\<^sup>*) \<and>
     (\<forall>y \<in> set (stack s). \<exists>g \<in> set gs. ix s g \<le> ix s y \<and> (y, g) \<in> E\<^sup>*)"

definition done_ok :: "(string \<times> string) set \<Rightarrow> string list \<Rightarrow> tarjan \<Rightarrow> bool" where
  "done_ok E gs s \<longleftrightarrow>
     (\<forall>x \<in> dom (index s) - set (stack s). \<forall>y. (x, y) \<in> E \<longrightarrow> y \<in> dom (index s) - set (stack s)) \<and>
     (\<forall>x \<in> dom (index s) - set gs. \<forall>y. (x, y) \<in> E \<longrightarrow> y \<in> dom (index s)) \<and>
     \<Union> (set ` set (components s)) = dom (index s) - set (stack s) \<and>
     (\<forall>c \<in> set (components s). is_scc E (set c)) \<and> distinct (concat (components s))"

definition tarjan_inv :: "(string \<times> string) set \<Rightarrow> string list \<Rightarrow> tarjan \<Rightarrow> bool" where
  "tarjan_inv E gs s \<longleftrightarrow> stack_ok gs s \<and> reach_ok E gs s \<and> done_ok E gs s"

lemmas tarjan_inv_defs = tarjan_inv_def stack_ok_def reach_ok_def done_ok_def

text \<open>
  The state inside the call for \<open>v\<close> that was entered from \<open>s0\<close>, with the successors \<open>ws\<close>
  still to be looked at.
\<close>

definition frame :: "string \<Rightarrow> tarjan \<Rightarrow> tarjan \<Rightarrow> bool" where
  "frame v s0 s \<longleftrightarrow>
     index s0 \<subseteq>\<^sub>m index s \<and> index s0 v = None \<and> v \<in> dom (index s) \<and> counter s0 \<le> ix s v \<and>
     (\<forall>u \<in> dom (index s0). lowlink s u = lowlink s0 u)"

definition mid :: "(string \<times> string) set \<Rightarrow> string list \<Rightarrow> string \<Rightarrow> tarjan \<Rightarrow> string list \<Rightarrow> tarjan \<Rightarrow> bool" where
  "mid E gs v s0 ws s \<longleftrightarrow>
     tarjan_inv E (v # gs) s \<and> frame v s0 s \<and> set gs \<subseteq> set (stack s0) \<and>
     (\<exists>seg n. stack s = seg @ v # stack s0 \<and> lowlink s v = Some n \<and> n \<le> ix s v \<and>
        (\<exists>y \<in> set (stack s). ix s y = n \<and> (v, y) \<in> E\<^sup>*) \<and>
        (\<forall>x \<in> set seg. \<forall>y \<in> set (stack s0). (x, y) \<in> E \<longrightarrow> n \<le> ix s y) \<and>
        (\<forall>y. (v, y) \<in> E \<longrightarrow> y \<in> set ws \<or> (y \<in> dom (index s) \<and> (y \<in> set (stack s0) \<longrightarrow> n \<le> ix s y))))"

definition post_sc :: "(string \<times> string) set \<Rightarrow> string list \<Rightarrow> string \<Rightarrow> tarjan \<Rightarrow> tarjan \<Rightarrow> bool" where
  "post_sc E gs v s0 s \<longleftrightarrow>
     tarjan_inv E gs s \<and> frame v s0 s \<and>
     (\<exists>seg n. stack s = seg @ stack s0 \<and> lowlink s v = Some n \<and>
        ((v \<in> set seg \<and> n \<le> ix s v \<and> (\<exists>y \<in> set (stack s). ix s y = n \<and> (v, y) \<in> E\<^sup>*)) \<or>
         (seg = [] \<and> n = ix s v)) \<and>
        (\<forall>x \<in> set seg. \<forall>y \<in> set (stack s0). (x, y) \<in> E \<longrightarrow> n \<le> ix s y))"

lemma midE:
  assumes "mid E gs v s0 ws s"
  obtains seg n where
    "tarjan_inv E (v # gs) s" and "frame v s0 s" and "set gs \<subseteq> set (stack s0)"
    and "stack s = seg @ v # stack s0" and "lowlink s v = Some n" and "n \<le> ix s v"
    and "\<exists>y \<in> set (stack s). ix s y = n \<and> (v, y) \<in> E\<^sup>*"
    and "\<forall>x \<in> set seg. \<forall>y \<in> set (stack s0). (x, y) \<in> E \<longrightarrow> n \<le> ix s y"
    and "\<forall>y. (v, y) \<in> E \<longrightarrow> y \<in> set ws \<or> (y \<in> dom (index s) \<and> (y \<in> set (stack s0) \<longrightarrow> n \<le> ix s y))"
  using assms unfolding mid_def by blast

lemma ix_mono: "index s0 \<subseteq>\<^sub>m index s \<Longrightarrow> v \<in> dom (index s0) \<Longrightarrow> ix s v = ix s0 v"
  by (auto simp: ix_def map_le_def)

lemma dom_mono: "index s0 \<subseteq>\<^sub>m index s \<Longrightarrow> dom (index s0) \<subseteq> dom (index s)"
  by (rule map_le_implies_dom_le)

section \<open>Entering a node\<close>

lemma enter_simps [simp]:
  "index (tarjan_enter v s) = (index s)(v \<mapsto> counter s)"
  "stack (tarjan_enter v s) = v # stack s"
  "counter (tarjan_enter v s) = Suc (counter s)"
  "lowlink (tarjan_enter v s) = (lowlink s)(v \<mapsto> counter s)"
  "on_stack (tarjan_enter v s) = (on_stack s)(v := True)"
  "components (tarjan_enter v s) = components s"
  by (simp_all add: tarjan_enter_def)

lemma ix_enter: "ix (tarjan_enter v s) u = (if u = v then counter s else ix s u)"
  by (simp add: ix_def)

lemma descending_distinct: "sorted_wrt (\<lambda>a b. (f b :: nat) < f a) xs \<Longrightarrow> distinct xs"
  by (induction xs) auto

lemma stack_ok_distinct: "stack_ok gs s \<Longrightarrow> distinct (stack s)"
  unfolding stack_ok_def by (blast intro: descending_distinct)

lemma stack_ok_enter:
  assumes "stack_ok gs s" "index s v = None"
  shows "stack_ok (v # gs) (tarjan_enter v s)"
proof -
  have v: "v \<notin> set (stack s)" using assms by (auto simp: stack_ok_def)
  have lt: "\<forall>u \<in> set (stack s). ix s u < counter s" using assms(1) by (auto simp: stack_ok_def)
  have "sorted_wrt (\<lambda>a b. ix (tarjan_enter v s) b < ix (tarjan_enter v s) a) (stack s)"
    by (rule sorted_wrt_mono_rel[of "stack s" "\<lambda>a b. ix s b < ix s a"])
      (use assms(1) v in \<open>auto simp: ix_enter stack_ok_def\<close>)
  moreover have "\<forall>u \<in> dom (index s). ix s u < Suc (counter s)"
    using assms(1) by (auto simp: stack_ok_def less_SucI)
  ultimately show ?thesis
    using assms v lt by (auto simp: stack_ok_def ix_enter)
qed

lemma reach_ok_enter:
  assumes "stack_ok gs s" "reach_ok E gs s" "index s v = None" "\<forall>g \<in> set gs. (g, v) \<in> E\<^sup>*"
  shows "reach_ok E (v # gs) (tarjan_enter v s)"
proof -
  have v: "v \<notin> set (stack s)" using assms by (auto simp: stack_ok_def)
  have lt: "\<forall>u \<in> set (stack s). ix s u < counter s" using assms(1) by (auto simp: stack_ok_def)
  have gs: "v \<notin> set gs" using v assms(1) by (auto simp: stack_ok_def)
  have to_v: "\<forall>y \<in> set (stack s). (y, v) \<in> E\<^sup>*"
    using assms(2,4) by (meson reach_ok_def rtrancl_trans)
  have w: "\<forall>y \<in> set (stack s). \<exists>g \<in> set gs. ix s g \<le> ix s y \<and> (y, g) \<in> E\<^sup>*"
    using assms(2) by (simp add: reach_ok_def)
  show ?thesis
    unfolding reach_ok_def
  proof (intro conjI ballI impI)
    fix x y assume "x \<in> set (stack (tarjan_enter v s))" "y \<in> set (stack (tarjan_enter v s))"
      "ix (tarjan_enter v s) x \<le> ix (tarjan_enter v s) y"
    then show "(x, y) \<in> E\<^sup>*"
      using to_v lt assms(2) by (auto simp: ix_enter reach_ok_def split: if_splits)
  next
    fix y assume "y \<in> set (stack (tarjan_enter v s))"
    then consider "y = v" | "y \<in> set (stack s)" "y \<noteq> v" by auto
    then show "\<exists>g \<in> set (v # gs). ix (tarjan_enter v s) g \<le> ix (tarjan_enter v s) y \<and> (y, g) \<in> E\<^sup>*"
    proof cases
      case 2
      with w obtain g where "g \<in> set gs" "ix s g \<le> ix s y" "(y, g) \<in> E\<^sup>*" by blast
      moreover have "g \<noteq> v" using gs \<open>g \<in> set gs\<close> by blast
      ultimately show ?thesis using 2 by (auto simp: ix_enter)
    qed auto
  qed
qed

lemma done_ok_enter:
  assumes "done_ok E gs s" "index s v = None" "stack_ok gs s"
  shows "done_ok E (v # gs) (tarjan_enter v s)"
proof -
  have eq: "dom (index (tarjan_enter v s)) - set (stack (tarjan_enter v s)) = dom (index s) - set (stack s)"
    using assms(2) by auto
  have "\<forall>x \<in> dom (index (tarjan_enter v s)) - set (v # gs). \<forall>y. (x, y) \<in> E \<longrightarrow>
      y \<in> dom (index (tarjan_enter v s))"
  proof (intro ballI allI impI)
    fix x y assume x: "x \<in> dom (index (tarjan_enter v s)) - set (v # gs)" and e: "(x, y) \<in> E"
    from x have "x \<in> dom (index s) - set gs" by auto
    with assms(1) e have "y \<in> dom (index s)" unfolding done_ok_def by blast
    then show "y \<in> dom (index (tarjan_enter v s))" by simp
  qed
  moreover have "components (tarjan_enter v s) = components s" by simp
  ultimately show ?thesis
    using assms(1) unfolding done_ok_def eq by metis
qed

lemma mid_enter:
  assumes "tarjan_inv E gs s" "index s v = None" "\<forall>g \<in> set gs. (g, v) \<in> E\<^sup>*"
    and succs: "\<forall>y. (v, y) \<in> E \<longrightarrow> y \<in> set ws"
  shows "mid E gs v s ws (tarjan_enter v s)"
proof -
  have "tarjan_inv E (v # gs) (tarjan_enter v s)"
    using assms by (simp add: tarjan_inv_def stack_ok_enter reach_ok_enter done_ok_enter)
  moreover have "frame v s (tarjan_enter v s)"
    using assms(2) by (auto simp: frame_def map_le_def ix_enter)
  moreover have "set gs \<subseteq> set (stack s)"
    using assms(1) by (simp add: tarjan_inv_def stack_ok_def)
  ultimately show ?thesis
    using succs by (auto simp: mid_def ix_enter intro!: exI[of _ "[]"])
qed

section \<open>Looking at a successor\<close>

lemma lower_simps [simp]:
  "index (lower v n s) = index s" "stack (lower v n s) = stack s" "counter (lower v n s) = counter s"
  "on_stack (lower v n s) = on_stack s" "components (lower v n s) = components s"
  "lowlink (lower v n s) = (lowlink s)(v \<mapsto> min (the (lowlink s v)) n)"
  "ix (lower v n s) = ix s"
  by (simp_all add: lower_def ix_def fun_eq_iff)

lemma tarjan_inv_lower [simp]: "tarjan_inv E gs (lower v n s) \<longleftrightarrow> tarjan_inv E gs s"
  by (simp add: tarjan_inv_defs)

lemma frame_lower: "frame v s0 s \<Longrightarrow> frame v s0 (lower v n s)"
  by (auto simp: frame_def)

lemma mid_popped:
  assumes "mid E gs v s0 (w # ws) s" "index s w \<noteq> None" "\<not> on_stack s w"
  shows "mid E gs v s0 ws s"
proof -
  have "w \<notin> set (stack s)"
    using assms(1,3) by (simp add: mid_def tarjan_inv_def stack_ok_def)
  then show ?thesis
    using assms(1,2) by (fastforce simp: mid_def)
qed

lemma mid_on_stack:
  assumes "mid E gs v s0 (w # ws) s" "on_stack s w" "(v, w) \<in> E"
  shows "mid E gs v s0 ws (lower v (the (index s w)) s)"
proof -
  obtain seg n where m:
    "tarjan_inv E (v # gs) s" "frame v s0 s" "set gs \<subseteq> set (stack s0)"
    "stack s = seg @ v # stack s0" "lowlink s v = Some n" "n \<le> ix s v"
    "\<exists>y \<in> set (stack s). ix s y = n \<and> (v, y) \<in> E\<^sup>*"
    "\<forall>x \<in> set seg. \<forall>y \<in> set (stack s0). (x, y) \<in> E \<longrightarrow> n \<le> ix s y"
    "\<forall>y. (v, y) \<in> E \<longrightarrow> y \<in> set (w # ws) \<or> (y \<in> dom (index s) \<and> (y \<in> set (stack s0) \<longrightarrow> n \<le> ix s y))"
    by (rule midE[OF assms(1)])
  have w: "w \<in> set (stack s)" "w \<in> dom (index s)"
    using m(1) assms(2) by (auto simp: tarjan_inv_def stack_ok_def)
  let ?m = "min n (ix s w)"
  have "\<exists>y \<in> set (stack s). ix s y = ?m \<and> (v, y) \<in> E\<^sup>*"
    using m(7) w(1) assms(3) by (cases "n \<le> ix s w") (auto simp: min_def)
  moreover have "\<forall>x \<in> set seg. \<forall>y \<in> set (stack s0). (x, y) \<in> E \<longrightarrow> ?m \<le> ix s y"
    using m(8) by (auto simp: min_le_iff_disj)
  moreover have "\<forall>y. (v, y) \<in> E \<longrightarrow> y \<in> set ws \<or> (y \<in> dom (index s) \<and> (y \<in> set (stack s0) \<longrightarrow> ?m \<le> ix s y))"
    using m(9) w(2) by (auto simp: min_le_iff_disj)
  ultimately show ?thesis
    unfolding mid_def
    using m frame_lower[OF m(2)] by (intro conjI exI[of _ seg] exI[of _ ?m]) (auto simp: ix_def)
qed

lemma frame_trans:
  assumes "frame v s0 s" "frame w s s'"
  shows "frame v s0 s'"
  unfolding frame_def
proof (intro conjI ballI)
  show "index s0 \<subseteq>\<^sub>m index s'"
    using assms by (auto simp: frame_def intro: map_le_trans)
  show "index s0 v = None" "v \<in> dom (index s')"
    using assms dom_mono[of s s'] by (auto simp: frame_def subset_iff)
  show "counter s0 \<le> ix s' v"
    using assms ix_mono[of s s' v] by (simp add: frame_def)
  fix u assume "u \<in> dom (index s0)"
  moreover then have "u \<in> dom (index s)"
    using assms(1) dom_mono[of s0 s] by (auto simp: frame_def subset_iff)
  ultimately show "lowlink s' u = lowlink s0 u"
    using assms by (simp add: frame_def)
qed

lemma mid_call:
  assumes "mid E gs v s0 (w # ws) s" "(v, w) \<in> E" "post_sc E (v # gs) w s s'"
  shows "mid E gs v s0 ws (lower v (the (lowlink s' w)) s')"
proof -
  obtain seg n where m:
    "tarjan_inv E (v # gs) s" "frame v s0 s" "set gs \<subseteq> set (stack s0)"
    "stack s = seg @ v # stack s0" "lowlink s v = Some n" "n \<le> ix s v"
    "\<exists>y \<in> set (stack s). ix s y = n \<and> (v, y) \<in> E\<^sup>*"
    "\<forall>x \<in> set seg. \<forall>y \<in> set (stack s0). (x, y) \<in> E \<longrightarrow> n \<le> ix s y"
    "\<forall>y. (v, y) \<in> E \<longrightarrow> y \<in> set (w # ws) \<or> (y \<in> dom (index s) \<and> (y \<in> set (stack s0) \<longrightarrow> n \<le> ix s y))"
    by (rule midE[OF assms(1)])
  from assms(3) obtain sw nw where p:
    "tarjan_inv E (v # gs) s'" "frame w s s'" "stack s' = sw @ stack s" "lowlink s' w = Some nw"
    "(w \<in> set sw \<and> nw \<le> ix s' w \<and> (\<exists>y \<in> set (stack s'). ix s' y = nw \<and> (w, y) \<in> E\<^sup>*)) \<or>
     (sw = [] \<and> nw = ix s' w)"
    "\<forall>x \<in> set sw. \<forall>y \<in> set (stack s). (x, y) \<in> E \<longrightarrow> nw \<le> ix s' y"
    unfolding post_sc_def by blast
  have le: "index s \<subseteq>\<^sub>m index s'" using p(2) by (simp add: frame_def)
  have st: "set (stack s) \<subseteq> dom (index s)" using m(1) by (simp add: tarjan_inv_def stack_ok_def)
  have ix: "ix s' y = ix s y" if "y \<in> set (stack s)" for y
    using that st ix_mono[OF le] by blast
  have v: "v \<in> dom (index s)" "v \<in> set (stack s)" using m(2,4) by (auto simp: frame_def)
  have ll: "lowlink s' v = Some n" using p(2) v(1) m(5) by (simp add: frame_def)
  have low: "ix s v < counter s" using v m(1) by (auto simp: tarjan_inv_def stack_ok_def)
  have w: "counter s \<le> ix s' w" "w \<in> dom (index s')" "index s w = None" using p(2) by (auto simp: frame_def)
  have ws0: "w \<notin> set (stack s0)" using w(3) st m(4) by auto
  let ?m = "min n nw"
  have "\<exists>y \<in> set (stack s'). ix s' y = ?m \<and> (v, y) \<in> E\<^sup>*"
  proof (cases "n \<le> nw")
    case True
    with m(7) ix p(3) show ?thesis by (auto simp: min_def)
  next
    case False
    then have "nw \<noteq> ix s' w" using m(6) low w(1) by linarith
    with p(5) obtain y where "y \<in> set (stack s')" "ix s' y = nw" "(w, y) \<in> E\<^sup>*" by blast
    with False assms(2) show ?thesis by (auto simp: min_def intro: converse_rtrancl_into_rtrancl)
  qed
  moreover have "\<forall>x \<in> set (sw @ seg). \<forall>y \<in> set (stack s0). (x, y) \<in> E \<longrightarrow> ?m \<le> ix s' y"
    using p(6) m(8) m(4) ix by (auto simp: min_le_iff_disj)
  moreover have "\<forall>y. (v, y) \<in> E \<longrightarrow> y \<in> set ws \<or> (y \<in> dom (index s') \<and> (y \<in> set (stack s0) \<longrightarrow> ?m \<le> ix s' y))"
    using m(9) w(2) ws0 dom_mono[OF le] ix m(4) by (fastforce simp: min_le_iff_disj)
  moreover have "?m \<le> ix s' v" using m(6) ix v by simp
  ultimately show ?thesis
    unfolding mid_def
    using m(3,4) p(1,3,4) ll frame_lower[OF frame_trans[OF m(2) p(2)]]
    by (intro conjI exI[of _ "sw @ seg"] exI[of _ ?m]) simp_all
qed

section \<open>Leaving a node\<close>

lemma pop_until_append: "v \<notin> set xs \<Longrightarrow> pop_until v (xs @ v # ys) = (xs @ [v], ys)"
  by (induction xs) auto

lemma rtrancl_closed:
  assumes "(x, y) \<in> E\<^sup>*" "x \<in> A" "\<forall>a \<in> A. \<forall>b. (a, b) \<in> E \<longrightarrow> b \<in> A"
  shows "y \<in> A"
  using assms by (induction rule: rtrancl_induct) auto

text \<open>
  The nodes above \<open>v\<close> on the stack, when no edge of theirs reaches below \<open>v\<close>: together with
  the nodes already popped they are closed under edges, so they are a component.
\<close>

lemma segment_closed:
  assumes "tarjan_inv E (v # gs) s" "stack s = seg @ v # st" "set gs \<subseteq> set st"
    and low: "\<forall>x \<in> set (seg @ [v]). \<forall>y \<in> set st. (x, y) \<notin> E"
    and succ: "\<forall>y. (v, y) \<in> E \<longrightarrow> y \<in> dom (index s)"
  shows "\<forall>x \<in> dom (index s) - set st. \<forall>y. (x, y) \<in> E \<longrightarrow> y \<in> dom (index s) - set st"
proof (intro ballI allI impI)
  fix x y assume x: "x \<in> dom (index s) - set st" and e: "(x, y) \<in> E"
  have d: "done_ok E (v # gs) s" using assms(1) by (simp add: tarjan_inv_def)
  show "y \<in> dom (index s) - set st"
  proof (cases "x \<in> set (seg @ [v])")
    case True
    have "y \<in> dom (index s)"
    proof (cases "x = v")
      case True
      then show ?thesis using succ e by blast
    next
      case False
      then have "x \<in> dom (index s) - set (v # gs)" using x assms(3) by auto
      then show ?thesis using d e unfolding done_ok_def by blast
    qed
    then show ?thesis using low True e by blast
  next
    case False
    then have "x \<in> dom (index s) - set (stack s)" using x assms(2) by auto
    then have "y \<in> dom (index s) - set (stack s)" using d e unfolding done_ok_def by blast
    then show ?thesis using assms(2) by auto
  qed
qed

lemma segment_above:
  assumes "stack_ok gs s" "stack s = seg @ v # st"
  shows "\<forall>x \<in> set seg. ix s v < ix s x" "\<forall>y \<in> set st. ix s y < ix s v" "v \<notin> set seg" "v \<notin> set st"
    "set seg \<inter> set st = {}"
  using assms stack_ok_distinct[OF assms(1)] by (auto simp: stack_ok_def sorted_wrt_append)

lemma segment_scc:
  assumes inv: "tarjan_inv E (v # gs) s" and st: "stack s = seg @ v # st" and gs: "set gs \<subseteq> set st"
    and cl: "\<forall>x \<in> dom (index s) - set st. \<forall>y. (x, y) \<in> E \<longrightarrow> y \<in> dom (index s) - set st"
  shows "is_scc E (set (seg @ [v]))"
proof -
  let ?C = "set (seg @ [v])"
  have ok: "stack_ok (v # gs) s" and r: "reach_ok E (v # gs) s" and d: "done_ok E (v # gs) s"
    using inv by (simp_all add: tarjan_inv_def)
  note ab = segment_above[OF ok st]
  have C: "?C \<subseteq> dom (index s) - set st" using ok st ab by (auto simp: stack_ok_def)
  have out: "y \<in> dom (index s) - set st" if "x \<in> ?C" "(x, y) \<in> E\<^sup>*" for x y
    using rtrancl_closed[OF that(2) _ cl] that(1) C by blast
  have from_v: "(v, x) \<in> E\<^sup>*" if "x \<in> ?C" for x
  proof -
    have "ix s v \<le> ix s x" using that ab(1) by (auto simp: less_imp_le)
    then show ?thesis using r st that unfolding reach_ok_def by auto
  qed
  have to_v: "(x, v) \<in> E\<^sup>*" if x: "x \<in> ?C" for x
  proof -
    from x st have "x \<in> set (stack s)" by auto
    with r obtain g where g: "g \<in> set (v # gs)" "(x, g) \<in> E\<^sup>*" unfolding reach_ok_def by blast
    with out[OF x g(2)] gs have "g = v" by auto
    with g show ?thesis by simp
  qed
  have in_C: "y \<in> ?C" if "x \<in> ?C" "(x, y) \<in> E\<^sup>*" "(y, x) \<in> E\<^sup>*" for x y
  proof (rule ccontr)
    assume "y \<notin> ?C"
    with out[OF that(1,2)] st have y: "y \<in> dom (index s) - set (stack s)" by auto
    have "x \<in> dom (index s) - set (stack s)"
      by (rule rtrancl_closed[OF that(3) y]) (use d in \<open>unfold done_ok_def, blast\<close>)
    with that(1) st show False by auto
  qed
  have mutual: "(x, y) \<in> E\<^sup>*" if "x \<in> ?C" "y \<in> ?C" for x y
    using to_v[OF that(1)] from_v[OF that(2)] by (rule rtrancl_trans)
  show ?thesis
    unfolding is_scc_def
  proof (intro conjI ballI allI)
    fix x y assume "x \<in> ?C"
    then show "y \<in> ?C \<longleftrightarrow> (x, y) \<in> E\<^sup>* \<and> (y, x) \<in> E\<^sup>*"
      using mutual in_C by blast
  qed simp
qed

lemma done_succ:
  "done_ok E gs s \<Longrightarrow> x \<in> dom (index s) \<Longrightarrow> x \<notin> set gs \<Longrightarrow> (x, y) \<in> E \<Longrightarrow> y \<in> dom (index s)"
  unfolding done_ok_def by blast

lemma done_scc: "done_ok E gs s \<Longrightarrow> c \<in> set (components s) \<Longrightarrow> is_scc E (set c)"
  unfolding done_ok_def by blast

lemma leave_pop_inv:
  assumes inv: "tarjan_inv E (v # gs) s" and st: "stack s = seg @ v # st" and gs: "set gs \<subseteq> set st"
    and cl: "\<forall>x \<in> dom (index s) - set st. \<forall>y. (x, y) \<in> E \<longrightarrow> y \<in> dom (index s) - set st"
    and s': "index s' = index s" "counter s' = counter s" "stack s' = st"
      "on_stack s' = (\<lambda>w. if w \<in> set (seg @ [v]) then False else on_stack s w)"
      "components s' = components s @ [seg @ [v]]"
  shows "tarjan_inv E gs s'"
proof -
  have ok: "stack_ok (v # gs) s" and r: "reach_ok E (v # gs) s" and d: "done_ok E (v # gs) s"
    using inv by (simp_all add: tarjan_inv_def)
  note ab = segment_above[OF ok st]
  have ix: "ix s' = ix s" by (simp add: ix_def fun_eq_iff s')
  have C: "set (seg @ [v]) \<subseteq> dom (index s)" using ok st by (auto simp: stack_ok_def)
  have "stack_ok gs s'"
    using ok gs st ab by (auto simp: stack_ok_def ix s' sorted_wrt_append)
  moreover have "reach_ok E gs s'"
    unfolding reach_ok_def ix s'
  proof (intro conjI ballI impI)
    fix x y assume "x \<in> set st" "y \<in> set st" "ix s x \<le> ix s y"
    then show "(x, y) \<in> E\<^sup>*" using r st by (auto simp: reach_ok_def)
  next
    fix y assume y: "y \<in> set st"
    then have "y \<in> set (stack s)" using st by simp
    then obtain g where "g \<in> set (v # gs)" "ix s g \<le> ix s y" "(y, g) \<in> E\<^sup>*"
      using r unfolding reach_ok_def by blast
    moreover from this have "g \<noteq> v" using ab(2) y by (meson leD)
    ultimately show "\<exists>g \<in> set gs. ix s g \<le> ix s y \<and> (y, g) \<in> E\<^sup>*" by auto
  qed
  moreover have "done_ok E gs s'"
    unfolding done_ok_def s'
  proof (intro conjI)
    show "\<forall>x \<in> dom (index s) - set st. \<forall>y. (x, y) \<in> E \<longrightarrow> y \<in> dom (index s) - set st" by (rule cl)
    show "\<forall>x \<in> dom (index s) - set gs. \<forall>y. (x, y) \<in> E \<longrightarrow> y \<in> dom (index s)"
    proof (intro ballI allI impI)
      fix x y assume x: "x \<in> dom (index s) - set gs" and e: "(x, y) \<in> E"
      show "y \<in> dom (index s)"
      proof (cases "x = v")
        case True
        then show ?thesis using cl e x ab(4) by blast
      next
        case False
        then show ?thesis using done_succ[OF d, of x y] e x by auto
      qed
    qed
    have u: "\<Union> (set ` set (components s)) = dom (index s) - set (stack s)"
      using d unfolding done_ok_def by blast
    then show "\<Union> (set ` set (components s @ [seg @ [v]])) = dom (index s) - set st"
      using C ab st by auto
    show "\<forall>c \<in> set (components s @ [seg @ [v]]). is_scc E (set c)"
      using done_scc[OF d] segment_scc[OF inv st gs cl] by auto
    have "distinct (concat (components s))" using d unfolding done_ok_def by blast
    moreover have "set (concat (components s)) \<inter> set (seg @ [v]) = {}" using u st by auto
    ultimately show "distinct (concat (components s @ [seg @ [v]]))"
      using stack_ok_distinct[OF ok] st by simp
  qed
  ultimately show ?thesis by (simp add: tarjan_inv_def)
qed

lemma leave_stay_inv:
  assumes inv: "tarjan_inv E (v # gs) s" and st: "v \<in> set (stack s)" and gs: "set gs \<subseteq> set (stack s)"
    and y: "y \<in> set (stack s)" "ix s y < ix s v" "(v, y) \<in> E\<^sup>*"
    and succ: "\<forall>y. (v, y) \<in> E \<longrightarrow> y \<in> dom (index s)"
  shows "tarjan_inv E gs s"
proof -
  have ok: "stack_ok (v # gs) s" and r: "reach_ok E (v # gs) s" and d: "done_ok E (v # gs) s"
    using inv by (simp_all add: tarjan_inv_def)
  obtain g where g: "g \<in> set (v # gs)" "ix s g \<le> ix s y" "(y, g) \<in> E\<^sup>*"
    using r y(1) unfolding reach_ok_def by blast
  with y have g': "g \<in> set gs" "ix s g \<le> ix s v" "(v, g) \<in> E\<^sup>*"
    by (auto intro: rtrancl_trans)
  have "stack_ok gs s" using ok by (simp add: stack_ok_def)
  moreover have "reach_ok E gs s"
    unfolding reach_ok_def
  proof (intro conjI ballI impI)
    fix a b assume "a \<in> set (stack s)" "b \<in> set (stack s)" "ix s a \<le> ix s b"
    then show "(a, b) \<in> E\<^sup>*" using r unfolding reach_ok_def by blast
  next
    fix b assume "b \<in> set (stack s)"
    then obtain h where h: "h \<in> set (v # gs)" "ix s h \<le> ix s b" "(b, h) \<in> E\<^sup>*"
      using r unfolding reach_ok_def by blast
    show "\<exists>g \<in> set gs. ix s g \<le> ix s b \<and> (b, g) \<in> E\<^sup>*"
    proof (cases "h = v")
      case True
      with h g' have "ix s g \<le> ix s b" "(b, g) \<in> E\<^sup>*" by (auto intro: rtrancl_trans)
      with g'(1) show ?thesis by blast
    qed (use h in auto)
  qed
  moreover have "done_ok E gs s"
  proof -
    have "\<forall>x \<in> dom (index s) - set gs. \<forall>y. (x, y) \<in> E \<longrightarrow> y \<in> dom (index s)"
    proof (intro ballI allI impI)
      fix x z assume x: "x \<in> dom (index s) - set gs" and e: "(x, z) \<in> E"
      show "z \<in> dom (index s)"
        using succ e x done_succ[OF d, of x z] by (cases "x = v") auto
    qed
    then show ?thesis using d unfolding done_ok_def by blast
  qed
  ultimately show ?thesis by (simp add: tarjan_inv_def)
qed

lemma mid_leave:
  assumes m: "mid E gs v s0 [] s"
  shows "post_sc E gs v s0 (tarjan_leave v s)"
proof -
  obtain seg n where m:
    "tarjan_inv E (v # gs) s" "frame v s0 s" "set gs \<subseteq> set (stack s0)"
    "stack s = seg @ v # stack s0" "lowlink s v = Some n" "n \<le> ix s v"
    "\<exists>y \<in> set (stack s). ix s y = n \<and> (v, y) \<in> E\<^sup>*"
    "\<forall>x \<in> set seg. \<forall>y \<in> set (stack s0). (x, y) \<in> E \<longrightarrow> n \<le> ix s y"
    "\<forall>y. (v, y) \<in> E \<longrightarrow> y \<in> set [] \<or> (y \<in> dom (index s) \<and> (y \<in> set (stack s0) \<longrightarrow> n \<le> ix s y))"
    by (rule midE[OF m])
  have ok: "stack_ok (v # gs) s" using m(1) by (simp add: tarjan_inv_def)
  note ab = segment_above[OF ok m(4)]
  have v: "index s v = Some (ix s v)" using m(2) by (auto simp: frame_def ix_def)
  show ?thesis
  proof (cases "n = ix s v")
    case True
    let ?s = "tarjan_leave v s"
    have s': "index ?s = index s" "counter ?s = counter s" "stack ?s = stack s0" "lowlink ?s = lowlink s"
      "on_stack ?s = (\<lambda>w. if w \<in> set (seg @ [v]) then False else on_stack s w)"
      "components ?s = components s @ [seg @ [v]]"
      using True m(5) v pop_until_append[OF ab(3), of "stack s0"] by (simp_all add: tarjan_leave_def m(4))
    have low: "\<forall>x \<in> set (seg @ [v]). \<forall>y \<in> set (stack s0). (x, y) \<notin> E"
      using m(8,9) ab(2) True by (fastforce simp: not_less[symmetric])
    have succ: "\<forall>y. (v, y) \<in> E \<longrightarrow> y \<in> dom (index s)" using m(9) by simp
    have "tarjan_inv E gs ?s"
      by (rule leave_pop_inv[OF m(1,4,3) segment_closed[OF m(1,4,3) low succ] s'(1-3,5,6)])
    moreover have "frame v s0 ?s" using m(2) s' by (simp add: frame_def ix_def)
    moreover have "ix ?s = ix s" by (simp add: ix_def s' fun_eq_iff)
    ultimately show ?thesis using s' m(5) True by (simp add: post_sc_def)
  next
    case False
    then have s': "tarjan_leave v s = s" using m(5) v by (simp add: tarjan_leave_def)
    obtain y where y: "y \<in> set (stack s)" "ix s y = n" "(v, y) \<in> E\<^sup>*" using m(7) by blast
    have "tarjan_inv E gs s"
      by (rule leave_stay_inv[OF m(1) _ _ y(1) _ y(3)]) (use m(3,4,6,9) y False in auto)
    moreover have "\<forall>x \<in> set (seg @ [v]). \<forall>y \<in> set (stack s0). (x, y) \<in> E \<longrightarrow> n \<le> ix s y"
      using m(8,9) by auto
    ultimately show ?thesis
      unfolding post_sc_def s' using m(2,4-7)
      by (intro conjI exI[of _ "seg @ [v]"] exI[of _ n]) auto
  qed
qed

section \<open>The recursion\<close>

lemma card_unseen_less:
  "finite U \<Longrightarrow> v \<in> U \<Longrightarrow> index s v = None \<Longrightarrow>
   card (U - dom (index (tarjan_enter v s))) < card (U - dom (index s))"
  by (rule psubset_card_mono) auto

lemma card_unseen_le:
  "finite U \<Longrightarrow> index s \<subseteq>\<^sub>m index s' \<Longrightarrow> card (U - dom (index s')) \<le> card (U - dom (index s))"
  by (rule card_mono) (use dom_mono in auto)

lemma strongconnect_post:
  assumes U: "finite U" "\<forall>v \<in> U. set (adj_get adj v) \<subseteq> U" and E: "E = edge_rel adj"
  shows "(\<forall>gs. tarjan_inv E gs s \<and> index s v = None \<and> v \<in> U \<and> (\<forall>g \<in> set gs. (g, v) \<in> E\<^sup>*) \<and>
           card (U - dom (index s)) \<le> fuel \<longrightarrow>
           (\<exists>s'. strongconnect fuel adj v s = Some s' \<and> post_sc E gs v s s'))"
    and "(\<forall>gs s0. mid E gs v s0 ws s \<and> v \<in> U \<and> set ws \<subseteq> set (adj_get adj v) \<and> (\<forall>g \<in> set gs. (g, v) \<in> E\<^sup>*) \<and>
           card (U - dom (index s)) \<le> fuel \<longrightarrow>
           (\<exists>s'. connect_succs fuel adj v ws s = Some s' \<and> mid E gs v s0 [] s'))"
  using U(2) E
proof (induction fuel adj v s and fuel adj v ws s rule: strongconnect_connect_succs.induct)
  case (1 adj v s)
  have "v \<in> U \<Longrightarrow> index s v = None \<Longrightarrow> card (U - dom (index s)) \<noteq> 0"
    using U(1) by auto
  then show ?case by auto
next
  case (2 fuel adj v s)
  show ?case
  proof (intro allI impI, elim conjE)
    fix gs assume a: "tarjan_inv E gs s" "index s v = None" "v \<in> U" "\<forall>g \<in> set gs. (g, v) \<in> E\<^sup>*"
      "card (U - dom (index s)) \<le> Suc fuel"
    have "mid E gs v s (adj_get adj v) (tarjan_enter v s)"
      by (rule mid_enter[OF a(1,2,4)]) (simp add: "2.prems"(2) edge_rel_def)
    moreover have "card (U - dom (index (tarjan_enter v s))) \<le> fuel"
      using card_unseen_less[OF U(1) a(3,2)] a(5) by linarith
    ultimately obtain s' where "connect_succs fuel adj v (adj_get adj v) (tarjan_enter v s) = Some s'"
      "mid E gs v s [] s'"
      using 2 a(3,4) by blast
    then show "\<exists>s'. strongconnect (Suc fuel) adj v s = Some s' \<and> post_sc E gs v s s'"
      using mid_leave by fastforce
  qed
next
  case (3 fuel adj v s)
  then show ?case by auto
next
  case (4 fuel adj v w ws s)
  show ?case
  proof (intro allI impI, elim conjE)
    fix gs s0 assume a: "mid E gs v s0 (w # ws) s" "v \<in> U" "set (w # ws) \<subseteq> set (adj_get adj v)"
      "\<forall>g \<in> set gs. (g, v) \<in> E\<^sup>*" "card (U - dom (index s)) \<le> fuel"
    have e: "(v, w) \<in> E" "w \<in> U" "set ws \<subseteq> set (adj_get adj v)"
      using a(2,3) "4.prems" by (auto simp: edge_rel_def)
    consider (fresh) "index s w = None" | (open_node) "index s w \<noteq> None" "on_stack s w"
      | (popped) "index s w \<noteq> None" "\<not> on_stack s w" by blast
    then show "\<exists>s'. connect_succs fuel adj v (w # ws) s = Some s' \<and> mid E gs v s0 [] s'"
    proof cases
      case fresh
      have "tarjan_inv E (v # gs) s" using a(1) by (simp add: mid_def)
      moreover have "\<forall>g \<in> set (v # gs). (g, w) \<in> E\<^sup>*" using a(4) e(1) by (auto intro: rtrancl_into_rtrancl)
      ultimately obtain s' where s': "strongconnect fuel adj w s = Some s'" "post_sc E (v # gs) w s s'"
        using "4.IH"(1)[OF fresh "4.prems"] a(5) e(2) fresh by blast
      have "card (U - dom (index s')) \<le> fuel"
        using card_unseen_le[OF U(1), of s s'] s'(2) a(5) by (auto simp: post_sc_def frame_def)
      then show ?thesis
        using "4.IH"(2)[OF fresh s'(1) "4.prems"] mid_call[OF a(1) e(1) s'(2)] s'(1) a(2,4) e(3) fresh by auto
    next
      case open_node
      then show ?thesis
        using "4.IH"(3)[OF open_node "4.prems"] mid_on_stack[OF a(1) open_node(2) e(1)] a(2,4,5) e(3)
        by auto
    next
      case popped
      then show ?thesis
        using "4.IH"(4)[OF popped "4.prems"] mid_popped[OF a(1) popped] a(2,4,5) e(3) by auto
    qed
  qed
qed

lemma strongconnect_dom:
  "strongconnect fuel adj v s = Some s' \<Longrightarrow> dom (index s') \<subseteq> dom (index s) \<union> {v} \<union> adj_targets adj"
  "connect_succs fuel adj v ws s = Some s' \<Longrightarrow>
   dom (index s') \<subseteq> dom (index s) \<union> set ws \<union> adj_targets adj"
proof (induction fuel adj v s and fuel adj v ws s arbitrary: s' and s'
    rule: strongconnect_connect_succs.induct)
  case (2 fuel adj v s)
  then obtain t where t: "connect_succs fuel adj v (adj_get adj v) (tarjan_enter v s) = Some t"
    "s' = tarjan_leave v t" by (auto split: option.splits)
  have "index (tarjan_leave v t) = index t"
    by (simp add: tarjan_leave_def split: prod.splits)
  with "2.IH"[OF t(1)] t(2) adj_get_targets[of adj v] show ?case by auto
next
  case (4 fuel adj v w ws s)
  show ?case
  proof (cases "index s w = None")
    case True
    with "4.prems" obtain t where t: "strongconnect fuel adj w s = Some t"
      "connect_succs fuel adj v ws (lower v (the (lowlink t w)) t) = Some s'" by (auto split: option.splits)
    from "4.IH"(1)[OF True t(1)] "4.IH"(2)[OF True t] show ?thesis
      unfolding lower_simps list.set by blast
  next
    case False
    with "4.prems" "4.IH"(3)[OF False] "4.IH"(4)[OF False] show ?thesis
      by (cases "on_stack s w") auto
  qed
qed auto

text \<open>Between two roots no call is open, so the stack is empty.\<close>

lemma tarjan_inv_init: "tarjan_inv E [] tarjan_init"
  by (simp add: tarjan_inv_defs tarjan_init_def)

lemma tarjan_inv_closed: "tarjan_inv E [] s \<Longrightarrow> stack s = []"
  by (cases "stack s") (auto simp: tarjan_inv_def reach_ok_def)

lemma tarjan_roots_post:
  assumes U: "finite U" "\<forall>v \<in> U. set (adj_get adj v) \<subseteq> U" "set vs \<subseteq> U"
    and fuel: "card U \<le> fuel" and inv: "tarjan_inv (edge_rel adj) [] s" and d: "dom (index s) \<subseteq> W"
    and W: "set vs \<union> adj_targets adj \<subseteq> W"
  shows "\<exists>s'. tarjan_roots fuel adj vs s = Some s' \<and> tarjan_inv (edge_rel adj) [] s' \<and>
     dom (index s) \<union> set vs \<subseteq> dom (index s') \<and> dom (index s') \<subseteq> W"
  using U(3) inv d W
proof (induction vs arbitrary: s)
  case Nil
  then show ?case by auto
next
  case (Cons v vs)
  show ?case
  proof (cases "index s v = None")
    case False
    then obtain n where n: "index s v = Some n" by auto
    from Cons.prems have "set vs \<subseteq> U" "set vs \<union> adj_targets adj \<subseteq> W" by auto
    then obtain s' where "tarjan_roots fuel adj vs s = Some s'" "tarjan_inv (edge_rel adj) [] s'"
      "dom (index s) \<union> set vs \<subseteq> dom (index s')" "dom (index s') \<subseteq> W"
      using Cons.IH[of s] Cons.prems(2,3) by blast
    moreover from this n have "v \<in> dom (index s')" by blast
    ultimately show ?thesis using n by auto
  next
    case True
    have "card (U - dom (index s)) \<le> fuel"
      using fuel card_mono[OF U(1), of "U - dom (index s)"] by auto
    moreover have "v \<in> U" "\<forall>g \<in> set []. (g, v) \<in> (edge_rel adj)\<^sup>*" using Cons.prems(1) by simp_all
    ultimately obtain t where t: "strongconnect fuel adj v s = Some t" "post_sc (edge_rel adj) [] v s t"
      using strongconnect_post(1)[OF U(1,2) refl, of s v fuel] Cons.prems(2) True by blast
    have ti: "tarjan_inv (edge_rel adj) [] t" and sub: "insert v (dom (index s)) \<subseteq> dom (index t)"
      using t(2) dom_mono[of s t] by (auto simp: post_sc_def frame_def subset_iff)
    have "dom (index t) \<subseteq> W"
      using strongconnect_dom(1)[OF t(1)] Cons.prems(3,4) unfolding list.set by blast
    moreover from Cons.prems have "set vs \<subseteq> U" "set vs \<union> adj_targets adj \<subseteq> W" by auto
    ultimately obtain s' where
      s': "tarjan_roots fuel adj vs t = Some s'" "tarjan_inv (edge_rel adj) [] s'"
      "dom (index t) \<union> set vs \<subseteq> dom (index s')" "dom (index s') \<subseteq> W"
      using Cons.IH[OF _ ti] by blast
    then have "dom (index s) \<union> set (v # vs) \<subseteq> dom (index s')" using sub unfolding list.set by blast
    with s' t(1) True show ?thesis by auto
  qed
qed

theorem tarjan_sccs_correct:
  obtains comps where "tarjan_sccs ks adj = Some comps" "\<forall>c \<in> set comps. is_scc (edge_rel adj) (set c)"
    "distinct (concat comps)" "set ks \<subseteq> set (concat comps)" "set (concat comps) \<subseteq> set ks \<union> adj_targets adj"
proof -
  let ?U = "set ks \<union> adj_targets adj"
  have "\<exists>s'. tarjan_roots (Suc (card ?U)) adj (sorted_set ks) tarjan_init = Some s' \<and>
     tarjan_inv (edge_rel adj) [] s' \<and>
     dom (index tarjan_init) \<union> set (sorted_set ks) \<subseteq> dom (index s') \<and> dom (index s') \<subseteq> ?U"
    by (rule tarjan_roots_post[of ?U, OF _ _ _ _ tarjan_inv_init])
      (use adj_get_targets[of adj] in \<open>auto simp: tarjan_init_def subset_iff\<close>)
  then obtain s' where s': "tarjan_roots (Suc (card ?U)) adj (sorted_set ks) tarjan_init = Some s'"
    "tarjan_inv (edge_rel adj) [] s'" "set ks \<subseteq> dom (index s')" "dom (index s') \<subseteq> ?U" by auto
  have d: "done_ok (edge_rel adj) [] s'" using s'(2) by (simp add: tarjan_inv_def)
  have u: "set (concat (components s')) = dom (index s')"
    using d tarjan_inv_closed[OF s'(2)] unfolding done_ok_def by simp
  show thesis
  proof (rule that)
    show "tarjan_sccs ks adj = Some (components s')" using s'(1) by (simp add: tarjan_sccs_def)
    show "\<forall>c \<in> set (components s'). is_scc (edge_rel adj) (set c)" using done_scc[OF d] by blast
    show "distinct (concat (components s'))" using d unfolding done_ok_def by blast
  qed (use s' u in auto)
qed

end
