(* ===== verification/Validator_Spec.thy ===== *)
theory Validator_Spec
  imports Tarjan
begin

text \<open>
  What \<open>validate_graph\<close> promises (\<open>packages/algorithm/policy_validator.py\<close>): a specification
  of a structurally sound policy graph in terms of its edge relation, and the proof that the
  checks return an empty list of issues exactly on the graphs that satisfy it.
\<close>

section \<open>The specification\<close>

definition mutual :: "('a \<times> 'a) set \<Rightarrow> 'a \<Rightarrow> 'a \<Rightarrow> bool" where
  "mutual E x y \<longleftrightarrow> (x, y) \<in> E\<^sup>* \<and> (y, x) \<in> E\<^sup>*"

definition no_dangling :: "policy_node list \<Rightarrow> policy_edge list \<Rightarrow> bool" where
  "no_dangling nodes edges \<longleftrightarrow>
     (\<forall>e \<in> set edges. from_node_key e \<in> set (node_keys nodes) \<and> to_node_key e \<in> set (node_keys nodes)) \<and>
     (\<forall>n \<in> set nodes. \<forall>fb. fallback_node_key n = Some fb \<longrightarrow> fb \<in> set (node_keys nodes))"

definition reach_sound :: "policy_node list \<Rightarrow> policy_edge list \<Rightarrow> bool" where
  "reach_sound nodes edges \<longleftrightarrow>
     (let K = set (node_keys nodes); E = graph_rel nodes edges
      in K \<noteq> {} \<and>
         (card K = 1 \<or>
          ((\<forall>k \<in> K. k \<in> Domain E \<or> k \<in> Range E) \<and>
           (\<forall>k \<in> K. \<exists>s \<in> K. s \<notin> Range E \<and> (s, k) \<in> E\<^sup>*) \<and>
           (\<exists>t \<in> K. t \<notin> Domain E))))"

definition exit_from :: "(string \<times> string) set \<Rightarrow> string \<Rightarrow> policy_node \<Rightarrow> bool" where
  "exit_from E x n \<longleftrightarrow> is_human n \<or>
     (\<exists>rp fb. retry_policy n = Some rp \<and> positive_int (jget rp ''max_attempts'') \<and>
        fallback_node_key n = Some fb \<and> \<not> mutual E x fb)"

definition cycles_exit :: "policy_node list \<Rightarrow> policy_edge list \<Rightarrow> bool" where
  "cycles_exit nodes edges \<longleftrightarrow>
     (let E = graph_rel nodes edges
      in \<forall>x. (x, x) \<in> E\<^sup>+ \<longrightarrow>
           (\<exists>y n. mutual E x y \<and> nodes_by_key nodes y = Some n \<and> exit_from E x n))"

definition contracts_agree :: "policy_node list \<Rightarrow> policy_edge list \<Rightarrow> bool" where
  "contracts_agree nodes edges \<longleftrightarrow>
     (\<forall>e \<in> set (clean_edges nodes edges). \<forall>a b k t u.
        nodes_by_key nodes (from_node_key e) = Some a \<and> nodes_by_key nodes (to_node_key e) = Some b \<and>
        map_of (output_contract a) k = Some t \<and> map_of (input_contract b) k = Some u \<longrightarrow> t = u)"

definition rules_tested :: "policy_node list \<Rightarrow> policy_edge list \<Rightarrow> bool" where
  "rules_tested nodes edges \<longleftrightarrow>
     (\<forall>n \<in> set nodes. node_type n = ''rule'' \<and> outgoing_edges edges (node_key n) \<noteq> [] \<longrightarrow>
        test_cases n \<noteq> [] \<and> list_all hashable (covers_conditions (test_cases n)) \<and>
        (\<forall>e \<in> set edges. \<forall>l. from_node_key e = node_key n \<and> condition_label e = Some l \<and> l \<noteq> [] \<longrightarrow>
           JStr l \<in> set (covers_conditions (test_cases n))))"

section \<open>Dangling references\<close>

lemma dangling_reference_iff: "dangling_reference_issues nodes edges = [] \<longleftrightarrow> no_dangling nodes edges"
  by (fastforce simp: dangling_reference_issues_def no_dangling_def dangling_edge_def
      dangling_fallback_def Let_def split: option.splits if_splits)

section \<open>Reachability\<close>

lemma reachable_from_starts:
  "set (reach_loop adj starts (rev starts)) = (edge_rel adj)\<^sup>* `` set starts"
  by (rule reach_loop_reachable) simp_all

lemma card_keys: "length (remdups xs) = card (set xs)"
  by (simp add: length_remdups_card_conv)

lemma reachability_iff:
  "reachability_issues nodes (graph_out nodes edges) (graph_in nodes edges) = [] \<longleftrightarrow>
   reach_sound nodes edges"
proof -
  let ?K = "set (node_keys nodes)" and ?E = "graph_rel nodes edges"
  let ?ks = "remdups (node_keys nodes)"
  consider (empty) "?K = {}" | (one) "card ?K = 1" | (many) "?K \<noteq> {}" "card ?K \<noteq> 1" by blast
  then show ?thesis
  proof cases
    case empty
    then show ?thesis by (simp add: reachability_issues_def reach_sound_def)
  next
    case one
    then have "?ks \<noteq> []" by auto
    with one show ?thesis by (simp add: reachability_issues_def reach_sound_def card_keys Let_def)
  next
    case many
    then have ks: "?ks \<noteq> []" "length ?ks \<noteq> 1" by (auto simp: card_keys)
    have seen: "set (reach_loop (graph_out nodes edges) xs (rev xs)) = ?E\<^sup>* `` set xs" for xs
      by (simp add: reachable_from_starts edge_rel_graph_out)
    show ?thesis
      using many ks
      by (simp add: reachability_issues_def reach_sound_def Let_def adj_get_graph_Nil seen
          filter_empty_conv) blast
  qed
qed

section \<open>Cycles\<close>

definition component_exit :: "(string \<rightharpoonup> policy_node) \<Rightarrow> string list \<Rightarrow> bool" where
  "component_exit f cs \<longleftrightarrow>
     (\<exists>k \<in> set cs. \<exists>n. f k = Some n \<and> (is_human n \<or> bounded_retry_exit cs n))"

lemma has_exit_total:
  "set ks \<subseteq> dom f \<Longrightarrow>
   has_exit f cs ks = Inr (\<exists>k \<in> set ks. \<exists>n. f k = Some n \<and> (is_human n \<or> bounded_retry_exit cs n))"
  by (induction ks) auto

lemma cycle_issues_of_total:
  assumes "\<forall>cs \<in> set css. set cs \<subseteq> dom f"
  shows "\<exists>iss. cycle_issues_of f adj css = Inr iss \<and> (iss = [] \<longleftrightarrow>
     (\<forall>cs \<in> set css. is_cycle adj cs \<longrightarrow> component_exit f cs))"
  using assms
proof (induction css)
  case (Cons cs css)
  then have "has_exit f cs cs = Inr (component_exit f cs)"
    by (simp add: has_exit_total component_exit_def)
  with Cons show ?case by (cases "component_exit f cs") auto
qed simp

lemma dom_nodes_by_key: "dom (nodes_by_key nodes) = set (node_keys nodes)"
  by (simp add: nodes_by_key_def dom_dict_of node_keys_def image_image)

lemma nodes_by_key_Some: "nodes_by_key nodes k = Some n \<Longrightarrow> n \<in> set nodes \<and> node_key n = k"
  by (auto simp: nodes_by_key_def dest: dict_of_Some)

lemma bounded_retry_exit_scc:
  assumes "is_scc E (set cs)" "x \<in> set cs"
  shows "is_human n \<or> bounded_retry_exit cs n \<longleftrightarrow> exit_from E x n"
  using assms
  by (auto simp: bounded_retry_exit_def exit_from_def is_scc_def mutual_def split: option.splits)

lemma scc_cycle:
  assumes scc: "is_scc (edge_rel adj) (set cs)" and d: "distinct cs" and x: "x \<in> set cs"
  shows "is_cycle adj cs \<longleftrightarrow> (x, x) \<in> (edge_rel adj)\<^sup>+"
proof
  assume c: "is_cycle adj cs"
  show "(x, x) \<in> (edge_rel adj)\<^sup>+"
  proof (cases "length cs > 1")
    case True
    then have "card (set cs) > 1" by (simp add: d distinct_card)
    moreover have "card (set cs) \<le> 1" if "set cs \<subseteq> {x}"
      using card_mono[OF _ that] by simp
    ultimately have "\<not> set cs \<subseteq> {x}" by linarith
    then obtain y where y: "y \<in> set cs" "y \<noteq> x" by auto
    then have "(x, y) \<in> (edge_rel adj)\<^sup>*" "(y, x) \<in> (edge_rel adj)\<^sup>*"
      using scc x unfolding is_scc_def by blast+
    with y(2) have "(x, y) \<in> (edge_rel adj)\<^sup>+" "(y, x) \<in> (edge_rel adj)\<^sup>*"
      by (auto dest: rtranclD)
    then show ?thesis by (rule trancl_rtrancl_trancl)
  next
    case False
    with x have "cs = [x]" by (cases cs) auto
    with c show ?thesis by (auto simp: is_cycle_def edge_rel_def)
  qed
next
  assume c: "(x, x) \<in> (edge_rel adj)\<^sup>+"
  show "is_cycle adj cs"
  proof (cases "length cs > 1")
    case False
    with x have cs: "cs = [x]" by (cases cs) auto
    from c obtain y where y: "(x, y) \<in> edge_rel adj" "(y, x) \<in> (edge_rel adj)\<^sup>*"
      by (meson tranclD)
    then have "y \<in> set cs" using scc x unfolding is_scc_def by blast
    with y cs show ?thesis by (simp add: is_cycle_def edge_rel_def)
  qed (simp add: is_cycle_def)
qed

lemma graph_out_targets: "adj_targets (graph_out nodes edges) \<subseteq> set (node_keys nodes)"
proof -
  have "distinct (map fst (fst (foldl adj_edge (a, b) es)))" if "distinct (map fst a)" for a b es
    using that by (induction es arbitrary: a b) (auto simp: adj_edge_def split: prod.splits)
  from this[of _ _ "_ @ _"] have "distinct (map fst (graph_out nodes edges))"
    unfolding graph_out_def build_adjacency_def Let_def by (simp add: comp_def del: foldl_append)
  then have "x \<in> set (adj_get (graph_out nodes edges) k)" if "(k, xs) \<in> set (graph_out nodes edges)" "x \<in> set xs"
    for x k xs using that by (simp add: adj_get_def)
  then show ?thesis
    by (fastforce simp: adj_targets_def graph_adjacency dest: graph_rel_keys)
qed

lemma cycle_issues_iff:
  "\<exists>iss. cycle_issues nodes (graph_out nodes edges) = Inr iss \<and> (iss = [] \<longleftrightarrow> cycles_exit nodes edges)"
proof -
  let ?adj = "graph_out nodes edges" and ?E = "graph_rel nodes edges" and ?f = "nodes_by_key nodes"
  obtain comps where t: "tarjan_sccs (node_keys nodes) ?adj = Some comps"
    "\<forall>c \<in> set comps. is_scc (edge_rel ?adj) (set c)" "distinct (concat comps)"
    "set (node_keys nodes) \<subseteq> set (concat comps)"
    "set (concat comps) \<subseteq> set (node_keys nodes) \<union> adj_targets ?adj"
    by (rule tarjan_sccs_correct)
  have keys: "\<forall>cs \<in> set comps. set cs \<subseteq> dom ?f"
    using t(5) graph_out_targets[of nodes edges] by (auto simp: dom_nodes_by_key)
  have d: "cs \<in> set comps \<Longrightarrow> distinct cs" for cs using t(3) by (simp add: distinct_concat_iff)
  have step: "(is_cycle ?adj cs \<longrightarrow> component_exit ?f cs) \<longleftrightarrow>
      ((x, x) \<in> ?E\<^sup>+ \<longrightarrow> (\<exists>y n. mutual ?E x y \<and> ?f y = Some n \<and> exit_from ?E x n))"
    if cs: "cs \<in> set comps" and x: "x \<in> set cs" for cs x
  proof -
    have scc: "is_scc (edge_rel ?adj) (set cs)" using t(2) cs by blast
    have "y \<in> set cs \<longleftrightarrow> mutual ?E x y" for y
      using scc x by (simp add: is_scc_def mutual_def edge_rel_graph_out)
    then show ?thesis
      using scc_cycle[OF scc d[OF cs] x] bounded_retry_exit_scc[OF scc x]
      by (auto simp: edge_rel_graph_out component_exit_def)
  qed
  have "(\<forall>cs \<in> set comps. is_cycle ?adj cs \<longrightarrow> component_exit ?f cs) \<longleftrightarrow> cycles_exit nodes edges"
    (is "?l \<longleftrightarrow> ?r")
  proof
    assume l: ?l
    show ?r unfolding cycles_exit_def Let_def
    proof (intro allI impI)
      fix x assume x: "(x, x) \<in> ?E\<^sup>+"
      then have "x \<in> set (node_keys nodes)" by (meson graph_rel_keys tranclD)
      with t(4) obtain cs where "cs \<in> set comps" "x \<in> set cs" by auto
      with step[OF this] l x
      show "\<exists>y n. mutual ?E x y \<and> ?f y = Some n \<and> exit_from ?E x n" by blast
    qed
  next
    assume r: ?r
    show ?l
    proof
      fix cs assume cs: "cs \<in> set comps"
      with t(2) have "set cs \<noteq> {}" by (simp add: is_scc_def)
      then obtain x where x: "x \<in> set cs" by (meson equals0I)
      from r have "(x, x) \<in> ?E\<^sup>+ \<longrightarrow> (\<exists>y n. mutual ?E x y \<and> ?f y = Some n \<and> exit_from ?E x n)"
        unfolding cycles_exit_def Let_def by blast
      with step[OF cs x]
      show "is_cycle ?adj cs \<longrightarrow> component_exit ?f cs" by blast
    qed
  qed
  with cycle_issues_of_total[OF keys, of ?adj] t(1) show ?thesis
    by (auto simp: cycle_issues_def)
qed

section \<open>Contracts and branch coverage\<close>

lemma io_mismatch_iff:
  assumes "f (from_node_key e) = Some a" "f (to_node_key e) = Some b"
  shows "\<exists>iss. io_mismatch f e = Inr iss \<and> (iss = [] \<longleftrightarrow>
     (\<forall>k t u. map_of (output_contract a) k = Some t \<and> map_of (input_contract b) k = Some u \<longrightarrow> t = u))"
proof -
  have k: "k \<in> fst ` set d \<longleftrightarrow> (\<exists>t. map_of d k = Some t)" for k and d :: "(string \<times> string) list"
    by (metis dom_map_of_conv_image_fst domIff not_None_eq)
  show ?thesis
    using assms by (auto simp: io_mismatch_def Let_def filter_empty_conv k)
qed

lemma io_type_mismatch_iff:
  "\<exists>iss. io_type_mismatch_issues nodes (clean_edges nodes edges) = Inr iss \<and>
     (iss = [] \<longleftrightarrow> contracts_agree nodes edges)"
proof -
  have "\<forall>e \<in> set es. from_node_key e \<in> dom f \<and> to_node_key e \<in> dom f \<Longrightarrow>
    \<exists>iss. io_type_mismatch_issues_of f es = Inr iss \<and> (iss = [] \<longleftrightarrow>
      (\<forall>e \<in> set es. \<forall>a b k t u. f (from_node_key e) = Some a \<and> f (to_node_key e) = Some b \<and>
        map_of (output_contract a) k = Some t \<and> map_of (input_contract b) k = Some u \<longrightarrow> t = u))" for es f
  proof (induction es)
    case (Cons e es)
    then obtain a b where ab: "f (from_node_key e) = Some a" "f (to_node_key e) = Some b" by auto
    obtain is1 where "io_mismatch f e = Inr is1" "is1 = [] \<longleftrightarrow>
     (\<forall>k t u. map_of (output_contract a) k = Some t \<and> map_of (input_contract b) k = Some u \<longrightarrow> t = u)"
      using io_mismatch_iff[OF ab] by blast
    moreover from Cons.prems have p: "\<forall>e \<in> set es. from_node_key e \<in> dom f \<and> to_node_key e \<in> dom f" by simp
    from Cons.IH[OF p] obtain is2 where "io_type_mismatch_issues_of f es = Inr is2" "is2 = [] \<longleftrightarrow>
      (\<forall>e \<in> set es. \<forall>a b k t u. f (from_node_key e) = Some a \<and> f (to_node_key e) = Some b \<and>
        map_of (output_contract a) k = Some t \<and> map_of (input_contract b) k = Some u \<longrightarrow> t = u)"
      by (elim exE conjE)
    ultimately show ?case using ab by simp
  qed simp
  from this[of "clean_edges nodes edges" "nodes_by_key nodes"] show ?thesis
    unfolding io_type_mismatch_issues_def contracts_agree_def
    by (simp add: dom_nodes_by_key) (simp add: clean_edges_def)
qed

lemma set_branch_labels:
  "l \<in> set (branch_labels es) \<longleftrightarrow> (\<exists>e \<in> set es. condition_label e = Some l \<and> l \<noteq> [])"
  by (force simp: branch_labels_def split: option.splits if_splits)

lemma node_coverage_iff:
  "node_coverage edges n = Inr [] \<longleftrightarrow>
     (node_type n = ''rule'' \<and> outgoing_edges edges (node_key n) \<noteq> [] \<longrightarrow>
        test_cases n \<noteq> [] \<and> list_all hashable (covers_conditions (test_cases n)) \<and>
        (\<forall>e \<in> set edges. \<forall>l. from_node_key e = node_key n \<and> condition_label e = Some l \<and> l \<noteq> [] \<longrightarrow>
           JStr l \<in> set (covers_conditions (test_cases n))))"
  by (auto simp: node_coverage_def Let_def filter_empty_conv set_branch_labels outgoing_edges_def)

lemma check_branch_coverage_iff: "check_branch_coverage nodes edges = Inr [] \<longleftrightarrow> rules_tested nodes edges"
proof -
  have "check_branch_coverage ns edges = Inr [] \<longleftrightarrow> (\<forall>n \<in> set ns. node_coverage edges n = Inr [])" for ns
    by (induction ns) (auto split: sum.splits)
  then show ?thesis by (simp add: node_coverage_iff rules_tested_def)
qed

lemma check_branch_coverage_error:
  "(\<exists>x. check_branch_coverage nodes edges = Inl x) \<longleftrightarrow>
   (\<exists>n \<in> set nodes. node_type n = ''rule'' \<and> outgoing_edges edges (node_key n) \<noteq> [] \<and>
      \<not> list_all hashable (covers_conditions (test_cases n)))"
proof -
  have "(\<exists>x. node_coverage edges n = Inl x) \<longleftrightarrow> node_type n = ''rule'' \<and>
      outgoing_edges edges (node_key n) \<noteq> [] \<and> \<not> list_all hashable (covers_conditions (test_cases n))" for n
    by (cases "test_cases n = []") (auto simp: node_coverage_def Let_def covers_conditions_def)
  moreover have "(\<exists>x. check_branch_coverage ns edges = Inl x) \<longleftrightarrow> (\<exists>n \<in> set ns. \<exists>x. node_coverage edges n = Inl x)" for ns
    by (induction ns) (auto split: sum.splits)
  ultimately show ?thesis by simp
qed

section \<open>The verdict\<close>

definition sound_graph :: "policy_node list \<Rightarrow> policy_edge list \<Rightarrow> bool" where
  "sound_graph nodes edges \<longleftrightarrow>
     no_dangling nodes edges \<and> reach_sound nodes edges \<and> cycles_exit nodes edges \<and>
     contracts_agree nodes edges \<and> rules_tested nodes edges"

lemma validate_graph_structure_total:
  "\<exists>iss. validate_graph_structure nodes edges = Inr iss \<and>
     (iss = [] \<longleftrightarrow> no_dangling nodes edges \<and> reach_sound nodes edges \<and> cycles_exit nodes edges \<and>
        contracts_agree nodes edges)"
proof -
  obtain cy io where "cycle_issues nodes (graph_out nodes edges) = Inr cy"
    "cy = [] \<longleftrightarrow> cycles_exit nodes edges"
    "io_type_mismatch_issues nodes (clean_edges nodes edges) = Inr io"
    "io = [] \<longleftrightarrow> contracts_agree nodes edges"
    using cycle_issues_iff io_type_mismatch_iff by metis
  moreover have "build_adjacency nodes (clean_edges nodes edges) = (graph_out nodes edges, graph_in nodes edges)"
    by (simp add: graph_out_def graph_in_def)
  ultimately show ?thesis
    by (simp add: validate_graph_structure_def Let_def dangling_reference_iff reachability_iff)
qed

lemma validate_graph_sound_iff: "validate_graph nodes edges = Inr [] \<longleftrightarrow> sound_graph nodes edges"
proof -
  obtain iss where "validate_graph_structure nodes edges = Inr iss"
    "iss = [] \<longleftrightarrow> no_dangling nodes edges \<and> reach_sound nodes edges \<and> cycles_exit nodes edges \<and>
        contracts_agree nodes edges"
    using validate_graph_structure_total by blast
  then show ?thesis
    by (auto simp: validate_graph_def sound_graph_def check_branch_coverage_iff[symmetric] split: sum.splits)
qed

lemma validate_graph_error:
  "(\<exists>x. validate_graph nodes edges = Inl x) \<longleftrightarrow>
   (\<exists>n \<in> set nodes. node_type n = ''rule'' \<and> outgoing_edges edges (node_key n) \<noteq> [] \<and>
      \<not> list_all hashable (covers_conditions (test_cases n)))"
proof -
  obtain iss where "validate_graph_structure nodes edges = Inr iss"
    using validate_graph_structure_total by blast
  then show ?thesis
    by (auto simp: validate_graph_def check_branch_coverage_error[symmetric] split: sum.splits)
qed

end
