(* ===== verification/Systems.thy ===== *)
theory Systems
  imports Prelude
begin

text \<open>
  The interfaces that the stateful components share. A component is a set of operations on a
  state, run in any order and any number of times; what it promises is an invariant of the
  reachable states, and for the history tables that they only ever grow.
\<close>

section \<open>Reachable states\<close>

inductive reachable :: "('s \<Rightarrow> bool) \<Rightarrow> ('s \<Rightarrow> 's \<Rightarrow> bool) \<Rightarrow> 's \<Rightarrow> bool"
  for start :: "'s \<Rightarrow> bool" and step :: "'s \<Rightarrow> 's \<Rightarrow> bool" where
  initially: "start s \<Longrightarrow> reachable start step s"
| stepwise: "reachable start step s \<Longrightarrow> step s t \<Longrightarrow> reachable start step t"

locale invariant_system =
  fixes start :: "'s \<Rightarrow> bool" and step :: "'s \<Rightarrow> 's \<Rightarrow> bool" and inv :: "'s \<Rightarrow> bool"
  assumes start_inv: "start s \<Longrightarrow> inv s"
    and step_inv: "inv s \<Longrightarrow> step s t \<Longrightarrow> inv t"
begin

lemma reachable_inv: "reachable start step s \<Longrightarrow> inv s"
  by (induction rule: reachable.induct) (auto intro: start_inv step_inv)

lemma steps_inv: "step\<^sup>*\<^sup>* s t \<Longrightarrow> inv s \<Longrightarrow> inv t"
  by (induction rule: rtranclp_induct) (auto intro: step_inv)

end

section \<open>Histories\<close>

definition extends :: "'a list \<Rightarrow> 'a list \<Rightarrow> bool" where
  "extends xs ys \<longleftrightarrow> (\<exists>zs. ys = xs @ zs)"

lemma extends_refl [simp]: "extends xs xs"
  by (simp add: extends_def)

lemma extends_append [simp]: "extends xs (xs @ ys)"
  by (simp add: extends_def)

lemma extends_trans: "extends xs ys \<Longrightarrow> extends ys zs \<Longrightarrow> extends xs zs"
  by (auto simp: extends_def)

lemma extends_filter: "extends xs ys \<Longrightarrow> extends (filter p xs) (filter p ys)"
  by (auto simp: extends_def)

locale append_only =
  fixes step :: "'s \<Rightarrow> 's \<Rightarrow> bool" and history :: "'s \<Rightarrow> 'e list"
  assumes step_extends: "step s t \<Longrightarrow> extends (history s) (history t)"
begin

lemma steps_extend: "step\<^sup>*\<^sup>* s t \<Longrightarrow> extends (history s) (history t)"
  by (induction rule: rtranclp_induct) (auto intro: extends_trans step_extends)

lemma kept_forever: "step\<^sup>*\<^sup>* s t \<Longrightarrow> e \<in> set (history s) \<Longrightarrow> e \<in> set (history t)"
  using steps_extend[of s t] by (auto simp: extends_def)

end

section \<open>Operations that keep a state predicate, from every state\<close>

text \<open>
  \<open>does R m\<close>: the statement leads from \<open>s\<close> to a state that \<open>R s\<close> accepts, whether it returns or
  raises. For a reflexive and transitive \<open>R\<close> the rules below push it through a program.
\<close>

definition does :: "('s \<Rightarrow> 's \<Rightarrow> bool) \<Rightarrow> ('s, 'e, 'a) db \<Rightarrow> bool" where
  "does R m \<longleftrightarrow> (\<forall>s. R s (snd (m s)))"

locale preorder_rel =
  fixes R :: "'s \<Rightarrow> 's \<Rightarrow> bool"
  assumes refl: "R s s" and trans: "R s t \<Longrightarrow> R t u \<Longrightarrow> R s u"
begin

lemma does_ret: "does R (ret x)" and does_raise: "does R (raise e)"
  and does_gets: "does R (gets f)" and does_guard: "does R (guard b e)"
  by (simp_all add: does_def refl)

lemma does_bind: "does R m \<Longrightarrow> (\<And>x. does R (k x)) \<Longrightarrow> does R (bind m k)"
proof -
  assume m: "does R m" and k: "\<And>x. does R (k x)"
  have "R s (snd (bind m k s))" for s
  proof (cases "m s")
    case (Pair r t)
    with m have st: "R s t" by (metis does_def snd_conv)
    with k Pair show ?thesis
      by (cases r) (auto simp: bind_eq does_def intro: trans)
  qed
  then show ?thesis by (simp add: does_def)
qed

lemma does_then: "does R m \<Longrightarrow> does R k \<Longrightarrow> does R (then_db m k)"
  by (simp add: then_db_def does_bind)

lemma does_for_each: "(\<And>x. x \<in> set xs \<Longrightarrow> does R (f x)) \<Longrightarrow> does R (for_each f xs)"
  by (induction xs) (auto intro: does_ret does_then)

lemma does_transaction: "does R m \<Longrightarrow> does R (transaction m)"
proof -
  assume m: "does R m"
  have "R s (snd (transaction m s))" for s
  proof (cases "m s")
    case (Pair r t)
    with m have "R s t" by (metis does_def snd_conv)
    with Pair show ?thesis by (cases r) (auto simp: transaction_def refl)
  qed
  then show ?thesis by (simp add: does_def)
qed

lemmas does_rules = does_ret does_raise does_gets does_guard does_bind does_then does_for_each
  does_transaction

end

end
