(* ===== verification/Policy_Store.thy ===== *)
theory Policy_Store
  imports Validator_Spec Systems
begin

text \<open>
  The policy tables and the statements of \<open>packages/algorithm/policy_store.py\<close> and
  \<open>packages/algorithm/research_dossier_store.py\<close>, with the constraints of the migrations 0018
  and 0019 as errors of the statement that would violate them.

  A table is a list in the order of its ids. An id comes from a counter of its table (the
  database's sequences may leave gaps, which nothing here depends on). The \<open>created_at\<close> columns,
  which only the display uses, are left out, and a JSON column holds the decoded value.
\<close>

section \<open>The tables\<close>

record research_dossier =
  decision_statement :: string
  owners :: "string list"
  approvers :: "string list"
  source_register :: "jobject list"
  assumptions :: "string list"
  data_dictionary :: "(string \<times> string) list"
  formula_or_decision_table :: jobject
  coefficients_and_rationale :: jobject
  validation_design :: jobject
  test_dataset_manifest :: jobject
  results_and_limitations :: jobject
  security_privacy_analysis :: jobject
  monitoring_criteria :: jobject
  retirement_criteria :: jobject
  rd_created_by :: string
  fairness_analysis :: "jobject option"
  approved_at :: "string option"
  effective_from :: "string option"

record dossier_row =
  dr_dossier :: research_dossier
  dr_approved_at :: "int option"
  dr_effective_from :: "int option"

record policy_db =
  policy_graphs :: "(int \<times> policy_graph) list"
  policy_versions :: "(int \<times> policy_version) list"
  policy_version_transitions :: "policy_version_transition list"
  policy_nodes :: "policy_node list"
  policy_edges :: "policy_edge list"
  research_dossiers :: "(int \<times> dossier_row) list"
  role_names :: "string list"
  graph_seq :: int
  version_seq :: int
  dossier_seq :: int

datatype store_error =
    NoSuchVersion int
  | ImmutableVersion int string
  | InvalidTransition string string
  | GraphInvalid "issue list"
  | MakerCheckerViolation string
  | EmptyReason
  | NotActive int string
  | ModelError model_error
  | DossierError string
  | IntegrityError string
  | DataError
  | MultipleResultsFound
  | Uncaught py_exc

type_synonym 'a policy_op = "(policy_db, store_error, 'a) db"

text \<open>A PostgreSQL \<open>INTEGER\<close>.\<close>

definition int4 :: "int \<Rightarrow> bool" where
  "int4 n \<longleftrightarrow> - (2 ^ 31) \<le> n \<and> n < 2 ^ 31"

definition lift_model :: "model_error + 'a \<Rightarrow> 'a policy_op" where
  "lift_model r = (case r of Inl e \<Rightarrow> raise (ModelError e) | Inr x \<Rightarrow> ret x)"

fun map_model :: "('a \<Rightarrow> model_error + 'b) \<Rightarrow> 'a list \<Rightarrow> model_error + 'b list" where
  "map_model f [] = Inr []"
| "map_model f (x # xs) =
     (case f x of Inl e \<Rightarrow> Inl e
      | Inr y \<Rightarrow> (case map_model f xs of Inl e \<Rightarrow> Inl e | Inr ys \<Rightarrow> Inr (y # ys)))"

section \<open>Reading\<close>

definition get_version :: "policy_db \<Rightarrow> int \<Rightarrow> policy_version option" where
  "get_version s i = map_of (policy_versions s) i"

definition list_nodes :: "policy_db \<Rightarrow> int \<Rightarrow> policy_node list" where
  "list_nodes s i = filter (\<lambda>n. pn_version_id n = i) (policy_nodes s)"

definition list_edges :: "policy_db \<Rightarrow> int \<Rightarrow> policy_edge list" where
  "list_edges s i = filter (\<lambda>e. pe_version_id e = i) (policy_edges s)"

definition list_versions_by_graph :: "policy_db \<Rightarrow> int \<Rightarrow> (int \<times> policy_version) list" where
  "list_versions_by_graph s g =
     sort_key (pv_version_number \<circ> snd) (filter (\<lambda>(i, v). pv_graph_id v = g) (policy_versions s))"

definition list_transitions_by_version :: "policy_db \<Rightarrow> int \<Rightarrow> policy_version_transition list" where
  "list_transitions_by_version s i = filter (\<lambda>t. pt_version_id t = i) (policy_version_transitions s)"

definition list_all_active_versions :: "policy_db \<Rightarrow> (int \<times> string \<times> policy_version) list" where
  "list_all_active_versions s =
     sort_key (fst \<circ> snd)
       (concat (map (\<lambda>(i, v). if pv_status v = ''active''
          then map (\<lambda>(g, gr). (i, pg_name gr, v)) (filter (\<lambda>(g, gr). g = pv_graph_id v) (policy_graphs s))
          else []) (policy_versions s)))"

definition get_version_status :: "int \<Rightarrow> string policy_op" where
  "get_version_status i =
     bind (gets (\<lambda>s. get_version s i)) (\<lambda>r.
       case r of None \<Rightarrow> raise (NoSuchVersion i) | Some v \<Rightarrow> ret (pv_status v))"

section \<open>Creating content\<close>

definition create_policy_graph :: "policy_graph \<Rightarrow> int policy_op" where
  "create_policy_graph g =
     bind (gets graph_seq) (\<lambda>i.
     then_db (modify (\<lambda>s. s\<lparr>policy_graphs := policy_graphs s @ [(i, g)], graph_seq := i + 1\<rparr>))
     (ret i))"

definition insert_version :: "policy_version \<Rightarrow> int policy_op" where
  "insert_version v =
     then_db (guard (int4 (pv_version_number v)) DataError) (
     bind (gets id) (\<lambda>s.
     then_db (guard (pv_graph_id v \<in> fst ` set (policy_graphs s)) (IntegrityError ''policy_graph_id'')) (
     then_db (guard (\<forall>(j, w) \<in> set (policy_versions s).
         (pv_graph_id w, pv_version_number w) \<noteq> (pv_graph_id v, pv_version_number v))
       (IntegrityError ''policy_graph_id, version_number'')) (
     bind (gets version_seq) (\<lambda>i.
     then_db (modify (\<lambda>s. s\<lparr>policy_versions := policy_versions s @ [(i, v)], version_seq := i + 1\<rparr>))
     (ret i))))))"

definition create_draft_version :: "int \<Rightarrow> int \<Rightarrow> string \<Rightarrow> int policy_op" where
  "create_draft_version graph_id version_number created_by =
     bind (lift_model (mk_policy_version
       \<lparr>pv_graph_id = graph_id, pv_version_number = version_number, pv_status = ''draft'',
        pv_created_by = created_by, pv_research_dossier_id = None\<rparr>)) insert_version"

definition assert_content_mutable :: "int \<Rightarrow> unit policy_op" where
  "assert_content_mutable i =
     bind (get_version_status i) (\<lambda>st. guard (st \<notin> set IMMUTABLE_STATUSES) (ImmutableVersion i st))"

definition insert_node :: "policy_node \<Rightarrow> unit policy_op" where
  "insert_node n =
     bind (gets id) (\<lambda>s.
     then_db (guard (case timeout_seconds n of None \<Rightarrow> True | Some t \<Rightarrow> int4 t) DataError) (
     then_db (guard (pn_version_id n \<in> fst ` set (policy_versions s)) (IntegrityError ''policy_version_id'')) (
     then_db (guard (node_type n \<in> set NODE_TYPES) (IntegrityError ''node_type'')) (
     then_db (guard (\<forall>m \<in> set (policy_nodes s).
         (pn_version_id m, node_key m) \<noteq> (pn_version_id n, node_key n))
       (IntegrityError ''policy_version_id, node_key''))
     (modify (\<lambda>s. s\<lparr>policy_nodes := policy_nodes s @ [n]\<rparr>))))))"

definition add_nodes :: "policy_node list \<Rightarrow> unit policy_op" where
  "add_nodes ns =
     (if ns = [] then ret ()
      else then_db (assert_content_mutable (pn_version_id (hd ns))) (for_each insert_node ns))"

definition insert_edge :: "policy_edge \<Rightarrow> unit policy_op" where
  "insert_edge e =
     bind (gets id) (\<lambda>s.
     then_db (guard (pe_version_id e \<in> fst ` set (policy_versions s)) (IntegrityError ''policy_version_id''))
     (modify (\<lambda>s. s\<lparr>policy_edges := policy_edges s @ [e]\<rparr>)))"

definition add_edges :: "policy_edge list \<Rightarrow> unit policy_op" where
  "add_edges es =
     (if es = [] then ret ()
      else then_db (assert_content_mutable (pe_version_id (hd es))) (for_each insert_edge es))"

definition nodes_for_reconstruction :: "int \<Rightarrow> policy_node list \<Rightarrow> model_error + policy_node list" where
  "nodes_for_reconstruction i ns = map_model (\<lambda>n. mk_policy_node (n\<lparr>pn_version_id := i\<rparr>)) ns"

definition edges_for_reconstruction :: "int \<Rightarrow> policy_edge list \<Rightarrow> model_error + policy_edge list" where
  "edges_for_reconstruction i es = map_model (\<lambda>e. mk_policy_edge (e\<lparr>pe_version_id := i\<rparr>)) es"

definition fork_new_draft_version :: "int \<Rightarrow> string \<Rightarrow> int policy_op" where
  "fork_new_draft_version from_id created_by =
     bind (gets (\<lambda>s. get_version s from_id)) (\<lambda>row.
     case row of
       None \<Rightarrow> raise (NoSuchVersion from_id)
     | Some v \<Rightarrow>
         bind (create_draft_version (pv_graph_id v) (pv_version_number v + 1) created_by) (\<lambda>new_id.
         bind (gets (\<lambda>s. list_nodes s from_id)) (\<lambda>ns.
         then_db (if ns = [] then ret ()
                  else bind (lift_model (nodes_for_reconstruction new_id ns)) add_nodes) (
         bind (gets (\<lambda>s. list_edges s from_id)) (\<lambda>es.
         then_db (if es = [] then ret ()
                  else bind (lift_model (edges_for_reconstruction new_id es)) add_edges)
         (ret new_id))))))"

section \<open>The lifecycle\<close>

definition set_status :: "int \<Rightarrow> string \<Rightarrow> policy_db \<Rightarrow> policy_db" where
  "set_status i st s =
     s\<lparr>policy_versions := update_row i (\<lambda>v. v\<lparr>pv_status := st\<rparr>) (policy_versions s)\<rparr>"

definition other_active :: "policy_db \<Rightarrow> int \<Rightarrow> bool" where
  "other_active s i =
     (\<exists>(j, w) \<in> set (policy_versions s). j \<noteq> i \<and> pv_status w = ''active'' \<and>
        (\<exists>(k, v) \<in> set (policy_versions s). k = i \<and> pv_graph_id v = pv_graph_id w))"

definition update_status :: "int \<Rightarrow> string \<Rightarrow> unit policy_op" where
  "update_status i st =
     bind (gets id) (\<lambda>s.
     then_db (guard (\<not> (st = ''active'' \<and> other_active s i)) (IntegrityError ''policy_versions_one_active_per_graph''))
     (modify (set_status i st)))"

definition transition_version_status :: "int \<Rightarrow> string \<Rightarrow> string \<Rightarrow> string option \<Rightarrow> unit policy_op" where
  "transition_version_status i to who why =
     bind (get_version_status i) (\<lambda>st.
     then_db (guard (can_transition st to) (InvalidTransition st to)) (
     then_db (update_status i to)
     (modify (\<lambda>s. s\<lparr>policy_version_transitions := policy_version_transitions s @
       [\<lparr>pt_version_id = i, from_status = st, to_status = to, changed_by = who, reason = why\<rparr>]\<rparr>))))"

definition required_roles :: "policy_node list \<Rightarrow> string list" where
  "required_roles ns =
     concat (map (\<lambda>n. case required_role n of None \<Rightarrow> [] | Some r \<Rightarrow> if r = [] then [] else [r]) ns)"

definition unknown_role_issues :: "policy_db \<Rightarrow> policy_node list \<Rightarrow> issue list" where
  "unknown_role_issues s ns =
     map (\<lambda>r. mk_issue ''unknown_role'' [r] None)
       (sorted_set (filter (\<lambda>r. r \<notin> set (role_names s)) (required_roles ns)))"

definition dossier_approved :: "policy_db \<Rightarrow> int \<Rightarrow> bool" where
  "dossier_approved s i =
     (case get_version s i of
        None \<Rightarrow> False
      | Some v \<Rightarrow>
          (case pv_research_dossier_id v of
             None \<Rightarrow> False
           | Some d \<Rightarrow> (case map_of (research_dossiers s) d of None \<Rightarrow> False | Some row \<Rightarrow> dr_approved_at row \<noteq> None)))"

definition missing_dossier_issues :: "policy_db \<Rightarrow> int \<Rightarrow> policy_node list \<Rightarrow> issue list" where
  "missing_dossier_issues s i ns =
     (if \<not> list_ex financial_impact ns then []
      else if \<not> dossier_approved s i then [mk_issue ''missing_approved_dossier'' [] None]
      else [])"

definition submit_for_approval :: "int \<Rightarrow> string \<Rightarrow> string option \<Rightarrow> unit policy_op" where
  "submit_for_approval i who why =
     bind (gets id) (\<lambda>s.
     let ns = list_nodes s i; es = list_edges s i
     in case validate_graph ns es of
          Inl x \<Rightarrow> raise (Uncaught x)
        | Inr iss \<Rightarrow>
            let issues = iss @ unknown_role_issues s ns @ missing_dossier_issues s i ns
            in then_db (guard (issues = []) (GraphInvalid issues))
                 (transition_version_status i ''approved'' who why))"

definition active_ids :: "policy_db \<Rightarrow> int \<Rightarrow> int list" where
  "active_ids s g =
     map fst (filter (\<lambda>(i, v). pv_graph_id v = g \<and> pv_status v = ''active'') (policy_versions s))"

definition superseded_reason :: "int \<Rightarrow> string" where
  "superseded_reason i = ''superseded by activation of policy_version '' @ str_int i"

definition activate_version :: "int \<Rightarrow> string \<Rightarrow> string option \<Rightarrow> unit policy_op" where
  "activate_version i who why =
     bind (gets id) (\<lambda>s.
     case get_version s i of
       None \<Rightarrow> raise (NoSuchVersion i)
     | Some v \<Rightarrow>
         then_db (guard (\<not> (list_ex financial_impact (list_nodes s i) \<and> who = pv_created_by v))
           (MakerCheckerViolation who)) (
         then_db
           (case active_ids s (pv_graph_id v) of
              [] \<Rightarrow> ret ()
            | [j] \<Rightarrow> if j \<noteq> i
                then transition_version_status j ''suspended'' who (Some (superseded_reason i))
                else ret ()
            | _ \<Rightarrow> raise MultipleResultsFound)
         (transition_version_status i ''active'' who why)))"

definition kill_switch :: "int \<Rightarrow> string \<Rightarrow> string \<Rightarrow> unit policy_op" where
  "kill_switch i who why =
     then_db (guard (\<not> blank why) EmptyReason) (
     bind (get_version_status i) (\<lambda>st.
     then_db (guard (st = ''active'') (NotActive i st))
     (transition_version_status i ''suspended'' who (Some why))))"

section \<open>Research dossiers\<close>

definition mk_research_dossier :: "research_dossier \<Rightarrow> store_error + research_dossier" where
  "mk_research_dossier d =
     (if blank (decision_statement d) then Inl (DossierError ''decision_statement'')
      else if owners d = [] then Inl (DossierError ''owners'')
      else if approvers d = [] then Inl (DossierError ''approvers'')
      else if source_register d = [] then Inl (DossierError ''source_register'')
      else Inr d)"

text \<open>\<open>datetime.fromisoformat\<close> is the argument \<open>fromiso\<close>; \<open>None\<close> is its \<open>ValueError\<close>.\<close>

definition parse_ts :: "(string \<Rightarrow> int option) \<Rightarrow> string option \<Rightarrow> int option policy_op" where
  "parse_ts fromiso v =
     (case v of None \<Rightarrow> ret None
      | Some x \<Rightarrow> (case fromiso x of None \<Rightarrow> raise (DossierError x) | Some t \<Rightarrow> ret (Some t)))"

definition store_research_dossier :: "(string \<Rightarrow> int option) \<Rightarrow> research_dossier \<Rightarrow> int policy_op" where
  "store_research_dossier fromiso d =
     bind (parse_ts fromiso (approved_at d)) (\<lambda>a.
     bind (parse_ts fromiso (effective_from d)) (\<lambda>f.
     bind (gets dossier_seq) (\<lambda>i.
     then_db (modify (\<lambda>s. s\<lparr>research_dossiers := research_dossiers s @
         [(i, \<lparr>dr_dossier = d, dr_approved_at = a, dr_effective_from = f\<rparr>)], dossier_seq := i + 1\<rparr>))
     (ret i))))"

definition link_dossier_to_version :: "int \<Rightarrow> int \<Rightarrow> unit policy_op" where
  "link_dossier_to_version i d =
     bind (gets id) (\<lambda>s.
     then_db (guard (i \<in> fst ` set (policy_versions s) \<longrightarrow> d \<in> fst ` set (research_dossiers s))
       (IntegrityError ''policy_versions_research_dossier_fk''))
     (modify (\<lambda>s. s\<lparr>policy_versions := update_row i (\<lambda>v. v\<lparr>pv_research_dossier_id := Some d\<rparr>)
        (policy_versions s)\<rparr>)))"

definition get_research_dossier :: "policy_db \<Rightarrow> int \<Rightarrow> dossier_row option" where
  "get_research_dossier s d = map_of (research_dossiers s) d"

section \<open>Any sequence of calls\<close>

text \<open>
  The calls a client can make, each in its own transaction (\<open>get_connection\<close> commits or rolls
  back). The roles are edited elsewhere; here they may change arbitrarily between two calls.
\<close>

datatype policy_call =
    CreateGraph policy_graph
  | CreateDraft int int string
  | AddNodes "policy_node list"
  | AddEdges "policy_edge list"
  | Fork int string
  | Transition int string string "string option"
  | Submit int string "string option"
  | Activate int string "string option"
  | Kill int string string
  | StoreDossier "string \<Rightarrow> int option" research_dossier
  | LinkDossier int int
  | RolesEdited "string list"

fun exec_call :: "policy_call \<Rightarrow> unit policy_op" where
  "exec_call (CreateGraph g) = bind (create_policy_graph g) (\<lambda>_. ret ())"
| "exec_call (CreateDraft g n who) = bind (create_draft_version g n who) (\<lambda>_. ret ())"
| "exec_call (AddNodes ns) = bind (lift_model (map_model mk_policy_node ns)) add_nodes"
| "exec_call (AddEdges es) = bind (lift_model (map_model mk_policy_edge es)) add_edges"
| "exec_call (Fork i who) = bind (fork_new_draft_version i who) (\<lambda>_. ret ())"
| "exec_call (Transition i to who why) = transition_version_status i to who why"
| "exec_call (Submit i who why) = submit_for_approval i who why"
| "exec_call (Activate i who why) = activate_version i who why"
| "exec_call (Kill i who why) = kill_switch i who why"
| "exec_call (StoreDossier fromiso d) =
     (case mk_research_dossier d of Inl e \<Rightarrow> raise e
      | Inr d' \<Rightarrow> bind (store_research_dossier fromiso d') (\<lambda>_. ret ()))"
| "exec_call (LinkDossier i d) = link_dossier_to_version i d"
| "exec_call (RolesEdited rs) = modify (\<lambda>s. s\<lparr>role_names := rs\<rparr>)"

definition commit :: "policy_call \<Rightarrow> policy_db \<Rightarrow> policy_db" where
  "commit c s = snd (transaction (exec_call c) s)"

definition policy_step :: "policy_db \<Rightarrow> policy_db \<Rightarrow> bool" where
  "policy_step s t \<longleftrightarrow> (\<exists>c. t = commit c s)"

definition empty_policy_db :: policy_db where
  "empty_policy_db = \<lparr>policy_graphs = [], policy_versions = [], policy_version_transitions = [],
     policy_nodes = [], policy_edges = [], research_dossiers = [], role_names = [],
     graph_seq = 1, version_seq = 1, dossier_seq = 1\<rparr>"

definition policy_start :: "policy_db \<Rightarrow> bool" where
  "policy_start s \<longleftrightarrow> s = empty_policy_db"

end
