(* ===== verification/Simulation_Store.thy ===== *)
theory Simulation_Store
  imports Simulation Policy_Store
begin

text \<open>
  The simulation runs of \<open>packages/algorithm/simulation_store.py\<close> (table
  \<open>algorithm_simulation_runs\<close> of migration 0020): the aggregates of a run and the rows that keep
  them. \<open>str\<close> of a JSON value, which names the subgroups, is the argument \<open>py_str\<close>.
\<close>

section \<open>Aggregates\<close>

definition trace_to_dict :: "case_trace \<Rightarrow> jobject" where
  "trace_to_dict t =
     [(''kind'', JStr ''trace''),
      (''case_id'', JStr (trace_case_id t)),
      (''status'', JStr (trace_status t)),
      (''path'', JArr (map JStr (path t))),
      (''terminal_node_key'', json_opt (terminal_node_key t)),
      (''reason_codes'', JArr (map JStr (trace_reason_codes t))),
      (''undetermined_reason'', json_opt (undetermined_reason t)),
      (''final_state'', JObj (final_state t)),
      (''monetary_amount'', json_opt (map_option dec_str (trace_amount t))),
      (''monetary_currency'', json_opt (trace_currency t)),
      (''actual_outcome_label'', json_opt (trace_outcome t))]"

definition comparison_to_dict :: "version_comparison \<Rightarrow> jobject" where
  "comparison_to_dict c =
     [(''kind'', JStr ''comparison''),
      (''case_id'', JStr (cmp_case_id c)),
      (''terminal_a'', json_opt (terminal_a c)),
      (''terminal_b'', json_opt (terminal_b c)),
      (''reason_codes_a'', JArr (map JStr (reason_codes_a c))),
      (''reason_codes_b'', JArr (map JStr (reason_codes_b c))),
      (''agrees'', JBool (agrees c))]"

definition terminal_distribution :: "case_trace list \<Rightarrow> (string \<times> nat) list" where
  "terminal_distribution ts =
     count_dict (concat (map (\<lambda>t. case terminal_node_key t of None \<Rightarrow> [] | Some k \<Rightarrow> [k]) ts))"

definition reason_code_distribution :: "case_trace list \<Rightarrow> (string \<times> nat) list" where
  "reason_code_distribution ts = count_dict (concat (map trace_reason_codes ts))"

text \<open>\<open>min\<close> and \<open>max\<close> keep the first of equal amounts; \<open>median\<close> is that of \<open>statistics\<close>.\<close>

fun dec_min :: "dec list \<Rightarrow> dec" where
  "dec_min [] = dec_zero"
| "dec_min (x # xs) = foldl (\<lambda>m y. if dec_less y m then y else m) x xs"

fun dec_max :: "dec list \<Rightarrow> dec" where
  "dec_max [] = dec_zero"
| "dec_max (x # xs) = foldl (\<lambda>m y. if dec_less m y then y else m) x xs"

fun dec_insert :: "dec \<Rightarrow> dec list \<Rightarrow> dec list" where
  "dec_insert x [] = [x]"
| "dec_insert x (y # ys) = (if dec_less x y then x # y # ys else y # dec_insert x ys)"

definition dec_sort :: "dec list \<Rightarrow> dec list" where
  "dec_sort xs = foldl (\<lambda>s x. dec_insert x s) [] xs"

definition dec_median :: "dec list \<Rightarrow> dec" where
  "dec_median xs =
     (let s = dec_sort xs; n = length s
      in if odd n then s ! (n div 2)
         else the (dec_div (dec_add (s ! (n div 2 - 1)) (s ! (n div 2))) (dec_of_int 2)))"

definition amount_groups :: "case_trace list \<Rightarrow> ((string \<times> string) \<times> dec list) list" where
  "amount_groups ts =
     group_items (concat (map (\<lambda>t.
       case (trace_amount t, trace_currency t) of
         (Some a, Some cur) \<Rightarrow>
           [((case terminal_node_key t of None \<Rightarrow> ''__no_terminal__''
              | Some k \<Rightarrow> if k = [] then ''__no_terminal__'' else k, cur), a)]
       | _ \<Rightarrow> []) ts))"

definition uncurrencied_count :: "case_trace list \<Rightarrow> nat" where
  "uncurrencied_count ts = length (filter (\<lambda>t. trace_amount t \<noteq> None \<and> trace_currency t = None) ts)"

definition range_entry :: "dec list \<Rightarrow> jobject" where
  "range_entry amounts =
     [(''min'', JStr (dec_str (dec_min amounts))), (''max'', JStr (dec_str (dec_max amounts))),
      (''median'', JStr (dec_str (dec_median amounts))), (''count'', JInt (int (length amounts)))]"

definition monetary_range :: "case_trace list \<Rightarrow> (string \<times> jobject) list option \<times> nat" where
  "monetary_range ts =
     (let groups = amount_groups ts
      in if groups = [] then (None, uncurrencied_count ts)
         else (Some (dict_items (map (\<lambda>((terminal, cur), amounts).
             (terminal @ ''::'' @ cur, range_entry amounts)) groups)), uncurrencied_count ts))"

definition subgroup_distribution ::
  "(json \<Rightarrow> string) \<Rightarrow> case_trace list \<Rightarrow> (string \<rightharpoonup> simulation_case) \<Rightarrow> string \<Rightarrow> (string \<times> (string \<times> nat) list) list" where
  "subgroup_distribution py_str ts cases_by_id subgroup_by =
     map (\<lambda>(g, ks). (g, count_dict ks))
       (group_items (map (\<lambda>t.
          (case cases_by_id (trace_case_id t) of
             None \<Rightarrow> ''__unknown_case__''
           | Some c \<Rightarrow> py_str (jget (inputs c) subgroup_by),
           case terminal_node_key t of None \<Rightarrow> ''__none__'' | Some k \<Rightarrow> if k = [] then ''__none__'' else k)) ts))"

section \<open>The table\<close>

record simulation_run =
  run_version_id :: int
  compared_against :: "int option"
  case_set_label :: string
  case_source :: string
  case_count :: nat
  completed_count :: nat
  awaiting_human_count :: nat
  undetermined_count :: nat
  run_terminal_distribution :: "(string \<times> nat) list"
  run_reason_codes :: "(string \<times> nat) list"
  run_subgroups :: "(string \<times> (string \<times> nat) list) list option"
  run_monetary_range :: "(string \<times> jobject) list option"
  uncurrencied :: nat
  case_traces :: "jobject list"
  run_by :: string
  run_notes :: "string option"
  run_at :: int

record simulation_db =
  version_ids :: "int list"
  simulation_runs :: "(int \<times> simulation_run) list"
  run_seq :: int
  clock :: int

definition CASE_SOURCES :: "string list" where
  "CASE_SOURCES = [''synthetic_vendor'', ''frozen_real_tender'', ''historical_outcome'', ''mixed'']"

definition insert_run :: "simulation_run \<Rightarrow> (simulation_db, store_error, int) db" where
  "insert_run r =
     bind (gets id) (\<lambda>s.
     then_db (guard (run_version_id r \<in> set (version_ids s)) (IntegrityError ''policy_version_id'')) (
     then_db (guard (case compared_against r of None \<Rightarrow> True | Some v \<Rightarrow> v \<in> set (version_ids s))
       (IntegrityError ''compared_against_version_id'')) (
     then_db (guard (case_source r \<in> set CASE_SOURCES) (IntegrityError ''case_source'')) (
     then_db (modify (\<lambda>s. s\<lparr>simulation_runs := simulation_runs s @ [(run_seq s, r)], run_seq := run_seq s + 1\<rparr>))
     (ret (run_seq s))))))"

definition count_status :: "string \<Rightarrow> case_trace list \<Rightarrow> nat" where
  "count_status st ts = length (filter (\<lambda>t. trace_status t = st) ts)"

definition record_simulation_run ::
  "(json \<Rightarrow> string) \<Rightarrow> int \<Rightarrow> string \<Rightarrow> string \<Rightarrow> case_trace list \<Rightarrow> string \<Rightarrow> simulation_case list option \<Rightarrow>
   string option \<Rightarrow> string option \<Rightarrow> (simulation_db, store_error, int) db" where
  "record_simulation_run py_str version_id label source ts who cases subgroup_by why =
     (let subgroup = (case (subgroup_by, cases) of
            (Some g, Some cs) \<Rightarrow> Some (subgroup_distribution py_str ts (dict_of (map (\<lambda>c. (case_id c, c)) cs)) g)
          | _ \<Rightarrow> None);
          (rng, unc) = monetary_range ts
      in bind (gets clock) (\<lambda>now.
         insert_run \<lparr>run_version_id = version_id, compared_against = None, case_set_label = label,
           case_source = source, case_count = length ts, completed_count = count_status ''completed'' ts,
           awaiting_human_count = count_status ''awaiting_human'' ts,
           undetermined_count = count_status ''undetermined'' ts,
           run_terminal_distribution = terminal_distribution ts,
           run_reason_codes = reason_code_distribution ts, run_subgroups = subgroup,
           run_monetary_range = rng, uncurrencied = unc, case_traces = map trace_to_dict ts,
           run_by = who, run_notes = why, run_at = now\<rparr>))"

definition record_comparison_run ::
  "int \<Rightarrow> int \<Rightarrow> string \<Rightarrow> version_comparison list \<Rightarrow> string \<Rightarrow> string option \<Rightarrow> (simulation_db, store_error, int) db" where
  "record_comparison_run version_id against label cs who why =
     (let agree_count = length (filter agrees cs)
      in bind (gets clock) (\<lambda>now.
         insert_run \<lparr>run_version_id = version_id, compared_against = Some against, case_set_label = label,
           case_source = ''mixed'', case_count = length cs, completed_count = 0, awaiting_human_count = 0,
           undetermined_count = 0,
           run_terminal_distribution = [(''agree'', agree_count), (''disagree'', length cs - agree_count)],
           run_reason_codes = [], run_subgroups = None, run_monetary_range = None, uncurrencied = 0,
           case_traces = map comparison_to_dict cs, run_by = who, run_notes = why, run_at = now\<rparr>))"

definition get_simulation_run :: "simulation_db \<Rightarrow> int \<Rightarrow> simulation_run option" where
  "get_simulation_run s i = map_of (simulation_runs s) i"

definition list_simulation_runs_by_version :: "simulation_db \<Rightarrow> int \<Rightarrow> (int \<times> simulation_run) list" where
  "list_simulation_runs_by_version s v =
     sort_key (run_at \<circ> snd) (filter (\<lambda>(i, r). run_version_id r = v) (simulation_runs s))"

definition list_case_traces :: "simulation_db \<Rightarrow> int \<Rightarrow> jobject list" where
  "list_case_traces s i = (case get_simulation_run s i of None \<Rightarrow> [] | Some r \<Rightarrow> case_traces r)"

end
