(* ===== verification/Simulation_Theorems.thy ===== *)
theory Simulation_Theorems
  imports Simulation_Store Validator_Spec
begin

text \<open>The properties of the simulation engine and of the recorded runs.\<close>

section \<open>Helpers\<close>

definition replayable :: "policy_node list \<Rightarrow> policy_edge list \<Rightarrow> bool" where
  "replayable nodes edges \<longleftrightarrow>
     list_all (\<lambda>e. to_node_key e \<in> set (node_keys nodes)) edges \<and>
     list_all (\<lambda>n. list_all hashable (covers_conditions (test_cases n))) nodes"

lemma matching_covers:
  "tc \<in> set (matching_test_cases n st) \<Longrightarrow> jget tc ''covers_condition'' \<in> set (covers_conditions (test_cases n))"
  by (force simp: matching_test_cases_def covers_conditions_def split: json.splits if_splits)

lemma select_next_edge_returns:
  assumes "list_all hashable (covers_conditions (test_cases n))"
  shows "\<exists>ch. select_next_edge n out st ov = Inr ch"
proof -
  have "list_all (\<lambda>tc. hashable (jget tc ''covers_condition'')) (matching_test_cases n st)"
    using assms matching_covers[of _ n st] by (auto simp: list_all_iff)
  then show ?thesis
    by (auto simp: select_next_edge_def Let_def split: list.split)
qed

lemma run_steps_returns:
  assumes "replayable nodes edges" "k \<in> set (node_keys nodes)"
  shows "\<exists>tr. run_steps n (nodes_by_key nodes) (build_out_adjacency nodes edges) c k st p = Inr tr"
  using assms(2)
proof (induction n arbitrary: k st p)
  case (Suc n)
  then obtain node where node: "nodes_by_key nodes k = Some node" "node \<in> set nodes"
    using dom_nodes_by_key[of nodes] nodes_by_key_Some[of nodes k] by (metis domD)
  with assms(1) have h: "list_all hashable (covers_conditions (test_cases node))"
    by (auto simp: replayable_def list_all_iff)
  show ?case
  proof (cases "outgoing_edges edges k")
    case Nil
    with node(1) show ?thesis by (simp add: out_adj_get)
  next
    case (Cons e es)
    obtain oe why out where ch: "select_next_edge node (e # es) st (human_overrides c) = Inr (oe, why, out)"
      using select_next_edge_returns[OF h] by (metis prod_cases3)
    show ?thesis
    proof (cases oe)
      case None
      with ch node(1) Cons show ?thesis by (simp add: out_adj_get)
    next
      case (Some f)
      have "f \<in> set (e # es)"
        using select_next_edge_step(2)[where by_key = "nodes_by_key nodes" and k = k and edges = edges,
            OF node(1) Cons[symmetric] ch[unfolded Some]] .
      then have "f \<in> set edges" using Cons by (metis filter_is_subset outgoing_edges_def subsetD)
      with assms(1) have "to_node_key f \<in> set (node_keys nodes)" by (auto simp: replayable_def list_all_iff)
      with Suc.IH ch node(1) Cons Some show ?thesis by (simp add: out_adj_get)
    qed
  qed
qed simp

lemma run_case_case_id: "run_case nodes edges c = Inr tr \<Longrightarrow> trace_case_id tr = case_id c"
proof -
  have "run_steps n f g c k st p = Inr tr \<Longrightarrow> trace_case_id tr = case_id c" for n f g k st p
    by (induction n arbitrary: k st p) (auto split: option.splits list.splits sum.splits)
  then show "run_case nodes edges c = Inr tr \<Longrightarrow> trace_case_id tr = case_id c"
    by (auto simp: run_case_def split: sum.splits)
qed

lemma run_simulation_Inr:
  "run_simulation nodes edges cs = Inr ts \<longleftrightarrow> list_all2 (\<lambda>c t. run_case nodes edges c = Inr t) cs ts"
proof (induction cs arbitrary: ts)
  case (Cons c cs)
  show ?case
    by (cases "run_case nodes edges c"; cases "run_simulation nodes edges cs"; cases ts)
      (auto simp: Cons.IH[symmetric])
qed auto

lemma run_case_status:
  assumes "run_case nodes edges c = Inr tr"
  shows "trace_status tr \<in> {''completed'', ''awaiting_human'', ''undetermined''}"
    "trace_status tr = ''completed'' \<longleftrightarrow> terminal_node_key tr \<noteq> None"
proof -
  obtain z where "stopped (nodes_by_key nodes) edges (human_overrides c) (length (path tr) - 1) (step_cap nodes) z tr"
    by (rule run_case_sound[OF assms])
  then show "trace_status tr \<in> {''completed'', ''awaiting_human'', ''undetermined''}"
    "trace_status tr = ''completed'' \<longleftrightarrow> terminal_node_key tr \<noteq> None"
    by (cases rule: stopped.cases; simp)+
qed

lemma run_simulation_status:
  assumes "run_simulation nodes edges cs = Inr ts" "t \<in> set ts"
  shows "trace_status t \<in> {''completed'', ''awaiting_human'', ''undetermined''}"
    "trace_status t = ''completed'' \<longleftrightarrow> terminal_node_key t \<noteq> None"
proof -
  from assms obtain c where "run_case nodes edges c = Inr t"
    by (auto simp: run_simulation_Inr list_all2_conv_all_nth in_set_conv_nth)
  then show "trace_status t \<in> {''completed'', ''awaiting_human'', ''undetermined''}"
    "trace_status t = ''completed'' \<longleftrightarrow> terminal_node_key t \<noteq> None"
    using run_case_status by blast+
qed

lemma count_statuses:
  "\<forall>t \<in> set ts. trace_status t \<in> {''completed'', ''awaiting_human'', ''undetermined''} \<Longrightarrow>
   count_status ''completed'' ts + count_status ''awaiting_human'' ts + count_status ''undetermined'' ts = length ts"
  by (induction ts) (auto simp: count_status_def)

lemma count_terminals:
  "\<forall>t \<in> set ts. trace_status t = ''completed'' \<longleftrightarrow> terminal_node_key t \<noteq> None \<Longrightarrow>
   sum_list (map snd (terminal_distribution ts)) = count_status ''completed'' ts"
proof -
  assume a: "\<forall>t \<in> set ts. trace_status t = ''completed'' \<longleftrightarrow> terminal_node_key t \<noteq> None"
  have "length (concat (map (\<lambda>t. case terminal_node_key t of None \<Rightarrow> [] | Some k \<Rightarrow> [k]) ts)) =
      count_status ''completed'' ts"
    using a by (induction ts) (auto simp: count_status_def)
  then show ?thesis by (simp only: terminal_distribution_def sum_count_dict)
qed

lemma count_amounts:
  "sum_list (map (length \<circ> snd) (amount_groups ts)) + uncurrencied_count ts =
   length (filter (\<lambda>t. trace_amount t \<noteq> None) ts)"
proof -
  have "length (concat (map (\<lambda>t. case (trace_amount t, trace_currency t) of
         (Some a, Some cur) \<Rightarrow>
           [((case terminal_node_key t of None \<Rightarrow> ''__no_terminal__''
              | Some k \<Rightarrow> if k = [] then ''__no_terminal__'' else k, cur), a)]
       | _ \<Rightarrow> []) ts)) + uncurrencied_count ts = length (filter (\<lambda>t. trace_amount t \<noteq> None) ts)"
    by (induction ts) (auto simp: uncurrencied_count_def split: option.splits)
  then show ?thesis by (simp only: amount_groups_def sum_group_items)
qed

section \<open>A concrete graph\<close>

definition sim_node :: "string \<Rightarrow> string \<Rightarrow> json list \<Rightarrow> policy_node" where
  "sim_node k ty tcs = \<lparr>pn_version_id = 1, node_key = k, node_type = ty, title = k, purpose = k,
     owner = ''risk'', execution_mode = ''auto'', input_contract = [], output_contract = [],
     preconditions = [], evidence_requirements = [], reason_codes = [k], test_cases = tcs,
     monitoring_metrics = [], timeout_seconds = None, retry_policy = None, fallback_node_key = None,
     required_role = None, financial_impact = False, legal_impact = False,
     model_or_policy_dependency = None\<rparr>"

definition sim_edge :: "string \<Rightarrow> string \<Rightarrow> string option \<Rightarrow> policy_edge" where
  "sim_edge a b l = \<lparr>pe_version_id = 1, from_node_key = a, to_node_key = b, condition_label = l\<rparr>"

definition sim_nodes :: "policy_node list" where
  "sim_nodes =
     [sim_node ''price'' ''rule''
        [JObj [(''input'', JObj [(''big'', JBool True)]), (''covers_condition'', JStr ''high''),
               (''expected_output'', JObj [(''route'', JStr ''board'')])],
         JObj [(''input'', JObj [(''big'', JBool False)]), (''covers_condition'', JStr ''low'')]],
      sim_node ''board'' ''human'' [], sim_node ''auto'' ''gate'' []]"

definition sim_edges :: "policy_edge list" where
  "sim_edges = [sim_edge ''price'' ''board'' (Some ''high''), sim_edge ''price'' ''auto'' (Some ''low'')]"

definition sim_case :: "bool \<Rightarrow> simulation_case" where
  "sim_case b = \<lparr>case_id = ''c1'', inputs = [(''big'', JBool b)], human_overrides = [],
     case_amount = Some (Dec False 125 (-1)), case_currency = Some ''AZN'', case_outcome = None\<rparr>"

definition sim_trace :: case_trace where
  "sim_trace = \<lparr>trace_case_id = ''c1'', trace_status = ''completed'', path = [''price'', ''board''],
     terminal_node_key = Some ''board'', trace_reason_codes = [''board''], undetermined_reason = None,
     final_state = [(''big'', JBool True), (''route'', JStr ''board'')],
     trace_amount = Some (Dec False 125 (-1)), trace_currency = Some ''AZN'', trace_outcome = None\<rparr>"

lemma sim_run: "run_case sim_nodes sim_edges (sim_case True) = Inr sim_trace"
  by code_simp

lemma sim_acyclic: "acyclic (graph_rel sim_nodes sim_edges)"
proof -
  have r: "graph_rel sim_nodes sim_edges \<subseteq> {''price''} \<times> {''board'', ''auto''}"
  proof -
    have "map (\<lambda>e. (from_node_key e, to_node_key e)) (clean_edges sim_nodes sim_edges) @ fallback_edges sim_nodes =
        [(''price'', ''board''), (''price'', ''auto'')]"
      by code_simp
    then show ?thesis unfolding graph_rel_list by simp
  qed
  have "(a, b) \<in> (graph_rel sim_nodes sim_edges)\<^sup>+ \<Longrightarrow> a = ''price'' \<and> b \<noteq> ''price''" for a b
    by (induction rule: trancl_induct) (use r in auto)
  then show ?thesis by (auto simp: acyclic_def)
qed

section \<open>Properties\<close>

text \<open>
  C8. A simulated case never moves on a guess: a run starts at the graph's only start node and
  every move is the sole unconditional edge, the edge a recorded human decision names, or the
  edge that all matching test cases agree on, with the state they declare. It stops at a node
  without outgoing edges (completed, with that node's reason codes), at a node from which no
  such move exists (awaiting a human, or undetermined), or when the step limit is used up.
\<close>

theorem run_case_justified:
  assumes "run_case nodes edges c = Inr tr"
  shows "\<exists>s z. find_start_node nodes edges = Inr s \<and>
    sim_walk (nodes_by_key nodes) edges (human_overrides c) (s, inputs c) (path tr) z \<and>
    length (path tr) \<le> Suc (step_cap nodes) \<and>
    stopped (nodes_by_key nodes) edges (human_overrides c) (length (path tr) - 1) (step_cap nodes) z tr"
  using run_case_sound[OF assms] by metis

theorem run_case_justified_witness:
  "\<exists>s z. find_start_node sim_nodes sim_edges = Inr s \<and>
    sim_walk (nodes_by_key sim_nodes) sim_edges [] (s, [(''big'', JBool True)]) [''price'', ''board''] z"
  using run_case_justified[OF sim_run] by (auto simp: sim_case_def sim_trace_def)

text \<open>
  C9. On a graph without cycles a run that returns never ends because of the step limit: its path
  consists of nodes of the graph and visits none of them twice.
\<close>

theorem acyclic_run_completes:
  assumes "run_case nodes edges c = Inr tr" "acyclic (graph_rel nodes edges)"
  shows "undetermined_reason tr \<noteq> Some ''step_limit_exceeded'' \<and> distinct (path tr) \<and> set (path tr) \<subseteq> set (node_keys nodes)"
  using assms by (rule no_step_limit)

theorem acyclic_run_completes_witness: "distinct (path sim_trace) \<and> set (path sim_trace) \<subseteq> set (node_keys sim_nodes)"
  using acyclic_run_completes[OF sim_run sim_acyclic] by blast

text \<open>
  C10. If the graph has exactly one start node, no edge leads to an unknown node and every
  \<open>covers_condition\<close> is hashable, a run returns a trace for every case: none of the engine's
  exceptions can occur.
\<close>

theorem run_case_returns:
  assumes "find_start_node nodes edges = Inr s" "replayable nodes edges"
  shows "\<exists>tr. run_case nodes edges c = Inr tr"
proof -
  have "s \<in> set (node_keys nodes)"
    using assms(1) by (auto simp: find_start_node_def Let_def filter_eq_Cons_iff split: list.splits)
      (metis in_set_conv_decomp set_remdups)
  from run_steps_returns[OF assms(2) this] assms(1) show ?thesis by (auto simp: run_case_def)
qed

theorem run_case_returns_witness: "\<exists>tr. run_case sim_nodes sim_edges (sim_case False) = Inr tr"
proof -
  have "find_start_node sim_nodes sim_edges = Inr ''price''" by code_simp
  moreover have "replayable sim_nodes sim_edges" by code_simp
  ultimately show ?thesis by (rule run_case_returns)
qed

text \<open>A version compared with itself agrees on every case.\<close>

theorem self_comparison_agrees:
  assumes "compare_versions nodes edges nodes edges cases = Inr cs"
  shows "list_all agrees cs \<and> map cmp_case_id cs = map case_id cases"
  using assms by (auto simp: compare_versions_def compare_case_def Let_def list_all_iff split: sum.splits)

theorem self_comparison_agrees_witness:
  "list_all agrees (projr (compare_versions sim_nodes sim_edges sim_nodes sim_edges [sim_case True]))"
proof -
  have "\<exists>cs. compare_versions sim_nodes sim_edges sim_nodes sim_edges [sim_case True] = Inr cs"
    by (simp add: compare_versions_def sim_run)
  then show ?thesis using self_comparison_agrees by fastforce
qed

text \<open>
  The counts of a recorded run account for every case: completed, awaiting and undetermined
  add up to the number of traces, the terminal distribution adds up to the completed ones, and
  every amount is in exactly one currency group or counted as without a currency.
\<close>

theorem run_counts_add_up:
  assumes "run_simulation nodes edges cases = Inr ts"
    and "record_simulation_run py_str v label source ts who cs g why s = (Inr i, t)"
  shows "\<exists>r. simulation_runs t = simulation_runs s @ [(i, r)] \<and> case_count r = length cases \<and>
    completed_count r + awaiting_human_count r + undetermined_count r = case_count r \<and>
    sum_list (map snd (run_terminal_distribution r)) = completed_count r \<and>
    sum_list (map (length \<circ> snd) (amount_groups ts)) + uncurrencied r =
      length (filter (\<lambda>t. trace_amount t \<noteq> None) ts)"
proof -
  have len: "length ts = length cases"
    using assms(1) by (simp add: run_simulation_Inr list_all2_lengthD)
  have st: "\<forall>t \<in> set ts. trace_status t \<in> {''completed'', ''awaiting_human'', ''undetermined''}"
    "\<forall>t \<in> set ts. trace_status t = ''completed'' \<longleftrightarrow> terminal_node_key t \<noteq> None"
    using run_simulation_status[OF assms(1)] by blast+
  have unc: "snd (monetary_range ts) = uncurrencied_count ts"
    by (simp add: monetary_range_def Let_def)
  show ?thesis
    using assms(2) count_statuses[OF st(1)] count_terminals[OF st(2)] count_amounts[of ts] len unc
    by (auto simp: record_simulation_run_def insert_run_def Let_def bind_eq then_db_eq split: prod.splits if_splits)
qed

definition sim_db :: simulation_db where
  "sim_db = \<lparr>version_ids = [1], simulation_runs = [], run_seq = 1, clock = 0\<rparr>"

theorem run_counts_add_up_witness:
  "\<exists>r (t :: simulation_db). simulation_runs t = [(1, r)] \<and> completed_count r + awaiting_human_count r + undetermined_count r = 1"
proof -
  have sim: "run_simulation sim_nodes sim_edges [sim_case True] = Inr [sim_trace]" by (simp add: sim_run)
  obtain t where "record_simulation_run (\<lambda>_. []) 1 ''demo'' ''mixed'' [sim_trace] ''ann'' None None None sim_db = (Inr 1, t)"
    by (cases "monetary_range [sim_trace]")
      (auto simp: record_simulation_run_def insert_run_def Let_def bind_eq then_db_eq sim_db_def CASE_SOURCES_def)
  from run_counts_add_up[OF sim this] obtain r where "simulation_runs t = [(1, r)]"
    "completed_count r + awaiting_human_count r + undetermined_count r = 1"
    by (auto simp: sim_db_def)
  then show ?thesis by blast
qed

end
