(* ===== verification/Jobs.thy ===== *)
theory Jobs
  imports Systems
begin

text \<open>
  Durable jobs and the transactional outbox: \<open>packages/platform/jobs.py\<close>,
  \<open>packages/platform/outbox.py\<close> and \<open>apps/worker/example_job.py\<close>, on the tables \<open>jobs\<close> and
  \<open>outbox\<close> of migrations 0001 and 0002.

  The database's \<open>now()\<close> is the field \<open>now\<close> (a transaction sees one value of it). \<open>ORDER BY
  created_at\<close> is a stable sort of the rows in the order of their ids. \<open>FOR UPDATE SKIP LOCKED\<close>
  makes a claim atomic, and the other statements on a job are single updates that test its
  owner, so their transactions can be taken as one step each; \<open>fail_retry\<close> cannot.
\<close>

record job_identity =
  job_type :: string
  params :: jobject
  job_source :: string
  range_start :: "string option"
  range_end :: "string option"
  contract_version :: string
  job_correlation_id :: string

record job = job_identity +
  status :: string
  lease_owner :: "string option"
  lease_expires_at :: "int option"
  attempt :: int
  max_attempts :: int
  next_retry_at :: "int option"
  checkpoint :: jobject
  last_error :: "string option"
  job_created_at :: int
  job_updated_at :: int

record outbox_row =
  aggregate_type :: string
  aggregate_id :: string
  event_type :: string
  payload :: jobject
  event_correlation_id :: string
  event_status :: string
  event_created_at :: int
  published_at :: "int option"

record work_db =
  jobs :: "(int \<times> job) list"
  job_seq :: int
  outbox :: "(int \<times> outbox_row) list"
  outbox_seq :: int
  now :: int

datatype work_error =
    JobNotOwned int string
  | JobVanished int
  | PageError string
  | DeliveryFailed

type_synonym 'a work = "(work_db, work_error, 'a) db"

section \<open>The job store\<close>

definition compute_backoff_seconds :: "int \<Rightarrow> int \<Rightarrow> int \<Rightarrow> int" where
  "compute_backoff_seconds att base cap = min cap (base ^ nat (max att 1))"

definition new_job :: "job_identity \<Rightarrow> int \<Rightarrow> job" where
  "new_job j t =
     job_identity.extend j
       \<lparr>status = ''pending'', lease_owner = None, lease_expires_at = None, attempt = 0, max_attempts = 5,
        next_retry_at = None, checkpoint = [], last_error = None, job_created_at = t, job_updated_at = t\<rparr>"

definition enqueue_job :: "job_identity \<Rightarrow> int work" where
  "enqueue_job j =
     bind (gets job_seq) (\<lambda>i.
     then_db (modify (\<lambda>s. s\<lparr>jobs := jobs s @ [(i, new_job j (now s))], job_seq := i + 1\<rparr>))
     (ret i))"

definition claimable :: "int \<Rightarrow> job \<Rightarrow> bool" where
  "claimable t j \<longleftrightarrow>
     (status j = ''pending'' \<and> (case next_retry_at j of None \<Rightarrow> True | Some r \<Rightarrow> r \<le> t)) \<or>
     (status j = ''leased'' \<and> (case lease_expires_at j of None \<Rightarrow> False | Some e \<Rightarrow> e < t))"

definition first_claimable :: "work_db \<Rightarrow> int option" where
  "first_claimable s =
     (case sort_key (job_created_at \<circ> snd) (filter (\<lambda>(i, j). claimable (now s) j) (jobs s)) of
        [] \<Rightarrow> None | (i, j) # _ \<Rightarrow> Some i)"

definition lease :: "string \<Rightarrow> int \<Rightarrow> int \<Rightarrow> job \<Rightarrow> job" where
  "lease w secs t j = j\<lparr>status := ''leased'', lease_owner := Some w, lease_expires_at := Some (t + secs),
     job_updated_at := t\<rparr>"

definition claim :: "string \<Rightarrow> int \<Rightarrow> (int \<times> job) option work" where
  "claim w secs =
     bind (gets id) (\<lambda>s.
     case first_claimable s of
       None \<Rightarrow> ret None
     | Some i \<Rightarrow>
         then_db (modify (\<lambda>s. s\<lparr>jobs := update_row i (lease w secs (now s)) (jobs s)\<rparr>))
         (gets (\<lambda>s. map_option (\<lambda>j. (i, j)) (map_of (jobs s) i))))"

text \<open>\<open>UPDATE ... WHERE id = i AND p\<close>; a row count of zero raises \<open>JobNotOwned\<close>.\<close>

definition update_owned :: "int \<Rightarrow> string \<Rightarrow> (job \<Rightarrow> bool) \<Rightarrow> (int \<Rightarrow> job \<Rightarrow> job) \<Rightarrow> unit work" where
  "update_owned i w p f =
     bind (gets id) (\<lambda>s.
     then_db (guard (case map_of (jobs s) i of None \<Rightarrow> False | Some j \<Rightarrow> p j) (JobNotOwned i w))
     (modify (\<lambda>s. s\<lparr>jobs := update_row i (f (now s)) (jobs s)\<rparr>)))"

definition owned_lease :: "string \<Rightarrow> job \<Rightarrow> bool" where
  "owned_lease w j \<longleftrightarrow> lease_owner j = Some w \<and> status j = ''leased''"

definition heartbeat :: "int \<Rightarrow> string \<Rightarrow> int \<Rightarrow> unit work" where
  "heartbeat i w secs =
     update_owned i w (owned_lease w) (\<lambda>t j. j\<lparr>lease_expires_at := Some (t + secs), job_updated_at := t\<rparr>)"

definition set_checkpoint :: "int \<Rightarrow> string \<Rightarrow> jobject \<Rightarrow> unit work" where
  "set_checkpoint i w ck =
     update_owned i w (owned_lease w) (\<lambda>t j. j\<lparr>checkpoint := ck, job_updated_at := t\<rparr>)"

definition complete :: "int \<Rightarrow> string \<Rightarrow> unit work" where
  "complete i w =
     update_owned i w (\<lambda>j. lease_owner j = Some w)
       (\<lambda>t j. j\<lparr>status := ''completed'', lease_owner := None, lease_expires_at := None, job_updated_at := t\<rparr>)"

text \<open>
  \<open>fail_retry\<close> is a \<open>SELECT\<close> that takes no lock and an \<open>UPDATE\<close> that names only the id of the job. The
  update writes the attempt computed from the row that was read; \<open>t\<close> is \<open>now()\<close>, the start of the
  transaction.
\<close>

definition fail_select :: "int \<Rightarrow> string \<Rightarrow> (int \<times> int) work" where
  "fail_select i w =
     bind (gets (\<lambda>s. map_of (jobs s) i)) (\<lambda>row.
     case row of
       None \<Rightarrow> raise (JobNotOwned i w)
     | Some j \<Rightarrow>
         then_db (guard (lease_owner j = Some w) (JobNotOwned i w))
         (ret (attempt j, max_attempts j)))"

definition fail_update :: "int \<Rightarrow> int \<Rightarrow> int \<Rightarrow> string \<Rightarrow> int \<Rightarrow> int \<Rightarrow> string work" where
  "fail_update i att mx err backoff t =
     (let new_attempt = att + 1 in
      if new_attempt < mx
      then then_db (modify (\<lambda>s. s\<lparr>jobs := update_row i (\<lambda>j. j\<lparr>status := ''pending'',
             attempt := new_attempt, last_error := Some err, lease_owner := None, lease_expires_at := None,
             next_retry_at := Some (t + backoff), job_updated_at := t\<rparr>) (jobs s)\<rparr>))
           (ret ''pending'')
      else then_db (modify (\<lambda>s. s\<lparr>jobs := update_row i (\<lambda>j. j\<lparr>status := ''failed'',
             attempt := new_attempt, last_error := Some err, lease_owner := None, lease_expires_at := None,
             job_updated_at := t\<rparr>) (jobs s)\<rparr>))
           (ret ''failed''))"

definition fail_retry :: "int \<Rightarrow> string \<Rightarrow> string \<Rightarrow> int \<Rightarrow> string work" where
  "fail_retry i w err backoff =
     bind (gets now) (\<lambda>t.
     bind (fail_select i w) (\<lambda>(att, mx). fail_update i att mx err backoff t))"

definition cancel :: "int \<Rightarrow> unit work" where
  "cancel i = modify (\<lambda>s. s\<lparr>jobs := update_row i (\<lambda>j. j\<lparr>status := ''cancelled'', job_updated_at := now s\<rparr>) (jobs s)\<rparr>)"

definition get_job :: "work_db \<Rightarrow> int \<Rightarrow> job option" where
  "get_job s i = map_of (jobs s) i"

definition count_by_status :: "work_db \<Rightarrow> string \<rightharpoonup> nat" where
  "count_by_status s = map_of (count_dict (map (status \<circ> snd) (jobs s)))"

definition list_dead_lettered :: "work_db \<Rightarrow> (int \<times> job) list" where
  "list_dead_lettered s =
     sort_key (\<lambda>(i, j). - job_updated_at j) (filter (\<lambda>(i, j). status j = ''failed'') (jobs s))"

section \<open>The outbox\<close>

definition enqueue_event :: "string \<Rightarrow> string \<Rightarrow> string \<Rightarrow> jobject \<Rightarrow> string \<Rightarrow> int work" where
  "enqueue_event agg_type agg_id ev_type pl cid =
     bind (gets outbox_seq) (\<lambda>i.
     then_db (modify (\<lambda>s. s\<lparr>outbox := outbox s @ [(i,
         \<lparr>aggregate_type = agg_type, aggregate_id = agg_id, event_type = ev_type, payload = pl, event_correlation_id = cid,
          event_status = ''pending'', event_created_at = now s, published_at = None\<rparr>)], outbox_seq := i + 1\<rparr>))
     (ret i))"

definition pending_events :: "work_db \<Rightarrow> nat \<Rightarrow> (int \<times> outbox_row) list" where
  "pending_events s limit =
     take limit (sort_key (event_created_at \<circ> snd) (filter (\<lambda>(i, e). event_status e = ''pending'') (outbox s)))"

text \<open>
  \<open>deliver\<close> is the callback of the publisher; \<open>False\<close> is an exception it raises. The second
  component of the result lists the events handed to it.
\<close>

fun publish_rows :: "(int \<times> outbox_row \<Rightarrow> bool) \<Rightarrow> (int \<times> outbox_row) list \<Rightarrow> (int \<times> outbox_row) list work" where
  "publish_rows deliver [] = ret []"
| "publish_rows deliver (e # es) =
     then_db (guard (deliver e) DeliveryFailed) (
     then_db (modify (\<lambda>s. s\<lparr>outbox := update_row (fst e)
       (\<lambda>r. r\<lparr>event_status := ''published'', published_at := Some (now s)\<rparr>) (outbox s)\<rparr>)) (
     bind (publish_rows deliver es) (\<lambda>rest. ret (e # rest))))"

definition publish_pending :: "(int \<times> outbox_row \<Rightarrow> bool) \<Rightarrow> nat \<Rightarrow> (int \<times> outbox_row) list work" where
  "publish_pending deliver limit =
     bind (gets (\<lambda>s. pending_events s limit)) (publish_rows deliver)"

section \<open>One page of the example job\<close>

text \<open>
  \<open>checkpoint.get("page", 0) + 1\<close> and the comparison with \<open>params["total_pages"]\<close>: a value that is
  not a number raises a \<open>TypeError\<close>, a missing \<open>total_pages\<close> a \<open>KeyError\<close> (both \<open>PageError\<close>).
\<close>

definition next_page :: "jobject \<Rightarrow> json option" where
  "next_page ck =
     (case map_of ck ''page'' of
        None \<Rightarrow> Some (JInt 1)
      | Some (JInt i) \<Rightarrow> Some (JInt (i + 1))
      | Some (JBool b) \<Rightarrow> Some (JInt (if b then 2 else 1))
      | Some (JFloat r) \<Rightarrow> Some (JFloat (r + 1))
      | Some _ \<Rightarrow> None)"

definition py_number :: "json \<Rightarrow> rat option" where
  "py_number j =
     (case j of JInt i \<Rightarrow> Some (of_int i) | JBool b \<Rightarrow> Some (if b then 1 else 0) | JFloat r \<Rightarrow> Some r | _ \<Rightarrow> None)"

definition process_page :: "int \<Rightarrow> job \<Rightarrow> jobject work" where
  "process_page i j =
     (case next_page (checkpoint j) of
        None \<Rightarrow> raise (PageError ''TypeError'')
      | Some p \<Rightarrow>
          (case map_of (params j) ''total_pages'' of
             None \<Rightarrow> raise (PageError ''KeyError'')
           | Some tp \<Rightarrow>
               bind (enqueue_event ''paged_echo_job'' (str_int i) ''page.processed''
                  [(''page'', p), (''total_pages'', tp)] (job_correlation_id j)) (\<lambda>_.
               case (py_number p, py_number tp) of
                 (Some x, Some y) \<Rightarrow> ret [(''page'', p), (''done'', JBool (y \<le> x))]
               | _ \<Rightarrow> raise (PageError ''TypeError''))))"

definition echo_iteration :: "int \<Rightarrow> string \<Rightarrow> jobject work" where
  "echo_iteration i w =
     bind (gets (\<lambda>s. get_job s i)) (\<lambda>current.
     case current of
       None \<Rightarrow> raise (JobVanished i)
     | Some j \<Rightarrow>
         bind (process_page i j) (\<lambda>ck.
         then_db (set_checkpoint i w ck)
         (ret ck)))"

end
