(* ===== verification/Worker.thy ===== *)
theory Worker
  imports Jobs
begin

text \<open>
  The worker process of \<open>apps/worker/main.py\<close>: claim one job, work on it in a series of
  transactions, record the outcome. Several workers run at once; between two transactions of
  one worker anything the others do may happen, and a worker may die at any point. This is a
  step relation on the database and the program points of the workers. An iteration of the page
  loop reads the checkpoint and writes the next one under a test of the owner; who owns the lease
  at the write has owned it since the read, so the iteration is one step.

  A job of type \<open>tender_change_check\<close> runs code outside this component
  (\<open>check_tender_for_changes\<close>) between its start and its checkpoint; here it may take any number
  of heartbeats and then succeed or raise.
\<close>

definition LEASE_SECONDS :: int where
  "LEASE_SECONDS = 30"

definition ECHO_TYPE :: string where
  "ECHO_TYPE = ''paged_echo''"

definition CHECK_TYPE :: string where
  "CHECK_TYPE = ''tender_change_check''"

text \<open>
  Where a worker is in \<open>_process_claimed_job\<close>: idle, inside the page loop, inside the tender
  check, about to call \<open>complete\<close>, or in the exception handler. The handler reads the job twice
  and then writes it, all in one transaction but without a lock, so the other workers may act
  in between: \<open>Backing i b t\<close> has computed the backoff \<open>b\<close> in a transaction begun at \<open>t\<close>, and
  \<open>Reporting i a m b t\<close> has also read the attempt \<open>a\<close> and the limit \<open>m\<close> and will write next.
\<close>

datatype point = Idle | Looping int | Checking int | Finishing int | Failing int
  | Backing int int int | Reporting int int int int int

record worker_system =
  db :: work_db
  point_of :: "string \<Rightarrow> point"

definition start_point :: "int \<Rightarrow> job \<Rightarrow> point" where
  "start_point i j =
     (if job_type j = ECHO_TYPE
      then (if truthy (jget (checkpoint j) ''done'') then Finishing i else Looping i)
      else if job_type j = CHECK_TYPE then Checking i
      else Failing i)"

definition failure_backoff :: "int \<Rightarrow> int work" where
  "failure_backoff i =
     bind (gets (\<lambda>s. get_job s i)) (\<lambda>current.
     case current of
       None \<Rightarrow> raise (JobVanished i)
     | Some j \<Rightarrow> ret (compute_backoff_seconds (attempt j + 1) 2 300))"

definition record_failure :: "int \<Rightarrow> string \<Rightarrow> string \<Rightarrow> string work" where
  "record_failure i w err = bind (failure_backoff i) (fail_retry i w err)"

section \<open>The events\<close>

datatype work_event =
    Enqueue job_identity
  | Tick nat
  | Claim string
  | Iterate string
  | Beat string
  | CheckDone string bool
  | Complete string
  | FailGet string
  | FailSelect string
  | FailWrite string string
  | Die string
  | Cancel int
  | Publish "int \<times> outbox_row \<Rightarrow> bool" nat

definition goto :: "string \<Rightarrow> point \<Rightarrow> worker_system \<Rightarrow> worker_system" where
  "goto w p S = S\<lparr>point_of := (point_of S)(w := p)\<rparr>"

text \<open>
  Run one transaction; if it raises, the database is as before and the exception's point is
  taken.
\<close>

definition tx :: "'a work \<Rightarrow> ('a \<Rightarrow> worker_system \<Rightarrow> worker_system) \<Rightarrow> (worker_system \<Rightarrow> worker_system) \<Rightarrow>
    worker_system \<Rightarrow> worker_system" where
  "tx m ok err S =
     (case transaction m (db S) of
        (Inl e, s) \<Rightarrow> err S
      | (Inr x, s) \<Rightarrow> ok x (S\<lparr>db := s\<rparr>))"

fun work_step :: "work_event \<Rightarrow> worker_system \<Rightarrow> worker_system" where
  "work_step (Enqueue j) S = tx (enqueue_job j) (\<lambda>_ T. T) id S"
| "work_step (Tick n) S = S\<lparr>db := (db S)\<lparr>now := now (db S) + int n\<rparr>\<rparr>"
| "work_step (Claim w) S =
     (if point_of S w = Idle
      then tx (claim w LEASE_SECONDS)
             (\<lambda>r T. case r of None \<Rightarrow> T | Some (i, j) \<Rightarrow> goto w (start_point i j) T) id S
      else S)"
| "work_step (Iterate w) S =
     (case point_of S w of
        Looping i \<Rightarrow>
          tx (echo_iteration i w)
            (\<lambda>ck. goto w (if truthy (jget ck ''done'') then Finishing i else Looping i)) (goto w (Failing i)) S
      | _ \<Rightarrow> S)"
| "work_step (Beat w) S =
     (case point_of S w of
        Checking i \<Rightarrow> tx (heartbeat i w LEASE_SECONDS) (\<lambda>_ T. T) (goto w (Failing i)) S
      | _ \<Rightarrow> S)"
| "work_step (CheckDone w ok) S =
     (case point_of S w of
        Checking i \<Rightarrow>
          if ok then tx (set_checkpoint i w [(''done'', JBool True)]) (\<lambda>_. goto w (Finishing i)) (goto w (Failing i)) S
          else goto w (Failing i) S
      | _ \<Rightarrow> S)"
| "work_step (Complete w) S =
     (case point_of S w of
        Finishing i \<Rightarrow> tx (complete i w) (\<lambda>_. goto w Idle) (goto w (Failing i)) S
      | _ \<Rightarrow> S)"
| "work_step (FailGet w) S =
     (case point_of S w of
        Failing i \<Rightarrow> tx (failure_backoff i) (\<lambda>b. goto w (Backing i b (now (db S)))) (goto w Idle) S
      | _ \<Rightarrow> S)"
| "work_step (FailSelect w) S =
     (case point_of S w of
        Backing i b t \<Rightarrow> tx (fail_select i w) (\<lambda>(a, m). goto w (Reporting i a m b t)) (goto w Idle) S
      | _ \<Rightarrow> S)"
| "work_step (FailWrite w err) S =
     (case point_of S w of
        Reporting i a m b t \<Rightarrow> tx (fail_update i a m err b t) (\<lambda>_. goto w Idle) (goto w Idle) S
      | _ \<Rightarrow> S)"
| "work_step (Die w) S = goto w Idle S"
| "work_step (Cancel i) S = tx (cancel i) (\<lambda>_ T. T) id S"
| "work_step (Publish deliver limit) S = tx (publish_pending deliver limit) (\<lambda>_ T. T) id S"

definition empty_work_db :: work_db where
  "empty_work_db = \<lparr>jobs = [], job_seq = 1, outbox = [], outbox_seq = 1, now = 0\<rparr>"

definition work_start :: "worker_system \<Rightarrow> bool" where
  "work_start S \<longleftrightarrow> S = \<lparr>db = empty_work_db, point_of = (\<lambda>_. Idle)\<rparr>"

definition work_next :: "worker_system \<Rightarrow> worker_system \<Rightarrow> bool" where
  "work_next S T \<longleftrightarrow> (\<exists>e. T = work_step e S)"

end
