(* ===== verification/Worker_Spec.thy ===== *)
theory Worker_Spec
  imports Worker
begin

text \<open>
  What the worker keeps under every interleaving of several workers, crashes, lease expiry and
  cancellation: the outbox holds the processed pages of a job exactly once and in order, a
  completed job has processed all of its pages, and the attempt counter stays within its limit.
\<close>

section \<open>The invariant\<close>

definition is_echo :: "job \<Rightarrow> bool" where
  "is_echo j \<longleftrightarrow> job_type j = ECHO_TYPE"

definition is_done :: "job \<Rightarrow> bool" where
  "is_done j \<longleftrightarrow> truthy (jget (checkpoint j) ''done'')"

text \<open>The pages whose processing the outbox records for a job, in order.\<close>

definition pages :: "work_db \<Rightarrow> int \<Rightarrow> json list" where
  "pages s i =
     map (\<lambda>(k, e). jget (payload e) ''page'')
       (filter (\<lambda>(k, e). aggregate_id e = str_int i \<and> event_type e = ''page.processed'') (outbox s))"

definition page_is :: "job \<Rightarrow> nat \<Rightarrow> bool" where
  "page_is j n \<longleftrightarrow>
     map_of (checkpoint j) ''page'' = (if n = 0 then None else Some (JInt (int n)))"

definition all_pages :: "job \<Rightarrow> nat \<Rightarrow> bool" where
  "all_pages j n \<longleftrightarrow>
     (\<exists>tp y. map_of (params j) ''total_pages'' = Some tp \<and> py_number tp = Some y \<and> y \<le> of_nat n)"

definition pages_ok :: "work_db \<Rightarrow> int \<Rightarrow> job \<Rightarrow> bool" where
  "pages_ok s i j \<longleftrightarrow>
     (if is_echo j
      then \<exists>n. page_is j n \<and> pages s i = map JInt [1..int n] \<and> (is_done j \<longrightarrow> all_pages j n)
      else pages s i = [])"

definition attempts_ok :: "job \<Rightarrow> bool" where
  "attempts_ok j \<longleftrightarrow>
     0 \<le> attempt j \<and> attempt j \<le> max_attempts j \<and>
     (attempt j = max_attempts j \<longrightarrow> lease_owner j = None \<and> status j \<in> {''failed'', ''cancelled''}) \<and>
     (status j = ''failed'' \<longrightarrow> attempt j = max_attempts j) \<and>
     (status j \<in> {''pending'', ''completed''} \<longrightarrow> lease_owner j = None)"

fun job_of_point :: "point \<Rightarrow> int option" where
  "job_of_point Idle = None"
| "job_of_point (Looping i) = Some i"
| "job_of_point (Checking i) = Some i"
| "job_of_point (Finishing i) = Some i"
| "job_of_point (Failing i) = Some i"
| "job_of_point (Backing i b t) = Some i"
| "job_of_point (Reporting i a m b t) = Some i"

text \<open>A failure report under way holds an attempt below the limit of its job.\<close>

definition reports_ok :: "(string \<Rightarrow> point) \<Rightarrow> int \<Rightarrow> int \<Rightarrow> bool" where
  "reports_ok pts i mx \<longleftrightarrow> (\<forall>w a m b t. pts w = Reporting i a m b t \<longrightarrow> 0 \<le> a \<and> a < m \<and> m = mx)"

lemma reports_ok_upd [simp]:
  "(\<And>a m b t. p \<noteq> Reporting i a m b t) \<Longrightarrow> reports_ok pts i mx \<Longrightarrow> reports_ok (pts(w := p)) i mx"
  by (auto simp: reports_ok_def)

lemma reports_ok_none: "(\<And>w. job_of_point (pts w) \<noteq> Some i) \<Longrightarrow> reports_ok pts i mx"
  unfolding reports_ok_def by (metis job_of_point.simps(7))

definition points_ok :: "(string \<Rightarrow> point) \<Rightarrow> int \<Rightarrow> job \<Rightarrow> bool" where
  "points_ok pts i j \<longleftrightarrow>
     (\<forall>w. pts w = Looping i \<longrightarrow> is_echo j) \<and> (\<forall>w. pts w = Checking i \<longrightarrow> \<not> is_echo j) \<and>
     (is_echo j \<longrightarrow> status j = ''completed'' \<longrightarrow> is_done j) \<and>
     (is_echo j \<longrightarrow> (\<forall>w. pts w = Finishing i \<longrightarrow> lease_owner j = Some w \<longrightarrow> is_done j)) \<and>
     reports_ok pts i (max_attempts j)"

definition row_ok :: "worker_system \<Rightarrow> int \<Rightarrow> job \<Rightarrow> bool" where
  "row_ok S i j \<longleftrightarrow> pages_ok (db S) i j \<and> attempts_ok j \<and> points_ok (point_of S) i j"

definition work_ok :: "worker_system \<Rightarrow> bool" where
  "work_ok S \<longleftrightarrow>
     distinct (map fst (jobs (db S))) \<and> fst ` set (jobs (db S)) \<subseteq> {..<job_seq (db S)} \<and>
     (\<forall>i j. get_job (db S) i = Some j \<longrightarrow> row_ok S i j) \<and>
     (\<forall>i. get_job (db S) i = None \<longrightarrow> pages (db S) i = []) \<and>
     (\<forall>w i. job_of_point (point_of S w) = Some i \<longrightarrow> get_job (db S) i \<noteq> None)"

lemma work_okI:
  assumes "distinct (map fst (jobs (db S)))" "fst ` set (jobs (db S)) \<subseteq> {..<job_seq (db S)}"
    and "\<And>i j. get_job (db S) i = Some j \<Longrightarrow> row_ok S i j"
    and "\<And>i. get_job (db S) i = None \<Longrightarrow> pages (db S) i = []"
    and "\<And>w i. job_of_point (point_of S w) = Some i \<Longrightarrow> get_job (db S) i \<noteq> None"
  shows "work_ok S"
  using assms unfolding work_ok_def by blast

section \<open>Steps that change one row and one point\<close>

lemma get_job_update:
  "get_job (s\<lparr>jobs := update_row i f (jobs s)\<rparr>) k = (if k = i then map_option f (get_job s i) else get_job s k)"
  by (simp add: get_job_def)

lemma pages_jobs [simp]: "pages (s\<lparr>jobs := js\<rparr>) i = pages s i" "pages (s\<lparr>now := t\<rparr>) i = pages s i"
  "pages (s\<lparr>jobs := js, job_seq := q\<rparr>) i = pages s i"
  by (simp_all add: pages_def)

text \<open>
  The other jobs stay as they are when one row changes and one worker moves from a point
  that is free or concerns the changed job to another such point.
\<close>

lemma points_ok_other:
  assumes "points_ok pts k j" "job_of_point p \<noteq> Some k"
  shows "points_ok (pts(w := p)) k j"
proof -
  have "reports_ok (pts(w := p)) k (max_attempts j)"
    by (rule reports_ok_upd) (use assms in \<open>auto simp: points_ok_def\<close>)
  with assms show ?thesis by (auto simp: points_ok_def)
qed

lemma work_ok_row:
  assumes ok: "work_ok S" and i: "get_job (db S) i = Some j"
    and s': "jobs s' = update_row i f (jobs (db S))" "job_seq s' = job_seq (db S)"
      "\<And>k. k \<noteq> i \<Longrightarrow> pages s' k = pages (db S) k"
    and p: "job_of_point p \<in> {None, Some i}"
    and row: "pages_ok s' i (f j)" "attempts_ok (f j)" "points_ok ((point_of S)(w := p)) i (f j)"
  shows "work_ok (goto w p (S\<lparr>db := s'\<rparr>))"
proof (rule work_okI)
  let ?T = "goto w p (S\<lparr>db := s'\<rparr>)"
  have g: "get_job s' k = (if k = i then Some (f j) else get_job (db S) k)" for k
    using i by (simp add: get_job_def s'(1))
  show "distinct (map fst (jobs (db ?T)))" "fst ` set (jobs (db ?T)) \<subseteq> {..<job_seq (db ?T)}"
    using ok by (simp_all add: work_ok_def s' goto_def)
  show "row_ok ?T k x" if "get_job (db ?T) k = Some x" for k x
  proof (cases "k = i")
    case True
    with that g row show ?thesis by (simp add: row_ok_def goto_def)
  next
    case False
    with that g have x: "get_job (db S) k = Some x" by (simp add: goto_def)
    then have "row_ok S k x" using ok by (simp add: work_ok_def)
    moreover have "job_of_point p \<noteq> Some k" using p False by auto
    ultimately show ?thesis using s'(3)[OF False] by (simp add: row_ok_def goto_def pages_ok_def points_ok_other)
  qed
  show "pages (db ?T) k = []" if "get_job (db ?T) k = None" for k
    using that ok i g s'(3) by (simp add: goto_def work_ok_def split: if_splits)
  show "get_job (db ?T) k \<noteq> None" if "job_of_point (point_of ?T v) = Some k" for v k
    using that ok p i g unfolding work_ok_def goto_def by (auto split: if_splits)
qed

lemma work_ok_point:
  assumes ok: "work_ok S" and p: "\<And>i. job_of_point p = Some i \<Longrightarrow> job_of_point (point_of S w) = Some i"
    and safe: "p = Idle \<or> (\<exists>i. p = Failing i) \<or> (\<exists>i b t. p = Backing i b t)"
  shows "work_ok (goto w p S)"
proof (rule work_okI)
  show "row_ok (goto w p S) k x" if "get_job (db (goto w p S)) k = Some x" for k x
  proof -
    have "row_ok S k x" using that ok by (simp add: work_ok_def goto_def)
    then show ?thesis using safe by (auto simp: row_ok_def points_ok_def goto_def)
  qed
  show "get_job (db (goto w p S)) k \<noteq> None" if "job_of_point (point_of (goto w p S) v) = Some k" for v k
    using that ok p unfolding work_ok_def goto_def by (auto split: if_splits)
qed (use ok in \<open>auto simp: work_ok_def goto_def\<close>)

lemma points_ok_keep:
  assumes "points_ok pts i j" "is_echo k \<longleftrightarrow> is_echo j" "is_done k \<longleftrightarrow> is_done j"
    "status k = ''completed'' \<Longrightarrow> is_echo j \<Longrightarrow> is_done j"
    "\<And>v. lease_owner k = Some v \<Longrightarrow> lease_owner j = Some v \<or> (v = w \<and> p \<noteq> Finishing i) \<or> (v = w \<and> (is_echo j \<longrightarrow> is_done j))"
    "p = Looping i \<Longrightarrow> is_echo j" "p = Checking i \<Longrightarrow> \<not> is_echo j"
    "p = Finishing i \<Longrightarrow> is_echo j \<Longrightarrow> lease_owner k = Some w \<Longrightarrow> is_done j"
    "max_attempts k = max_attempts j" "\<And>a m b t. p \<noteq> Reporting i a m b t"
  shows "points_ok (pts(w := p)) i k"
  using assms unfolding points_ok_def by (auto split: if_splits)

lemma work_ok_row_at:
  assumes "work_ok S" "get_job (db S) i = Some j"
    and "pages_ok (db S) i (f j)" "attempts_ok (f j)" "points_ok ((point_of S)(w := p)) i (f j)"
    and "job_of_point p \<in> {None, Some i}"
  shows "work_ok (goto w p (S\<lparr>db := (db S)\<lparr>jobs := update_row i f (jobs (db S))\<rparr>\<rparr>))"
  by (rule work_ok_row[OF assms(1,2), where f = f]) (use assms in \<open>simp_all add: pages_ok_def\<close>)

lemma work_okD:
  assumes "work_ok S" "get_job (db S) i = Some j"
  shows "pages_ok (db S) i j" "attempts_ok j" "points_ok (point_of S) i j"
  using assms by (auto simp: work_ok_def row_ok_def)

lemma goto_self: "goto w (point_of S w) (S\<lparr>db := s\<rparr>) = S\<lparr>db := s\<rparr>"
  by (simp add: goto_def)

section \<open>Each event keeps the invariant\<close>

lemma enqueue_ok:
  assumes "work_ok S"
  shows "work_ok (work_step (Enqueue d) S)"
proof -
  let ?s = "db S"
  let ?i = "job_seq ?s"
  let ?t = "?s\<lparr>jobs := jobs ?s @ [(?i, new_job d (now ?s))], job_seq := ?i + 1\<rparr>"
  have fresh: "?i \<notin> fst ` set (jobs ?s)" using assms by (auto simp: work_ok_def)
  then have none: "get_job ?s ?i = None" by (simp add: get_job_def map_of_eq_None_iff)
  have g: "get_job ?t k = (if k = ?i then Some (new_job d (now ?s)) else get_job ?s k)" for k
    using map_of_snoc[OF fresh] by (simp add: get_job_def del: map_of_append)
  have nj: "checkpoint (new_job d (now ?s)) = []" "attempts_ok (new_job d (now ?s))"
    "status (new_job d (now ?s)) = ''pending''" "lease_owner (new_job d (now ?s)) = None"
    by (simp_all add: new_job_def job_identity.extend_def attempts_ok_def)
  have no_point: "job_of_point (point_of S w) \<noteq> Some ?i" for w
    using assms none unfolding work_ok_def by blast
  have pt: "point_of S w \<noteq> Looping ?i" "point_of S w \<noteq> Checking ?i" for w
    using no_point[of w] by auto
  have rp: "reports_ok (point_of S) ?i mx" for mx by (rule reports_ok_none[OF no_point])
  have "work_ok (S\<lparr>db := ?t\<rparr>)"
  proof (rule work_okI)
    show "distinct (map fst (jobs (db (S\<lparr>db := ?t\<rparr>))))" "fst ` set (jobs (db (S\<lparr>db := ?t\<rparr>))) \<subseteq> {..<job_seq (db (S\<lparr>db := ?t\<rparr>))}"
      using assms fresh by (auto simp: work_ok_def)
    show "row_ok (S\<lparr>db := ?t\<rparr>) k x" if "get_job (db (S\<lparr>db := ?t\<rparr>)) k = Some x" for k x
    proof (cases "k = ?i")
      case True
      with that g have x: "x = new_job d (now ?s)" by simp
      have "pages ?s ?i = []" using assms none by (simp add: work_ok_def)
      then have "pages_ok ?t ?i x"
        using nj by (auto simp: pages_ok_def x page_is_def is_done_def jget_def intro!: exI[of _ 0])
      then show ?thesis using True x nj pt rp by (simp add: row_ok_def points_ok_def)
    next
      case False
      with that g have "get_job ?s k = Some x" by simp
      with assms have "row_ok S k x" by (simp add: work_ok_def)
      then show ?thesis by (simp add: row_ok_def pages_ok_def)
    qed
  qed (use assms g in \<open>auto simp: work_ok_def split: if_splits\<close>)
  then show ?thesis
    by (simp add: tx_def transaction_def enqueue_job_def bind_eq then_db_eq)
qed

lemma tick_ok: "work_ok S \<Longrightarrow> work_ok (work_step (Tick n) S)"
  by (auto simp: work_ok_def row_ok_def pages_ok_def get_job_def)

lemma first_claimable_Some:
  assumes "first_claimable s = Some i" "distinct (map fst (jobs s))"
  obtains j where "get_job s i = Some j" "claimable (now s) j"
proof -
  let ?xs = "sort_key (job_created_at \<circ> snd) (filter (\<lambda>(i, j). claimable (now s) j) (jobs s))"
  from assms(1) obtain j rest where "?xs = (i, j) # rest"
    by (auto simp: first_claimable_def split: list.splits)
  then have "(i, j) \<in> set ?xs" by simp
  then have "(i, j) \<in> set (jobs s)" "claimable (now s) j" by auto
  with assms(2) show thesis by (intro that) (auto simp: get_job_def)
qed

lemma claim_eq:
  "claim w secs s =
     (case first_claimable s of
        None \<Rightarrow> (Inr None, s)
      | Some i \<Rightarrow> (Inr (map_option (\<lambda>j. (i, lease w secs (now s) j)) (get_job s i)),
                    s\<lparr>jobs := update_row i (lease w secs (now s)) (jobs s)\<rparr>))"
  by (simp add: claim_def bind_eq then_db_eq get_job_def option.map_comp comp_def split: option.split)

lemma lease_sel [simp]:
  "status (lease w secs t j) = ''leased''" "lease_owner (lease w secs t j) = Some w"
  "attempt (lease w secs t j) = attempt j" "max_attempts (lease w secs t j) = max_attempts j"
  "checkpoint (lease w secs t j) = checkpoint j" "job_type (lease w secs t j) = job_type j"
  "params (lease w secs t j) = params j" "lease_expires_at (lease w secs t j) = Some (t + secs)"
  by (simp_all add: lease_def)

lemma same_progress:
  assumes "checkpoint k = checkpoint j" "job_type k = job_type j" "params k = params j"
  shows "is_echo k = is_echo j" "is_done k = is_done j" "pages_ok s i k = pages_ok s i j"
  using assms by (simp_all add: is_echo_def is_done_def pages_ok_def page_is_def all_pages_def)

lemma claim_ok:
  assumes ok: "work_ok S"
  shows "work_ok (work_step (Claim w) S)"
proof (cases "point_of S w = Idle \<and> first_claimable (db S) \<noteq> None")
  case True
  then obtain i where i: "first_claimable (db S) = Some i" by auto
  have "distinct (map fst (jobs (db S)))" using ok by (simp add: work_ok_def)
  with i obtain j where j: "get_job (db S) i = Some j" "claimable (now (db S)) j"
    by (rule first_claimable_Some)
  let ?f = "lease w LEASE_SECONDS (now (db S))"
  note d = work_okD[OF ok j(1)]
  have sp: "is_echo (?f j) = is_echo j" "is_done (?f j) = is_done j" "pages_ok s i (?f j) = pages_ok s i j" for s
    by (rule same_progress; simp)+
  have "points_ok ((point_of S)(w := start_point i (?f j))) i (?f j)"
  proof (rule points_ok_keep[OF d(3) sp(1,2)])
    show "start_point i (?f j) = Finishing i \<Longrightarrow> is_echo j \<Longrightarrow> lease_owner (?f j) = Some w \<Longrightarrow> is_done j"
      using sp by (auto simp: start_point_def is_echo_def is_done_def split: if_splits)
    show "\<And>v. lease_owner (?f j) = Some v \<Longrightarrow> lease_owner j = Some v \<or> v = w \<and> start_point i (?f j) \<noteq> Finishing i \<or>
        v = w \<and> (is_echo j \<longrightarrow> is_done j)"
      using sp by (auto simp: start_point_def is_echo_def is_done_def split: if_splits)
  qed (auto simp: start_point_def is_echo_def ECHO_TYPE_def CHECK_TYPE_def split: if_splits)
  moreover have "attempts_ok (?f j)"
    using d(2) j(2) by (auto simp: attempts_ok_def claimable_def)
  moreover have "job_of_point (start_point i (?f j)) \<in> {None, Some i}"
    by (simp add: start_point_def)
  ultimately have "work_ok (goto w (start_point i (?f j)) (S\<lparr>db := (db S)\<lparr>jobs := update_row i ?f (jobs (db S))\<rparr>\<rparr>))"
    using d(1) sp(3) by (intro work_ok_row_at[OF ok j(1)]) simp_all
  then show ?thesis
    using True i j(1) by (simp add: tx_def transaction_def claim_eq)
next
  case False
  with ok show ?thesis by (auto simp: tx_def transaction_def claim_eq)
qed

lemma update_owned_eq:
  "update_owned i w p f s =
     (case get_job s i of
        None \<Rightarrow> (Inl (JobNotOwned i w), s)
      | Some j \<Rightarrow> if p j then (Inr (), s\<lparr>jobs := update_row i (f (now s)) (jobs s)\<rparr>) else (Inl (JobNotOwned i w), s))"
  by (simp add: update_owned_def bind_eq then_db_eq get_job_def split: option.split)

text \<open>What a successful iteration of the page loop does.\<close>

lemma echo_iteration_Inr:
  assumes "echo_iteration i w s = (Inr ck, t)"
  obtains j p tp x y where "get_job s i = Some j" "owned_lease w j" "next_page (checkpoint j) = Some p"
    "map_of (params j) ''total_pages'' = Some tp" "py_number p = Some x" "py_number tp = Some y"
    "ck = [(''page'', p), (''done'', JBool (y \<le> x))]"
    "jobs t = update_row i (\<lambda>j. j\<lparr>checkpoint := ck, job_updated_at := now s\<rparr>) (jobs s)"
    "job_seq t = job_seq s"
    "\<And>k. pages t k = pages s k @ (if k = i then [p] else [])"
proof -
  from assms obtain j where j: "get_job s i = Some j"
    by (cases "get_job s i") (auto simp: echo_iteration_def bind_eq)
  with assms obtain s1 where 1: "process_page i j s = (Inr ck, s1)" "set_checkpoint i w ck s1 = (Inr (), t)"
    by (auto simp: echo_iteration_def bind_Inr then_db_Inr)
  from 1(1) obtain p tp x y where p: "next_page (checkpoint j) = Some p" "map_of (params j) ''total_pages'' = Some tp"
    "py_number p = Some x" "py_number tp = Some y" "ck = [(''page'', p), (''done'', JBool (y \<le> x))]"
    and s1: "s1 = s\<lparr>outbox := outbox s @ [(outbox_seq s,
         \<lparr>aggregate_type = ''paged_echo_job'', aggregate_id = str_int i, event_type = ''page.processed'',
          payload = [(''page'', p), (''total_pages'', tp)], event_correlation_id = job_correlation_id j,
          event_status = ''pending'', event_created_at = now s, published_at = None\<rparr>)],
          outbox_seq := outbox_seq s + 1\<rparr>"
    by (auto simp: process_page_def enqueue_event_def bind_eq then_db_eq split: option.splits)
  have g1: "get_job s1 i = Some j" using j by (simp add: s1 get_job_def)
  with 1(2) have t: "owned_lease w j" "t = s1\<lparr>jobs := update_row i (\<lambda>j. j\<lparr>checkpoint := ck, job_updated_at := now s1\<rparr>) (jobs s1)\<rparr>"
    by (auto simp: set_checkpoint_def update_owned_eq split: if_splits)
  have "pages t k = pages s k @ (if k = i then [p] else [])" for k
    by (auto simp: t s1 pages_def jget_def)
  with j p t show thesis by (intro that[of j p tp x y]) (simp_all add: s1)
qed

lemma next_page_echo:
  assumes "page_is j n" "next_page (checkpoint j) = Some p"
  shows "p = JInt (int n + 1)"
  using assms by (auto simp: page_is_def next_page_def split: if_splits)

lemma iterate_ok:
  assumes ok: "work_ok S"
  shows "work_ok (work_step (Iterate w) S)"
proof (cases "\<exists>i. point_of S w = Looping i")
  case True
  then obtain i where i: "point_of S w = Looping i" by blast
  show ?thesis
  proof (cases "echo_iteration i w (db S)")
    case (Pair r t)
    show ?thesis
    proof (cases r)
      case (Inl e)
      have "work_ok (goto w (Failing i) S)"
        by (rule work_ok_point[OF ok]) (use i in auto)
      with Inl Pair i show ?thesis by (simp add: tx_def transaction_def)
    next
      case (Inr ck)
      obtain j p tp x y where h: "get_job (db S) i = Some j" "owned_lease w j" "next_page (checkpoint j) = Some p"
        "map_of (params j) ''total_pages'' = Some tp" "py_number p = Some x" "py_number tp = Some y"
        "ck = [(''page'', p), (''done'', JBool (y \<le> x))]"
        "jobs t = update_row i (\<lambda>j. j\<lparr>checkpoint := ck, job_updated_at := now (db S)\<rparr>) (jobs (db S))"
        "job_seq t = job_seq (db S)" "\<And>k. pages t k = pages (db S) k @ (if k = i then [p] else [])"
        using echo_iteration_Inr[OF Pair[unfolded Inr]] by metis
      note d = work_okD[OF ok h(1)]
      have echo: "is_echo j" using d(3) i by (auto simp: points_ok_def)
      with d(1) obtain n where n: "page_is j n" "pages (db S) i = map JInt [1..int n]"
        by (auto simp: pages_ok_def)
      note pn = next_page_echo[OF n(1) h(3)]
      let ?f = "\<lambda>j. j\<lparr>checkpoint := ck, job_updated_at := now (db S)\<rparr>"
      let ?p = "if truthy (jget ck ''done'') then Finishing i else Looping i"
      have dn: "is_done (?f j) \<longleftrightarrow> truthy (jget ck ''done'')" by (simp add: is_done_def)
      have e: "is_echo (?f j)" using echo by (simp add: is_echo_def)
      have "pages t i = map JInt [1..int (Suc n)]"
        using h(10)[of i] n(2) pn by (simp add: upto_rec2 add.commute)
      moreover have "page_is (?f j) (Suc n)" by (simp add: page_is_def h(7) pn)
      moreover have "is_done (?f j) \<longrightarrow> all_pages (?f j) (Suc n)"
      proof
        assume "is_done (?f j)"
        then have "y \<le> x" by (simp add: is_done_def h(7) jget_def)
        moreover have "x = of_nat (Suc n)" using h(5) pn by (simp add: py_number_def)
        ultimately show "all_pages (?f j) (Suc n)" using h(4,6) by (auto simp: all_pages_def)
      qed
      ultimately have pages: "pages_ok t i (?f j)" unfolding pages_ok_def using e by auto
      have "points_ok ((point_of S)(w := ?p)) i (?f j)"
        using d(3) dn e echo h(2) by (simp add: points_ok_def owned_lease_def)
      moreover have "attempts_ok (?f j)" using d(2) by (simp add: attempts_ok_def)
      ultimately have "work_ok (goto w ?p (S\<lparr>db := t\<rparr>))"
        using pages by (intro work_ok_row[OF ok h(1) h(8,9)]) (auto simp: h(10))
      with Inr Pair i show ?thesis by (simp add: tx_def transaction_def)
    qed
  qed
next
  case False
  with ok show ?thesis by (auto split: point.splits)
qed

text \<open>
  The four updates that need the lease, as one lemma: the row of the job changes by \<open>f\<close> if the
  worker still owns it, otherwise the worker goes to its exception handler.
\<close>

lemma update_owned_ok:
  assumes ok: "work_ok S" and at: "job_of_point (point_of S w) = Some i"
    and p: "p \<in> {Idle, point_of S w, Finishing i}"
    and row: "\<And>j. get_job (db S) i = Some j \<Longrightarrow> q j \<Longrightarrow> pages_ok (db S) i (f (now (db S)) j) \<and>
        attempts_ok (f (now (db S)) j) \<and> points_ok ((point_of S)(w := p)) i (f (now (db S)) j)"
  shows "work_ok (tx (update_owned i w q f) (\<lambda>_. goto w p) (goto w (Failing i)) S)"
proof -
  obtain j where j: "get_job (db S) i = Some j" using ok at unfolding work_ok_def by blast
  show ?thesis
  proof (cases "q j")
    case True
    have "job_of_point p \<in> {None, Some i}" using p at by auto
    then have "work_ok (goto w p (S\<lparr>db := (db S)\<lparr>jobs := update_row i (f (now (db S))) (jobs (db S))\<rparr>\<rparr>))"
      using row[OF j True] by (intro work_ok_row_at[OF ok j]) simp_all
    with True j show ?thesis by (simp add: tx_def transaction_def update_owned_eq)
  next
    case False
    have "work_ok (goto w (Failing i) S)" by (rule work_ok_point[OF ok]) (use at in auto)
    with False j show ?thesis by (simp add: tx_def transaction_def update_owned_eq)
  qed
qed

lemma beat_ok:
  assumes ok: "work_ok S"
  shows "work_ok (work_step (Beat w) S)"
proof (cases "\<exists>i. point_of S w = Checking i")
  case True
  then obtain i where i: "point_of S w = Checking i" by blast
  have "work_ok (tx (heartbeat i w LEASE_SECONDS) (\<lambda>_. goto w (Checking i)) (goto w (Failing i)) S)"
    unfolding heartbeat_def
  proof (rule update_owned_ok[OF ok])
    fix j assume j: "get_job (db S) i = Some j" "owned_lease w j"
    note d = work_okD[OF ok j(1)]
    let ?k = "j\<lparr>lease_expires_at := Some (now (db S) + LEASE_SECONDS), job_updated_at := now (db S)\<rparr>"
    have sp: "is_echo ?k = is_echo j" "is_done ?k = is_done j" "pages_ok s i ?k = pages_ok s i j" for s
      by (rule same_progress; simp)+
    show "pages_ok (db S) i ?k \<and> attempts_ok ?k \<and> points_ok ((point_of S)(w := Checking i)) i ?k"
      using d sp i by (auto simp: attempts_ok_def points_ok_def)
  qed (use i in auto)
  moreover have "goto w (Checking i) T = T" if "point_of T = point_of S" for T
    using that i by (simp add: goto_def fun_upd_idem)
  ultimately show ?thesis using i by (simp add: tx_def split: prod.splits sum.splits)
next
  case False
  with ok show ?thesis by (auto split: point.splits)
qed

lemma check_done_ok:
  assumes ok: "work_ok S"
  shows "work_ok (work_step (CheckDone w res) S)"
proof (cases "\<exists>i. point_of S w = Checking i")
  case True
  then obtain i where i: "point_of S w = Checking i" by blast
  have "work_ok (goto w (Failing i) S)" by (rule work_ok_point[OF ok]) (use i in auto)
  moreover have "work_ok (tx (set_checkpoint i w [(''done'', JBool True)]) (\<lambda>_. goto w (Finishing i)) (goto w (Failing i)) S)"
    unfolding set_checkpoint_def
  proof (rule update_owned_ok[OF ok])
    fix j assume j: "get_job (db S) i = Some j" "owned_lease w j"
    note d = work_okD[OF ok j(1)]
    let ?k = "j\<lparr>checkpoint := [(''done'', JBool True)], job_updated_at := now (db S)\<rparr>"
    have "\<not> is_echo j" using d(3) i by (auto simp: points_ok_def)
    then show "pages_ok (db S) i ?k \<and> attempts_ok ?k \<and> points_ok ((point_of S)(w := Finishing i)) i ?k"
      using d by (auto simp: pages_ok_def is_echo_def attempts_ok_def points_ok_def)
  qed (use i in auto)
  ultimately show ?thesis using i by simp
next
  case False
  with ok show ?thesis by (auto split: point.splits)
qed

lemma complete_ok:
  assumes ok: "work_ok S"
  shows "work_ok (work_step (Complete w) S)"
proof (cases "\<exists>i. point_of S w = Finishing i")
  case True
  then obtain i where i: "point_of S w = Finishing i" by blast
  have "work_ok (tx (complete i w) (\<lambda>_. goto w Idle) (goto w (Failing i)) S)"
    unfolding complete_def
  proof (rule update_owned_ok[OF ok])
    fix j assume j: "get_job (db S) i = Some j" "lease_owner j = Some w"
    note d = work_okD[OF ok j(1)]
    let ?k = "j\<lparr>status := ''completed'', lease_owner := None, lease_expires_at := None, job_updated_at := now (db S)\<rparr>"
    have sp: "is_echo ?k = is_echo j" "is_done ?k = is_done j" "pages_ok s i ?k = pages_ok s i j" for s
      by (rule same_progress; simp)+
    have "is_echo j \<longrightarrow> is_done j" using d(3) i j(2) by (auto simp: points_ok_def)
    then show "pages_ok (db S) i ?k \<and> attempts_ok ?k \<and> points_ok ((point_of S)(w := Idle)) i ?k"
      using d sp j(2) by (auto simp: attempts_ok_def points_ok_def)
  qed (use i in auto)
  then show ?thesis using i by simp
next
  case False
  with ok show ?thesis by (auto split: point.splits)
qed

text \<open>The three statements of the exception handler.\<close>

lemma failure_backoff_eq:
  "failure_backoff i s = (case get_job s i of None \<Rightarrow> (Inl (JobVanished i), s)
     | Some j \<Rightarrow> (Inr (compute_backoff_seconds (attempt j + 1) 2 300), s))"
  by (simp add: failure_backoff_def bind_eq split: option.split)

lemma fail_select_eq:
  "fail_select i w s = (case get_job s i of None \<Rightarrow> (Inl (JobNotOwned i w), s)
     | Some j \<Rightarrow> if lease_owner j = Some w then (Inr (attempt j, max_attempts j), s) else (Inl (JobNotOwned i w), s))"
  by (simp add: fail_select_def bind_eq then_db_eq get_job_def split: option.split)

definition failed_row :: "int \<Rightarrow> int \<Rightarrow> string \<Rightarrow> int \<Rightarrow> int \<Rightarrow> job \<Rightarrow> job" where
  "failed_row a m err b t j =
     (if a + 1 < m
      then j\<lparr>status := ''pending'', attempt := a + 1, last_error := Some err, lease_owner := None, lease_expires_at := None,
             next_retry_at := Some (t + b), job_updated_at := t\<rparr>
      else j\<lparr>status := ''failed'', attempt := a + 1, last_error := Some err, lease_owner := None, lease_expires_at := None,
             job_updated_at := t\<rparr>)"

lemma fail_update_eq:
  "fail_update i a m err b t s =
     (Inr (if a + 1 < m then ''pending'' else ''failed''), s\<lparr>jobs := update_row i (failed_row a m err b t) (jobs s)\<rparr>)"
  by (simp add: fail_update_def then_db_eq failed_row_def[abs_def] Let_def)

lemma failed_row_sel [simp]:
  "status (failed_row a m err b t j) = (if a + 1 < m then ''pending'' else ''failed'')" "lease_owner (failed_row a m err b t j) = None"
  "attempt (failed_row a m err b t j) = a + 1" "max_attempts (failed_row a m err b t j) = max_attempts j"
  "checkpoint (failed_row a m err b t j) = checkpoint j" "job_type (failed_row a m err b t j) = job_type j"
  "params (failed_row a m err b t j) = params j"
  by (simp_all add: failed_row_def)

lemma fail_get_ok:
  assumes ok: "work_ok S"
  shows "work_ok (work_step (FailGet w) S)"
proof (cases "\<exists>i. point_of S w = Failing i")
  case True
  then obtain i where i: "point_of S w = Failing i" by blast
  have "work_ok (goto w Idle S)" "work_ok (goto w (Backing i b t) S)" for b t
    using i by (intro work_ok_point[OF ok]; simp)+
  with i show ?thesis by (simp add: tx_def transaction_def failure_backoff_eq split: option.split)
next
  case False
  with ok show ?thesis by (auto split: point.splits)
qed

lemma fail_select_ok:
  assumes ok: "work_ok S"
  shows "work_ok (work_step (FailSelect w) S)"
proof (cases "\<exists>i b t. point_of S w = Backing i b t")
  case True
  then obtain i b t where i: "point_of S w = Backing i b t" by blast
  have idle: "work_ok (goto w Idle S)" by (rule work_ok_point[OF ok]) auto
  have "work_ok (goto w (Reporting i (attempt j) (max_attempts j) b t) S)"
    if j: "get_job (db S) i = Some j" "lease_owner j = Some w" for j
  proof -
    note d = work_okD[OF ok j(1)]
    have "update_row i (\<lambda>j. j) (jobs (db S)) = jobs (db S)" by (simp add: update_row_def)
    moreover have "points_ok ((point_of S)(w := Reporting i (attempt j) (max_attempts j) b t)) i j"
      using d(2,3) j(2) by (auto simp: points_ok_def attempts_ok_def reports_ok_def)
    ultimately show ?thesis
      using work_ok_row_at[OF ok j(1), of "\<lambda>j. j" w "Reporting i (attempt j) (max_attempts j) b t"] d by simp
  qed
  with idle i show ?thesis by (simp add: tx_def transaction_def fail_select_eq split: option.split)
next
  case False
  with ok show ?thesis by (auto split: point.splits)
qed

lemma fail_write_ok:
  assumes ok: "work_ok S"
  shows "work_ok (work_step (FailWrite w err) S)"
proof (cases "\<exists>i a m b t. point_of S w = Reporting i a m b t")
  case True
  then obtain i a m b t where i: "point_of S w = Reporting i a m b t" by blast
  then obtain j where j: "get_job (db S) i = Some j"
    using ok unfolding work_ok_def by (metis job_of_point.simps(7) not_Some_eq)
  note d = work_okD[OF ok j]
  have "reports_ok (point_of S) i (max_attempts j)" using d(3) by (simp add: points_ok_def)
  with i have r: "0 \<le> a" "a < m" "m = max_attempts j" unfolding reports_ok_def by blast+
  let ?f = "failed_row a m err b t"
  have sp: "is_echo (?f j) = is_echo j" "is_done (?f j) = is_done j" "pages_ok s i (?f j) = pages_ok s i j" for s
    by (rule same_progress; simp)+
  have "work_ok (goto w Idle (S\<lparr>db := (db S)\<lparr>jobs := update_row i ?f (jobs (db S))\<rparr>\<rparr>))"
    by (rule work_ok_row_at[OF ok j]) (use d sp r in \<open>auto simp: attempts_ok_def points_ok_def\<close>)
  with i show ?thesis by (simp add: tx_def transaction_def fail_update_eq)
next
  case False
  with ok show ?thesis by (auto split: point.splits)
qed

text \<open>Without another worker in between, the three steps are the handler's transaction.\<close>

lemma undisturbed_failure:
  assumes "point_of S w = Failing i"
  shows "work_step (FailWrite w err) (work_step (FailSelect w) (work_step (FailGet w) S)) =
    tx (record_failure i w err) (\<lambda>_. goto w Idle) (goto w Idle) S"
  using assms
  by (simp add: tx_def transaction_def record_failure_def fail_retry_def bind_eq failure_backoff_eq fail_select_eq fail_update_eq
      goto_def fun_upd_idem split: option.split)

lemma die_ok: "work_ok S \<Longrightarrow> work_ok (work_step (Die w) S)"
  using work_ok_point[of S Idle w] by simp

lemma cancel_ok:
  assumes ok: "work_ok S"
  shows "work_ok (work_step (Cancel i) S)"
proof (cases "get_job (db S) i")
  case None
  then have "update_row i f (jobs (db S)) = jobs (db S)" for f
    by (force simp: get_job_def update_row_def map_of_eq_None_iff intro!: map_idI)
  with ok show ?thesis by (simp add: tx_def transaction_def cancel_def)
next
  case (Some j)
  note d = work_okD[OF ok Some]
  let ?f = "\<lambda>j. j\<lparr>status := ''cancelled'', job_updated_at := now (db S)\<rparr>"
  have sp: "is_echo (?f j) = is_echo j" "is_done (?f j) = is_done j" "pages_ok s i (?f j) = pages_ok s i j" for s
    by (rule same_progress; simp)+
  let ?T = "S\<lparr>db := (db S)\<lparr>jobs := update_row i ?f (jobs (db S))\<rparr>\<rparr>"
  have "work_ok ?T"
  proof (rule work_okI)
    have g: "get_job (db ?T) k = (if k = i then Some (?f j) else get_job (db S) k)" for k
      using Some by (simp add: get_job_def)
    show "distinct (map fst (jobs (db ?T)))" "fst ` set (jobs (db ?T)) \<subseteq> {..<job_seq (db ?T)}"
      using ok by (simp_all add: work_ok_def)
    show "row_ok ?T k x" if x: "get_job (db ?T) k = Some x" for k x
    proof (cases "k = i")
      case True
      with x g have xe: "x = ?f j" by simp
      have "pages_ok (db S) i x" using d(1) sp(3)[of "db S"] by (simp only: xe)
      then have "pages_ok (db ?T) i x" by (simp add: pages_ok_def)
      moreover have "attempts_ok x" using d(2) by (auto simp: xe attempts_ok_def)
      moreover have "points_ok (point_of ?T) i x" using d(3) sp by (simp add: xe points_ok_def)
      ultimately show ?thesis by (simp add: row_ok_def True)
    next
      case False
      with x g ok show ?thesis by (auto simp: row_ok_def work_ok_def pages_ok_def)
    qed
    show "pages (db ?T) k = []" if "get_job (db ?T) k = None" for k
      using that g ok by (auto simp: work_ok_def split: if_splits)
    show "get_job (db ?T) k \<noteq> None" if "job_of_point (point_of ?T v) = Some k" for v k
      using that g ok unfolding work_ok_def by auto
  qed
  then show ?thesis by (simp add: tx_def transaction_def cancel_def)
qed

lemma pages_update_event:
  assumes a: "\<And>r. aggregate_id (f r) = aggregate_id r" and t: "\<And>r. event_type (f r) = event_type r"
    and p: "\<And>r. payload (f r) = payload r"
  shows "pages (s\<lparr>outbox := update_row k f (outbox s)\<rparr>) i = pages s i"
proof -
  have "map (\<lambda>(k, e). jget (payload e) ''page'') (filter (\<lambda>(k, e). aggregate_id e = a \<and> event_type e = b)
      (update_row k f es)) =
      map (\<lambda>(k, e). jget (payload e) ''page'') (filter (\<lambda>(k, e). aggregate_id e = a \<and> event_type e = b) es)" for a b es
    by (induction es) (simp_all add: update_row_def a t p split_beta)
  then show ?thesis by (simp add: pages_def)
qed

lemma publish_rows_pages:
  "snd (publish_rows deliver es s) = t \<Longrightarrow> jobs t = jobs s \<and> job_seq t = job_seq s \<and> (\<forall>i. pages t i = pages s i)"
proof (induction es arbitrary: s t)
  case (Cons e es)
  let ?u = "s\<lparr>outbox := update_row (fst e) (\<lambda>r. r\<lparr>event_status := ''published'', published_at := Some (now s)\<rparr>) (outbox s)\<rparr>"
  have u: "jobs ?u = jobs s" "job_seq ?u = job_seq s" "pages ?u i = pages s i" for i
    by (simp_all add: pages_update_event)
  show ?case
  proof (cases "deliver e")
    case True
    with Cons.prems have "t = snd (publish_rows deliver es ?u)"
      by (simp add: then_db_eq bind_eq split: prod.splits sum.splits)
    from Cons.IH[OF this[symmetric]] u show ?thesis by simp
  next
    case False
    with Cons.prems show ?thesis by (simp add: then_db_eq)
  qed
qed simp

lemma publish_ok:
  assumes ok: "work_ok S"
  shows "work_ok (work_step (Publish deliver limit) S)"
proof (cases "publish_pending deliver limit (db S)")
  case (Pair r t)
  then have "snd (publish_rows deliver (pending_events (db S) limit) (db S)) = t"
    by (simp add: publish_pending_def bind_eq)
  note p = publish_rows_pages[OF this]
  then have "get_job t i = get_job (db S) i" for i by (simp add: get_job_def)
  with ok p have "work_ok (S\<lparr>db := t\<rparr>)"
    by (simp add: work_ok_def row_ok_def pages_ok_def)
  with ok Pair show ?thesis by (cases r) (simp_all add: tx_def transaction_def)
qed

lemma work_step_ok: "work_ok S \<Longrightarrow> work_ok (work_step e S)"
  by (cases e) (simp_all only: enqueue_ok tick_ok claim_ok iterate_ok beat_ok check_done_ok complete_ok
      fail_get_ok fail_select_ok fail_write_ok die_ok cancel_ok publish_ok)

interpretation workers: invariant_system work_start work_next work_ok
proof
  show "work_start S \<Longrightarrow> work_ok S" for S
    by (simp add: work_start_def empty_work_db_def work_ok_def get_job_def pages_def)
  show "work_ok S \<Longrightarrow> work_next S T \<Longrightarrow> work_ok T" for S T
    using work_step_ok by (auto simp: work_next_def)
qed

end
