(* ===== verification/Worker_Theorems.thy ===== *)
theory Worker_Theorems
  imports Worker_Spec
begin

text \<open>
  The properties of the job store, the outbox and the worker: progress is recorded exactly once,
  retries are bounded, a lease excludes the other workers, and the publisher hands out every
  event once.
\<close>

section \<open>The page job\<close>

text \<open>
  C11. Whatever the workers, crashes, lease expiries, retries and cancellations do, the outbox
  holds the pages of an echo job exactly once and in order, as many as its checkpoint says,
  and when the job is completed at least \<open>total_pages\<close> of them are there.
\<close>

theorem pages_exactly_once:
  assumes "reachable work_start work_next S" "get_job (db S) i = Some j" "job_type j = ECHO_TYPE"
  shows "\<exists>n. pages (db S) i = map JInt [1..int n] \<and>
    map_of (checkpoint j) ''page'' = (if n = 0 then None else Some (JInt (int n))) \<and>
    (status j = ''completed'' \<longrightarrow>
       (\<exists>tp y. map_of (params j) ''total_pages'' = Some tp \<and> py_number tp = Some y \<and> y \<le> of_nat n))"
proof -
  note d = work_okD[OF workers.reachable_inv[OF assms(1)] assms(2)]
  have e: "is_echo j" using assms(3) by (simp add: is_echo_def)
  with d(1) obtain n where "page_is j n" "pages (db S) i = map JInt [1..int n]" "is_done j \<Longrightarrow> all_pages j n"
    by (auto simp: pages_ok_def)
  moreover have "status j = ''completed'' \<Longrightarrow> is_done j" using d(3) e by (simp add: points_ok_def)
  ultimately show ?thesis unfolding page_is_def all_pages_def by blast
qed

definition demo_identity :: job_identity where
  "demo_identity = \<lparr>job_type = ''paged_echo'', params = [(''total_pages'', JInt 2)], job_source = ''demo'',
     range_start = None, range_end = None, contract_version = ''v1'', job_correlation_id = ''c''\<rparr>"

definition demo_start :: worker_system where
  "demo_start = \<lparr>db = empty_work_db, point_of = (\<lambda>_. Idle)\<rparr>"

definition run_events :: "work_event list \<Rightarrow> worker_system" where
  "run_events es = foldl (\<lambda>S e. work_step e S) demo_start es"

lemma run_events_reachable: "reachable work_start work_next (run_events es)"
proof (induction es rule: rev_induct)
  case Nil
  then show ?case by (simp add: run_events_def demo_start_def work_start_def reachable.initially)
next
  case (snoc e es)
  have "work_next (run_events es) (work_step e (run_events es))" by (auto simp: work_next_def)
  with snoc show ?case by (simp add: run_events_def reachable.stepwise)
qed

text \<open>
  Worker \<open>a\<close> processes one page and stalls; its lease runs out, \<open>b\<close> takes over and finishes; the
  late iteration of \<open>a\<close> leaves no trace.
\<close>

definition demo_takeover :: "work_event list" where
  "demo_takeover = [Enqueue demo_identity, Claim ''a'', Iterate ''a'', Tick 31, Claim ''b'', Iterate ''b'',
     Iterate ''a'', Complete ''b'']"

lemma demo_takeover_job:
  "map_option status (get_job (db (run_events demo_takeover)) 1) = Some ''completed''"
  "map_option job_type (get_job (db (run_events demo_takeover)) 1) = Some ECHO_TYPE"
  "map_option checkpoint (get_job (db (run_events demo_takeover)) 1) = Some [(''page'', JInt 2), (''done'', JBool True)]"
  by code_simp+

theorem pages_exactly_once_witness: "pages (db (run_events demo_takeover)) 1 = [JInt 1, JInt 2]"
proof -
  from demo_takeover_job obtain j where j: "get_job (db (run_events demo_takeover)) 1 = Some j" "job_type j = ECHO_TYPE"
    "checkpoint j = [(''page'', JInt 2), (''done'', JBool True)]" by (auto simp: map_option_case split: option.splits)
  from pages_exactly_once[OF run_events_reachable j(1,2)] j(3)
  obtain n where "pages (db (run_events demo_takeover)) 1 = map JInt [1..int n]" "n = 2"
    by (auto split: if_splits)
  then show ?thesis by (simp add: upto.simps)
qed

section \<open>Retries\<close>

text \<open>
  C12. The attempt counter of a job, which counts the failures that workers report, stays within its
  limit: in every reachable state it is between 0 and \<open>max_attempts\<close>, a dead-lettered job has used
  all attempts, and a job that a worker can claim has at least one left. The number of times a job
  is started is not bounded by it: a worker that dies reports nothing, and claiming its job again
  leaves the counter as it was (lemma \<open>crashes_not_counted\<close>).
\<close>

theorem attempts_bounded:
  assumes "reachable work_start work_next S" "get_job (db S) i = Some j"
  shows "0 \<le> attempt j \<and> attempt j \<le> max_attempts j \<and>
    (status j = ''failed'' \<longrightarrow> attempt j = max_attempts j) \<and>
    (claimable (now (db S)) j \<longrightarrow> attempt j < max_attempts j)"
  using work_okD(2)[OF workers.reachable_inv[OF assms(1)] assms(2)]
  by (auto simp: attempts_ok_def claimable_def)

definition demo_poison :: "work_event list" where
  "demo_poison = Enqueue (demo_identity\<lparr>params := []\<rparr>) #
     concat (replicate 5 [Claim ''a'', Iterate ''a'', FailGet ''a'', FailSelect ''a'', FailWrite ''a'' ''KeyError'', Tick 400])"

theorem attempts_bounded_witness:
  "\<exists>j. get_job (db (run_events demo_poison)) 1 = Some j \<and> status j = ''failed'' \<and> attempt j = max_attempts j"
proof -
  have "map_option status (get_job (db (run_events demo_poison)) 1) = Some ''failed''" by code_simp
  then obtain j where "get_job (db (run_events demo_poison)) 1 = Some j" "status j = ''failed''" by auto
  with attempts_bounded[OF run_events_reachable this(1)] show ?thesis by simp
qed

text \<open>Six workers start a job and die; with a limit of five attempts it has used none.\<close>

lemma crashes_not_counted:
  "map_option (\<lambda>j. (status j, attempt j, max_attempts j))
     (get_job (db (run_events (Enqueue demo_identity # concat (replicate 6 [Claim ''a'', Die ''a'', Tick 31])))) 1) = Some (''leased'', 0, 5)"
  by code_simp

text \<open>
  The waiting time before a retry is at least one second, never above the cap, and does not
  shrink from one attempt to the next.
\<close>

lemma backoff_bounds:
  assumes "1 \<le> base" "1 \<le> cap"
  shows "1 \<le> compute_backoff_seconds att base cap \<and> compute_backoff_seconds att base cap \<le> cap \<and>
    (att \<le> att' \<longrightarrow> compute_backoff_seconds att base cap \<le> compute_backoff_seconds att' base cap)"
proof -
  have "base ^ nat (max att 1) \<le> base ^ nat (max att' 1)" if "att \<le> att'"
    using assms(1) that by (intro power_increasing) auto
  then show ?thesis
    using assms one_le_power[OF assms(1), of "nat (max att 1)"]
    by (auto simp: compute_backoff_seconds_def min_def)
qed

section \<open>Leases\<close>

text \<open>The worker that takes an event.\<close>

fun event_actor :: "work_event \<Rightarrow> string option" where
  "event_actor (Claim w) = Some w"
| "event_actor (Iterate w) = Some w"
| "event_actor (Beat w) = Some w"
| "event_actor (CheckDone w ok) = Some w"
| "event_actor (Complete w) = Some w"
| "event_actor (FailGet w) = Some w"
| "event_actor (FailSelect w) = Some w"
| "event_actor (FailWrite w err) = Some w"
| "event_actor (Die w) = Some w"
| "event_actor _ = None"

text \<open>A worker other than \<open>w\<close> is between the two statements of a failure report on the job.\<close>

definition late_report :: "worker_system \<Rightarrow> int \<Rightarrow> string \<Rightarrow> bool" where
  "late_report S i w \<longleftrightarrow> (\<exists>v a m b t. v \<noteq> w \<and> point_of S v = Reporting i a m b t)"

lemma late_report_goto:
  "v \<noteq> w \<Longrightarrow> late_report (goto v p S) i w \<Longrightarrow> late_report S i w \<or> (\<exists>a m b t. p = Reporting i a m b t)"
  unfolding late_report_def goto_def by (auto split: if_splits)

definition untouched :: "int \<Rightarrow> string \<Rightarrow> worker_system \<Rightarrow> worker_system \<Rightarrow> bool" where
  "untouched i w S T \<longleftrightarrow> get_job (db T) i = get_job (db S) i \<and> pages (db T) i = pages (db S) i \<and> (late_report T i w \<longrightarrow> late_report S i w)"

lemma untouched_goto:
  "v \<noteq> w \<Longrightarrow> (\<And>a m b t. p \<noteq> Reporting i a m b t) \<Longrightarrow> get_job s i = get_job (db S) i \<Longrightarrow> pages s i = pages (db S) i \<Longrightarrow>
   untouched i w S (goto v p (S\<lparr>db := s\<rparr>))"
  using late_report_goto[of v w p "S\<lparr>db := s\<rparr>" i] by (auto simp: untouched_def late_report_def goto_def)

lemma untouched_same: "point_of T = point_of S \<Longrightarrow> get_job (db T) i = get_job (db S) i \<Longrightarrow> pages (db T) i = pages (db S) i \<Longrightarrow> untouched i w S T"
  by (simp add: untouched_def late_report_def)

lemma get_job_other: "k \<noteq> i \<Longrightarrow> get_job (s\<lparr>jobs := update_row k f (jobs s)\<rparr>) i = get_job s i"
  by (simp add: get_job_def)

text \<open>An update that only the owner of a lease may make, tried by another worker.\<close>

lemma untouched_update_owned:
  assumes "get_job (db S) i = Some j" "lease_owner j = Some w" "v \<noteq> w" "\<And>j. q j \<Longrightarrow> lease_owner j = Some v"
    and "\<And>a m b t. p \<noteq> Reporting i a m b t"
  shows "untouched i w S (tx (update_owned k v q f) (\<lambda>_. goto v p) (goto v (Failing k)) S)"
proof (cases "\<exists>x. get_job (db S) k = Some x \<and> q x")
  case True
  then obtain x where x: "get_job (db S) k = Some x" "q x" by blast
  with assms have "k \<noteq> i" by auto
  then have "untouched i w S (goto v p (S\<lparr>db := (db S)\<lparr>jobs := update_row k (f (now (db S))) (jobs (db S))\<rparr>\<rparr>))"
    by (intro untouched_goto assms(3,5)) (simp_all add: get_job_other)
  with x show ?thesis by (simp add: tx_def transaction_def update_owned_eq)
next
  case False
  have "untouched i w S (goto v (Failing k) (S\<lparr>db := db S\<rparr>))" by (rule untouched_goto[OF assms(3)]) simp_all
  with False show ?thesis by (auto simp: tx_def transaction_def update_owned_eq split: option.split)
qed

lemma untouched_iterate:
  assumes "get_job (db S) i = Some j" "lease_owner j = Some w" "v \<noteq> w"
  shows "untouched i w S (work_step (Iterate v) S)"
proof (cases "\<exists>k. point_of S v = Looping k")
  case True
  then obtain k where k: "point_of S v = Looping k" by blast
  show ?thesis
  proof (cases "echo_iteration k v (db S)")
    case (Pair r t)
    show ?thesis
    proof (cases r)
      case (Inl e)
      have "untouched i w S (goto v (Failing k) (S\<lparr>db := db S\<rparr>))" by (rule untouched_goto[OF assms(3)]) simp_all
      with Inl Pair k show ?thesis by (simp add: tx_def transaction_def)
    next
      case (Inr ck)
      obtain x where x: "get_job (db S) k = Some x" "owned_lease v x"
        "jobs t = update_row k (\<lambda>j. j\<lparr>checkpoint := ck, job_updated_at := now (db S)\<rparr>) (jobs (db S))"
        "\<exists>p. \<forall>l. pages t l = pages (db S) l @ (if l = k then [p] else [])"
        using echo_iteration_Inr[OF Pair[unfolded Inr]] by metis
      with assms have "k \<noteq> i" by (auto simp: owned_lease_def)
      with x(3,4) have "get_job t i = get_job (db S) i" "pages t i = pages (db S) i" by (auto simp: get_job_def)
      then have "untouched i w S (goto v (if truthy (jget ck ''done'') then Finishing k else Looping k) (S\<lparr>db := t\<rparr>))"
        by (intro untouched_goto assms(3)) simp_all
      with Inr Pair k show ?thesis by (simp add: tx_def transaction_def)
    qed
  qed
next
  case False
  then show ?thesis by (auto simp: untouched_def split: point.splits)
qed

lemma untouched_claim:
  assumes "work_ok S" "get_job (db S) i = Some j" "owned_lease w j" "lease_expires_at j = Some x" "now (db S) \<le> x" "v \<noteq> w"
  shows "untouched i w S (work_step (Claim v) S)"
proof (cases "point_of S v = Idle \<and> first_claimable (db S) \<noteq> None")
  case True
  then obtain k where k: "first_claimable (db S) = Some k" by auto
  have "distinct (map fst (jobs (db S)))" using assms(1) by (simp add: work_ok_def)
  with k obtain y where y: "get_job (db S) k = Some y" "claimable (now (db S)) y" by (rule first_claimable_Some)
  have "\<not> claimable (now (db S)) j" using assms(3-5) by (simp add: claimable_def owned_lease_def)
  with y assms(2) have "k \<noteq> i" by auto
  let ?f = "lease v LEASE_SECONDS (now (db S))"
  have "untouched i w S (goto v (start_point k (?f y)) (S\<lparr>db := (db S)\<lparr>jobs := update_row k ?f (jobs (db S))\<rparr>\<rparr>))"
    using \<open>k \<noteq> i\<close> by (intro untouched_goto assms(6)) (simp_all add: get_job_other start_point_def)
  with True k y show ?thesis by (simp add: tx_def transaction_def claim_eq)
next
  case False
  then show ?thesis by (auto simp: tx_def transaction_def claim_eq untouched_def late_report_def)
qed

lemma untouched_fail:
  assumes "get_job (db S) i = Some j" "lease_owner j = Some w" "v \<noteq> w" "\<not> late_report S i w"
  shows "untouched i w S (work_step (FailGet v) S)" "untouched i w S (work_step (FailSelect v) S)" "untouched i w S (work_step (FailWrite v err) S)"
proof -
  have u: "untouched i w S (goto v p S)" if "\<And>a m b t. p \<noteq> Reporting i a m b t" for p
    using untouched_goto[OF assms(3) that, of "db S" S] by simp
  show "untouched i w S (work_step (FailGet v) S)"
    using u[of Idle] u by (auto simp: tx_def transaction_def failure_backoff_eq untouched_def split: point.splits option.splits)
  have "untouched i w S (goto v (Reporting k (attempt x) (max_attempts x) b t) S)"
    if "get_job (db S) k = Some x" "lease_owner x = Some v" for k x b t
    by (rule u) (use assms that in auto)
  then show "untouched i w S (work_step (FailSelect v) S)"
    using u[of Idle] by (auto simp: tx_def transaction_def fail_select_eq untouched_same split: point.splits option.splits)
  have "untouched i w S (goto v Idle (S\<lparr>db := (db S)\<lparr>jobs := update_row k f (jobs (db S))\<rparr>\<rparr>))" if "k \<noteq> i" for k f
    by (rule untouched_goto[OF assms(3)]) (use that in \<open>simp_all add: get_job_other\<close>)
  moreover have "k \<noteq> i" if "point_of S v = Reporting k a m b t" for k a m b t
    using assms(3,4) that unfolding late_report_def by blast
  ultimately show "untouched i w S (work_step (FailWrite v err) S)"
    by (auto simp: tx_def transaction_def fail_update_eq untouched_same split: point.splits)
qed

text \<open>
  C13. A job that a worker holds under a lease that has not run out is its own, as long as no other
  worker is inside a failure report on it that began while it was the owner: whatever another
  worker does next, short of cancelling the job, the row and the recorded pages stay as they are,
  and no such report begins. A report that was begun in time and is written late does take the
  job away from its new owner: \<open>fail_retry\<close> reads the row without a lock and updates it by its id
  alone (lemma \<open>late_report_frees_lease\<close>).
\<close>

theorem lease_excludes:
  assumes "reachable work_start work_next S" "get_job (db S) i = Some j" "owned_lease w j"
    and "lease_expires_at j = Some x" "now (db S) \<le> x" "\<not> late_report S i w"
    and "event_actor e \<noteq> Some w" "e \<noteq> Cancel i"
  shows "get_job (db (work_step e S)) i = Some j \<and> pages (db (work_step e S)) i = pages (db S) i \<and> \<not> late_report (work_step e S) i w"
proof -
  have ok: "work_ok S" by (rule workers.reachable_inv[OF assms(1)])
  have own: "lease_owner j = Some w" using assms(3) by (simp add: owned_lease_def)
  have "untouched i w S (work_step e S)"
  proof (cases e)
    case (Enqueue d)
    have "job_seq (db S) \<notin> fst ` set (jobs (db S))" using ok by (auto simp: work_ok_def)
    then have "map_of (jobs (db S)) (job_seq (db S)) = None" by (simp add: map_of_eq_None_iff)
    then have "i \<noteq> job_seq (db S)" using assms(2) by (auto simp: get_job_def)
    then show ?thesis using assms(2) Enqueue
      by (simp add: untouched_same tx_def transaction_def enqueue_job_def bind_eq then_db_eq get_job_def)
  next
    case (Claim v)
    with assms(7) show ?thesis using untouched_claim[OF ok assms(2-5)] by simp
  next
    case (Iterate v)
    with assms(7) show ?thesis using untouched_iterate[OF assms(2) own] by simp
  next
    case (Beat v)
    with assms(7) have v: "v \<noteq> w" by simp
    have "untouched i w S (tx (heartbeat k v LEASE_SECONDS) (\<lambda>_ T. T) (goto v (Failing k)) S)" if "point_of S v = Checking k" for k
    proof -
      have "untouched i w S (tx (heartbeat k v LEASE_SECONDS) (\<lambda>_. goto v (Checking k)) (goto v (Failing k)) S)"
        unfolding heartbeat_def by (rule untouched_update_owned[OF assms(2) own v]) (simp_all add: owned_lease_def)
      moreover have "goto v (Checking k) T = T" if "point_of T = point_of S" for T
        using that \<open>point_of S v = Checking k\<close> by (simp add: goto_def fun_upd_idem)
      ultimately show ?thesis by (simp add: tx_def split: prod.splits sum.splits)
    qed
    then show ?thesis by (auto simp: Beat untouched_same split: point.splits)
  next
    case (CheckDone v res)
    with assms(7) have v: "v \<noteq> w" by simp
    have "untouched i w S (tx (set_checkpoint k v [(''done'', JBool True)]) (\<lambda>_. goto v (Finishing k)) (goto v (Failing k)) S)" for k
      unfolding set_checkpoint_def by (rule untouched_update_owned[OF assms(2) own v]) (simp_all add: owned_lease_def)
    moreover have "untouched i w S (goto v (Failing k) S)" for k using untouched_goto[OF v, of "Failing k" i "db S" S] by simp
    ultimately show ?thesis by (auto simp: CheckDone untouched_same split: point.splits)
  next
    case (Complete v)
    with assms(7) have v: "v \<noteq> w" by simp
    have "untouched i w S (tx (complete k v) (\<lambda>_. goto v Idle) (goto v (Failing k)) S)" for k
      unfolding complete_def by (rule untouched_update_owned[OF assms(2) own v]) simp_all
    then show ?thesis by (auto simp: Complete untouched_same split: point.splits)
  next
    case (Die v)
    with assms(7) show ?thesis using untouched_goto[of v w Idle i "db S" S] by simp
  next
    case (Cancel k)
    with assms(8) show ?thesis by (simp add: untouched_same tx_def transaction_def cancel_def get_job_other)
  next
    case (Publish deliver limit)
    obtain r t where p: "publish_pending deliver limit (db S) = (r, t)" by (cases "publish_pending deliver limit (db S)")
    then have "jobs t = jobs (db S)" "pages t i = pages (db S) i"
      using publish_rows_pages[of deliver "pending_events (db S) limit" "db S" t] by (simp_all add: publish_pending_def bind_eq)
    then show ?thesis using p Publish by (cases r) (simp_all add: untouched_same tx_def transaction_def get_job_def)
  qed (use assms(7) untouched_fail[OF assms(2) own _ assms(6)] in \<open>simp_all add: untouched_same get_job_def del: work_step.simps(8-10)\<close>)
  with assms(2,6) show ?thesis by (simp add: untouched_def)
qed

lemma point_of_other: "event_actor e \<noteq> Some v \<Longrightarrow> point_of (work_step e S) v = point_of S v"
  by (cases e) (auto simp: tx_def goto_def split: point.splits prod.splits sum.splits option.splits)

lemma idle_workers: "(\<forall>e \<in> set es. event_actor e \<noteq> Some v) \<Longrightarrow> point_of (run_events es) v = Idle"
proof (induction es rule: rev_induct)
  case (snoc e es)
  then show ?case using point_of_other[of e v "run_events es"] by (simp add: run_events_def)
qed (simp add: run_events_def demo_start_def)

text \<open>The takeover again: while \<open>b\<close> holds the job, the completion of \<open>a\<close> changes nothing.\<close>

definition demo_two :: "work_event list" where
  "demo_two = [Enqueue demo_identity, Claim ''a'', Iterate ''a'', Iterate ''a'', Tick 31, Claim ''b'']"

theorem lease_excludes_witness:
  "\<exists>j. get_job (db (run_events demo_two)) 1 = Some j \<and> owned_lease ''b'' j \<and>
     point_of (run_events demo_two) ''a'' = Finishing 1 \<and>
     get_job (db (work_step (Complete ''a'') (run_events demo_two))) 1 = Some j"
proof -
  let ?S = "run_events demo_two"
  have "map_option (\<lambda>j. (owned_lease ''b'' j, lease_expires_at j)) (get_job (db ?S) 1) = Some (True, Some 61)" "now (db ?S) = 31"
    by code_simp+
  then obtain j where j: "get_job (db ?S) 1 = Some j" "owned_lease ''b'' j" "lease_expires_at j = Some 61" "now (db ?S) \<le> 61" by auto
  have a: "point_of ?S ''a'' = Finishing 1" by code_simp
  have "point_of ?S v = Idle" if "v \<noteq> ''a''" "v \<noteq> ''b''" for v by (rule idle_workers) (use that in \<open>simp add: demo_two_def\<close>)
  with a have "\<not> late_report ?S 1 ''b''" unfolding late_report_def by (metis point.simps)
  from lease_excludes[OF run_events_reachable j this, of "Complete ''a''"] j a show ?thesis by auto
qed

text \<open>
  Worker \<open>a\<close> reads the job for its failure report, its lease runs out, \<open>b\<close> takes over and works; the
  late update of \<open>a\<close> frees the job, and \<open>c\<close> claims it while \<open>b\<close> is still at work.
\<close>

lemma late_report_frees_lease:
  "let S = run_events [Enqueue (demo_identity\<lparr>params := []\<rparr>), Claim ''a'', Iterate ''a'', FailGet ''a'', FailSelect ''a'', Tick 31, Claim ''b'',
       FailWrite ''a'' ''KeyError'', Claim ''c''] in
   map_option lease_owner (get_job (db S) 1) = Some (Some ''c'') \<and> point_of S ''b'' = Looping 1"
  by code_simp

section \<open>The publisher\<close>

lemma publish_rows_result:
  "publish_rows deliver es s =
     (if \<forall>e \<in> set es. deliver e then Inr es else Inl DeliveryFailed,
      s\<lparr>outbox := fold (\<lambda>e. update_row (fst e) (\<lambda>r. r\<lparr>event_status := ''published'', published_at := Some (now s)\<rparr>))
        (takeWhile deliver es) (outbox s)\<rparr>)"
  by (induction es arbitrary: s) (simp_all add: then_db_eq bind_eq)

lemma fold_update_row:
  assumes "distinct (map fst xs)" "\<And>r. f (f r) = f r"
  shows "fold (\<lambda>e. update_row (fst e) f) es xs = map (\<lambda>(k, r). (k, if k \<in> fst ` set es then f r else r)) xs"
  using assms(1)
proof (induction es arbitrary: xs)
  case (Cons e es)
  have "distinct (map fst (update_row (fst e) f xs))" using Cons.prems by simp
  from Cons.IH[OF this] show ?case using assms(2) by (auto simp: update_row_def)
qed (simp add: map_idI)

definition mark_published :: "int set \<Rightarrow> int \<Rightarrow> (int \<times> outbox_row) list \<Rightarrow> (int \<times> outbox_row) list" where
  "mark_published ks t =
     map (\<lambda>(k, r). (k, if k \<in> ks then r\<lparr>event_status := ''published'', published_at := Some t\<rparr> else r))"

lemma publish_transaction:
  assumes "distinct (map fst (outbox s))"
  shows "transaction (publish_pending deliver limit) s =
    (let es = pending_events s limit in
     if \<forall>e \<in> set es. deliver e
     then (Inr es, s\<lparr>outbox := mark_published (fst ` set es) (now s) (outbox s)\<rparr>)
     else (Inl DeliveryFailed, s))"
proof -
  let ?es = "pending_events s limit"
  have "fold (\<lambda>e. update_row (fst e) (\<lambda>r. r\<lparr>event_status := ''published'', published_at := Some (now s)\<rparr>)) ?es (outbox s) =
      mark_published (fst ` set ?es) (now s) (outbox s)"
    by (simp add: fold_update_row[OF assms, of "\<lambda>r. r\<lparr>event_status := ''published'', published_at := Some (now s)\<rparr>"]
        mark_published_def)
  note marked = this
  show ?thesis
  proof (cases "\<forall>e \<in> set ?es. deliver e")
    case True
    then have "takeWhile deliver ?es = ?es" by (simp add: takeWhile_eq_all_conv)
    then have "publish_rows deliver ?es s =
        (Inr ?es, s\<lparr>outbox := mark_published (fst ` set ?es) (now s) (outbox s)\<rparr>)"
      using True marked by (simp only: publish_rows_result if_P)
    with True show ?thesis by (simp add: publish_pending_def transaction_def bind_eq Let_def)
  next
    case False
    then show ?thesis
      by (simp only: publish_pending_def transaction_def bind_eq Let_def publish_rows_result gets_eq if_not_P
          prod.case sum.case if_False)
  qed
qed

definition outbox_ids_ok :: "work_db \<Rightarrow> bool" where
  "outbox_ids_ok s \<longleftrightarrow> distinct (map fst (outbox s)) \<and> fst ` set (outbox s) \<subseteq> {..<outbox_seq s}"

lemma outbox_ids_jobs: "outbox_ids_ok (s\<lparr>jobs := js\<rparr>) = outbox_ids_ok s"
  "outbox_ids_ok (s\<lparr>jobs := js, job_seq := q\<rparr>) = outbox_ids_ok s" "outbox_ids_ok (s\<lparr>now := t\<rparr>) = outbox_ids_ok s"
  by (simp_all add: outbox_ids_ok_def)

lemma keeps_outbox_modify: "(\<And>s. outbox_ids_ok s \<Longrightarrow> outbox_ids_ok (f s)) \<Longrightarrow> keeps outbox_ids_ok (modify f)"
  by (simp add: keeps_def)

lemma keeps_enqueue_event: "keeps outbox_ids_ok (enqueue_event a b c d e)"
  by (rule keepsI) (auto simp: enqueue_event_def outbox_ids_ok_def bind_eq then_db_eq)

lemma keeps_publish_rows: "keeps outbox_ids_ok (publish_rows deliver es)"
proof (induction es)
  case (Cons e es)
  show ?case unfolding publish_rows.simps
    by (intro store_inv Cons keeps_outbox_modify) (simp add: outbox_ids_ok_def)
qed (simp del: ret_eq add: ret_def[symmetric] keeps_ret)

lemma keeps_update_owned: "keeps outbox_ids_ok (update_owned i w p f)"
  unfolding update_owned_def by (intro store_inv keeps_outbox_modify) (simp add: outbox_ids_jobs)

lemma keeps_process_page: "keeps outbox_ids_ok (process_page i j)"
  unfolding process_page_def by (auto intro!: store_inv keeps_enqueue_event split: option.split)

lemma keeps_echo_iteration: "keeps outbox_ids_ok (echo_iteration i w)"
  unfolding echo_iteration_def set_checkpoint_def
  by (intro store_inv) (auto intro!: store_inv keeps_process_page keeps_update_owned split: option.split)

lemma keeps_claim: "keeps outbox_ids_ok (claim w n)"
  by (rule keepsI) (simp add: claim_eq outbox_ids_jobs split: option.split)

lemma keeps_failure: "keeps outbox_ids_ok (failure_backoff i)" "keeps outbox_ids_ok (fail_select i w)"
  "keeps outbox_ids_ok (fail_update i a m err b t)"
  by (rule keepsI, simp add: failure_backoff_eq fail_select_eq fail_update_eq outbox_ids_jobs split: option.splits if_splits)+

lemma tx_outbox:
  assumes "keeps outbox_ids_ok m" "outbox_ids_ok (db S)" "\<And>x T. db (ok x T) = db T" "\<And>T. db (err T) = db T"
  shows "outbox_ids_ok (db (tx m ok err S))"
proof -
  have "outbox_ids_ok (snd (transaction m (db S)))" using keeps_transaction[OF assms(1)] assms(2) by (rule keepsD)
  then show ?thesis using assms(2-)
    by (cases m "db S" rule: transaction_cases) (simp_all add: tx_def transaction_def)
qed

lemma db_goto [simp]: "db (goto w p S) = db S"
  by (simp add: goto_def)

lemma work_step_outbox: "outbox_ids_ok (db S) \<Longrightarrow> outbox_ids_ok (db (work_step e S))"
proof (cases e)
  case (Publish deliver limit)
  assume "outbox_ids_ok (db S)"
  then show ?thesis unfolding Publish work_step.simps publish_pending_def
    by (intro tx_outbox store_inv keeps_publish_rows) simp_all
qed (auto intro!: tx_outbox keeps_claim keeps_echo_iteration keeps_update_owned keeps_failure store_inv
    keeps_outbox_modify simp: outbox_ids_jobs enqueue_job_def heartbeat_def set_checkpoint_def complete_def cancel_def
    split: point.split option.split)

interpretation outbox_rows: invariant_system work_start work_next "\<lambda>S. outbox_ids_ok (db S)"
proof
  show "work_start S \<Longrightarrow> outbox_ids_ok (db S)" for S
    by (simp add: work_start_def empty_work_db_def outbox_ids_ok_def)
  show "outbox_ids_ok (db S) \<Longrightarrow> work_next S T \<Longrightarrow> outbox_ids_ok (db T)" for S T
    using work_step_outbox unfolding work_next_def by metis
qed

text \<open>
  In every reachable state the publisher hands over the oldest pending events, at most
  \<open>limit\<close> of them, each once. If every delivery succeeds exactly these rows become published
  and the events still pending are the others, in their order; if one delivery raises, the
  transaction leaves the outbox as it was.
\<close>

theorem publish_pending_effect:
  assumes "reachable work_start work_next S"
  shows "let s = db S; es = pending_events s limit; ks = fst ` set es in
    distinct (map fst es) \<and>
    (if \<forall>e \<in> set es. deliver e
     then \<exists>t. transaction (publish_pending deliver limit) s = (Inr es, t) \<and>
        outbox t = mark_published ks (now s) (outbox s) \<and> jobs t = jobs s \<and>
        filter (\<lambda>(k, e). event_status e = ''pending'') (outbox t) =
        filter (\<lambda>(k, e). event_status e = ''pending'' \<and> k \<notin> ks) (outbox s)
     else transaction (publish_pending deliver limit) s = (Inl DeliveryFailed, s))"
proof -
  have d: "distinct (map fst (outbox (db S)))"
    using outbox_rows.reachable_inv[OF assms] by (simp add: outbox_ids_ok_def)
  have "distinct (map fst (pending_events (db S) limit))"
  proof -
    have "distinct (map fst (filter p (outbox (db S))))" for p using d by (simp add: distinct_map_filter)
    then have "distinct (map fst (sort_key f (filter p (outbox (db S)))))" for f :: "_ \<Rightarrow> int" and p
      by (metis (no_types, lifting) distinct_map distinct_sort set_sort)
    then show ?thesis by (simp add: pending_events_def take_map[symmetric])
  qed
  moreover have "filter (\<lambda>(k, e). event_status e = ''pending'') (mark_published ks t es) =
      filter (\<lambda>(k, e). event_status e = ''pending'' \<and> k \<notin> ks) es" for ks t es
    by (induction es) (auto simp: mark_published_def split: if_split_asm)
  ultimately show ?thesis
    using publish_transaction[OF d, of deliver limit] by (simp add: Let_def)
qed

theorem publish_pending_effect_witness:
  "map fst (pending_events (db (run_events demo_takeover)) 1) = [1] \<and>
   (\<exists>t. transaction (publish_pending (\<lambda>_. True) 1) (db (run_events demo_takeover)) =
      (Inr (pending_events (db (run_events demo_takeover)) 1), t) \<and> jobs t = jobs (db (run_events demo_takeover)))"
proof -
  have "map fst (pending_events (db (run_events demo_takeover)) 1) = [1]" by code_simp
  then show ?thesis using publish_pending_effect[OF run_events_reachable, of demo_takeover 1 "\<lambda>_. True"]
    by (simp add: Let_def) blast
qed

section \<open>Cancellation\<close>

text \<open>
  Cancelling a job that a worker holds does not stop it: the completion and the failure
  report only compare the owner of the lease, which \<open>cancel\<close> leaves in place, so a cancelled
  job ends as completed, or returns to the queue.
\<close>

theorem cancelled_job_continues:
  "map_option status (get_job (db (run_events [Enqueue demo_identity, Claim ''a'', Iterate ''a'', Iterate ''a'',
     Cancel 1, Complete ''a''])) 1) = Some ''completed'' \<and>
   map_option status (get_job (db (run_events [Enqueue demo_identity, Claim ''a'', Cancel 1, Iterate ''a'',
     FailGet ''a'', FailSelect ''a'', FailWrite ''a'' ''JobNotOwned''])) 1) = Some ''pending''"
  by code_simp

end
