(* ===== verification/Platform.thy ===== *)
theory Platform
  imports Systems
begin

text \<open>
  The part of the database that every API route shares, and the services of
  \<open>packages/platform\<close> on it: roles and permissions (\<open>rbac\<close>), users, sessions and lockout
  (\<open>auth\<close>), idempotency keys, the audit log, optimistic concurrency and cursor pagination.
  Components with tables of their own extend the record.

  An exception is an \<open>api_error\<close>: \<open>ApiError\<close> with its status, code and the values its message
  interpolates, or \<open>Exc\<close> with the class and arguments of any other Python exception. The
  database's \<open>now()\<close> and \<open>datetime.now(UTC)\<close> are one clock, in seconds. The password hasher
  (argon2) and the random token of a session are arguments.
\<close>

datatype api_error =
    ApiError nat string "string list"
  | Exc string "string list"

record user_row =
  username :: string
  display_name :: string
  role_id :: int
  user_status :: string
  user_version :: int
  password_hash :: "string option"
  failed_login_count :: int
  locked_until :: "int option"

record session_row =
  session_user :: int
  expires_at :: int
  revoked_at :: "int option"

record idempotency_row =
  request_fingerprint :: string
  response_status :: "nat option"
  response_body :: "jobject option"

record audit_row =
  actor :: string
  action :: string
  object_type :: string
  object_id :: string
  object_version :: "int option"
  audit_reason :: "string option"
  audit_correlation_id :: string

record platform_db =
  roles :: "(int \<times> string) list"
  permissions :: "(int \<times> string) list"
  role_permissions :: "(int \<times> int) list"
  users :: "(int \<times> user_row) list"
  user_seq :: int
  sessions :: "(string \<times> session_row) list"
  idempotency_keys :: "((string \<times> string) \<times> idempotency_row) list"
  audit_log :: "audit_row list"
  clock :: int
  correlation_id_var :: "string option"

record identity =
  subject :: string
  role :: string
  granted :: "string set"

text \<open>\<open>try: m except ...\<close>; the handler returns \<open>None\<close> for an exception it does not name.\<close>

definition catch :: "('s, 'e, 'a) db \<Rightarrow> ('e \<Rightarrow> 'e option) \<Rightarrow> ('s, 'e, 'a) db" where
  "catch m h = (\<lambda>s. case m s of
     (Inl e, t) \<Rightarrow> (Inl (case h e of None \<Rightarrow> e | Some e' \<Rightarrow> e'), t) | (Inr x, t) \<Rightarrow> (Inr x, t))"

definition except_class :: "string \<Rightarrow> (string list \<Rightarrow> api_error) \<Rightarrow> api_error \<Rightarrow> api_error option" where
  "except_class cls f e = (case e of Exc c args \<Rightarrow> if c = cls then Some (f args) else None | _ \<Rightarrow> None)"

text \<open>\<open>fromisoformat\<close> is an argument; \<open>None\<close> is its \<open>ValueError\<close>.\<close>

definition read_iso :: "(string \<Rightarrow> int option) \<Rightarrow> string \<Rightarrow> api_error + int" where
  "read_iso fromiso t = (case fromiso t of None \<Rightarrow> Inl (Exc ''ValueError'' [t]) | Some x \<Rightarrow> Inr x)"

section \<open>Roles and permissions\<close>

definition has_permission :: "identity \<Rightarrow> string \<Rightarrow> bool" where
  "has_permission i p \<longleftrightarrow> p \<in> granted i"

definition role_permission_names :: "'a platform_db_scheme \<Rightarrow> string \<Rightarrow> string set" where
  "role_permission_names s rname =
     (\<Union>(r, p) \<in> set (role_permissions s).
        if map_of (roles s) r = Some rname then set_option (map_of (permissions s) p) else {})"

lemma role_permission_names_update [simp]:
  "role_permission_names (s\<lparr>users := a\<rparr>) r = role_permission_names s r"
  "role_permission_names (s\<lparr>sessions := b\<rparr>) r = role_permission_names s r"
  "role_permission_names (s\<lparr>clock := c\<rparr>) r = role_permission_names s r"
  "role_permission_names (s\<lparr>idempotency_keys := d\<rparr>) r = role_permission_names s r"
  "role_permission_names (s\<lparr>audit_log := e\<rparr>) r = role_permission_names s r"
  "role_permission_names (s\<lparr>user_seq := f\<rparr>) r = role_permission_names s r"
  by (auto simp: role_permission_names_def split: if_splits)

definition find_user :: "'a platform_db_scheme \<Rightarrow> string \<Rightarrow> (int \<times> user_row) option" where
  "find_user s name = find (\<lambda>(i, u). username u = name \<and> map_of (roles s) (role_id u) \<noteq> None) (users s)"

definition resolve_identity :: "'a platform_db_scheme \<Rightarrow> string \<Rightarrow> identity option" where
  "resolve_identity s name =
     (case find_user s name of
        None \<Rightarrow> None
      | Some (i, u) \<Rightarrow>
          if user_status u \<noteq> ''active'' then None
          else (case map_of (roles s) (role_id u) of
             None \<Rightarrow> None
           | Some r \<Rightarrow> Some \<lparr>subject = name, role = r, granted = role_permission_names s r\<rparr>))"

section \<open>Sessions and lockout\<close>

definition SESSION_LIFETIME :: int where
  "SESSION_LIFETIME = 12 * 3600"

definition FAILED_LOGIN_LOCKOUT_THRESHOLD :: int where
  "FAILED_LOGIN_LOCKOUT_THRESHOLD = 5"

definition LOCKOUT_DURATION :: int where
  "LOCKOUT_DURATION = 15 * 60"

text \<open>
  \<open>hasher hash password\<close> is argon2's \<open>verify\<close>; an exception it raises (mismatch, malformed hash)
  is \<open>False\<close>.
\<close>

definition verify_password :: "(string \<Rightarrow> string \<Rightarrow> bool) \<Rightarrow> string \<Rightarrow> string option \<Rightarrow> bool" where
  "verify_password hasher pw h = (case h of None \<Rightarrow> False | Some h \<Rightarrow> hasher h pw)"

text \<open>\<open>token\<close> is the value of \<open>secrets.token_urlsafe(32)\<close>; the primary key refuses a repetition.\<close>

definition create_session :: "string \<Rightarrow> int \<Rightarrow> ('a platform_db_scheme, api_error, string) db" where
  "create_session token uid =
     bind (gets id) (\<lambda>s.
     then_db (guard (token \<notin> fst ` set (sessions s)) (Exc ''IntegrityError'' [''user_sessions_pkey''])) (
     then_db (guard (uid \<in> fst ` set (users s)) (Exc ''IntegrityError'' [''user_sessions_user_id_fkey''])) (
     then_db (modify (\<lambda>s. s\<lparr>sessions := sessions s @
        [(token, \<lparr>session_user = uid, expires_at = clock s + SESSION_LIFETIME, revoked_at = None\<rparr>)]\<rparr>))
     (ret token))))"

definition resolve_session :: "'a platform_db_scheme \<Rightarrow> string \<Rightarrow> identity option" where
  "resolve_session s token =
     (case map_of (sessions s) token of
        None \<Rightarrow> None
      | Some x \<Rightarrow>
          if revoked_at x \<noteq> None \<or> \<not> clock s < expires_at x then None
          else (case map_of (users s) (session_user x) of
             None \<Rightarrow> None
           | Some u \<Rightarrow>
               (case map_of (roles s) (role_id u) of
                  None \<Rightarrow> None
                | Some r \<Rightarrow>
                    if user_status u \<noteq> ''active'' then None
                    else Some \<lparr>subject = username u, role = r, granted = role_permission_names s r\<rparr>)))"

definition revoke_session :: "string \<Rightarrow> ('a platform_db_scheme, api_error, unit) db" where
  "revoke_session token =
     modify (\<lambda>s. s\<lparr>sessions := update_row token
       (\<lambda>x. if revoked_at x = None then x\<lparr>revoked_at := Some (clock s)\<rparr> else x) (sessions s)\<rparr>)"

definition set_user :: "int \<Rightarrow> (user_row \<Rightarrow> user_row) \<Rightarrow> ('a platform_db_scheme, api_error, unit) db" where
  "set_user i f = modify (\<lambda>s. s\<lparr>users := update_row i f (users s)\<rparr>)"

definition record_login_failure :: "int \<Rightarrow> ('a platform_db_scheme, api_error, unit) db" where
  "record_login_failure i =
     then_db (set_user i (\<lambda>u. u\<lparr>failed_login_count := failed_login_count u + 1\<rparr>)) (
     bind (gets (\<lambda>s. map_of (users s) i)) (\<lambda>row.
     case row of
       None \<Rightarrow> raise (Exc ''NoResultFound'' [])
     | Some u \<Rightarrow>
         if FAILED_LOGIN_LOCKOUT_THRESHOLD \<le> failed_login_count u
         then bind (gets clock) (\<lambda>t. set_user i (\<lambda>u. u\<lparr>locked_until := Some (t + LOCKOUT_DURATION)\<rparr>))
         else ret ()))"

definition reset_login_failures :: "int \<Rightarrow> ('a platform_db_scheme, api_error, unit) db" where
  "reset_login_failures i = set_user i (\<lambda>u. u\<lparr>failed_login_count := 0, locked_until := None\<rparr>)"

datatype login_outcome = Success identity string | InvalidCredentials | AccountLocked

definition authenticate_user :: "(string \<Rightarrow> string \<Rightarrow> bool) \<Rightarrow> string \<Rightarrow> string \<Rightarrow> string \<Rightarrow>
    ('a platform_db_scheme, api_error, login_outcome) db" where
  "authenticate_user hasher token name pw =
     transaction (
     bind (gets (\<lambda>s. find_user s name)) (\<lambda>row.
     case row of
       None \<Rightarrow> ret InvalidCredentials
     | Some (i, u) \<Rightarrow>
         if user_status u \<noteq> ''active'' then ret InvalidCredentials
         else
         bind (gets clock) (\<lambda>t.
         if (case locked_until u of None \<Rightarrow> False | Some l \<Rightarrow> t < l) then ret AccountLocked
         else if \<not> verify_password hasher pw (password_hash u)
         then then_db (record_login_failure i) (ret InvalidCredentials)
         else
         then_db (reset_login_failures i) (
         bind (gets (\<lambda>s. case map_of (roles s) (role_id u) of None \<Rightarrow> [] | Some r \<Rightarrow> r)) (\<lambda>r.
         bind (gets (\<lambda>s. role_permission_names s r)) (\<lambda>ps.
         bind (create_session token i) (\<lambda>tok.
         ret (Success \<lparr>subject = username u, role = r, granted = ps\<rparr> tok))))))))"

section \<open>The identity of a request\<close>

definition get_current_identity :: "string option \<Rightarrow> ('a platform_db_scheme, api_error, identity) db" where
  "get_current_identity cookie =
     (case cookie of
        None \<Rightarrow> raise (ApiError 401 ''unauthenticated'' [])
      | Some token \<Rightarrow>
          bind (gets (\<lambda>s. resolve_session s token)) (\<lambda>r.
          case r of None \<Rightarrow> raise (ApiError 401 ''unauthenticated'' []) | Some i \<Rightarrow> ret i))"

definition require_permission :: "string \<Rightarrow> string option \<Rightarrow> ('a platform_db_scheme, api_error, identity) db" where
  "require_permission p cookie =
     bind (get_current_identity cookie) (\<lambda>i.
     then_db (guard (has_permission i p) (ApiError 403 ''forbidden'' [p])) (ret i))"

text \<open>
  A route: its identity and permission, then its body, on one connection that commits when the
  body returns and rolls back when it raises (\<open>get_connection\<close> of \<open>app_factory.py\<close>).
\<close>

definition route_of :: "string \<Rightarrow> string option \<Rightarrow> (identity \<Rightarrow> ('a platform_db_scheme, api_error, 'r) db) \<Rightarrow>
    ('a platform_db_scheme, api_error, 'r) db" where
  "route_of p cookie f = transaction (bind (require_permission p cookie) f)"

section \<open>Idempotency keys\<close>

definition reserve :: "string \<Rightarrow> string \<Rightarrow> string \<Rightarrow> ('a platform_db_scheme, api_error, (nat \<times> jobject) option) db" where
  "reserve key rt fp =
     bind (gets (\<lambda>s. map_of (idempotency_keys s) (key, rt))) (\<lambda>row.
     case row of
       None \<Rightarrow>
         then_db (modify (\<lambda>s. s\<lparr>idempotency_keys := idempotency_keys s @
           [((key, rt), \<lparr>request_fingerprint = fp, response_status = None, response_body = None\<rparr>)]\<rparr>))
         (ret None)
     | Some x \<Rightarrow>
         then_db (guard (request_fingerprint x = fp) (Exc ''IdempotencyKeyReused'' [key, rt]))
         (ret (case response_status x of None \<Rightarrow> None
               | Some st \<Rightarrow> Some (st, case response_body x of None \<Rightarrow> [] | Some b \<Rightarrow> b))))"

definition store_response :: "string \<Rightarrow> string \<Rightarrow> nat \<Rightarrow> jobject \<Rightarrow> ('a platform_db_scheme, api_error, unit) db" where
  "store_response key rt st b =
     modify (\<lambda>s. s\<lparr>idempotency_keys := update_row (key, rt)
       (\<lambda>x. x\<lparr>response_status := Some st, response_body := Some b\<rparr>) (idempotency_keys s)\<rparr>)"

text \<open>
  The frame of every idempotent route: reserve, answer a replay from the stored body, else do
  the work and store its answer. The response models are read and written as their dumped
  objects.
\<close>

definition idempotent :: "string \<Rightarrow> string \<Rightarrow> string \<Rightarrow> ('a platform_db_scheme, api_error, jobject) db \<Rightarrow>
    ('a platform_db_scheme, api_error, jobject) db" where
  "idempotent key rt fp work =
     bind (catch (reserve key rt fp) (except_class ''IdempotencyKeyReused'' (ApiError 409 ''idempotency_key_reused''))) (\<lambda>existing.
     case existing of
       Some (st, b) \<Rightarrow> ret b
     | None \<Rightarrow>
         bind work (\<lambda>response.
         then_db (store_response key rt 201 response)
         (ret response)))"

section \<open>The audit log\<close>

definition write_audit_log :: "string \<Rightarrow> string \<Rightarrow> string \<Rightarrow> string \<Rightarrow> int option \<Rightarrow> string option \<Rightarrow>
    ('a platform_db_scheme, api_error, unit) db" where
  "write_audit_log who act otype oid over why =
     modify (\<lambda>s. s\<lparr>audit_log := audit_log s @
       [\<lparr>actor = who, action = act, object_type = otype, object_id = oid, object_version = over, audit_reason = why,
         audit_correlation_id = (case correlation_id_var s of None \<Rightarrow> ''unknown'' | Some c \<Rightarrow>
           if c = [] then ''unknown'' else c)\<rparr>]\<rparr>)"

definition disable_user :: "int \<Rightarrow> string \<Rightarrow> string \<Rightarrow> ('a platform_db_scheme, api_error, int) db" where
  "disable_user i who why =
     bind (gets (\<lambda>s. map_of (users s) i)) (\<lambda>row.
     case row of
       None \<Rightarrow> raise (Exc ''UserNotFound'' [str_int i])
     | Some u \<Rightarrow>
         (let v = user_version u + 1 in
         then_db (set_user i (\<lambda>u. u\<lparr>user_status := ''disabled'', user_version := v\<rparr>)) (
         then_db (write_audit_log who ''user.disable'' ''user'' (str_int i) (Some v) (Some why))
         (ret v))))"

section \<open>Version preconditions\<close>

text \<open>
  \<open>int(s)\<close> on a header value: surrounding whitespace, a sign, and decimal digits with single
  underscores between them. Header values are Latin-1, where the only decimal digits are
  ASCII.
\<close>

definition is_digit :: "char \<Rightarrow> bool" where
  "is_digit c \<longleftrightarrow> (let n = of_char c :: nat in 48 \<le> n \<and> n \<le> 57)"

fun digit_groups :: "string \<Rightarrow> bool" where
  "digit_groups [] = False"
| "digit_groups [c] = is_digit c"
| "digit_groups (c # d # s) = (is_digit c \<and> (if d = CHR ''_'' then digit_groups s else digit_groups (d # s)))"

definition parse_digits :: "string \<Rightarrow> nat option" where
  "parse_digits s = (if digit_groups s then Some (digits_value (filter is_digit s)) else None)"

definition parse_int :: "string \<Rightarrow> int option" where
  "parse_int s =
     (case py_strip s of
        [] \<Rightarrow> None
      | c # r \<Rightarrow>
          if c = CHR ''-'' then map_option (\<lambda>n. - int n) (parse_digits r)
          else if c = CHR ''+'' then map_option int (parse_digits r)
          else map_option int (parse_digits (c # r)))"

definition strip_quotes :: "string \<Rightarrow> string" where
  "strip_quotes s = rev (dropWhile (\<lambda>c. c = CHR 0x22) (rev (dropWhile (\<lambda>c. c = CHR 0x22) s)))"

definition check_precondition :: "string \<Rightarrow> int \<Rightarrow> ('s, api_error, unit) db" where
  "check_precondition if_match current =
     guard (parse_int (strip_quotes if_match) = Some current)
       (ApiError 409 ''precondition_failed'' [str_int current])"

end
