(* ===== verification/Pagination.thy ===== *)
theory Pagination
  imports Platform
begin

text \<open>
  Opaque cursors, \<open>packages/platform/pagination.py\<close>: the sort key as a JSON array in URL-safe
  base64. The sort keys of this program are tuples of integers. The decoder of the standard
  library is modelled with its leniency (characters outside the alphabet are skipped); a
  decoded text that is not a JSON array of integers is the error case.
\<close>

section \<open>Base64\<close>

definition b64_alphabet :: string where
  "b64_alphabet = ''ABCDEFGHIJKLMNOPQRSTUVWXYZabcdefghijklmnopqrstuvwxyz0123456789-_''"

definition b64_char :: "nat \<Rightarrow> char" where
  "b64_char n = b64_alphabet ! n"

definition b64_value :: "char \<Rightarrow> nat option" where
  "b64_value c =
     (if c = CHR ''+'' then Some 62 else if c = CHR 0x2F then Some 63
      else map_of (zip b64_alphabet [0..<64]) c)"

fun b64_encode :: "string \<Rightarrow> string" where
  "b64_encode (a # b # c # s) =
     (let x = of_char a; y = of_char b; z = of_char c :: nat in
      b64_char (x div 4) # b64_char (x mod 4 * 16 + y div 16) # b64_char (y mod 16 * 4 + z div 64) #
      b64_char (z mod 64) # b64_encode s)"
| "b64_encode [a, b] =
     (let x = of_char a; y = of_char b :: nat in
      [b64_char (x div 4), b64_char (x mod 4 * 16 + y div 16), b64_char (y mod 16 * 4), CHR ''=''])"
| "b64_encode [a] =
     (let x = of_char a :: nat in [b64_char (x div 4), b64_char (x mod 4 * 16), CHR ''='', CHR ''=''])"
| "b64_encode [] = []"

text \<open>
  \<open>q\<close> is the position in the group of four, \<open>left\<close> the bits of the previous character not yet
  written, \<open>pads\<close> the number of pad characters seen. Two or three characters followed by
  enough padding end the input; an unfinished group is an error.
\<close>

fun b64_decode_from :: "nat \<Rightarrow> nat \<Rightarrow> nat \<Rightarrow> string \<Rightarrow> string option" where
  "b64_decode_from q left pads [] = (if q = 0 then Some [] else None)"
| "b64_decode_from q left pads (c # s) =
     (if c = CHR ''='' then
        (if 2 \<le> q then (if 4 \<le> q + pads + 1 then Some [] else b64_decode_from q left (pads + 1) s)
         else b64_decode_from q left pads s)
      else case b64_value c of
        None \<Rightarrow> b64_decode_from q left pads s
      | Some v \<Rightarrow>
          if q = 0 then b64_decode_from 1 v 0 s
          else if q = 1 then map_option (Cons (char_of (left * 4 + v div 16))) (b64_decode_from 2 (v mod 16) 0 s)
          else if q = 2 then map_option (Cons (char_of (left * 16 + v div 4))) (b64_decode_from 3 (v mod 4) 0 s)
          else map_option (Cons (char_of (left * 64 + v))) (b64_decode_from 0 0 0 s))"

definition b64_decode :: "string \<Rightarrow> string option" where
  "b64_decode s = (if list_all (\<lambda>c. (of_char c :: nat) < 128) s then b64_decode_from 0 0 0 s else None)"

section \<open>JSON arrays of integers\<close>

fun json_join :: "string list \<Rightarrow> string" where
  "json_join [] = []"
| "json_join [x] = x"
| "json_join (x # y # xs) = x @ '','' @ json_join (y # xs)"

definition dumps_ints :: "int list \<Rightarrow> string" where
  "dumps_ints ks = ''['' @ json_join (map str_int ks) @ '']''"

definition json_ws :: "char \<Rightarrow> bool" where
  "json_ws c \<longleftrightarrow> c \<in> {CHR '' '', CHR 0x09, CHR 0x0A, CHR 0x0D}"

definition json_strip :: "string \<Rightarrow> string" where
  "json_strip s = rev (dropWhile json_ws (rev (dropWhile json_ws s)))"

text \<open>A JSON integer: no leading zeros, no plus sign.\<close>

definition json_nat :: "string \<Rightarrow> nat option" where
  "json_nat s = (if s \<noteq> [] \<and> list_all is_digit s \<and> (s = ''0'' \<or> hd s \<noteq> CHR ''0'') then Some (digits_value s) else None)"

definition json_int :: "string \<Rightarrow> int option" where
  "json_int s =
     (case s of
        [] \<Rightarrow> None
      | c # r \<Rightarrow> if c = CHR ''-'' then map_option (\<lambda>n. - int n) (json_nat r) else map_option int (json_nat s))"

fun split_commas :: "string \<Rightarrow> string \<Rightarrow> string list" where
  "split_commas acc [] = [rev acc]"
| "split_commas acc (c # s) = (if c = CHR '','' then rev acc # split_commas [] s else split_commas (c # acc) s)"

fun all_some :: "'a option list \<Rightarrow> 'a list option" where
  "all_some [] = Some []"
| "all_some (x # xs) = (case x of None \<Rightarrow> None | Some y \<Rightarrow> map_option (Cons y) (all_some xs))"

definition loads_ints :: "string \<Rightarrow> int list option" where
  "loads_ints s =
     (let t = json_strip s in
      if t = [] \<or> hd t \<noteq> CHR ''['' \<or> last t \<noteq> CHR '']'' \<or> length t < 2 then None
      else let b = butlast (tl t) in
        if json_strip b = [] then Some []
        else all_some (map (\<lambda>x. json_int (json_strip x)) (split_commas [] b)))"

section \<open>Cursors\<close>

definition encode_cursor :: "int list \<Rightarrow> string" where
  "encode_cursor ks = b64_encode (dumps_ints ks)"

definition decode_cursor :: "string \<Rightarrow> int list option" where
  "decode_cursor c = (case b64_decode c of None \<Rightarrow> None | Some s \<Rightarrow> loads_ints s)"

section \<open>Round trips\<close>

lemma b64_values: "list_all (\<lambda>n. b64_value (b64_char n) = Some n \<and> b64_char n \<noteq> CHR ''='' \<and>
    (of_char (b64_char n) :: nat) < 128) [0..<64]"
  by code_simp

lemma b64_char_simps:
  assumes "n < 64"
  shows "b64_value (b64_char n) = Some n" "b64_char n \<noteq> CHR ''=''" "(of_char (b64_char n) :: nat) < 128"
  using b64_values assms by (auto simp: list_all_iff)

lemma byte_bounds:
  fixes a b c :: char
  shows "(of_char a :: nat) div 4 < 64" "(of_char a :: nat) mod 4 * 16 + of_char b div 16 < 64"
    "(of_char b :: nat) mod 16 * 4 + of_char c div 64 < 64" "(of_char c :: nat) mod 64 < 64"
    "(of_char a :: nat) mod 4 * 16 < 64" "(of_char b :: nat) mod 16 * 4 < 64"
proof -
  have "(of_char x :: nat) < 256" for x :: char by simp
  from this[of a] this[of b] this[of c]
  have d: "(of_char a :: nat) div 4 < 64" "(of_char b :: nat) div 16 < 16" "(of_char c :: nat) div 64 < 4"
    by (simp_all add: less_mult_imp_div_less)
  moreover have "(of_char a :: nat) mod 4 < 4" "(of_char b :: nat) mod 16 < 16" by simp_all
  ultimately show "(of_char a :: nat) div 4 < 64" "(of_char a :: nat) mod 4 * 16 + of_char b div 16 < 64"
    "(of_char b :: nat) mod 16 * 4 + of_char c div 64 < 64" "(of_char c :: nat) mod 64 < 64"
    "(of_char a :: nat) mod 4 * 16 < 64" "(of_char b :: nat) mod 16 * 4 < 64" by simp_all
qed

lemma byte_small:
  "(of_char b :: nat) div 16 div 16 = 0" "(of_char b :: nat) div 16 mod 16 = of_char b div 16"
  "(of_char c :: nat) div 64 div 4 = 0" "(of_char c :: nat) div 64 mod 4 = of_char c div 64"
  using nat_of_char_less_256[of b] nat_of_char_less_256[of c]
  by (simp_all add: div_mult2_eq[symmetric] less_mult_imp_div_less del: nat_of_char_less_256)

lemma b64_decode_encode: "b64_decode_from 0 0 0 (b64_encode s) = Some s"
  by (induction s rule: b64_encode.induct) (simp_all add: Let_def b64_char_simps byte_bounds byte_small)

lemma b64_encode_ascii: "list_all (\<lambda>c. (of_char c :: nat) < 128) (b64_encode s)"
  by (induction s rule: b64_encode.induct) (simp_all add: Let_def b64_char_simps byte_bounds)

lemma b64_round_trip: "b64_decode (b64_encode s) = Some s"
  by (simp add: b64_decode_def b64_encode_ascii b64_decode_encode)

lemma nat_digits_digits: "list_all is_digit (nat_digits n) \<and> nat_digits n \<noteq> []"
proof (induction n rule: nat_digits.induct)
  case (1 n)
  have d: "is_digit (char_of (48 + k :: nat))" if "k < 10" for k
    using that by (simp add: is_digit_def Let_def)
  show ?case using 1 d[of n] d[of "n mod 10"] by (subst (1 2) nat_digits.simps) auto
qed

lemma nat_digits_hd: "n \<noteq> 0 \<Longrightarrow> hd (nat_digits n) \<noteq> CHR ''0''"
proof (induction n rule: nat_digits.induct)
  case (1 n)
  show ?case
  proof (cases "n < 10")
    case True
    have "char_of (48 + n) \<noteq> CHR ''0''"
    proof
      assume "char_of (48 + n) = CHR ''0''"
      then have "(of_char (char_of (48 + n) :: char) :: nat) = of_char (CHR ''0'')" by (rule arg_cong)
      with True 1(2) show False by simp
    qed
    with True show ?thesis by (subst nat_digits.simps) simp
  next
    case False
    with 1 nat_digits_digits[of "n div 10"] show ?thesis by (subst nat_digits.simps) (simp add: hd_append)
  qed
qed

lemma json_nat_digits: "json_nat (nat_digits n) = Some n"
proof (cases "n = 0")
  case True
  have "json_nat (nat_digits 0) = Some 0" by code_simp
  with True show ?thesis by simp
next
  case False
  then show ?thesis using nat_digits_digits[of n] nat_digits_hd[of n] by (simp add: json_nat_def digits_value_nat_digits)
qed

lemma json_int_str: "json_int (str_int i) = Some i"
proof (cases "i < 0")
  case True
  then show ?thesis by (simp add: json_int_def str_int_def json_nat_digits)
next
  case False
  obtain c r where d: "nat_digits (nat i) = c # r" using nat_digits_digits by (metis neq_Nil_conv)
  with nat_digits_digits[of "nat i"] have "c \<noteq> CHR ''-''" by (auto simp: is_digit_def)
  with d False json_nat_digits[of "nat i"] show ?thesis by (simp add: json_int_def str_int_def)
qed

definition number_char :: "char \<Rightarrow> bool" where
  "number_char c \<longleftrightarrow> is_digit c \<or> c = CHR ''-''"

lemma number_char_simps: "number_char c \<Longrightarrow> c \<noteq> CHR '',''" "number_char c \<Longrightarrow> \<not> json_ws c"
  "number_char c \<Longrightarrow> c \<noteq> CHR ''[''" "number_char c \<Longrightarrow> c \<noteq> CHR '']''"
  by (auto simp: number_char_def is_digit_def json_ws_def)

lemma str_int_chars: "list_all number_char (str_int i)" "str_int i \<noteq> []"
  using nat_digits_digits by (auto simp: str_int_def number_char_def list_all_iff)

lemma json_strip_number: "list_all number_char s \<Longrightarrow> json_strip s = s"
proof -
  assume a: "list_all number_char s"
  have "dropWhile json_ws t = t" if "list_all number_char t" for t
    using that number_char_simps(2) by (cases t) auto
  with a show ?thesis by (simp add: json_strip_def list_all_iff)
qed

lemma split_commas_number:
  "list_all number_char x \<Longrightarrow> split_commas acc (x @ s) = split_commas (rev x @ acc) s"
  using number_char_simps(1) by (induction x arbitrary: acc) auto

lemma split_json_join:
  "xs \<noteq> [] \<Longrightarrow> list_all (list_all number_char) xs \<Longrightarrow> split_commas [] (json_join xs) = xs"
proof (induction xs rule: json_join.induct)
  case (2 x)
  then show ?case using split_commas_number[of x "[]" "[]"] by simp
next
  case (3 x y xs)
  then show ?case using split_commas_number[of x "[]" "'','' @ json_join (y # xs)"] by simp
qed simp

lemma all_some_map: "(\<And>x. x \<in> set xs \<Longrightarrow> f x = Some (g x)) \<Longrightarrow> all_some (map f xs) = Some (map g xs)"
  by (induction xs) auto

lemma json_strip_brackets: "json_strip (''['' @ s @ '']'') = ''['' @ s @ '']''"
  by (simp add: json_strip_def json_ws_def)

lemma loads_dumps_ints: "loads_ints (dumps_ints ks) = Some ks"
proof (cases ks)
  case Nil
  then show ?thesis by (simp add: loads_ints_def dumps_ints_def Let_def json_strip_def json_ws_def)
next
  case (Cons k rest)
  let ?b = "json_join (map str_int ks)"
  have nums: "list_all (list_all number_char) (map str_int ks)" using str_int_chars by (simp add: list_all_iff)
  have "?b \<noteq> [] \<and> number_char (hd ?b)"
    using str_int_chars[of k] Cons by (cases rest) (auto simp: hd_append list_all_iff)
  then have ne: "json_strip ?b \<noteq> []"
    using number_char_simps(2)[of "hd ?b"] by (cases ?b) (auto simp: json_strip_def dropWhile_eq_Nil_conv)
  have "all_some (map (\<lambda>x. json_int (json_strip x)) (split_commas [] ?b)) = all_some (map (\<lambda>i. json_int (str_int i)) ks)"
    using Cons nums split_json_join[of "map str_int ks"] str_int_chars by (simp add: json_strip_number comp_def)
  also have "\<dots> = Some ks" using all_some_map[of ks "\<lambda>i. json_int (str_int i)" id] by (simp add: json_int_str)
  finally show ?thesis using ne
    by (simp add: loads_ints_def dumps_ints_def Let_def json_strip_brackets[simplified] butlast_append)
qed

lemma cursor_round_trip: "decode_cursor (encode_cursor ks) = Some ks"
  by (simp add: decode_cursor_def encode_cursor_def b64_round_trip loads_dumps_ints)

end
