(* ===== verification/Listing.thy ===== *)
theory Listing
  imports Pagination
begin

text \<open>
  What the listing routes share: the key after which a page starts (\<open>decode_cursor(cursor)[0] if
  cursor else 0\<close>), the query with one row more than asked for, and the page cut from it with
  the cursor of the next one. The locale \<open>cursor_listing\<close> is the contract between such a route
  and a client that follows its cursors: the rows of the listing, by increasing key, come out
  exactly once.
\<close>

definition after_cursor :: "string option \<Rightarrow> api_error + int" where
  "after_cursor cursor =
     (case cursor of
        None \<Rightarrow> Inr 0
      | Some c \<Rightarrow>
          if c = [] then Inr 0
          else (case decode_cursor c of
             None \<Rightarrow> Inl (Exc ''ValueError'' [c])
           | Some [] \<Rightarrow> Inl (Exc ''IndexError'' [])
           | Some (k # _) \<Rightarrow> Inr k))"

text \<open>A negative \<open>LIMIT\<close> is refused by the database.\<close>

definition limit_rows :: "int \<Rightarrow> 'r list \<Rightarrow> api_error + 'r list" where
  "limit_rows n rows = (if n < 0 then Inl (Exc ''DBAPIError'' [''LIMIT must not be negative'']) else Inr (take (nat n) rows))"

text \<open>Python's slice \<open>rows[:n]\<close>; \<open>page[-1]\<close> of an empty page raises an \<open>IndexError\<close>.\<close>

definition py_prefix :: "int \<Rightarrow> 'x list \<Rightarrow> 'x list" where
  "py_prefix n xs = (if 0 \<le> n then take (nat n) xs else take (length xs - nat (- n)) xs)"

definition page_of :: "('r \<Rightarrow> int) \<Rightarrow> int \<Rightarrow> 'r list \<Rightarrow> api_error + 'r list \<times> string option" where
  "page_of key limit rows =
     (let has_more = limit < int (length rows);
          page = py_prefix limit rows in
      if has_more then
        (if page = [] then Inl (Exc ''IndexError'' [])
         else Inr (page, Some (encode_cursor [key (last page)])))
      else Inr (page, None))"

section \<open>The page after a key\<close>

lemma encode_cursor_nonempty: "encode_cursor [a] \<noteq> []"
proof
  assume "encode_cursor [a] = []"
  moreover have "decode_cursor [] = None" by code_simp
  ultimately show False using cursor_round_trip[of "[a]"] by simp
qed

definition points_at :: "string option \<Rightarrow> int \<Rightarrow> bool" where
  "points_at cur a \<longleftrightarrow> cur = None \<and> a = 0 \<or> cur = Some (encode_cursor [a])"

lemma after_cursor_points: "points_at cur a \<Longrightarrow> after_cursor cur = Inr a"
  by (auto simp: points_at_def after_cursor_def encode_cursor_nonempty cursor_round_trip)

definition cursor_page :: "('r \<Rightarrow> int) \<Rightarrow> nat \<Rightarrow> 'r list \<Rightarrow> 'r list \<times> string option" where
  "cursor_page key n rest =
     (if length rest \<le> n then (rest, None) else (take n rest, Some (encode_cursor [key (last (take n rest))])))"

lemma limited_page:
  assumes "1 \<le> limit"
  shows "sum_bind (limit_rows (limit + 1) rest) (page_of key limit) = Inr (cursor_page key (nat limit) rest)"
proof -
  have n: "nat (limit + 1) = Suc (nat limit)" using assms by simp
  show ?thesis
    using assms by (auto simp: sum_bind_def limit_rows_def page_of_def cursor_page_def py_prefix_def Let_def n min_def)
qed

lemma filter_after_last:
  fixes f :: "'b \<Rightarrow> int"
  assumes "sorted_wrt (<) (map f xs)" "0 < n" "n \<le> length xs"
  shows "filter (\<lambda>x. f (last (take n xs)) < f x) xs = drop n xs"
proof -
  have "filter (\<lambda>x. f (last ys) < f x) (ys @ zs) = zs" if "sorted_wrt (<) (map f (ys @ zs))" "ys \<noteq> []" for ys zs
    using that by (cases ys rule: rev_cases) (auto simp: sorted_wrt_append filter_empty_conv filter_id_conv)
  from this[of "take n xs" "drop n xs"] assms show ?thesis by fastforce
qed

lemma sorted_ids: "distinct (map fst xs) \<Longrightarrow> sorted_wrt (<) (map fst (sort_key fst (xs :: (int \<times> 'v) list)))"
  unfolding strict_sorted_iff by (metis distinct_map distinct_sort set_sort sorted_sort_key)

section \<open>Following the cursors\<close>

text \<open>A client with a bound on the number of requests; \<open>None\<close> when the bound is reached or a request fails.\<close>

fun follow_cursors :: "(string option \<Rightarrow> 'e + 'r list \<times> string option) \<Rightarrow> nat \<Rightarrow> string option \<Rightarrow> 'r list option" where
  "follow_cursors fetch 0 cur = None"
| "follow_cursors fetch (Suc n) cur =
     (case fetch cur of
        Inl e \<Rightarrow> None
      | Inr (page, next) \<Rightarrow>
          (case next of None \<Rightarrow> Some page | Some k \<Rightarrow> map_option (\<lambda>rest. page @ rest) (follow_cursors fetch n (Some k))))"

locale cursor_listing =
  fixes ok :: "'c \<Rightarrow> bool" and rows :: "'c \<Rightarrow> 'r list" and key :: "'r \<Rightarrow> int" and size :: "'c \<Rightarrow> nat"
    and fetch :: "'c \<Rightarrow> string option \<Rightarrow> 'e + 'r list \<times> string option"
  assumes increasing: "ok x \<Longrightarrow> sorted_wrt (<) (map key (rows x))"
    and positive: "ok x \<Longrightarrow> r \<in> set (rows x) \<Longrightarrow> 0 < key r"
    and size_positive: "ok x \<Longrightarrow> 0 < size x"
    and fetch_page: "ok x \<Longrightarrow> points_at cur a \<Longrightarrow>
      fetch x cur = Inr (cursor_page key (size x) (filter (\<lambda>r. a < key r) (rows x)))"
begin

lemma follow_from:
  assumes "ok x" "points_at cur a" "length (filter (\<lambda>r. a < key r) (rows x)) < n"
  shows "follow_cursors (fetch x) n cur = Some (filter (\<lambda>r. a < key r) (rows x))"
  using assms(2,3)
proof (induction n arbitrary: cur a)
  case (Suc n)
  let ?rest = "filter (\<lambda>r. a < key r) (rows x)" and ?m = "size x"
  note page = fetch_page[OF assms(1) Suc.prems(1)]
  show ?case
  proof (cases "length ?rest \<le> ?m")
    case True
    then show ?thesis by (simp add: page cursor_page_def)
  next
    case False
    let ?k = "key (last (take ?m ?rest))"
    have m: "0 < ?m" "?m \<le> length ?rest" using False size_positive[OF assms(1)] by auto
    have "last (take ?m ?rest) \<in> set ?rest"
      using m by (metis in_set_takeD last_in_set length_take less_irrefl list.size(3) min.absorb2)
    then have ak: "a < ?k" by simp
    have "filter (\<lambda>r. ?k < key r) (rows x) = filter (\<lambda>r. ?k < key r) ?rest" using ak by (auto intro!: filter_cong)
    also have "\<dots> = drop ?m ?rest"
      by (rule filter_after_last[OF _ m]) (use increasing[OF assms(1)] in \<open>simp add: sorted_wrt_map sorted_wrt_filter\<close>)
    finally have rest: "filter (\<lambda>r. ?k < key r) (rows x) = drop ?m ?rest" .
    have "follow_cursors (fetch x) n (Some (encode_cursor [?k])) = Some (drop ?m ?rest)"
      using Suc.IH[of "Some (encode_cursor [?k])" ?k] Suc.prems(2) m unfolding rest by (simp add: points_at_def)
    with False show ?thesis by (simp add: page cursor_page_def)
  qed
qed simp

lemma follow_all:
  assumes "ok x" "length (rows x) < n"
  shows "follow_cursors (fetch x) n None = Some (rows x)"
proof -
  have "filter (\<lambda>r. 0 < key r) (rows x) = rows x" using positive[OF assms(1)] by (simp add: filter_id_conv)
  with follow_from[OF assms(1), of None 0 n] assms(2) show ?thesis by (simp add: points_at_def)
qed

end

end
