(* ===== verification/Accounts.thy ===== *)
theory Accounts
  imports Listing
begin

text \<open>
  The routes of \<open>apps/api_tender/routers/auth.py\<close> and \<open>apps/api_tender/routers/admin_users.py\<close>.
  The cookie of the request is an argument; \<open>fp\<close> is \<open>fingerprint\<close> (SHA-256 of the canonical
  JSON), \<open>hash_pw\<close> argon2's \<open>hash\<close>.
\<close>

section \<open>Login and logout\<close>

definition login :: "(string \<Rightarrow> string \<Rightarrow> bool) \<Rightarrow> string \<Rightarrow> string \<Rightarrow> string \<Rightarrow>
    ('a platform_db_scheme, api_error, string \<times> string \<times> string) db" where
  "login hasher token name pw =
     bind (authenticate_user hasher token name pw) (\<lambda>out.
     case out of
       AccountLocked \<Rightarrow> raise (ApiError 401 ''account_locked'' [])
     | InvalidCredentials \<Rightarrow> raise (ApiError 401 ''unauthenticated'' [])
     | Success i tok \<Rightarrow> ret (subject i, role i, tok))"

definition logout :: "string option \<Rightarrow> ('a platform_db_scheme, api_error, unit) db" where
  "logout cookie = transaction (case cookie of None \<Rightarrow> ret () | Some token \<Rightarrow> revoke_session token)"

section \<open>Users\<close>

record user_response =
  ur_id :: int
  ur_username :: string
  ur_display_name :: string
  ur_role_name :: string
  ur_status :: string
  ur_version :: int

definition user_response_dump :: "user_response \<Rightarrow> jobject" where
  "user_response_dump r =
     [(''id'', JInt (ur_id r)), (''username'', JStr (ur_username r)), (''display_name'', JStr (ur_display_name r)),
      (''role_name'', JStr (ur_role_name r)), (''status'', JStr (ur_status r)), (''version'', JInt (ur_version r))]"

definition load_role_id :: "string \<Rightarrow> ('a platform_db_scheme, api_error, int) db" where
  "load_role_id name =
     bind (gets (\<lambda>s. find (\<lambda>(i, n). n = name) (roles s))) (\<lambda>row.
     case row of None \<Rightarrow> raise (ApiError 422 ''unknown_role'' [name]) | Some (i, n) \<Rightarrow> ret i)"

definition user_row_of :: "'a platform_db_scheme \<Rightarrow> int \<Rightarrow> user_response option" where
  "user_row_of s i =
     (case map_of (users s) i of
        None \<Rightarrow> None
      | Some u \<Rightarrow>
          (case map_of (roles s) (role_id u) of
             None \<Rightarrow> None
           | Some r \<Rightarrow> Some \<lparr>ur_id = i, ur_username = username u, ur_display_name = display_name u, ur_role_name = r,
                ur_status = user_status u, ur_version = user_version u\<rparr>))"

definition load_user_row :: "int \<Rightarrow> ('a platform_db_scheme, api_error, user_response) db" where
  "load_user_row i =
     bind (gets (\<lambda>s. user_row_of s i)) (\<lambda>row.
     case row of None \<Rightarrow> raise (ApiError 404 ''not_found'' [str_int i]) | Some r \<Rightarrow> ret r)"

definition insert_user :: "string \<Rightarrow> string \<Rightarrow> int \<Rightarrow> ('a platform_db_scheme, api_error, int) db" where
  "insert_user name disp rid =
     bind (gets id) (\<lambda>s.
     then_db (guard (name \<notin> (\<lambda>(i, u). username u) ` set (users s)) (Exc ''IntegrityError'' [''users_username_key''])) (
     then_db (modify (\<lambda>s. s\<lparr>users := users s @ [(user_seq s,
         \<lparr>username = name, display_name = disp, role_id = rid, user_status = ''active'', user_version = 1,
          password_hash = None, failed_login_count = 0, locked_until = None\<rparr>)], user_seq := user_seq s + 1\<rparr>))
     (ret (user_seq s))))"

definition create_user_dump :: "string \<Rightarrow> string \<Rightarrow> string \<Rightarrow> jobject" where
  "create_user_dump name disp rname =
     [(''username'', JStr name), (''display_name'', JStr disp), (''role_name'', JStr rname)]"

definition create_user :: "(jobject \<Rightarrow> string) \<Rightarrow> string option \<Rightarrow> string \<Rightarrow> string \<Rightarrow> string \<Rightarrow> string \<Rightarrow>
    ('a platform_db_scheme, api_error, jobject) db" where
  "create_user fp cookie key name disp rname =
     route_of ''admin.users.create'' cookie (\<lambda>ident.
     idempotent key ''POST /admin/users'' (fp (create_user_dump name disp rname)) (
     bind (load_role_id rname) (\<lambda>rid.
     bind (insert_user name disp rid) (\<lambda>i.
     then_db (write_audit_log (subject ident) ''user.create'' ''user'' (str_int i) (Some 1) None)
     (ret (user_response_dump \<lparr>ur_id = i, ur_username = name, ur_display_name = disp, ur_role_name = rname,
        ur_status = ''active'', ur_version = 1\<rparr>))))))"

text \<open>The query of \<open>list_users\<close>.\<close>

definition user_rows :: "'a platform_db_scheme \<Rightarrow> user_response list" where
  "user_rows s = List.map_filter (\<lambda>(i, u). user_row_of s i) (sort_key fst (users s))"

definition users_after :: "'a platform_db_scheme \<Rightarrow> int \<Rightarrow> user_response list" where
  "users_after s after = filter (\<lambda>r. after < ur_id r) (user_rows s)"

definition list_users :: "string option \<Rightarrow> string option \<Rightarrow> int \<Rightarrow>
    ('a platform_db_scheme, api_error, user_response list \<times> string option) db" where
  "list_users cookie cursor limit =
     route_of ''admin.users.read'' cookie (\<lambda>ident.
     bind (of_sum (after_cursor cursor)) (\<lambda>after.
     bind (gets (\<lambda>s. users_after s after)) (\<lambda>found.
     bind (of_sum (limit_rows (limit + 1) found)) (\<lambda>rows.
     of_sum (page_of ur_id limit rows)))))"

text \<open>
  \<open>update_user\<close> reads the user and checks the version, and then writes by the id of the user: the
  \<open>SELECT\<close> takes no lock and the \<open>UPDATE\<close> does not test the version, so they are two functions here.
\<close>

record user_change =
  uc_current :: user_response
  uc_display_name :: string
  uc_role_name :: string
  uc_role_id :: int

definition prepare_update :: "int \<Rightarrow> string option \<Rightarrow> string option \<Rightarrow> string \<Rightarrow> ('a platform_db_scheme, api_error, user_change) db" where
  "prepare_update i disp rname if_match =
     bind (load_user_row i) (\<lambda>current.
     then_db (check_precondition if_match (ur_version current)) (
     let d = (case disp of None \<Rightarrow> ur_display_name current | Some d \<Rightarrow> d);
         r = (case rname of None \<Rightarrow> ur_role_name current | Some r \<Rightarrow> r) in
     bind (load_role_id r) (\<lambda>rid.
     ret \<lparr>uc_current = current, uc_display_name = d, uc_role_name = r, uc_role_id = rid\<rparr>)))"

definition apply_update :: "int \<Rightarrow> identity \<Rightarrow> user_change \<Rightarrow> ('a platform_db_scheme, api_error, user_response) db" where
  "apply_update i ident ch =
     then_db (set_user i (\<lambda>u. u\<lparr>display_name := uc_display_name ch, role_id := uc_role_id ch, user_version := user_version u + 1\<rparr>)) (
     bind (gets (\<lambda>s. map_of (users s) i)) (\<lambda>row.
     case row of
       None \<Rightarrow> raise (Exc ''NoResultFound'' [])
     | Some u \<Rightarrow>
         then_db (write_audit_log (subject ident) ''user.update'' ''user'' (str_int i) (Some (user_version u)) None)
         (ret \<lparr>ur_id = i, ur_username = ur_username (uc_current ch), ur_display_name = uc_display_name ch, ur_role_name = uc_role_name ch,
            ur_status = user_status u, ur_version = user_version u\<rparr>)))"

definition update_user :: "string option \<Rightarrow> int \<Rightarrow> string option \<Rightarrow> string option \<Rightarrow> string \<Rightarrow>
    ('a platform_db_scheme, api_error, user_response) db" where
  "update_user cookie i disp rname if_match =
     route_of ''admin.users.update'' cookie (\<lambda>ident.
     bind (prepare_update i disp rname if_match) (apply_update i ident))"

definition disable_user_route :: "string option \<Rightarrow> int \<Rightarrow> string \<Rightarrow> ('a platform_db_scheme, api_error, user_response) db" where
  "disable_user_route cookie i why =
     route_of ''admin.users.disable'' cookie (\<lambda>ident.
     bind (catch (disable_user i (subject ident) why) (except_class ''UserNotFound'' (ApiError 404 ''not_found'')))
       (\<lambda>_. load_user_row i))"

definition set_password_route :: "(string \<Rightarrow> string) \<Rightarrow> string option \<Rightarrow> int \<Rightarrow> string \<Rightarrow>
    ('a platform_db_scheme, api_error, unit) db" where
  "set_password_route hash_pw cookie i pw =
     route_of ''admin.users.set_password'' cookie (\<lambda>ident.
     bind (load_user_row i) (\<lambda>_.
     then_db (set_user i (\<lambda>u. u\<lparr>password_hash := Some (hash_pw pw), failed_login_count := 0, locked_until := None,
        user_version := user_version u + 1\<rparr>))
     (write_audit_log (subject ident) ''user.set_password'' ''user'' (str_int i) None None)))"

section \<open>The service over time\<close>

datatype account_event =
    Login string string string
  | Logout "string option"
  | CreateUser "string option" string string string string
  | UpdateUser "string option" int "string option" "string option" string
  | DisableUser "string option" int string
  | SetPassword "string option" int string
  | Advance nat
  | Correlate "string option"

text \<open>The events with \<open>hasher\<close>, \<open>hash_pw\<close> and \<open>fp\<close> fixed; the result of a request is dropped.\<close>

fun account_event_step :: "(string \<Rightarrow> string \<Rightarrow> bool) \<Rightarrow> (string \<Rightarrow> string) \<Rightarrow> (jobject \<Rightarrow> string) \<Rightarrow>
    account_event \<Rightarrow> platform_db \<Rightarrow> platform_db" where
  "account_event_step hasher hash_pw fp (Login tok name pw) s = snd (login hasher tok name pw s)"
| "account_event_step hasher hash_pw fp (Logout c) s = snd (logout c s)"
| "account_event_step hasher hash_pw fp (CreateUser c key name disp rname) s = snd (create_user fp c key name disp rname s)"
| "account_event_step hasher hash_pw fp (UpdateUser c i disp rname m) s = snd (update_user c i disp rname m s)"
| "account_event_step hasher hash_pw fp (DisableUser c i why) s = snd (disable_user_route c i why s)"
| "account_event_step hasher hash_pw fp (SetPassword c i pw) s = snd (set_password_route hash_pw c i pw s)"
| "account_event_step hasher hash_pw fp (Advance n) s = s\<lparr>clock := clock s + int n\<rparr>"
| "account_event_step hasher hash_pw fp (Correlate cid) s = s\<lparr>correlation_id_var := cid\<rparr>"

definition account_step :: "(string \<Rightarrow> string \<Rightarrow> bool) \<Rightarrow> (string \<Rightarrow> string) \<Rightarrow> (jobject \<Rightarrow> string) \<Rightarrow>
    platform_db \<Rightarrow> platform_db \<Rightarrow> bool" where
  "account_step hasher hash_pw fp s t \<longleftrightarrow> (\<exists>e. t = account_event_step hasher hash_pw fp e s)"

end
