(* ===== verification/Accounts_Spec.thy ===== *)
theory Accounts_Spec
  imports Accounts
begin

text \<open>
  What the account tables keep over time: rows are never removed, a disabled user stays disabled,
  a revoked session stays revoked, a stored response never changes and the audit log only
  grows.
\<close>

section \<open>The order of states\<close>

definition user_kept :: "user_row \<Rightarrow> user_row \<Rightarrow> bool" where
  "user_kept u v \<longleftrightarrow> username v = username u \<and> user_version u \<le> user_version v \<and>
     (user_status u = ''disabled'' \<longrightarrow> user_status v = ''disabled'')"

definition session_kept :: "session_row \<Rightarrow> session_row \<Rightarrow> bool" where
  "session_kept x y \<longleftrightarrow> session_user y = session_user x \<and> expires_at y = expires_at x \<and>
     (revoked_at x \<noteq> None \<longrightarrow> revoked_at y = revoked_at x)"

text \<open>Every row of the first table is in the second, in a form \<open>R\<close> accepts.\<close>

definition rows_kept :: "('v \<Rightarrow> 'v \<Rightarrow> bool) \<Rightarrow> ('k \<times> 'v) list \<Rightarrow> ('k \<times> 'v) list \<Rightarrow> bool" where
  "rows_kept R xs ys \<longleftrightarrow> (\<forall>k v. map_of xs k = Some v \<longrightarrow> (\<exists>w. map_of ys k = Some w \<and> R v w))"

lemma rows_kept_refl: "(\<And>v. R v v) \<Longrightarrow> rows_kept R xs xs"
  by (simp add: rows_kept_def)

lemma rows_kept_trans:
  assumes "rows_kept R xs ys" "rows_kept R ys zs" "\<And>a b c. R a b \<Longrightarrow> R b c \<Longrightarrow> R a c"
  shows "rows_kept R xs zs"
  using assms unfolding rows_kept_def by metis

lemma rows_kept_update: "(\<And>v. R v v) \<Longrightarrow> (\<And>v. R v (f v)) \<Longrightarrow> rows_kept R xs (update_row i f xs)"
  by (simp add: rows_kept_def)

lemma rows_kept_append: "(\<And>v. R v v) \<Longrightarrow> rows_kept R xs (xs @ ys)"
  by (simp add: rows_kept_def map_add_def split: option.split)

lemma rows_keptD: "rows_kept R xs ys \<Longrightarrow> map_of xs k = Some v \<Longrightarrow> \<exists>w. map_of ys k = Some w \<and> R v w"
  by (simp add: rows_kept_def)

definition later :: "'a platform_db_scheme \<Rightarrow> 'a platform_db_scheme \<Rightarrow> bool" where
  "later s t \<longleftrightarrow>
     rows_kept user_kept (users s) (users t) \<and> rows_kept session_kept (sessions s) (sessions t) \<and>
     extends (audit_log s) (audit_log t) \<and> clock s \<le> clock t \<and>
     roles t = roles s \<and> permissions t = permissions s \<and> role_permissions t = role_permissions s"

lemma user_kept_refl [simp]: "user_kept u u"
  by (simp add: user_kept_def)

lemma session_kept_refl [simp]: "session_kept x x"
  by (simp add: session_kept_def)

interpretation later: preorder_rel later
proof
  show "later s s" for s :: "'a platform_db_scheme"
    by (simp add: later_def rows_kept_refl)
  show "later s t \<Longrightarrow> later t u \<Longrightarrow> later s u" for s t u :: "'a platform_db_scheme"
    unfolding later_def
    by (auto intro: rows_kept_trans[where R = user_kept] rows_kept_trans[where R = session_kept] extends_trans
        simp: user_kept_def session_kept_def)
qed

text \<open>A key whose response is stored keeps its row; the others keep their fingerprint.\<close>

definition key_kept :: "idempotency_row \<Rightarrow> idempotency_row \<Rightarrow> bool" where
  "key_kept x y \<longleftrightarrow> request_fingerprint y = request_fingerprint x \<and> (response_status x \<noteq> None \<longrightarrow> y = x)"

definition keys_kept :: "'a platform_db_scheme \<Rightarrow> 'a platform_db_scheme \<Rightarrow> bool" where
  "keys_kept s t \<longleftrightarrow> rows_kept key_kept (idempotency_keys s) (idempotency_keys t)"

definition same_keys :: "'a platform_db_scheme \<Rightarrow> 'a platform_db_scheme \<Rightarrow> bool" where
  "same_keys s t \<longleftrightarrow> idempotency_keys t = idempotency_keys s"

lemma key_kept_refl [simp]: "key_kept x x"
  by (simp add: key_kept_def)

interpretation keys: preorder_rel keys_kept
proof
  show "keys_kept s s" for s :: "'a platform_db_scheme"
    by (simp add: keys_kept_def rows_kept_refl)
  show "keys_kept s t \<Longrightarrow> keys_kept t u \<Longrightarrow> keys_kept s u" for s t u :: "'a platform_db_scheme"
    unfolding keys_kept_def by (rule rows_kept_trans[where R = key_kept]) (auto simp: key_kept_def)
qed

interpretation same_keys: preorder_rel same_keys
  by unfold_locales (simp_all add: same_keys_def)

lemma same_keys_kept: "does same_keys m \<Longrightarrow> does keys_kept m"
  by (simp add: does_def same_keys_def keys_kept_def rows_kept_refl)

lemma doesD: "does R m \<Longrightarrow> R s (snd (m s))"
  by (simp add: does_def)

lemma does_modify: "(\<And>s. R s (f s)) \<Longrightarrow> does R (modify f)"
  by (simp add: does_def)

lemma does_catch: "does R m \<Longrightarrow> does R (catch m h)"
  by (simp add: does_def catch_def split: prod.split sum.split) (metis snd_conv)

lemma does_case_option: "(x = None \<Longrightarrow> does R a) \<Longrightarrow> (\<And>y. x = Some y \<Longrightarrow> does R (b y)) \<Longrightarrow>
    does R (case x of None \<Rightarrow> a | Some y \<Rightarrow> b y)"
  by (cases x) auto

lemma does_if: "does R a \<Longrightarrow> does R b \<Longrightarrow> does R (if p then a else b)"
  by simp

lemma does_case_prod: "(\<And>a b. does R (f a b)) \<Longrightarrow> does R (case p of (a, b) \<Rightarrow> f a b)"
  by (cases p) simp

lemmas does_control = does_catch does_case_option does_if does_case_prod

section \<open>The statements\<close>

lemma later_set_user: "(\<And>u. user_kept u (f u)) \<Longrightarrow> does later (set_user i f)"
  unfolding set_user_def by (rule does_modify) (simp add: later_def rows_kept_update rows_kept_refl)

lemma keys_set_user: "does same_keys (set_user i f)"
  unfolding set_user_def by (rule does_modify) (simp add: same_keys_def)

lemma later_audit: "does later (write_audit_log a b c d e f)"
  unfolding write_audit_log_def by (rule does_modify) (simp add: later_def rows_kept_refl)

lemma keys_audit: "does same_keys (write_audit_log a b c d e f)"
  unfolding write_audit_log_def by (rule does_modify) (simp add: same_keys_def)

lemma later_create_session: "does later (create_session tok i)"
  unfolding create_session_def
  by (intro later.does_rules does_modify) (simp add: later_def rows_kept_refl rows_kept_append)

lemma keys_create_session: "does same_keys (create_session tok i)"
  unfolding create_session_def
  by (intro same_keys.does_rules does_modify) (simp add: same_keys_def)

lemma later_revoke: "does later (revoke_session tok)"
  unfolding revoke_session_def
  by (rule does_modify) (simp add: later_def rows_kept_refl rows_kept_update session_kept_def)

lemma keys_revoke: "does same_keys (revoke_session tok)"
  unfolding revoke_session_def by (rule does_modify) (simp add: same_keys_def)

lemma later_authenticate: "does later (authenticate_user h tok n pw)"
  unfolding authenticate_user_def record_login_failure_def reset_login_failures_def
  by (intro later.does_rules does_control later_set_user later_create_session) (simp_all add: user_kept_def)

lemma keys_authenticate: "does same_keys (authenticate_user h tok n pw)"
  unfolding authenticate_user_def record_login_failure_def reset_login_failures_def
  by (intro same_keys.does_rules does_control keys_set_user keys_create_session)

lemma does_require_permission:
  assumes "preorder_rel R"
  shows "does R (require_permission p c)"
  unfolding require_permission_def get_current_identity_def
  by (intro preorder_rel.does_rules[OF assms] does_control)

lemma does_route_of:
  assumes "preorder_rel R" "\<And>i. does R (f i)"
  shows "does R (route_of p c f)"
  unfolding route_of_def
  by (intro preorder_rel.does_rules[OF assms(1)] does_require_permission[OF assms(1)] assms(2))

lemma later_insert_user: "does later (insert_user n d r)"
  unfolding insert_user_def by (intro later.does_rules does_modify) (simp add: later_def rows_kept_refl rows_kept_append)

lemma keys_insert_user: "does same_keys (insert_user n d r)"
  unfolding insert_user_def by (intro same_keys.does_rules does_modify) (simp add: same_keys_def)

lemma later_reserve: "does later (reserve k rt fp)"
  unfolding reserve_def by (intro later.does_rules does_control does_modify) (simp add: later_def rows_kept_refl)

lemma later_store_response: "does later (store_response k rt st b)"
  unfolding store_response_def by (rule does_modify) (simp add: later_def rows_kept_refl)

lemma later_idempotent: "does later work \<Longrightarrow> does later (idempotent k rt fp work)"
  unfolding idempotent_def by (intro later.does_rules does_control later_reserve later_store_response) auto

section \<open>Idempotent routes\<close>

lemma catch_Inr [simp]: "catch m h s = (Inr x, t) \<longleftrightarrow> m s = (Inr x, t)"
  by (auto simp: catch_def split: prod.split sum.split)

lemma reserve_eq:
  "reserve k rt fp s =
     (case map_of (idempotency_keys s) (k, rt) of
        None \<Rightarrow> (Inr None, s\<lparr>idempotency_keys := idempotency_keys s @
           [((k, rt), \<lparr>request_fingerprint = fp, response_status = None, response_body = None\<rparr>)]\<rparr>)
      | Some x \<Rightarrow>
          if request_fingerprint x = fp
          then (Inr (case response_status x of None \<Rightarrow> None
             | Some st \<Rightarrow> Some (st, case response_body x of None \<Rightarrow> [] | Some b \<Rightarrow> b)), s)
          else (Inl (Exc ''IdempotencyKeyReused'' [k, rt]), s))"
  by (simp add: reserve_def bind_eq then_db_eq split: option.split)

lemma reserve_new:
  assumes "reserve k rt fp s = (Inr None, t)"
  shows "keys_kept s t"
    "\<exists>x. map_of (idempotency_keys t) (k, rt) = Some x \<and> request_fingerprint x = fp \<and> response_status x = None"
  using assms
  by (auto simp: reserve_eq keys_kept_def rows_kept_refl rows_kept_append map_add_def split: option.splits if_splits)

lemma keys_store_response:
  assumes "map_of (idempotency_keys s) (k, rt) = Some x" "response_status x = None"
  shows "keys_kept s (snd (store_response k rt st b s))"
  using assms by (auto simp: store_response_def keys_kept_def rows_kept_def key_kept_def)

text \<open>The three ways an idempotent route ends.\<close>

lemma idempotent_cases:
  assumes "idempotent k rt fp work s = (r, t)"
  obtains (refused) "r = Inl (ApiError 409 ''idempotency_key_reused'' [k, rt])" "t = s"
  | (replayed) x st b where "map_of (idempotency_keys s) (k, rt) = Some x" "request_fingerprint x = fp"
      "response_status x = Some st" "r = Inr (case response_body x of None \<Rightarrow> [] | Some b \<Rightarrow> b)" "t = s"
  | (failed) e u where "reserve k rt fp s = (Inr None, u)" "work u = (Inl e, t)" "r = Inl e"
  | (done_now) b u v where "reserve k rt fp s = (Inr None, u)" "work u = (Inr b, v)" "r = Inr b"
      "t = snd (store_response k rt 201 b v)"
proof (cases "reserve k rt fp s")
  case (Pair q u)
  show thesis
  proof (cases q)
    case (Inl e)
    with Pair have "e = Exc ''IdempotencyKeyReused'' [k, rt]" "u = s"
      by (auto simp: reserve_eq split: option.splits if_splits)
    with Inl Pair assms show thesis by (intro refused) (auto simp: idempotent_def bind_eq catch_def except_class_def)
  next
    case (Inr o1)
    show thesis
    proof (cases o1)
      case None
      obtain y v where w: "work u = (y, v)" by (cases "work u")
      with None Inr Pair assms failed[of u] done_now[of u] show thesis
        by (cases y) (auto simp: idempotent_def bind_eq then_db_eq catch_def store_response_def)
    next
      case (Some p)
      with Inr Pair obtain x st where x: "map_of (idempotency_keys s) (k, rt) = Some x" "request_fingerprint x = fp"
        "response_status x = Some st" "p = (st, case response_body x of None \<Rightarrow> [] | Some b \<Rightarrow> b)" "u = s"
        by (auto simp: reserve_eq split: option.splits if_splits)
      with Some Inr Pair assms show thesis by (intro replayed[OF x(1-3)]) (auto simp: idempotent_def bind_eq catch_def)
    qed
  qed
qed

lemma keys_idempotent:
  assumes "does same_keys work"
  shows "does keys_kept (idempotent k rt fp work)"
  unfolding does_def
proof
  fix s :: "'a platform_db_scheme"
  obtain r t where e: "idempotent k rt fp work s = (r, t)" by (cases "idempotent k rt fp work s")
  have w: "same_keys u (snd (work u))" for u using assms by (simp add: does_def)
  from e have "keys_kept s t"
  proof (cases rule: idempotent_cases)
    case (failed err u)
    then show ?thesis using reserve_new(1)[OF failed(1)] w[of u] by (simp add: same_keys_def keys_kept_def)
  next
    case (done_now b u v)
    obtain x where x: "map_of (idempotency_keys u) (k, rt) = Some x" "response_status x = None"
      using reserve_new(2)[OF done_now(1)] by blast
    have uv: "idempotency_keys v = idempotency_keys u" using w[of u] done_now(2) by (simp add: same_keys_def)
    then have "keys_kept v t" using keys_store_response[of v k rt x 201 b] x done_now(4) by simp
    moreover have "keys_kept s v" using reserve_new(1)[OF done_now(1)] uv by (simp add: keys_kept_def)
    ultimately show ?thesis by (rule keys.trans[rotated])
  qed (simp_all add: keys.refl)
  then show "keys_kept s (snd (idempotent k rt fp work s))" by (simp add: e)
qed

text \<open>After an answer the key holds it: the same request is a replay in every later state.\<close>

lemma idempotent_stored:
  assumes "idempotent k rt fp work s = (Inr b, t)" "does same_keys work"
  shows "\<exists>x st. map_of (idempotency_keys t) (k, rt) = Some x \<and> request_fingerprint x = fp \<and> response_status x = Some st \<and>
     (case response_body x of None \<Rightarrow> [] | Some b \<Rightarrow> b) = b"
  using assms(1)
proof (cases rule: idempotent_cases)
  case (done_now c u v)
  obtain x where x: "map_of (idempotency_keys u) (k, rt) = Some x" "request_fingerprint x = fp"
    using reserve_new(2)[OF done_now(1)] by blast
  moreover have "idempotency_keys v = idempotency_keys u"
    using assms(2) done_now(2) by (metis does_def same_keys_def snd_conv)
  ultimately show ?thesis using done_now(3,4) by (simp add: store_response_def)
qed auto

lemma idempotent_replay:
  assumes "map_of (idempotency_keys s) (k, rt) = Some x" "response_status x = Some st"
  shows "idempotent k rt fp work s =
    (if request_fingerprint x = fp then (Inr (case response_body x of None \<Rightarrow> [] | Some b \<Rightarrow> b), s)
     else (Inl (ApiError 409 ''idempotency_key_reused'' [k, rt]), s))"
  using assms by (simp add: idempotent_def bind_eq catch_def reserve_eq except_class_def)

section \<open>The routes\<close>

lemma later_create_user: "does later (create_user fp c key n d r)"
  unfolding create_user_def load_role_id_def
  by (intro does_route_of later.preorder_rel_axioms later_idempotent later.does_rules does_control later_insert_user later_audit)

lemma keys_create_user: "does keys_kept (create_user fp c key n d r)"
  unfolding create_user_def load_role_id_def
  by (intro does_route_of keys.preorder_rel_axioms keys_idempotent same_keys.does_rules does_control keys_insert_user keys_audit)

lemma later_update_user: "does later (update_user c i d r m)"
  unfolding update_user_def prepare_update_def apply_update_def load_user_row_def load_role_id_def check_precondition_def Let_def
  by (intro does_route_of later.preorder_rel_axioms later.does_rules does_control later_set_user later_audit)
    (simp add: user_kept_def)

lemma keys_update_user: "does same_keys (update_user c i d r m)"
  unfolding update_user_def prepare_update_def apply_update_def load_user_row_def load_role_id_def check_precondition_def Let_def
  by (intro does_route_of same_keys.preorder_rel_axioms same_keys.does_rules does_control keys_set_user keys_audit)

lemma later_set_password: "does later (set_password_route h c i pw)"
  unfolding set_password_route_def load_user_row_def
  by (intro does_route_of later.preorder_rel_axioms later.does_rules does_control later_set_user later_audit)
    (simp add: user_kept_def)

lemma keys_set_password: "does same_keys (set_password_route h c i pw)"
  unfolding set_password_route_def load_user_row_def
  by (intro does_route_of same_keys.preorder_rel_axioms same_keys.does_rules does_control keys_set_user keys_audit)

text \<open>\<open>disable_user\<close> writes the version it read plus one, so the order needs the row it read.\<close>

lemma disable_user_eq:
  "disable_user i who why s =
     (case map_of (users s) i of
        None \<Rightarrow> (Inl (Exc ''UserNotFound'' [str_int i]), s)
      | Some u \<Rightarrow>
          (let t = s\<lparr>users := update_row i (\<lambda>v. v\<lparr>user_status := ''disabled'', user_version := user_version u + 1\<rparr>) (users s)\<rparr>
           in (Inr (user_version u + 1),
               snd (write_audit_log who ''user.disable'' ''user'' (str_int i) (Some (user_version u + 1)) (Some why) t))))"
  by (simp add: disable_user_def bind_eq then_db_eq set_user_def write_audit_log_def Let_def split: option.split)

lemma later_disable: "does later (disable_user i who why)"
  unfolding does_def disable_user_eq
  by (auto simp: write_audit_log_def Let_def later_def rows_kept_def user_kept_def split: option.split)

lemma keys_disable: "does same_keys (disable_user i who why)"
  unfolding does_def disable_user_eq
  by (auto simp: write_audit_log_def Let_def same_keys_def split: option.split)

lemma later_disable_route: "does later (disable_user_route c i why)"
  unfolding disable_user_route_def load_user_row_def
  by (intro does_route_of later.preorder_rel_axioms later.does_rules does_control later_disable)

lemma keys_disable_route: "does same_keys (disable_user_route c i why)"
  unfolding disable_user_route_def load_user_row_def
  by (intro does_route_of same_keys.preorder_rel_axioms same_keys.does_rules does_control keys_disable)

lemma later_login: "does later (login h tok n pw)"
proof -
  have "does later (case out of AccountLocked \<Rightarrow> raise a | InvalidCredentials \<Rightarrow> raise b | Success i t \<Rightarrow> ret (f i t))" for out a b f
    by (cases out) (simp_all add: later.does_rules)
  then show ?thesis unfolding login_def by (intro later.does_bind later_authenticate)
qed

lemma keys_login: "does same_keys (login h tok n pw)"
proof -
  have "does same_keys (case out of AccountLocked \<Rightarrow> raise a | InvalidCredentials \<Rightarrow> raise b | Success i t \<Rightarrow> ret (f i t))" for out a b f
    by (cases out) (simp_all add: same_keys.does_rules)
  then show ?thesis unfolding login_def by (intro same_keys.does_bind keys_authenticate)
qed

lemma later_logout: "does later (logout c)" and keys_logout: "does same_keys (logout c)"
  unfolding logout_def
  by (intro later.does_rules does_control later_revoke) (intro same_keys.does_rules does_control keys_revoke)

lemmas account_later = later_login later_logout later_create_user later_update_user later_disable_route later_set_password
lemmas account_keys = keys_create_user keys_login[THEN same_keys_kept] keys_logout[THEN same_keys_kept]
  keys_update_user[THEN same_keys_kept] keys_disable_route[THEN same_keys_kept] keys_set_password[THEN same_keys_kept]

definition kept :: "platform_db \<Rightarrow> platform_db \<Rightarrow> bool" where
  "kept s t \<longleftrightarrow> later s t \<and> keys_kept s t"

lemma kept_refl: "kept s s" and kept_trans: "kept s t \<Longrightarrow> kept t u \<Longrightarrow> kept s u"
  unfolding kept_def using later.refl keys.refl later.trans keys.trans by blast+

lemma account_step_kept: "account_step h hp fp s t \<Longrightarrow> kept s t"
proof -
  have "kept s (account_event_step h hp fp e s)" for e
    by (cases e) (simp_all add: kept_def account_later[THEN doesD] account_keys[THEN doesD],
        simp_all add: later_def keys_kept_def rows_kept_refl)
  then show "account_step h hp fp s t \<Longrightarrow> kept s t" by (auto simp: account_step_def)
qed

lemma account_steps_kept: "(account_step h hp fp)\<^sup>*\<^sup>* s t \<Longrightarrow> kept s t"
  by (induction rule: rtranclp_induct) (auto intro: kept_refl kept_trans account_step_kept)

section \<open>Well-formed tables\<close>

definition accounts_ok :: "'a platform_db_scheme \<Rightarrow> bool" where
  "accounts_ok s \<longleftrightarrow>
     distinct (map fst (users s)) \<and> fst ` set (users s) \<subseteq> {1..<user_seq s} \<and> 1 \<le> user_seq s \<and>
     distinct (map (username \<circ> snd) (users s)) \<and> distinct (map fst (sessions s)) \<and> distinct (map fst (roles s))"

lemma map_username_update:
  "(\<And>u. username (f u) = username u) \<Longrightarrow> map (username \<circ> snd) (update_row i f xs) = map (username \<circ> snd) xs"
  by (auto simp: update_row_def)

lemma keeps_modify: "(\<And>s. P s \<Longrightarrow> P (f s)) \<Longrightarrow> keeps P (modify f)"
  by (simp add: keeps_def)

lemma keeps_catch [store_inv]: "keeps P m \<Longrightarrow> keeps P (catch m h)"
  by (simp add: keeps_def catch_def split: prod.split sum.split) (metis snd_conv)

lemma keeps_case_option [store_inv]: "(x = None \<Longrightarrow> keeps P a) \<Longrightarrow> (\<And>y. x = Some y \<Longrightarrow> keeps P (b y)) \<Longrightarrow>
    keeps P (case x of None \<Rightarrow> a | Some y \<Rightarrow> b y)"
  by (cases x) auto

lemma keeps_case_prod [store_inv]: "(\<And>a b. keeps P (f a b)) \<Longrightarrow> keeps P (case p of (a, b) \<Rightarrow> f a b)"
  by (cases p) simp

lemma ok_set_user [store_inv]: "(\<And>u. username (f u) = username u) \<Longrightarrow> keeps accounts_ok (set_user i f)"
  unfolding set_user_def by (rule keeps_modify) (simp add: accounts_ok_def map_username_update del: map_map)

lemma ok_audit [store_inv]: "keeps accounts_ok (write_audit_log a b c d e f)"
  unfolding write_audit_log_def by (rule keeps_modify) (simp add: accounts_ok_def)

lemma ok_revoke [store_inv]: "keeps accounts_ok (revoke_session t)"
  unfolding revoke_session_def by (rule keeps_modify) (simp add: accounts_ok_def)

lemma ok_create_session [store_inv]: "keeps accounts_ok (create_session t i)"
  by (rule keepsI) (auto simp: create_session_def bind_eq then_db_eq accounts_ok_def)

lemma ok_insert_user [store_inv]: "keeps accounts_ok (insert_user n d r)"
  by (rule keepsI) (force simp: insert_user_def bind_eq then_db_eq accounts_ok_def)

lemma ok_reserve [store_inv]: "keeps accounts_ok (reserve k rt fp)"
  by (rule keepsI) (simp add: reserve_eq accounts_ok_def split: option.split)

lemma ok_store_response [store_inv]: "keeps accounts_ok (store_response k rt st b)"
  unfolding store_response_def by (rule keeps_modify) (simp add: accounts_ok_def)

lemma ok_disable [store_inv]: "keeps accounts_ok (disable_user i who why)"
  unfolding disable_user_def Let_def by (intro store_inv) simp

lemma ok_authenticate [store_inv]: "keeps accounts_ok (authenticate_user h tok n pw)"
  unfolding authenticate_user_def record_login_failure_def reset_login_failures_def
  by (intro store_inv) simp_all

lemma ok_load [store_inv]: "keeps P (load_user_row i)" "keeps P (load_role_id n)"
  unfolding load_user_row_def load_role_id_def by (intro store_inv)+

lemma ok_route_of [store_inv]: "(\<And>i. keeps P (f i)) \<Longrightarrow> keeps P (route_of p c f)"
  unfolding route_of_def require_permission_def get_current_identity_def by (intro store_inv)

lemma ok_idempotent [store_inv]: "keeps accounts_ok w \<Longrightarrow> keeps accounts_ok (idempotent k rt fp w)"
  unfolding idempotent_def by (intro store_inv)

lemma account_event_ok: "accounts_ok s \<Longrightarrow> accounts_ok (account_event_step h hp fp e s)"
proof (cases e)
  case (Login tok n pw)
  assume s: "accounts_ok s"
  have "keeps accounts_ok (login h tok n pw)"
    unfolding login_def by (intro keeps_bind ok_authenticate) (simp split: login_outcome.split)
  from keepsD[OF this s] show ?thesis by (simp add: Login)
next
  case (Logout c)
  assume s: "accounts_ok s"
  have "keeps accounts_ok (logout c)" unfolding logout_def by (intro store_inv)
  from keepsD[OF this s] show ?thesis by (simp add: Logout)
next
  case (CreateUser c key n d r)
  assume s: "accounts_ok s"
  have "keeps accounts_ok (create_user fp c key n d r)" unfolding create_user_def by (intro store_inv)
  from keepsD[OF this s] show ?thesis by (simp add: CreateUser)
next
  case (UpdateUser c i d r m)
  assume s: "accounts_ok s"
  have "keeps accounts_ok (update_user c i d r m)"
    unfolding update_user_def prepare_update_def apply_update_def Let_def check_precondition_def by (intro store_inv) simp
  from keepsD[OF this s] show ?thesis by (simp add: UpdateUser)
next
  case (DisableUser c i why)
  assume s: "accounts_ok s"
  have "keeps accounts_ok (disable_user_route c i why)" unfolding disable_user_route_def by (intro store_inv)
  from keepsD[OF this s] show ?thesis by (simp add: DisableUser)
next
  case (SetPassword c i pw)
  assume s: "accounts_ok s"
  have "keeps accounts_ok (set_password_route hp c i pw)" unfolding set_password_route_def by (intro store_inv) simp
  from keepsD[OF this s] show ?thesis by (simp add: SetPassword)
qed (simp_all add: accounts_ok_def)

text \<open>A newly seeded database: roles, permissions and users, but no session, key or audit row.\<close>

definition account_start :: "platform_db \<Rightarrow> bool" where
  "account_start s \<longleftrightarrow> accounts_ok s \<and> sessions s = [] \<and> idempotency_keys s = [] \<and> audit_log s = []"

interpretation accounts: invariant_system account_start "account_step h hp fp" accounts_ok for h hp fp
proof
  show "account_start s \<Longrightarrow> accounts_ok s" for s by (simp add: account_start_def)
  show "accounts_ok s \<Longrightarrow> account_step h hp fp s t \<Longrightarrow> accounts_ok t" for s t
    using account_event_ok[of s h hp fp] by (auto simp: account_step_def)
qed

section \<open>Permissions\<close>

definition authorized :: "'a platform_db_scheme \<Rightarrow> string option \<Rightarrow> string \<Rightarrow> identity \<Rightarrow> bool" where
  "authorized s cookie p ident \<longleftrightarrow>
     (case cookie of None \<Rightarrow> False | Some tok \<Rightarrow> resolve_session s tok = Some ident \<and> has_permission ident p)"

lemma require_permission_eq:
  "require_permission p c s =
     (case c of
        None \<Rightarrow> (Inl (ApiError 401 ''unauthenticated'' []), s)
      | Some tok \<Rightarrow>
          (case resolve_session s tok of
             None \<Rightarrow> (Inl (ApiError 401 ''unauthenticated'' []), s)
           | Some i \<Rightarrow> if has_permission i p then (Inr i, s) else (Inl (ApiError 403 ''forbidden'' [p]), s)))"
  by (simp add: require_permission_def get_current_identity_def bind_eq then_db_eq split: option.split)

lemma route_of_authorized:
  "authorized s c p i \<Longrightarrow> route_of p c f s = transaction (f i) s"
  by (auto simp: route_of_def transaction_def bind_eq require_permission_eq authorized_def split: option.splits)

lemma route_of_denied:
  assumes "\<And>i. \<not> authorized s c p i"
  shows "\<exists>e. route_of p c f s = (Inl e, s) \<and> e \<in> {ApiError 401 ''unauthenticated'' [], ApiError 403 ''forbidden'' [p]}"
proof (cases c)
  case None
  then show ?thesis by (simp add: route_of_def transaction_def bind_eq require_permission_eq)
next
  case (Some tok)
  show ?thesis
  proof (cases "resolve_session s tok")
    case None
    with Some show ?thesis by (simp add: route_of_def transaction_def bind_eq require_permission_eq)
  next
    case (Some i)
    with \<open>c = Some tok\<close> assms[of i] have "\<not> has_permission i p" by (simp add: authorized_def)
    with Some \<open>c = Some tok\<close> show ?thesis by (simp add: route_of_def transaction_def bind_eq require_permission_eq)
  qed
qed

lemma route_of_Inr:
  "route_of p c f s = (Inr x, t) \<longleftrightarrow> (\<exists>i. authorized s c p i \<and> f i s = (Inr x, t))"
proof (cases "\<exists>i. authorized s c p i")
  case True
  then obtain i where i: "authorized s c p i" by blast
  have "j = i" if "authorized s c p j" for j
    using that i by (auto simp: authorized_def split: option.splits)
  then have "(\<exists>j. authorized s c p j \<and> f j s = (Inr x, t)) \<longleftrightarrow> f i s = (Inr x, t)" using i by metis
  then show ?thesis by (simp only: route_of_authorized[OF i] transaction_Inr)
next
  case False
  then obtain e where "route_of p c f s = (Inl e, s)" using route_of_denied[of s c p f] by blast
  with False show ?thesis by simp
qed

end
