(* ===== verification/Accounts_Theorems.thy ===== *)
theory Accounts_Theorems
  imports Accounts_Spec
begin

text \<open>
  The properties of authentication, user administration, idempotent requests, optimistic
  concurrency and pagination.
\<close>

section \<open>A small installation for the witnesses\<close>

definition demo_permissions :: "string list" where
  "demo_permissions = [''admin.users.create'', ''admin.users.read'', ''admin.users.update'', ''admin.users.disable'',
     ''admin.users.set_password'']"

definition demo_accounts :: platform_db where
  "demo_accounts =
     \<lparr>roles = [(1, ''admin''), (2, ''viewer'')], permissions = zip [1..5] demo_permissions,
      role_permissions = map (\<lambda>i. (1, i)) [1..5],
      users = [(1, \<lparr>username = ''ann'', display_name = ''Ann'', role_id = 1, user_status = ''active'', user_version = 1,
         password_hash = Some ''secret'', failed_login_count = 0, locked_until = None\<rparr>)],
      user_seq = 2, sessions = [], idempotency_keys = [], audit_log = [], clock = 0, correlation_id_var = Some ''c1''\<rparr>"

definition demo_hasher :: "string \<Rightarrow> string \<Rightarrow> bool" where
  "demo_hasher h pw \<longleftrightarrow> h = pw"

definition demo_fp :: "jobject \<Rightarrow> string" where
  "demo_fp d = (case jget d ''username'' of JStr n \<Rightarrow> n | _ \<Rightarrow> [])"

definition demo_after :: "account_event list \<Rightarrow> platform_db" where
  "demo_after es = foldl (\<lambda>s e. account_event_step demo_hasher id demo_fp e s) demo_accounts es"

definition demo_login :: account_event where
  "demo_login = Login ''t1'' ''ann'' ''secret''"

lemma demo_start: "account_start demo_accounts"
  by code_simp

lemma demo_steps: "(account_step demo_hasher id demo_fp)\<^sup>*\<^sup>* (demo_after es) (demo_after (es @ fs))"
proof (induction fs rule: rev_induct)
  case (snoc f fs)
  have "account_step demo_hasher id demo_fp (demo_after (es @ fs)) (demo_after (es @ fs @ [f]))"
    by (auto simp: account_step_def demo_after_def)
  with snoc show ?case by (rule rtranclp.rtrancl_into_rtrancl)
qed simp

lemma demo_after_reachable: "reachable account_start (account_step demo_hasher id demo_fp) (demo_after es)"
proof (induction es rule: rev_induct)
  case Nil
  show ?case using demo_start by (simp add: demo_after_def reachable.initially)
next
  case (snoc e es)
  have "account_step demo_hasher id demo_fp (demo_after es) (demo_after (es @ [e]))"
    by (auto simp: account_step_def demo_after_def)
  with snoc show ?case by (rule reachable.stepwise)
qed

section \<open>Deny by default\<close>

text \<open>The cookie and the permission of each administrative request.\<close>

fun event_permission :: "account_event \<Rightarrow> (string option \<times> string) option" where
  "event_permission (CreateUser c _ _ _ _) = Some (c, ''admin.users.create'')"
| "event_permission (UpdateUser c _ _ _ _) = Some (c, ''admin.users.update'')"
| "event_permission (DisableUser c _ _) = Some (c, ''admin.users.disable'')"
| "event_permission (SetPassword c _ _) = Some (c, ''admin.users.set_password'')"
| "event_permission _ = None"

lemma admin_event_denied:
  assumes "event_permission e = Some (c, p)" "\<And>i. \<not> authorized s c p i"
  shows "account_event_step h hp fp e s = s"
proof -
  have "snd (route_of p c f s) = s" for f :: "identity \<Rightarrow> (platform_db, api_error, 'x) db"
    using route_of_denied[OF assms(2), of f] by auto
  note r = this
  show ?thesis using assms(1)
    by (cases e) (auto simp: create_user_def update_user_def disable_user_route_def set_password_route_def r)
qed

text \<open>
  C14. An administrative request changes the database only if its cookie is a session that is not
  revoked and not expired, of an active user whose role holds the permission the route names.
\<close>

theorem deny_by_default:
  assumes "event_permission e = Some (c, p)" "account_event_step h hp fp e s \<noteq> s"
  shows "\<exists>tok x u r. c = Some tok \<and> map_of (sessions s) tok = Some x \<and> revoked_at x = None \<and> clock s < expires_at x \<and>
    map_of (users s) (session_user x) = Some u \<and> user_status u = ''active'' \<and>
    map_of (roles s) (role_id u) = Some r \<and> p \<in> role_permission_names s r"
proof -
  obtain i where "authorized s c p i" using admin_event_denied[OF assms(1)] assms(2) by blast
  then obtain tok where c: "c = Some tok" and i: "resolve_session s tok = Some i" "has_permission i p"
    by (auto simp: authorized_def split: option.splits)
  from i(1) obtain x u r where "map_of (sessions s) tok = Some x" "revoked_at x = None" "clock s < expires_at x"
    "map_of (users s) (session_user x) = Some u" "user_status u = ''active''" "map_of (roles s) (role_id u) = Some r"
    "i = \<lparr>subject = username u, role = r, granted = role_permission_names s r\<rparr>"
    by (auto simp: resolve_session_def split: option.splits if_splits)
  with c i(2) show ?thesis by (auto simp: has_permission_def)
qed

definition demo_create :: "string \<Rightarrow> string \<Rightarrow> account_event" where
  "demo_create key name = CreateUser (Some ''t1'') key name ''New'' ''viewer''"

theorem deny_by_default_witness:
  "\<exists>x. map_of (sessions (demo_after [demo_login])) ''t1'' = Some x \<and> revoked_at x = None"
proof -
  have "length (users (account_event_step demo_hasher id demo_fp (demo_create ''k'' ''bob'') (demo_after [demo_login]))) \<noteq>
      length (users (demo_after [demo_login]))" by code_simp
  then have "account_event_step demo_hasher id demo_fp (demo_create ''k'' ''bob'') (demo_after [demo_login]) \<noteq>
      demo_after [demo_login]" by metis
  from deny_by_default[OF _ this] show ?thesis by (auto simp: demo_create_def)
qed

section \<open>Disabled users and revoked sessions\<close>

lemma find_user_mem:
  assumes "find_user s n = Some (k, v)"
  shows "(k, v) \<in> set (users s)" "username v = n" "\<exists>r. map_of (roles s) (role_id v) = Some r"
proof -
  from assms obtain j where j: "j < length (users s)" "users s ! j = (k, v)" "username v = n"
    "map_of (roles s) (role_id v) \<noteq> None"
    by (auto simp: find_user_def find_Some_iff)
  then show "(k, v) \<in> set (users s)" by (metis nth_mem)
  show "username v = n" "\<exists>r. map_of (roles s) (role_id v) = Some r" using j by auto
qed

lemma find_user_unique:
  assumes "accounts_ok s" "map_of (users s) i = Some u" "find_user s (username u) = Some (k, v)"
  shows "k = i \<and> v = u"
proof -
  have m: "(i, u) \<in> set (users s)" "(k, v) \<in> set (users s)" "username v = username u"
    using find_user_mem[OF assms(3)] assms(2) by (auto dest: map_of_SomeD)
  have "inj_on (username \<circ> snd) (set (users s))"
    using assms(1) by (simp add: accounts_ok_def distinct_map)
  from inj_onD[OF this _ m(1,2)] m(3) show ?thesis by simp
qed

text \<open>
  Disabling is final: whatever requests follow, no session of a disabled user resolves to an
  identity and no password logs the user in.
\<close>

theorem disabled_forever:
  assumes "reachable account_start (account_step h hp fp) s" "map_of (users s) i = Some u"
    and "user_status u = ''disabled''" "(account_step h hp fp)\<^sup>*\<^sup>* s t"
  shows "(\<forall>tok x. map_of (sessions t) tok = Some x \<and> session_user x = i \<longrightarrow> resolve_session t tok = None) \<and>
    authenticate_user h tok (username u) pw t = (Inr InvalidCredentials, t)"
proof -
  have ok: "accounts_ok t" using accounts.steps_inv[OF assms(4)] accounts.reachable_inv[OF assms(1)] by blast
  have "kept s t" using assms(4) by (rule account_steps_kept)
  then obtain v where v: "map_of (users t) i = Some v" "username v = username u" "user_status v = ''disabled''"
    using assms(2,3) by (auto simp: kept_def later_def user_kept_def dest: rows_keptD)
  have "authenticate_user h tok (username u) pw t = (Inr InvalidCredentials, t)"
  proof (cases "find_user t (username u)")
    case None
    then show ?thesis by (simp add: authenticate_user_def transaction_def bind_eq)
  next
    case (Some p)
    then obtain k w where "find_user t (username v) = Some (k, w)" "p = (k, w)" using v(2) by (cases p) auto
    with find_user_unique[OF ok v(1)] have "p = (i, v)" by blast
    with Some v(3) show ?thesis by (simp add: authenticate_user_def transaction_def bind_eq)
  qed
  with v show ?thesis by (auto simp: resolve_session_def split: option.split)
qed

lemma demo_disabled:
  "map_option user_status (map_of (users (demo_after [demo_login, DisableUser (Some ''t1'') 1 ''left''])) 1) = Some ''disabled''"
  "map_option username (map_of (users (demo_after [demo_login, DisableUser (Some ''t1'') 1 ''left''])) 1) = Some ''ann''"
  by code_simp+

theorem disabled_forever_witness:
  "authenticate_user demo_hasher ''t2'' ''ann'' ''secret'' (demo_after [demo_login, DisableUser (Some ''t1'') 1 ''left'', Advance 5]) =
     (Inr InvalidCredentials, demo_after [demo_login, DisableUser (Some ''t1'') 1 ''left'', Advance 5])"
proof -
  obtain u where "map_of (users (demo_after [demo_login, DisableUser (Some ''t1'') 1 ''left''])) 1 = Some u"
    "user_status u = ''disabled''" "username u = ''ann''"
    using demo_disabled by auto
  with disabled_forever[OF demo_after_reachable this(1,2) demo_steps[of _ "[Advance 5]"], of "''t2''" "''secret''"]
  show ?thesis by simp
qed

lemma authenticate_good:
  assumes "find_user s n = Some (k, u)" "user_status u = ''active''"
    "\<not> (case locked_until u of None \<Rightarrow> False | Some l \<Rightarrow> clock s < l)" "verify_password h pw (password_hash u)"
    "map_of (users s) k = Some u" "map_of (roles s) (role_id u) = Some r"
  shows "authenticate_user h tok n pw s =
    (if tok \<in> fst ` set (sessions s) then (Inl (Exc ''IntegrityError'' [''user_sessions_pkey'']), s)
     else (Inr (Success \<lparr>subject = username u, role = r, granted = role_permission_names s r\<rparr> tok),
       s\<lparr>users := update_row k (\<lambda>u. u\<lparr>failed_login_count := 0, locked_until := None\<rparr>) (users s),
         sessions := sessions s @ [(tok, \<lparr>session_user = k, expires_at = clock s + SESSION_LIFETIME, revoked_at = None\<rparr>)]\<rparr>))"
  using assms map_of_mem[OF assms(5)]
  by (simp add: authenticate_user_def transaction_def bind_eq then_db_eq reset_login_failures_def set_user_def
      create_session_def)

text \<open>
  A successful login issues a session that stands for exactly this user: for the twelve
  hours that follow it resolves to the name and role the login reported and to the permissions
  of that role; once logged out it never resolves again.
\<close>

theorem session_lifetime:
  assumes "reachable account_start (account_step h hp fp) s" "login h tok n pw s = (Inr (nm, r, tok'), t)"
  shows "nm = n \<and> tok' = tok \<and>
    (\<forall>k. 0 \<le> k \<and> k < SESSION_LIFETIME \<longrightarrow>
       resolve_session (t\<lparr>clock := clock t + k\<rparr>) tok = Some \<lparr>subject = n, role = r, granted = role_permission_names t r\<rparr>) \<and>
    (\<forall>u. (account_step h hp fp)\<^sup>*\<^sup>* (snd (logout (Some tok) t)) u \<longrightarrow> resolve_session u tok = None)"
proof -
  have ok: "accounts_ok s" using accounts.reachable_inv[OF assms(1)] .
  obtain out t1 where "authenticate_user h tok n pw s = (Inr out, t1)" "(case out of
       AccountLocked \<Rightarrow> raise (ApiError 401 ''account_locked'' [])
     | InvalidCredentials \<Rightarrow> raise (ApiError 401 ''unauthenticated'' [])
     | Success i tok \<Rightarrow> ret (subject i, role i, tok)) t1 = (Inr (nm, r, tok'), t)"
    using assms(2) unfolding login_def bind_Inr by blast
  then obtain i where a: "authenticate_user h tok n pw s = (Inr (Success i tok'), t)" "nm = subject i" "r = role i"
    by (cases out) auto
  obtain k u where f: "find_user s n = Some (k, u)" "user_status u = ''active''" "verify_password h pw (password_hash u)"
    using a(1) by (auto simp: authenticate_user_def bind_eq then_db_eq record_login_failure_def set_user_def
        split: option.splits if_splits prod.splits)
  from find_user_mem[OF f(1)] obtain r' where u: "(k, u) \<in> set (users s)" "username u = n" "map_of (roles s) (role_id u) = Some r'"
    by blast
  have ku: "map_of (users s) k = Some u" using ok u(1) by (simp add: accounts_ok_def)
  let ?t = "s\<lparr>users := update_row k (\<lambda>u. u\<lparr>failed_login_count := 0, locked_until := None\<rparr>) (users s),
     sessions := sessions s @ [(tok, \<lparr>session_user = k, expires_at = clock s + SESSION_LIFETIME, revoked_at = None\<rparr>)]\<rparr>"
  note ge = authenticate_good[OF f(1-2) _ f(3) ku u(3), of tok]
  have "\<not> (case locked_until u of None \<Rightarrow> False | Some l \<Rightarrow> clock s < l)"
    using a(1) f by (cases "(case locked_until u of None \<Rightarrow> False | Some l \<Rightarrow> clock s < l)")
      (simp_all add: authenticate_user_def bind_eq)
  from a(1)[unfolded ge[OF this]] have e: "tok \<notin> fst ` set (sessions s)" "tok' = tok"
    "i = \<lparr>subject = username u, role = r', granted = role_permission_names s r'\<rparr>" "t = ?t"
    by (auto split: if_splits)
  have st: "map_of (sessions t) tok = Some \<lparr>session_user = k, expires_at = clock s + SESSION_LIFETIME, revoked_at = None\<rparr>"
    using e(1) by (simp add: e(4) map_of_snoc del: map_of_append)
  have "resolve_session (t\<lparr>clock := clock t + j\<rparr>) tok = Some \<lparr>subject = n, role = r, granted = role_permission_names t r\<rparr>"
    if "0 \<le> j" "j < SESSION_LIFETIME" for j
    using st that ku u f(2) by (simp add: resolve_session_def e(3,4) a(3))
  moreover have "resolve_session v tok = None" if "(account_step h hp fp)\<^sup>*\<^sup>* (snd (logout (Some tok) t)) v" for v
  proof -
    have k: "rows_kept session_kept (sessions (snd (logout (Some tok) t))) (sessions v)"
      using account_steps_kept[OF that] by (simp add: kept_def later_def)
    have "map_of (sessions (snd (logout (Some tok) t))) tok =
        Some \<lparr>session_user = k, expires_at = clock s + SESSION_LIFETIME, revoked_at = Some (clock t)\<rparr>"
      using st by (simp add: logout_def transaction_def revoke_session_def)
    from rows_keptD[OF k this] obtain y where "map_of (sessions v) tok = Some y" "revoked_at y \<noteq> None"
      by (auto simp: session_kept_def)
    then show ?thesis by (simp add: resolve_session_def)
  qed
  ultimately show ?thesis using a(2) e(2,3) u(2) by simp
qed

theorem session_lifetime_witness:
  "\<exists>t. login demo_hasher ''t1'' ''ann'' ''secret'' demo_accounts = (Inr (''ann'', ''admin'', ''t1''), t) \<and>
     resolve_session (t\<lparr>clock := clock t + 100\<rparr>) ''t1'' =
       Some \<lparr>subject = ''ann'', role = ''admin'', granted = role_permission_names t ''admin''\<rparr>"
proof -
  have "fst (login demo_hasher ''t1'' ''ann'' ''secret'' demo_accounts) = Inr (''ann'', ''admin'', ''t1'')" by code_simp
  then obtain t where t: "login demo_hasher ''t1'' ''ann'' ''secret'' demo_accounts = (Inr (''ann'', ''admin'', ''t1''), t)"
    by (cases "login demo_hasher ''t1'' ''ann'' ''secret'' demo_accounts") auto
  have "reachable account_start (account_step demo_hasher id demo_fp) demo_accounts"
    using demo_start by (rule reachable.initially)
  from session_lifetime[OF this t] t show ?thesis by (auto simp: SESSION_LIFETIME_def)
qed

section \<open>Reading and writing a user\<close>

lemma load_role_id_Inr:
  "load_role_id n s = (Inr i, t) \<Longrightarrow> t = s \<and> (i, n) \<in> set (roles s)"
  by (auto simp: load_role_id_def bind_eq find_Some_iff split: option.splits) (metis nth_mem)

lemma load_user_row_Inr: "load_user_row i s = (Inr r, t) \<longleftrightarrow> t = s \<and> user_row_of s i = Some r"
  by (auto simp: load_user_row_def bind_eq split: option.splits)

lemma prepare_update_Inr:
  assumes "prepare_update k d rn m s = (Inr ch, t)"
  obtains u r where "t = s" "map_of (users s) k = Some u" "map_of (roles s) (role_id u) = Some r"
    "parse_int (strip_quotes m) = Some (user_version u)" "uc_display_name ch = (case d of None \<Rightarrow> display_name u | Some x \<Rightarrow> x)"
    "uc_role_name ch = (case rn of None \<Rightarrow> r | Some r \<Rightarrow> r)" "(uc_role_id ch, uc_role_name ch) \<in> set (roles s)"
    "ur_username (uc_current ch) = username u"
proof -
  from assms obtain cur rid s2 where i: "user_row_of s k = Some cur" "parse_int (strip_quotes m) = Some (ur_version cur)"
    and rid: "load_role_id (case rn of None \<Rightarrow> ur_role_name cur | Some r \<Rightarrow> r) s = (Inr rid, s2)"
    and ch: "t = s2" "ch = \<lparr>uc_current = cur, uc_display_name = (case d of None \<Rightarrow> ur_display_name cur | Some d \<Rightarrow> d),
      uc_role_name = (case rn of None \<Rightarrow> ur_role_name cur | Some r \<Rightarrow> r), uc_role_id = rid\<rparr>"
    unfolding prepare_update_def bind_Inr then_db_Inr load_user_row_Inr check_precondition_def guard_Inr Let_def ret_eq by blast
  from i(1) obtain u r where u: "map_of (users s) k = Some u" "map_of (roles s) (role_id u) = Some r"
    "cur = \<lparr>ur_id = k, ur_username = username u, ur_display_name = display_name u, ur_role_name = r,
       ur_status = user_status u, ur_version = user_version u\<rparr>"
    by (auto simp: user_row_of_def split: option.splits)
  have sel: "ur_display_name cur = display_name u" "ur_role_name cur = r" "ur_username cur = username u" "ur_version cur = user_version u"
    by (simp_all add: u(3))
  from load_role_id_Inr[OF rid] have role: "s2 = s" "(rid, case rn of None \<Rightarrow> r | Some r \<Rightarrow> r) \<in> set (roles s)"
    by (simp_all add: sel cong: option.case_cong)
  show thesis
    by (rule that[of u r]) (use u(1,2) i(2) role in \<open>simp_all add: ch sel cong: option.case_cong\<close>)
qed

text \<open>The update applies to the row as it is at that time, whatever version was checked.\<close>

lemma apply_update_eq:
  assumes "map_of (users s) k = Some u"
  shows "apply_update k i ch s = (Inr \<lparr>ur_id = k, ur_username = ur_username (uc_current ch), ur_display_name = uc_display_name ch,
       ur_role_name = uc_role_name ch, ur_status = user_status u, ur_version = user_version u + 1\<rparr>,
     snd (write_audit_log (subject i) ''user.update'' ''user'' (str_int k) (Some (user_version u + 1)) None
       (s\<lparr>users := update_row k (\<lambda>v. v\<lparr>display_name := uc_display_name ch, role_id := uc_role_id ch,
          user_version := user_version v + 1\<rparr>) (users s)\<rparr>)))"
  using assms by (simp add: apply_update_def then_db_eq bind_eq set_user_def write_audit_log_def)

section \<open>Lockout\<close>

text \<open>The user row as the login sees it, whatever its display name, role and version.\<close>

definition login_row :: "'a platform_db_scheme \<Rightarrow> int \<Rightarrow> string \<Rightarrow> string option \<Rightarrow> int \<Rightarrow> int option \<Rightarrow> bool" where
  "login_row s k n ph c l \<longleftrightarrow>
     (\<exists>u. map_of (users s) k = Some u \<and> username u = n \<and> password_hash u = ph \<and> user_status u = ''active'' \<and>
        failed_login_count u = c \<and> locked_until u = l \<and> map_of (roles s) (role_id u) \<noteq> None)"

definition locked_at :: "int \<Rightarrow> int option \<Rightarrow> bool" where
  "locked_at t l \<longleftrightarrow> (case l of None \<Rightarrow> False | Some e \<Rightarrow> t < e)"

lemma login_row_find:
  assumes "accounts_ok s" "login_row s k n ph c l"
  obtains u r where "find_user s n = Some (k, u)" "map_of (users s) k = Some u" "username u = n" "password_hash u = ph"
    "user_status u = ''active''" "failed_login_count u = c" "locked_until u = l" "map_of (roles s) (role_id u) = Some r"
proof -
  from assms(2) obtain u r where u: "map_of (users s) k = Some u" "username u = n" "password_hash u = ph"
    "user_status u = ''active''" "failed_login_count u = c" "locked_until u = l" "map_of (roles s) (role_id u) = Some r"
    unfolding login_row_def by auto
  have "find_user s n \<noteq> None"
    using map_of_SomeD[OF u(1)] u(2,7) unfolding find_user_def find_None_iff by auto
  then obtain j v where f: "find_user s n = Some (j, v)" by auto
  with find_user_unique[OF assms(1) u(1)] u(2) have "j = k" "v = u" by auto
  with f u show thesis by (intro that) auto
qed

lemma find_user_login_row:
  assumes "accounts_ok s" "find_user s n = Some (k, u)" "user_status u = ''active''"
  shows "login_row s k n (password_hash u) (failed_login_count u) (locked_until u)"
  using find_user_mem[OF assms(2)] assms(1,3) unfolding login_row_def accounts_ok_def by auto

text \<open>The steps that leave the row of user \<open>k\<close> as the login sees it.\<close>

definition same_login :: "int \<Rightarrow> 'a platform_db_scheme \<Rightarrow> 'a platform_db_scheme \<Rightarrow> bool" where
  "same_login k s t \<longleftrightarrow> (\<forall>n ph c l. login_row s k n ph c l \<longrightarrow> login_row t k n ph c l)"

interpretation same_login: preorder_rel "same_login k" for k
  by unfold_locales (auto simp: same_login_def)

lemma same_login_rows: "roles t = roles s \<Longrightarrow> map_of (users t) k = map_of (users s) k \<Longrightarrow> same_login k s t"
  by (simp add: same_login_def login_row_def)

lemma same_login_set_user: "i \<noteq> k \<Longrightarrow> does (same_login k) (set_user i f)"
  unfolding set_user_def by (rule does_modify, rule same_login_rows) simp_all

lemma same_login_tables:
  "does (same_login k) (write_audit_log a b c d e f)" "does (same_login k) (create_session tok i)"
  "does (same_login k) (revoke_session tok)" "does (same_login k) (reserve key rt p)"
  "does (same_login k) (store_response key rt st body)"
  unfolding write_audit_log_def create_session_def revoke_session_def reserve_def store_response_def
  by (intro same_login.does_rules does_control does_modify same_login_rows, simp_all)+

lemma same_login_insert_user: "does (same_login k) (insert_user n d r)"
  unfolding insert_user_def
  by (intro same_login.does_rules does_modify)
    (auto simp: same_login_def login_row_def map_add_def split: option.split)

lemmas same_login_rules = does_route_of[OF same_login.preorder_rel_axioms] same_login.does_rules does_control
  same_login_set_user same_login_tables same_login_insert_user

lemma same_login_create_user: "does (same_login k) (create_user fp c key n d r)"
  unfolding create_user_def idempotent_def load_role_id_def by (intro same_login_rules)

lemma same_login_logout: "does (same_login k) (logout c)"
  unfolding logout_def by (intro same_login_rules)

lemma same_login_disable: "i \<noteq> k \<Longrightarrow> does (same_login k) (disable_user_route c i why)"
  unfolding disable_user_route_def disable_user_def load_user_row_def Let_def by (intro same_login_rules)

lemma same_login_password: "i \<noteq> k \<Longrightarrow> does (same_login k) (set_password_route hp c i pw)"
  unfolding set_password_route_def load_user_row_def by (intro same_login_rules)

lemma same_login_update:
  assumes "accounts_ok s"
  shows "same_login k s (snd (update_user c i d rn m s))"
proof (cases "update_user c i d rn m s")
  case (Pair res t)
  show ?thesis
  proof (cases res)
    case (Inl e)
    with Pair have "t = s" unfolding update_user_def route_of_def by (auto simp: transaction_Inl)
    with Pair show ?thesis by (simp add: same_login.refl)
  next
    case (Inr resp)
    with Pair have "update_user c i d rn m s = (Inr resp, t)" by simp
    then obtain id ch s1 where p: "prepare_update i d rn m s = (Inr ch, s1)" and a: "apply_update i id ch s1 = (Inr resp, t)"
      unfolding update_user_def route_of_Inr bind_Inr by blast
    from p obtain u where u: "s1 = s" "map_of (users s) i = Some u" "(uc_role_id ch, uc_role_name ch) \<in> set (roles s)"
      by (rule prepare_update_Inr)
    have "map_of (roles s) (uc_role_id ch) \<noteq> None" using u(3) by (auto simp: map_of_eq_None_iff intro: rev_image_eqI)
    with a[unfolded u(1) apply_update_eq[OF u(2)]] show ?thesis
      by (auto simp: Pair same_login_def login_row_def write_audit_log_def)
  qed
qed

lemma snd_login [simp]: "snd (login h tok n pw s) = snd (authenticate_user h tok n pw s)"
  by (simp add: login_def bind_eq split: prod.split sum.split login_outcome.split)

lemma same_login_other:
  assumes "accounts_ok s" "login_row s k n ph c l" "m \<noteq> n"
  shows "same_login k s (snd (login h tok m pw s))"
proof (cases "find_user s m")
  case None
  then show ?thesis by (simp add: authenticate_user_def transaction_def bind_eq same_login.refl)
next
  case (Some p)
  then obtain j w where p: "find_user s m = Some (j, w)" by (cases p) auto
  have "map_of (users s) j = Some w" "username w = m"
    using find_user_mem(1,2)[OF p] assms(1) by (simp_all add: accounts_ok_def)
  with assms(2,3) have "j \<noteq> k" by (auto simp: login_row_def)
  then have "does (same_login k) (transaction (
      if user_status w \<noteq> ''active'' then ret InvalidCredentials
      else
      bind (gets clock) (\<lambda>t.
      if (case locked_until w of None \<Rightarrow> False | Some l \<Rightarrow> t < l) then ret AccountLocked
      else if \<not> verify_password h pw (password_hash w)
      then then_db (record_login_failure j) (ret InvalidCredentials)
      else
      then_db (reset_login_failures j) (
      bind (gets (\<lambda>s. case map_of (roles s) (role_id w) of None \<Rightarrow> [] | Some r \<Rightarrow> r)) (\<lambda>r.
      bind (gets (\<lambda>s. role_permission_names s r)) (\<lambda>ps.
      bind (create_session tok j) (\<lambda>tok.
      ret (Success \<lparr>subject = username w, role = r, granted = ps\<rparr> tok))))))))"
    unfolding record_login_failure_def reset_login_failures_def by (intro same_login_rules)
  from doesD[OF this, of s] show ?thesis
    by (simp add: authenticate_user_def transaction_def bind_eq p split: prod.splits sum.splits)
qed

text \<open>
  The requests that set the login of user \<open>k\<close> anew (\<open>set_password\<close> resets the count and the lock,
  \<open>disable\<close> ends every login), and the login attempts for a name.
\<close>

fun resets_login :: "int \<Rightarrow> account_event \<Rightarrow> bool" where
  "resets_login k (DisableUser _ i _) = (i = k)"
| "resets_login k (SetPassword _ i _) = (i = k)"
| "resets_login _ _ = False"

fun login_password :: "string \<Rightarrow> account_event \<Rightarrow> string option" where
  "login_password n (Login _ m pw) = (if m = n then Some pw else None)"
| "login_password _ _ = None"

lemma other_events_keep_login:
  assumes "accounts_ok s" "login_row s k n ph c l" "\<not> resets_login k e" "login_password n e = None"
  shows "login_row (account_event_step h hp fp e s) k n ph c l"
proof -
  have "same_login k s (account_event_step h hp fp e s)"
    using assms(3,4) same_login_other[OF assms(1,2)] same_login_update[OF assms(1)]
    by (cases e) (auto simp del: snd_login simp: same_login_create_user[THEN doesD] same_login_logout[THEN doesD]
        same_login_disable[THEN doesD] same_login_password[THEN doesD] same_login_rows split: if_splits)
  with assms(2) show ?thesis by (simp add: same_login_def)
qed

lemma authenticate_wrong:
  assumes "accounts_ok s" "login_row s k n ph c l" "\<not> locked_at (clock s) l" "\<not> verify_password h pw ph"
  shows "fst (authenticate_user h tok n pw s) = Inr InvalidCredentials"
    "login_row (snd (authenticate_user h tok n pw s)) k n ph (c + 1)
       (if c + 1 < FAILED_LOGIN_LOCKOUT_THRESHOLD then l else Some (clock s + LOCKOUT_DURATION))"
    "clock (snd (authenticate_user h tok n pw s)) = clock s"
proof -
  from assms(1,2) obtain u r where u: "find_user s n = Some (k, u)" "map_of (users s) k = Some u" "username u = n"
    "password_hash u = ph" "user_status u = ''active''" "failed_login_count u = c" "locked_until u = l"
    "map_of (roles s) (role_id u) = Some r"
    by (rule login_row_find)
  note def = authenticate_user_def transaction_def bind_eq then_db_eq record_login_failure_def set_user_def
  have l: "\<not> (case l of None \<Rightarrow> False | Some e \<Rightarrow> clock s < e)" using assms(3) by (simp add: locked_at_def)
  show "fst (authenticate_user h tok n pw s) = Inr InvalidCredentials"
    using u(1-2,4-7) l assms(4) by (simp add: def)
  show "login_row (snd (authenticate_user h tok n pw s)) k n ph (c + 1)
       (if c + 1 < FAILED_LOGIN_LOCKOUT_THRESHOLD then l else Some (clock s + LOCKOUT_DURATION))"
    using u l assms(4) by (simp add: def login_row_def)
  show "clock (snd (authenticate_user h tok n pw s)) = clock s"
    using u(1-2,4-7) l assms(4) by (simp add: def)
qed

lemma authenticate_locked:
  assumes "accounts_ok s" "login_row s k n ph c l" "locked_at (clock s) l"
  shows "authenticate_user h tok n pw s = (Inr AccountLocked, s)"
proof -
  from assms(1,2) obtain u where "find_user s n = Some (k, u)" "user_status u = ''active''" "locked_until u = l"
    by (rule login_row_find)
  with assms(3) show ?thesis by (simp add: authenticate_user_def transaction_def bind_eq locked_at_def)
qed

definition account_run :: "(string \<Rightarrow> string \<Rightarrow> bool) \<Rightarrow> (string \<Rightarrow> string) \<Rightarrow> (jobject \<Rightarrow> string) \<Rightarrow>
    account_event list \<Rightarrow> platform_db \<Rightarrow> platform_db" where
  "account_run h hp fp es s = fold (account_event_step h hp fp) es s"

lemma account_run_simps [simp]:
  "account_run h hp fp [] s = s"
  "account_run h hp fp (e # es) s = account_run h hp fp es (account_event_step h hp fp e s)"
  by (simp_all add: account_run_def)

lemma account_run_ok: "accounts_ok s \<Longrightarrow> accounts_ok (account_run h hp fp es s)"
  by (induction es arbitrary: s) (simp_all add: account_event_ok)

lemma account_event_clock: "clock s \<le> clock (account_event_step h hp fp e s)"
  using account_step_kept[of h hp fp s "account_event_step h hp fp e s"] by (auto simp: account_step_def kept_def later_def)

lemma account_run_clock: "clock s \<le> clock (account_run h hp fp es s)"
  by (induction es arbitrary: s) (auto intro: order_trans account_event_clock)

abbreviation attempts_for :: "string \<Rightarrow> account_event list \<Rightarrow> nat" where
  "attempts_for n es \<equiv> length (filter (\<lambda>e. login_password n e \<noteq> None) es)"

text \<open>Below the limit wrong passwords are only counted, however far apart they come.\<close>

lemma failures_counted:
  assumes "accounts_ok s" "login_row s k n ph c l" "\<not> locked_at (clock s) l"
    and "\<forall>e \<in> set es. \<not> resets_login k e \<and> (\<forall>pw. login_password n e = Some pw \<longrightarrow> \<not> verify_password h pw ph)"
    and "attempts_for n es \<le> nat (FAILED_LOGIN_LOCKOUT_THRESHOLD - 1 - c)"
  shows "login_row (account_run h hp fp es s) k n ph (c + int (attempts_for n es)) l"
  using assms
proof (induction es arbitrary: s c)
  case (Cons e es)
  let ?t = "account_event_step h hp fp e s"
  have ok: "accounts_ok ?t" using Cons.prems(1) by (rule account_event_ok)
  have unlocked: "\<not> locked_at (clock ?t) l"
    using Cons.prems(3) account_event_clock[of s h hp fp e] by (auto simp: locked_at_def split: option.splits)
  show ?case
  proof (cases "login_password n e")
    case None
    have row: "login_row ?t k n ph c l"
      using Cons.prems(4) by (intro other_events_keep_login[OF Cons.prems(1,2) _ None]) simp
    show ?thesis using Cons.IH[OF ok row unlocked] Cons.prems(4,5) None by simp
  next
    case (Some pw)
    then obtain tok where e: "e = Login tok n pw" by (cases e) (auto split: if_splits)
    have "c + 1 < FAILED_LOGIN_LOCKOUT_THRESHOLD" using Cons.prems(5) Some by simp
    moreover have "\<not> verify_password h pw ph" using Cons.prems(4) Some by simp
    ultimately have row: "login_row ?t k n ph (c + 1) l"
      using authenticate_wrong(2)[OF Cons.prems(1-3), of h pw tok] by (simp add: e)
    show ?thesis using Cons.IH[OF ok row unlocked] Cons.prems(4,5) Some by (simp add: algebra_simps)
  qed
qed simp

text \<open>While the lock holds no attempt, with the right password neither, changes it.\<close>

lemma lock_kept:
  assumes "accounts_ok s" "login_row s k n ph c (Some e)" "\<forall>x \<in> set fs. \<not> resets_login k x"
    and "clock (account_run h hp fp fs s) < e"
  shows "login_row (account_run h hp fp fs s) k n ph c (Some e)"
  using assms
proof (induction fs arbitrary: s)
  case (Cons x fs)
  let ?t = "account_event_step h hp fp x s"
  have "clock ?t < e" using Cons.prems(4) account_run_clock[of ?t h hp fp fs] by simp
  then have now: "locked_at (clock s) (Some e)" using account_event_clock[of s h hp fp x] by (simp add: locked_at_def)
  have "login_row ?t k n ph c (Some e)"
  proof (cases "login_password n x")
    case None
    then show ?thesis using Cons.prems(3) by (intro other_events_keep_login[OF Cons.prems(1,2)]) simp_all
  next
    case (Some pw)
    then obtain tok where "x = Login tok n pw" by (cases x) (auto split: if_splits)
    then show ?thesis using authenticate_locked[OF Cons.prems(1,2) now] Cons.prems(2) by simp
  qed
  from Cons.IH[OF account_event_ok[OF Cons.prems(1)] this] Cons.prems(3,4) show ?case by simp
qed simp

lemma lock_ends:
  assumes "accounts_ok s" "login_row s k n ph c (Some e)" "e \<le> T" "verify_password h pw ph" "tok \<notin> fst ` set (sessions s)"
  shows "\<exists>i. fst (authenticate_user h tok n pw (s\<lparr>clock := T\<rparr>)) = Inr (Success i tok)"
proof -
  let ?s = "s\<lparr>clock := T\<rparr>"
  have "accounts_ok ?s" "login_row ?s k n ph c (Some e)" using assms(1,2) by (simp_all add: accounts_ok_def login_row_def)
  then obtain u r where u: "find_user ?s n = Some (k, u)" "map_of (users ?s) k = Some u" "password_hash u = ph"
    "user_status u = ''active''" "locked_until u = Some e" "map_of (roles ?s) (role_id u) = Some r"
    by (rule login_row_find)
  show ?thesis
    by (subst authenticate_good[OF u(1,4) _ _ u(2,6)]) (use assms(3-5) u(3,5) in simp_all)
qed

text \<open>
  C15. The wrong password that brings the count of failures of an active user who is not locked to
  five is the one that locks the account. Between the failures any time may pass and any other request
  may be served, except a right login, a new password or a disabling of this very user; the attempt is
  still answered as invalid credentials. From then on, for the fifteen minutes counted from this
  attempt, every attempt for this user ends as locked and changes nothing, with the right password
  too, whatever other requests are served, until the password is set anew or the user is disabled.
  Fifteen minutes after it the right password logs in again. An account that already has four or more
  failures, as after an expired lock, is locked again by a single wrong password.
\<close>

theorem lockout:
  assumes "reachable account_start (account_step h hp fp) s" "find_user s n = Some (k, u)"
    and "user_status u = ''active''" "\<not> locked_at (clock s) (locked_until u)"
    and "\<forall>e \<in> set es. \<not> resets_login k e \<and>
           (\<forall>pw. login_password n e = Some pw \<longrightarrow> \<not> verify_password h pw (password_hash u))"
    and "attempts_for n es = nat (4 - failed_login_count u)" "\<not> verify_password h wrong (password_hash u)"
  shows "let t = account_run h hp fp es s in
    fst (authenticate_user h tok n wrong t) = Inr InvalidCredentials \<and>
    (\<forall>fs tok' pw.
       (\<forall>e \<in> set fs. \<not> resets_login k e) \<and>
       clock (account_run h hp fp (Login tok n wrong # fs) t) < clock t + 15 * 60 \<longrightarrow>
       (let v = account_run h hp fp (Login tok n wrong # fs) t in
          authenticate_user h tok' n pw v = (Inr AccountLocked, v) \<and>
          (\<forall>T. clock t + 15 * 60 \<le> T \<and> verify_password h pw (password_hash u) \<and> tok' \<notin> fst ` set (sessions v) \<longrightarrow>
             (\<exists>i. fst (authenticate_user h tok' n pw (v\<lparr>clock := T\<rparr>)) = Inr (Success i tok')))))"
proof -
  define t where "t = account_run h hp fp es s"
  let ?c = "failed_login_count u + int (attempts_for n es)"
  note const = FAILED_LOGIN_LOCKOUT_THRESHOLD_def LOCKOUT_DURATION_def
  have ok: "accounts_ok s" using assms(1) by (rule accounts.reachable_inv)
  then have okt: "accounts_ok t" by (simp add: t_def account_run_ok)
  have row: "login_row t k n (password_hash u) ?c (locked_until u)"
    unfolding t_def using assms(4-6)
    by (intro failures_counted ok find_user_login_row[OF ok assms(2,3)]) (simp_all add: const)
  have open_t: "\<not> locked_at (clock t) (locked_until u)"
    using assms(4) account_run_clock[of s h hp fp es] by (auto simp: t_def locked_at_def split: option.splits)
  note fifth = authenticate_wrong[OF okt row open_t assms(7), of tok]
  have lock: "login_row (snd (authenticate_user h tok n wrong t)) k n (password_hash u) (?c + 1) (Some (clock t + 15 * 60))"
  proof -
    have "\<not> ?c + 1 < FAILED_LOGIN_LOCKOUT_THRESHOLD" using assms(6) by (simp add: const)
    from fifth(2)[unfolded if_not_P[OF this]] show ?thesis by (simp only: const)
  qed
  have okl: "accounts_ok (snd (authenticate_user h tok n wrong t))" by (rule keepsD[OF ok_authenticate okt])
  have after: "authenticate_user h tok' n pw v = (Inr AccountLocked, v)"
    "clock t + 15 * 60 \<le> T \<Longrightarrow> verify_password h pw (password_hash u) \<Longrightarrow> tok' \<notin> fst ` set (sessions v) \<Longrightarrow>
       \<exists>i. fst (authenticate_user h tok' n pw (v\<lparr>clock := T\<rparr>)) = Inr (Success i tok')"
    if run: "v = account_run h hp fp (Login tok n wrong # fs) t" and "\<forall>e \<in> set fs. \<not> resets_login k e"
      "clock v < clock t + 15 * 60" for fs tok' pw v T
  proof -
    have v: "accounts_ok v" "login_row v k n (password_hash u) (?c + 1) (Some (clock t + 15 * 60))"
      using account_run_ok[OF okl] lock_kept[OF okl lock that(2)] that(3) by (simp_all add: run)
    show "authenticate_user h tok' n pw v = (Inr AccountLocked, v)"
      using that(3) by (intro authenticate_locked[OF v]) (simp add: locked_at_def)
    show "\<exists>i. fst (authenticate_user h tok' n pw (v\<lparr>clock := T\<rparr>)) = Inr (Success i tok')"
      if "clock t + 15 * 60 \<le> T" "verify_password h pw (password_hash u)" "tok' \<notin> fst ` set (sessions v)"
      using lock_ends[OF v that(1-3)] .
  qed
  show ?thesis
    unfolding t_def[symmetric] Let_def
    by (intro conjI allI impI fifth(1) after(1)[OF refl] after(2)[OF refl]) (elim conjE, assumption)+
qed

text \<open>Four failures a minute apart, another user created between them, and the fifth at second 240.\<close>

definition demo_failures :: "account_event list" where
  "demo_failures = [Login ''x'' ''ann'' ''guess'', Advance 60, Login ''x'' ''ann'' ''guess'', Advance 60,
     demo_create ''k'' ''bob'', Login ''x'' ''ann'' ''guess'', Advance 60, Login ''x'' ''ann'' ''guess'', Advance 60]"

theorem lockout_witness:
  "let v = account_run demo_hasher id demo_fp (demo_failures @ [Login ''x'' ''ann'' ''guess'', Advance 899]) (demo_after [demo_login]) in
   clock v = 1139 \<and> authenticate_user demo_hasher ''t2'' ''ann'' ''secret'' v = (Inr AccountLocked, v) \<and>
   (\<exists>i. fst (authenticate_user demo_hasher ''t2'' ''ann'' ''secret'' (v\<lparr>clock := 1140\<rparr>)) = Inr (Success i ''t2''))"
proof -
  have "case find_user (demo_after [demo_login]) ''ann'' of None \<Rightarrow> False
    | Some (k, u) \<Rightarrow> k = 1 \<and> user_status u = ''active'' \<and> locked_until u = None \<and> failed_login_count u = 0 \<and>
        password_hash u = Some ''secret''" by code_simp
  then obtain u where u: "find_user (demo_after [demo_login]) ''ann'' = Some (1, u)" "user_status u = ''active''"
    "locked_until u = None" "failed_login_count u = 0" "password_hash u = Some ''secret''"
    by (auto split: option.splits)
  let ?t = "account_run demo_hasher id demo_fp demo_failures (demo_after [demo_login])"
  let ?v = "account_run demo_hasher id demo_fp [Login ''x'' ''ann'' ''guess'', Advance 899] ?t"
  have c: "clock ?t = 240" "clock ?v = 1139" "''t2'' \<notin> fst ` set (sessions ?v)" by code_simp+
  have p: "attempts_for ''ann'' demo_failures = 4" "\<forall>e \<in> set demo_failures. \<not> resets_login 1 e"
    "\<forall>e \<in> set demo_failures. login_password ''ann'' e = None \<or> login_password ''ann'' e = Some ''guess''" by code_simp+
  have w: "\<not> verify_password demo_hasher ''guess'' (password_hash u)" "verify_password demo_hasher ''secret'' (password_hash u)"
    using u(5) by (simp_all add: verify_password_def demo_hasher_def)
  have es: "\<forall>e \<in> set demo_failures. \<not> resets_login 1 e \<and>
      (\<forall>pw. login_password ''ann'' e = Some pw \<longrightarrow> \<not> verify_password demo_hasher pw (password_hash u))"
    using p(2,3) w(1) by fastforce
  have "\<not> locked_at (clock (demo_after [demo_login])) (locked_until u)" using u(3) by (simp add: locked_at_def)
  note * = lockout[OF demo_after_reachable u(1,2) this es _ w(1), of "''x''", unfolded Let_def]
  have "attempts_for ''ann'' demo_failures = nat (4 - failed_login_count u)" using p(1) u(4) by simp
  from *[OF this, THEN conjunct2, rule_format, of "[Advance 899]" "''t2''" "''secret''"] c w(2)
  have "authenticate_user demo_hasher ''t2'' ''ann'' ''secret'' ?v = (Inr AccountLocked, ?v)"
    "\<exists>i. fst (authenticate_user demo_hasher ''t2'' ''ann'' ''secret'' (?v\<lparr>clock := 1140\<rparr>)) = Inr (Success i ''t2'')" by simp_all
  then show ?thesis using c(2) by (simp add: account_run_def Let_def)
qed

section \<open>Idempotent requests\<close>

lemma create_user_idem:
  "create_user fp c key n d rn s = (Inr b, t) \<Longrightarrow>
   \<exists>x st. map_of (idempotency_keys t) (key, ''POST /admin/users'') = Some x \<and>
     request_fingerprint x = fp (create_user_dump n d rn) \<and> response_status x = Some st \<and>
     (case response_body x of None \<Rightarrow> [] | Some b \<Rightarrow> b) = b"
proof -
  assume a: "create_user fp c key n d rn s = (Inr b, t)"
  have k: "does same_keys (bind (load_role_id rn) (\<lambda>rid. bind (insert_user n d rid) (\<lambda>i.
     then_db (write_audit_log who ''user.create'' ''user'' (str_int i) (Some 1) None) (ret (f i)))))" for who f
    unfolding load_role_id_def by (intro same_keys.does_rules does_control keys_insert_user keys_audit)
  from a obtain i :: identity where i: "idempotent key ''POST /admin/users'' (fp (create_user_dump n d rn))
     (bind (load_role_id rn) (\<lambda>rid. bind (insert_user n d rid) (\<lambda>k.
     then_db (write_audit_log (subject i) ''user.create'' ''user'' (str_int k) (Some 1) None)
     (ret (user_response_dump \<lparr>ur_id = k, ur_username = n, ur_display_name = d, ur_role_name = rn,
        ur_status = ''active'', ur_version = 1\<rparr>))))) s = (Inr b, t)"
    unfolding create_user_def route_of_Inr by blast
  show ?thesis by (rule idempotent_stored[OF i k])
qed

text \<open>
  C16. Creating a user happens once per key: when a request has been answered, the same request
  with the same key gets the same answer at any later time and changes nothing, and a request
  with another fingerprint under that key is refused with 409.
\<close>

theorem create_user_once:
  assumes "create_user fp c key n d rn s = (Inr b, t)" "(account_step h hp fp)\<^sup>*\<^sup>* t u"
    and "authorized u c' ''admin.users.create'' i"
  shows "create_user fp c' key n d rn u = (Inr b, u) \<and>
    (fp (create_user_dump n' d' rn') \<noteq> fp (create_user_dump n d rn) \<longrightarrow>
     create_user fp c' key n' d' rn' u = (Inl (ApiError 409 ''idempotency_key_reused'' [key, ''POST /admin/users'']), u))"
proof -
  obtain x st where x: "map_of (idempotency_keys t) (key, ''POST /admin/users'') = Some x"
    "request_fingerprint x = fp (create_user_dump n d rn)" "response_status x = Some st"
    "(case response_body x of None \<Rightarrow> [] | Some b \<Rightarrow> b) = b"
    using create_user_idem[OF assms(1)] by blast
  have "rows_kept key_kept (idempotency_keys t) (idempotency_keys u)"
    using account_steps_kept[OF assms(2)] by (simp add: kept_def keys_kept_def)
  from rows_keptD[OF this x(1)] x(3) have "map_of (idempotency_keys u) (key, ''POST /admin/users'') = Some x"
    by (auto simp: key_kept_def)
  note r = idempotent_replay[OF this x(3)]
  show ?thesis using x(2,4) by (simp add: create_user_def route_of_authorized[OF assms(3)] transaction_def r)
qed

theorem create_user_once_witness:
  "\<exists>b t. create_user demo_fp (Some ''t1'') ''k'' ''bob'' ''Bob'' ''viewer'' (demo_after [demo_login]) = (Inr b, t) \<and>
     create_user demo_fp (Some ''t1'') ''k'' ''bob'' ''Bob'' ''viewer'' t = (Inr b, t) \<and>
     create_user demo_fp (Some ''t1'') ''k'' ''eve'' ''Eve'' ''viewer'' t =
       (Inl (ApiError 409 ''idempotency_key_reused'' [''k'', ''POST /admin/users'']), t)"
proof -
  let ?c = "create_user demo_fp (Some ''t1'') ''k'' ''bob'' ''Bob'' ''viewer'' (demo_after [demo_login])"
  have 1: "(case fst ?c of Inr b \<Rightarrow> True | Inl e \<Rightarrow> False)" by code_simp
  have 2: "(case resolve_session (snd ?c) ''t1'' of None \<Rightarrow> False | Some i \<Rightarrow> has_permission i ''admin.users.create'')"
    by code_simp
  obtain b t where c: "?c = (Inr b, t)" using 1 by (cases ?c) (auto split: sum.splits)
  with 2 obtain i where i: "authorized t (Some ''t1'') ''admin.users.create'' i"
    by (auto simp: authorized_def split: option.splits)
  have "demo_fp (create_user_dump ''eve'' ''Eve'' ''viewer'') \<noteq> demo_fp (create_user_dump ''bob'' ''Bob'' ''viewer'')"
    by code_simp
  with create_user_once[where h = demo_hasher and hp = id, OF c rtranclp.rtrancl_refl i] c show ?thesis by blast
qed

section \<open>Optimistic concurrency\<close>

lemma prepare_update_stale:
  assumes "user_row_of t k = Some r" "parse_int (strip_quotes m) \<noteq> Some (ur_version r)"
  shows "prepare_update k d rn m t = (Inl (ApiError 409 ''precondition_failed'' [str_int (ur_version r)]), t)"
  using assms by (simp add: prepare_update_def bind_eq then_db_eq load_user_row_def check_precondition_def)

text \<open>
  C17. A change of a user is checked against the version its If-Match header names. On success that is
  the version the row had, the stored row is the answer, its version is one higher, and one audit
  row is added, with the caller as its actor. A second change that names the same version and is
  read after the first is stored gets 409 with the current version and leaves no trace. A second
  change that was read and checked before the first was stored is applied on top of it, without
  an error and overwriting it: the read takes no lock and the update does not test the version.
\<close>

theorem conditional_update:
  assumes "reachable account_start (account_step h hp fp) s" "update_user c k d rn m s = (Inr resp, t)"
  shows "\<exists>u a i. map_of (users s) k = Some u \<and> parse_int (strip_quotes m) = Some (user_version u) \<and>
    ur_version resp = user_version u + 1 \<and> user_row_of t k = Some resp \<and>
    authorized s c ''admin.users.update'' i \<and> audit_log t = audit_log s @ [a] \<and> actor a = subject i \<and>
    action a = ''user.update'' \<and> object_id a = str_int k \<and> object_version a = Some (ur_version resp) \<and>
    (\<forall>c' i d' rn'. authorized t c' ''admin.users.update'' i \<longrightarrow>
       update_user c' k d' rn' m t = (Inl (ApiError 409 ''precondition_failed'' [str_int (ur_version resp)]), t)) \<and>
    (\<forall>i' d' rn' ch. prepare_update k d' rn' m s = (Inr ch, s) \<longrightarrow>
       (\<exists>resp' t'. apply_update k i' ch t = (Inr resp', t') \<and> user_row_of t' k = Some resp' \<and>
          ur_version resp' = ur_version resp + 1 \<and> ur_display_name resp' = uc_display_name ch \<and> ur_role_name resp' = uc_role_name ch))"
proof -
  have ok: "accounts_ok s" by (rule accounts.reachable_inv[OF assms(1)])
  from assms(2) obtain i ch s1 where i: "authorized s c ''admin.users.update'' i" and p: "prepare_update k d rn m s = (Inr ch, s1)"
    and a: "apply_update k i ch s1 = (Inr resp, t)"
    unfolding update_user_def route_of_Inr bind_Inr by blast
  from p obtain u r where u: "s1 = s" "map_of (users s) k = Some u" "map_of (roles s) (role_id u) = Some r"
    "parse_int (strip_quotes m) = Some (user_version u)" "(uc_role_id ch, uc_role_name ch) \<in> set (roles s)"
    "ur_username (uc_current ch) = username u"
    by (rule prepare_update_Inr)
  note e = a[unfolded u(1) apply_update_eq[OF u(2)] prod.inject sum.inject]
  have role: "map_of (roles s) rid = Some n" if "(rid, n) \<in> set (roles s)" for rid n
    using ok that by (simp add: accounts_ok_def)
  have v: "ur_version resp = user_version u + 1" using e by auto
  have row: "user_row_of t k = Some resp"
    using u(2,6) role[OF u(5)] e by (auto simp: user_row_of_def write_audit_log_def)
  have "update_user c' k d' rn' m t = (Inl (ApiError 409 ''precondition_failed'' [str_int (ur_version resp)]), t)"
    if "authorized t c' ''admin.users.update'' j" for c' d' rn' j
    unfolding update_user_def route_of_authorized[OF that]
    using prepare_update_stale[OF row, of m] u(4) v by (simp add: transaction_def bind_eq)
  moreover have "\<exists>resp' t'. apply_update k i' ch' t = (Inr resp', t') \<and> user_row_of t' k = Some resp' \<and>
      ur_version resp' = ur_version resp + 1 \<and> ur_display_name resp' = uc_display_name ch' \<and> ur_role_name resp' = uc_role_name ch'"
    if c: "prepare_update k d' rn' m s = (Inr ch', s)" for i' d' rn' ch'
  proof -
    obtain w where w: "map_of (users t) k = Some w" "username w = username u" "user_version w = user_version u + 1"
      using e u(2) by (auto simp: write_audit_log_def)
    have rt: "roles t = roles s" using e by (auto simp: write_audit_log_def)
    from c obtain u' where c': "map_of (users s) k = Some u'" "(uc_role_id ch', uc_role_name ch') \<in> set (roles s)"
      "ur_username (uc_current ch') = username u'" by (rule prepare_update_Inr)
    with u(2) w(2) have "ur_username (uc_current ch') = username w" by simp
    then show ?thesis
      unfolding apply_update_eq[OF w(1)] using w role[OF c'(2)] rt v by (simp add: user_row_of_def write_audit_log_def)
  qed
  moreover obtain b where "audit_log t = audit_log s @ [b]" "actor b = subject i" "action b = ''user.update''" "object_id b = str_int k"
    "object_version b = Some (ur_version resp)" using e v by (auto simp: write_audit_log_def)
  ultimately show ?thesis using u(2,4) row i v by (intro exI[of _ u] exI[of _ b] exI[of _ i] conjI) simp_all
qed

lemma demo_update: "case fst (update_user (Some ''t1'') 1 (Some ''Ann B'') None ''1'' (demo_after [demo_login])) of
    Inr r \<Rightarrow> ur_version r = 2 | Inl e \<Rightarrow> False"
  by code_simp

theorem conditional_update_witness:
  "\<exists>r t a. update_user (Some ''t1'') 1 (Some ''Ann B'') None ''1'' (demo_after [demo_login]) = (Inr r, t) \<and>
     user_row_of t 1 = Some r \<and> audit_log t = audit_log (demo_after [demo_login]) @ [a] \<and> object_id a = ''1'' \<and>
     (\<exists>ch r' t'. prepare_update 1 (Some ''Ann C'') None ''1'' (demo_after [demo_login]) = (Inr ch, demo_after [demo_login]) \<and>
        apply_update 1 \<lparr>subject = ''eve'', role = ''admin'', granted = {}\<rparr> ch t = (Inr r', t') \<and> ur_display_name r' = ''Ann C'')"
proof -
  obtain r t where u: "update_user (Some ''t1'') 1 (Some ''Ann B'') None ''1'' (demo_after [demo_login]) = (Inr r, t)"
    using demo_update by (cases "update_user (Some ''t1'') 1 (Some ''Ann B'') None ''1'' (demo_after [demo_login])")
      (auto split: sum.splits)
  let ?p = "prepare_update 1 (Some ''Ann C'') None ''1'' (demo_after [demo_login])"
  have "case fst ?p of Inr ch \<Rightarrow> uc_display_name ch = ''Ann C'' | Inl e \<Rightarrow> False" by code_simp
  then obtain ch s' where p: "?p = (Inr ch, s')" "uc_display_name ch = ''Ann C''" by (cases ?p) (auto split: sum.splits)
  moreover from p(1) have "s' = demo_after [demo_login]" by (rule prepare_update_Inr)
  moreover have "str_int 1 = ''1''" by code_simp
  ultimately show ?thesis using conditional_update[OF demo_after_reachable u] u by metis
qed

section \<open>Pagination\<close>

text \<open>
  C18. A cursor survives the round trip through JSON and URL-safe base64, whatever the integers of
  the sort key.
\<close>

theorem cursor_decodes: "decode_cursor (encode_cursor ks) = Some ks"
  by (rule cursor_round_trip)

text \<open>A client that follows the cursors, with a bound on the number of requests.\<close>

definition walk_users :: "nat \<Rightarrow> string option \<Rightarrow> string option \<Rightarrow> int \<Rightarrow> 'a platform_db_scheme \<Rightarrow> user_response list option" where
  "walk_users n c cur limit s = follow_cursors (\<lambda>cur. fst (list_users c cur limit s)) n cur"

lemma user_row_of_id: "user_row_of s i = Some r \<Longrightarrow> ur_id r = i"
  by (auto simp: user_row_of_def split: option.splits)

lemma map_filter_ids:
  "set (map ur_id (List.map_filter (\<lambda>(i, u). user_row_of s i) xs)) \<subseteq> fst ` set xs"
  "sorted_wrt (<) (map fst xs) \<Longrightarrow> sorted_wrt (<) (map ur_id (List.map_filter (\<lambda>(i, u). user_row_of s i) xs))"
  "length (List.map_filter (\<lambda>(i, u). user_row_of s i) xs) \<le> length xs"
proof -
  show sub: "set (map ur_id (List.map_filter (\<lambda>(i, u). user_row_of s i) xs)) \<subseteq> fst ` set xs" for xs
    by (induction xs) (auto simp: List.map_filter_simps dest: user_row_of_id split: option.splits)
  show "length (List.map_filter (\<lambda>(i, u). user_row_of s i) xs) \<le> length xs"
    by (induction xs) (auto simp: List.map_filter_simps split: option.splits)
  show "sorted_wrt (<) (map fst xs) \<Longrightarrow> sorted_wrt (<) (map ur_id (List.map_filter (\<lambda>(i, u). user_row_of s i) xs))"
  proof (induction xs)
    case (Cons x xs)
    have "ur_id r = fst x \<and> (\<forall>k \<in> set (map ur_id (List.map_filter (\<lambda>(i, u). user_row_of s i) xs)). fst x < k)"
      if "user_row_of s (fst x) = Some r" for r
    proof
      show "ur_id r = fst x" using that by (rule user_row_of_id)
      show "\<forall>k \<in> set (map ur_id (List.map_filter (\<lambda>(i, u). user_row_of s i) xs)). fst x < k"
        using Cons.prems sub[of xs] by fastforce
    qed
    with Cons show ?case by (cases x) (auto simp: List.map_filter_simps split: option.split)
  qed (simp add: List.map_filter_simps)
qed

lemma user_rows_sorted:
  assumes "accounts_ok s"
  shows "sorted_wrt (<) (map ur_id (user_rows s))" "\<forall>r \<in> set (user_rows s). 0 < ur_id r"
    "length (user_rows s) \<le> length (users s)"
proof -
  have d: "distinct (map fst (users s))" "fst ` set (users s) \<subseteq> {1..<user_seq s}"
    using assms by (simp_all add: accounts_ok_def)
  show "sorted_wrt (<) (map ur_id (user_rows s))"
    unfolding user_rows_def by (intro map_filter_ids(2) sorted_ids d(1))
  have "set (map ur_id (user_rows s)) \<subseteq> fst ` set (users s)"
    using map_filter_ids(1)[of s "sort_key fst (users s)"] by (simp add: user_rows_def)
  with d(2) show "\<forall>r \<in> set (user_rows s). 0 < ur_id r" by fastforce
  show "length (user_rows s) \<le> length (users s)"
    using map_filter_ids(3)[of s "sort_key fst (users s)"] by (simp add: user_rows_def)
qed

lemma list_users_page:
  assumes "authorized s c ''admin.users.read'' i" "1 \<le> limit" "points_at cur a"
  shows "fst (list_users c cur limit s) = Inr (cursor_page ur_id (nat limit) (users_after s a))"
proof -
  obtain rows where "limit_rows (limit + 1) (users_after s a) = Inr rows"
    "page_of ur_id limit rows = Inr (cursor_page ur_id (nat limit) (users_after s a))"
    using limited_page[OF assms(2), of "users_after s a" ur_id] by (auto simp: sum_bind_Inr)
  then show ?thesis
    by (simp add: list_users_def route_of_authorized[OF assms(1)] transaction_def bind_eq of_sum_def
        after_cursor_points[OF assms(3)])
qed

interpretation user_listing: cursor_listing
  "\<lambda>(s, c, limit). accounts_ok s \<and> (\<exists>i. authorized s c ''admin.users.read'' i) \<and> 1 \<le> limit"
  "\<lambda>(s, c, limit). user_rows s" ur_id "\<lambda>(s, c, limit). nat limit" "\<lambda>(s, c, limit) cur. fst (list_users c cur limit s)"
  by unfold_locales (auto simp: user_rows_sorted list_users_page users_after_def)

text \<open>
  Following the cursors from the first page returns every user exactly once, in the order of
  the ids, with any page size of at least one; one request more than there are users is always
  enough.
\<close>

theorem pages_cover_all_users:
  assumes "reachable account_start (account_step h hp fp) s" "authorized s c ''admin.users.read'' i" "1 \<le> limit"
  shows "walk_users (Suc (length (users s))) c None limit s = Some (user_rows s) \<and>
    sorted_wrt (<) (map ur_id (user_rows s))"
proof -
  have ok: "accounts_ok s" by (rule accounts.reachable_inv[OF assms(1)])
  note u = user_rows_sorted[OF ok]
  show ?thesis
    using user_listing.follow_all[of "(s, c, limit)" "Suc (length (users s))"] ok assms(2,3) u(1,3)
    by (auto simp: walk_users_def)
qed

definition demo_three :: "account_event list" where
  "demo_three = [demo_login, demo_create ''k1'' ''bob'', demo_create ''k2'' ''cat'']"

theorem pages_cover_all_users_witness:
  "walk_users 4 (Some ''t1'') None 2 (demo_after demo_three) = Some (user_rows (demo_after demo_three)) \<and>
   map ur_username (user_rows (demo_after demo_three)) = [''ann'', ''bob'', ''cat'']"
proof -
  have "(case resolve_session (demo_after demo_three) ''t1'' of None \<Rightarrow> False | Some i \<Rightarrow> has_permission i ''admin.users.read'')"
    by code_simp
  then obtain i where "authorized (demo_after demo_three) (Some ''t1'') ''admin.users.read'' i"
    by (auto simp: authorized_def split: option.splits)
  moreover have "length (users (demo_after demo_three)) = 3" by code_simp
  moreover have "map ur_username (user_rows (demo_after demo_three)) = [''ann'', ''bob'', ''cat'']" by code_simp
  ultimately show ?thesis using pages_cover_all_users[OF demo_after_reachable, of demo_three "Some ''t1''" i 2]
    by (simp add: numeral_eq_Suc)
qed

end
