(* ===== verification/Matching.thy ===== *)
theory Matching
  imports Decimals Systems
begin

text \<open>
  BOQ lines against vendor offers: the unit table of \<open>packages/tender/boq_line_model.py\<close>,
  \<open>packages/decision/matching.py\<close>, \<open>boq_summary.py\<close>, \<open>bid_readiness.py\<close> and
  \<open>calibration_summary.py\<close>. All of it is pure.

  A float field of an offer holds the decimal that \<open>Decimal(str(x))\<close> reads from it. Percentages
  are Python floats: \<open>float64\<close> rounds a rational to 53 bits, half to even (the values lie far
  from the limits of the exponent). \<open>lower\<close> is \<open>str.lower\<close>; times are seconds.
\<close>

section \<open>Text and floats\<close>

fun starts_with :: "string \<Rightarrow> string \<Rightarrow> bool" where
  "starts_with [] t = True"
| "starts_with (c # s) [] = False"
| "starts_with (c # s) (d # t) = (c = d \<and> starts_with s t)"

fun contains :: "string \<Rightarrow> string \<Rightarrow> bool" where
  "contains s [] = (s = [])"
| "contains s (c # t) = (starts_with s (c # t) \<or> contains s t)"

fun bit_length :: "nat \<Rightarrow> nat" where
  "bit_length n = (if n = 0 then 0 else Suc (bit_length (n div 2)))"

declare bit_length.simps [simp del]

definition ilog2 :: "rat \<Rightarrow> int" where
  "ilog2 r =
     (let (n, d) = quotient_of r; e = int (bit_length (nat n)) - int (bit_length (nat d))
      in if 2 powi e \<le> r then e else e - 1)"

definition float64 :: "rat \<Rightarrow> rat" where
  "float64 r =
     (if r = 0 then 0
      else let e = ilog2 \<bar>r\<bar> - 52; (n, d) = quotient_of (\<bar>r\<bar> / 2 powi e)
           in (if r < 0 then -1 else 1) * of_nat (half_even (nat n) (nat d)) * 2 powi e)"

section \<open>BOQ lines\<close>

definition UNIT_CANONICAL_MAP :: "(string \<times> string) list" where
  "UNIT_CANONICAL_MAP =
     [([CHR 0xC9, CHR 0x99, CHR ''d'', CHR 0xC9, CHR 0x99, CHR ''d''], ''pcs''),
      ([CHR ''d'', CHR 0xC9, CHR 0x99, CHR ''s'', CHR ''t''], ''set''),
      (''m'', ''m''), (''m2'', ''m2''), ([CHR ''m'', CHR 0xC2, CHR 0xB2], ''m2''), (''m3'', ''m3''),
      ([CHR ''m'', CHR 0xC2, CHR 0xB3], ''m3''), (''kg'', ''kg''), (''t'', ''t''), (''ton'', ''t''), (''l'', ''l'')]"

record canonical_unit =
  cu_raw :: string
  cu_canonical :: "string option"
  cu_status :: string

definition canonicalize_unit :: "string \<Rightarrow> canonical_unit" where
  "canonicalize_unit raw =
     (let c = map_of UNIT_CANONICAL_MAP raw
      in \<lparr>cu_raw = raw, cu_canonical = c, cu_status = (if c \<noteq> None then ''mapped'' else ''unmapped'')\<rparr>)"

record boq_line =
  source_line_id :: int
  page_number :: int
  section_name :: "string option"
  category_code :: "string option"
  description :: string
  unit_raw :: string
  unit_canonical :: "string option"
  unit_status :: string
  qty :: dec
  line_type :: string
  spec_requirements :: "(string \<times> string) list"
  rate :: "dec option"
  amount :: "dec option"

section \<open>Offers and candidates\<close>

record vendor_offer =
  offer_id :: int
  offer_vendor_id :: int
  offer_vendor_name :: string
  offer_data_realm :: string
  offer_watermark :: string
  offer_material :: string
  price :: dec
  offer_currency :: string
  vat_rate :: dec
  uom :: string
  moq :: dec
  inventory :: dec
  valid_until :: int
  offer_adverse_case :: "string option"
  offer_executable_status :: string
  offer_effective_status :: string
  offer_positive :: bool
  offer_negative :: bool

record match_candidate =
  boqline_source_line_id :: int
  candidate_offer_id :: int
  vendor_id :: int
  vendor_name :: string
  material :: string
  data_realm :: string
  watermark :: string
  currency :: string
  freshness :: string
  volume_status :: string
  adverse_case :: "string option"
  moq_exceeds_qty :: bool
  executable_status :: string
  effective_executable_status :: string
  has_positive_reputation :: bool
  has_negative_reputation :: bool
  price_with_vat :: dec

definition material_matches :: "(string \<Rightarrow> string) \<Rightarrow> boq_line \<Rightarrow> string \<Rightarrow> bool" where
  "material_matches lower line m =
     (let x = lower (py_strip m) in if x = [] then False else contains x (lower (description line)))"

definition freshness_of :: "vendor_offer \<Rightarrow> int \<Rightarrow> string" where
  "freshness_of x as_of = (if as_of \<le> valid_until x then ''fresh'' else ''stale'')"

definition volume_status_of :: "boq_line \<Rightarrow> vendor_offer \<Rightarrow> string" where
  "volume_status_of line x =
     (if offer_adverse_case x \<noteq> None then ''adverse_case''
      else if unit_status line \<noteq> ''mapped'' then ''unit_unmapped''
      else let u = canonicalize_unit (uom x) in
        if cu_status u \<noteq> ''mapped'' then ''unit_unmapped''
        else if cu_canonical u \<noteq> unit_canonical line then ''unit_mismatch''
        else if dec_le (qty line) (inventory x) then ''sufficient'' else ''insufficient'')"

definition moq_exceeds :: "boq_line \<Rightarrow> vendor_offer \<Rightarrow> bool" where
  "moq_exceeds line x =
     (if unit_status line \<noteq> ''mapped'' then False
      else let u = canonicalize_unit (uom x) in
        if cu_status u \<noteq> ''mapped'' \<or> cu_canonical u \<noteq> unit_canonical line then False
        else dec_less (qty line) (moq x))"

text \<open>The divisor is the constant 100, so the division returns.\<close>

definition price_with_vat_of :: "vendor_offer \<Rightarrow> dec" where
  "price_with_vat_of x =
     dec_mul (price x) (dec_add (dec_of_int 1) (the (dec_div (vat_rate x) (dec_of_int 100))))"

definition classify_candidate :: "boq_line \<Rightarrow> int \<Rightarrow> vendor_offer \<Rightarrow> match_candidate" where
  "classify_candidate line as_of x =
     \<lparr>boqline_source_line_id = source_line_id line, candidate_offer_id = offer_id x, vendor_id = offer_vendor_id x,
      vendor_name = offer_vendor_name x, material = offer_material x, data_realm = offer_data_realm x,
      watermark = offer_watermark x, currency = offer_currency x, freshness = freshness_of x as_of,
      volume_status = volume_status_of line x, adverse_case = offer_adverse_case x,
      moq_exceeds_qty = moq_exceeds line x, executable_status = offer_executable_status x,
      effective_executable_status = offer_effective_status x, has_positive_reputation = offer_positive x,
      has_negative_reputation = offer_negative x, price_with_vat = price_with_vat_of x\<rparr>"

section \<open>Traffic light and ranking\<close>

definition is_strong_source :: "match_candidate \<Rightarrow> bool" where
  "is_strong_source c \<longleftrightarrow>
     volume_status c = ''sufficient'' \<and> freshness c = ''fresh'' \<and>
     effective_executable_status c \<in> {''reserved'', ''confirmed''}"

definition traffic_light_of :: "match_candidate list \<Rightarrow> string" where
  "traffic_light_of cs =
     (let sources = filter (\<lambda>c. volume_status c \<noteq> ''insufficient'') cs in
      if sources = [] then ''red''
      else let by_vendor = dict_items (map (\<lambda>c. (vendor_id c, c)) (filter is_strong_source sources)) in
        if 2 \<le> length by_vendor \<and> (\<exists>p \<in> set by_vendor. has_positive_reputation (snd p)) then ''green'' else ''yellow'')"

record tco_estimate =
  base_price_with_vat :: dec
  tco_status :: string

definition reference_currency :: "match_candidate list \<Rightarrow> string" where
  "reference_currency cs =
     (let counts = count_dict (map currency cs); top = Max (snd ` set counts)
      in hd (sort (map fst (filter (\<lambda>(cur, n). n = top) counts))))"

definition rank_executable_candidates_by_tco :: "match_candidate list \<Rightarrow> (match_candidate \<times> tco_estimate) list" where
  "rank_executable_candidates_by_tco cs =
     (let executable = filter is_strong_source cs in
      if executable = [] then []
      else map (\<lambda>c. (c, \<lparr>base_price_with_vat = price_with_vat c, tco_status = ''partial_price_only''\<rparr>))
        (sort_key (\<lambda>c. dec_val (price_with_vat c))
          (filter (\<lambda>c. currency c = reference_currency executable) executable)))"

record boq_line_match =
  match_line_id :: int
  traffic_light :: string
  candidates :: "match_candidate list"
  ranked_executable :: "(match_candidate \<times> tco_estimate) list"

definition match_boq_line :: "(string \<Rightarrow> string) \<Rightarrow> boq_line \<Rightarrow> vendor_offer list \<Rightarrow> int \<Rightarrow> boq_line_match" where
  "match_boq_line lower line offers as_of =
     (let cs = map (classify_candidate line as_of) (filter (\<lambda>x. material_matches lower line (offer_material x)) offers)
      in \<lparr>match_line_id = source_line_id line, traffic_light = traffic_light_of cs, candidates = cs,
          ranked_executable = rank_executable_candidates_by_tco cs\<rparr>)"

section \<open>The summary by money\<close>

record boq_match_summary =
  green_amount :: dec
  yellow_amount :: dec
  red_amount :: dec
  unpriced_line_count :: nat
  non_matchable_line_count :: nat
  non_matchable_amount :: dec
  total_priced_amount :: dec
  green_pct :: rat
  yellow_pct :: rat
  red_pct :: rat

record summary_acc =
  acc_green :: dec
  acc_yellow :: dec
  acc_red :: dec
  acc_unpriced :: nat
  acc_non_matchable :: nat
  acc_non_matchable_amount :: dec

definition add_light :: "string \<Rightarrow> dec \<Rightarrow> summary_acc \<Rightarrow> summary_acc" where
  "add_light light x a =
     (if light = ''green'' then a\<lparr>acc_green := dec_add (acc_green a) x\<rparr>
      else if light = ''yellow'' then a\<lparr>acc_yellow := dec_add (acc_yellow a) x\<rparr>
      else a\<lparr>acc_red := dec_add (acc_red a) x\<rparr>)"

text \<open>One iteration of the loop; \<open>None\<close> is the \<open>KeyError\<close> of a line without a match.\<close>

definition summary_step :: "(int \<rightharpoonup> boq_line_match) \<Rightarrow> boq_line \<Rightarrow> summary_acc \<Rightarrow> summary_acc option" where
  "summary_step matches line a =
     (if line_type line \<noteq> ''normal'' then
        (let b = a\<lparr>acc_non_matchable := acc_non_matchable a + 1\<rparr> in
         Some (case amount line of None \<Rightarrow> b
           | Some x \<Rightarrow> b\<lparr>acc_non_matchable_amount := dec_add (acc_non_matchable_amount b) x\<rparr>))
      else
        (case matches (source_line_id line) of
           None \<Rightarrow> None
         | Some m \<Rightarrow>
             (case amount line of
                None \<Rightarrow> Some (a\<lparr>acc_unpriced := acc_unpriced a + 1\<rparr>)
              | Some x \<Rightarrow> Some (add_light (traffic_light m) x a))))"

fun summary_loop :: "(int \<rightharpoonup> boq_line_match) \<Rightarrow> boq_line list \<Rightarrow> summary_acc \<Rightarrow> summary_acc option" where
  "summary_loop matches [] a = Some a"
| "summary_loop matches (l # ls) a =
     (case summary_step matches l a of None \<Rightarrow> None | Some b \<Rightarrow> summary_loop matches ls b)"

definition pct_of :: "dec \<Rightarrow> dec \<Rightarrow> rat" where
  "pct_of tot x =
     (case dec_div x tot of None \<Rightarrow> 0 | Some q \<Rightarrow> float64 (dec_val (dec_mul q (dec_of_int 100))))"

definition summarize_boq_matches :: "boq_line list \<Rightarrow> (int \<rightharpoonup> boq_line_match) \<Rightarrow> boq_match_summary option" where
  "summarize_boq_matches lines matches =
     (case summary_loop matches lines
         \<lparr>acc_green = dec_zero, acc_yellow = dec_zero, acc_red = dec_zero, acc_unpriced = 0, acc_non_matchable = 0,
          acc_non_matchable_amount = dec_zero\<rparr> of
        None \<Rightarrow> None
      | Some a \<Rightarrow>
          (let tot = dec_add (dec_add (acc_green a) (acc_yellow a)) (acc_red a) in
           Some \<lparr>green_amount = acc_green a, yellow_amount = acc_yellow a, red_amount = acc_red a,
             unpriced_line_count = acc_unpriced a, non_matchable_line_count = acc_non_matchable a,
             non_matchable_amount = acc_non_matchable_amount a, total_priced_amount = tot,
             green_pct = pct_of tot (acc_green a), yellow_pct = pct_of tot (acc_yellow a),
             red_pct = pct_of tot (acc_red a)\<rparr>))"

section \<open>Bid readiness\<close>

definition LOTTERY_COVERAGE_THRESHOLD_PCT :: rat where
  "LOTTERY_COVERAGE_THRESHOLD_PCT = 85"

record critical_line =
  critical_line_id :: int
  critical_vendor_id :: int
  critical_vendor_name :: string

record bid_readiness_candidate =
  brc_tender_id :: int
  summary :: boq_match_summary
  is_lottery :: bool
  critical_lines :: "critical_line list"
  computed_at :: int

definition critical_line_of :: "boq_line_match \<Rightarrow> critical_line list" where
  "critical_line_of m =
     (let strong = filter is_strong_source (candidates m) in
      if card (vendor_id ` set strong) = 1
      then [\<lparr>critical_line_id = match_line_id m, critical_vendor_id = vendor_id (hd strong),
             critical_vendor_name = vendor_name (hd strong)\<rparr>]
      else [])"

definition critical_lines_of :: "boq_line_match list \<Rightarrow> critical_line list" where
  "critical_lines_of ms = concat (map critical_line_of ms)"

definition line_matches :: "(string \<Rightarrow> string) \<Rightarrow> boq_line list \<Rightarrow> vendor_offer list \<Rightarrow> int \<Rightarrow> (int \<times> boq_line_match) list" where
  "line_matches lower lines offers as_of =
     dict_items (map (\<lambda>l. (source_line_id l, match_boq_line lower l offers as_of))
       (filter (\<lambda>l. line_type l = ''normal'') lines))"

definition build_bid_readiness_candidate :: "(string \<Rightarrow> string) \<Rightarrow> int \<Rightarrow> boq_line list \<Rightarrow> vendor_offer list \<Rightarrow> int \<Rightarrow> int \<Rightarrow>
    bid_readiness_candidate option" where
  "build_bid_readiness_candidate lower tid lines offers as_of t =
     (let matches = line_matches lower lines offers as_of in
      case summarize_boq_matches lines (map_of matches) of
        None \<Rightarrow> None
      | Some s \<Rightarrow>
          Some \<lparr>brc_tender_id = tid, summary = s,
            is_lottery = float64 (green_pct s + yellow_pct s) < LOTTERY_COVERAGE_THRESHOLD_PCT,
            critical_lines = critical_lines_of (map snd matches), computed_at = t\<rparr>)"

section \<open>Winner against our basis\<close>

record price_comparison =
  winner_amount :: "dec option"
  our_submitted_amount :: "dec option"
  our_scg_cost_basis :: "dec option"
  winner_vs_our_submitted :: "dec option"
  winner_vs_our_cost_basis :: "dec option"
  coverage_line_count :: nat
  total_line_count :: nat
  is_partial_coverage :: bool

definition delta_of :: "dec option \<Rightarrow> dec option \<Rightarrow> dec option" where
  "delta_of a b = (case (a, b) of (Some x, Some y) \<Rightarrow> Some (dec_sub x y) | _ \<Rightarrow> None)"

definition compare_winner_to_our_basis :: "dec option \<Rightarrow> dec option \<Rightarrow> dec option \<Rightarrow> nat \<Rightarrow> nat \<Rightarrow> price_comparison" where
  "compare_winner_to_our_basis w s b priced tot =
     \<lparr>winner_amount = w, our_submitted_amount = s, our_scg_cost_basis = b, winner_vs_our_submitted = delta_of w s,
      winner_vs_our_cost_basis = delta_of w b, coverage_line_count = priced, total_line_count = tot,
      is_partial_coverage = (priced < tot)\<rparr>"

end
