(* ===== verification/Matching_Theorems.thy ===== *)
theory Matching_Theorems
  imports Matching "HOL-Library.Multiset"
begin

text \<open>
  What the traffic light, the ranking, the summary by money and the list of critical lines say
  about the candidates.
\<close>

section \<open>The traffic light\<close>

definition strong :: "match_candidate list \<Rightarrow> match_candidate list" where
  "strong = filter is_strong_source"

lemma strong_not_insufficient: "is_strong_source c \<Longrightarrow> volume_status c \<noteq> ''insufficient''"
  by (simp add: is_strong_source_def)

lemma strong_sources: "filter is_strong_source (filter (\<lambda>c. volume_status c \<noteq> ''insufficient'') cs) = strong cs"
  by (induction cs) (auto simp: strong_def is_strong_source_def)

lemma length_dict_items: "length (dict_items xs) = card (fst ` set xs)"
proof -
  have "distinct (rev (remdups (rev (map fst xs))))" by simp
  then have "length (rev (remdups (rev (map fst xs)))) = card (set (rev (remdups (rev (map fst xs)))))"
    by (rule distinct_card[symmetric])
  then show ?thesis by (simp add: dict_items_def)
qed

lemma mem_dict_items: "(k, x) \<in> set (dict_items xs) \<Longrightarrow> (k, x) \<in> set xs"
proof -
  assume "(k, x) \<in> set (dict_items xs)"
  then have "k \<in> fst ` set xs" "x = the (dict_of xs k)" by (auto simp: dict_items_def)
  with dict_of_in[OF this(1)] show ?thesis by auto
qed

lemma snd_dict_items: "(\<exists>p \<in> set (dict_items xs). P (snd p)) \<longleftrightarrow> (\<exists>k \<in> fst ` set xs. P (the (dict_of xs k)))"
  by (auto simp: dict_items_def)

lemma light_of_candidates:
  assumes "\<forall>c \<in> set cs. \<forall>d \<in> set cs. vendor_id c = vendor_id d \<longrightarrow> has_positive_reputation c = has_positive_reputation d"
  shows "traffic_light_of cs =
    (if \<forall>c \<in> set cs. volume_status c = ''insufficient'' then ''red''
     else if 2 \<le> card (vendor_id ` {c \<in> set cs. is_strong_source c}) \<and>
             (\<exists>c \<in> set cs. is_strong_source c \<and> has_positive_reputation c) then ''green'' else ''yellow'')"
proof -
  let ?xs = "map (\<lambda>c. (vendor_id c, c)) (strong cs)"
  have keys: "fst ` set ?xs = vendor_id ` {c \<in> set cs. is_strong_source c}"
    by (auto simp: strong_def image_image)
  have val: "\<exists>c \<in> set (strong cs). vendor_id c = k \<and> the (dict_of ?xs k) = c" if "k \<in> fst ` set ?xs" for k
    using dict_of_in[OF that] by auto
  have pos: "(\<exists>k \<in> fst ` set ?xs. has_positive_reputation (the (dict_of ?xs k))) \<longleftrightarrow>
      (\<exists>c \<in> set cs. is_strong_source c \<and> has_positive_reputation c)"
  proof
    assume "\<exists>k \<in> fst ` set ?xs. has_positive_reputation (the (dict_of ?xs k))"
    then obtain k where k: "k \<in> fst ` set ?xs" "has_positive_reputation (the (dict_of ?xs k))" by blast
    from val[OF k(1)] k(2) show "\<exists>c \<in> set cs. is_strong_source c \<and> has_positive_reputation c"
      by (auto simp: strong_def)
  next
    assume "\<exists>c \<in> set cs. is_strong_source c \<and> has_positive_reputation c"
    then obtain c where c: "c \<in> set (strong cs)" "has_positive_reputation c" by (auto simp: strong_def)
    then have k: "vendor_id c \<in> fst ` set ?xs" by (auto simp: image_image)
    from val[OF k] obtain d where d: "d \<in> set (strong cs)" "vendor_id d = vendor_id c" "the (dict_of ?xs (vendor_id c)) = d"
      by blast
    have "has_positive_reputation d" using assms c d by (auto simp: strong_def)
    with k d(3) show "\<exists>k \<in> fst ` set ?xs. has_positive_reputation (the (dict_of ?xs k))" by blast
  qed
  have n: "length (dict_items ?xs) = card (vendor_id ` {c \<in> set cs. is_strong_source c})"
    by (simp only: length_dict_items keys)
  have p: "(\<exists>p \<in> set (dict_items ?xs). has_positive_reputation (snd p)) \<longleftrightarrow>
      (\<exists>c \<in> set cs. is_strong_source c \<and> has_positive_reputation c)"
    by (simp only: snd_dict_items pos)
  show ?thesis
    unfolding traffic_light_of_def Let_def strong_sources n p by (simp add: filter_empty_conv)
qed

text \<open>
  What the light says of the offers themselves. An offer is comparable with a line when it has no
  adverse case and both units are known and the same.
\<close>

definition comparable :: "boq_line \<Rightarrow> vendor_offer \<Rightarrow> bool" where
  "comparable line x \<longleftrightarrow> offer_adverse_case x = None \<and> unit_status line = ''mapped'' \<and>
     cu_status (canonicalize_unit (uom x)) = ''mapped'' \<and> cu_canonical (canonicalize_unit (uom x)) = unit_canonical line"

definition too_small :: "boq_line \<Rightarrow> vendor_offer \<Rightarrow> bool" where
  "too_small line x \<longleftrightarrow> comparable line x \<and> dec_val (inventory x) < dec_val (qty line)"

definition supplies :: "boq_line \<Rightarrow> int \<Rightarrow> vendor_offer \<Rightarrow> bool" where
  "supplies line as_of x \<longleftrightarrow> comparable line x \<and> dec_val (qty line) \<le> dec_val (inventory x) \<and> as_of \<le> valid_until x \<and>
     offer_effective_status x \<in> {''reserved'', ''confirmed''}"

lemma classified:
  "volume_status (classify_candidate line as_of x) = ''insufficient'' \<longleftrightarrow> too_small line x"
  "is_strong_source (classify_candidate line as_of x) \<longleftrightarrow> supplies line as_of x"
  "vendor_id (classify_candidate line as_of x) = offer_vendor_id x"
  "has_positive_reputation (classify_candidate line as_of x) = offer_positive x"
  by (auto simp: classify_candidate_def is_strong_source_def volume_status_of_def freshness_of_def too_small_def supplies_def
      comparable_def dec_order Let_def)

text \<open>
  C19. The light of a BOQ line, from the offers whose material its description names, when offers of
  one vendor agree on the vendor's reputation: red exactly when each of them is comparable with
  the line and has less stock than the line needs (or there is none); otherwise green exactly
  when at least two different vendors have an offer that is comparable, has enough stock, is
  still valid and is reserved or confirmed, and one such offer is of a vendor with a positive
  reputation; otherwise yellow.
\<close>

theorem traffic_light_meaning:
  assumes "\<forall>x \<in> set offers. \<forall>y \<in> set offers. offer_vendor_id x = offer_vendor_id y \<longrightarrow> offer_positive x = offer_positive y"
  shows "traffic_light (match_boq_line lower line offers as_of) =
    (let M = {x \<in> set offers. material_matches lower line (offer_material x)} in
     if \<forall>x \<in> M. too_small line x then ''red''
     else if 2 \<le> card (offer_vendor_id ` {x \<in> M. supplies line as_of x}) \<and>
             (\<exists>x \<in> M. supplies line as_of x \<and> offer_positive x) then ''green'' else ''yellow'')"
proof -
  let ?ms = "filter (\<lambda>x. material_matches lower line (offer_material x)) offers"
  let ?cs = "map (classify_candidate line as_of) ?ms"
  have rep: "\<forall>c \<in> set ?cs. \<forall>d \<in> set ?cs. vendor_id c = vendor_id d \<longrightarrow> has_positive_reputation c = has_positive_reputation d"
    using assms by (auto simp: classified)
  let ?M = "{x \<in> set offers. material_matches lower line (offer_material x)}"
  have M: "set ?cs = classify_candidate line as_of ` ?M" by auto
  have "vendor_id ` {c \<in> set ?cs. is_strong_source c} = offer_vendor_id ` {x \<in> ?M. supplies line as_of x}"
    unfolding M by (force simp: classified image_iff)
  moreover have "(\<forall>c \<in> set ?cs. volume_status c = ''insufficient'') \<longleftrightarrow> (\<forall>x \<in> ?M. too_small line x)"
    unfolding M by (simp add: classified)
  moreover have "(\<exists>c \<in> set ?cs. is_strong_source c \<and> has_positive_reputation c) \<longleftrightarrow> (\<exists>x \<in> ?M. supplies line as_of x \<and> offer_positive x)"
    unfolding M by (simp only: bex_simps(7) classified)
  moreover have "traffic_light (match_boq_line lower line offers as_of) = traffic_light_of ?cs"
    by (simp add: match_boq_line_def Let_def)
  ultimately show ?thesis by (simp only: light_of_candidates[OF rep] Let_def)
qed

section \<open>Prices\<close>

text \<open>
  The ranking holds exactly the strong sources in one currency, each once, from the cheapest
  to the dearest; that currency is one that no other currency outnumbers among the strong
  sources, and there is a ranking whenever there is a strong source.
\<close>

theorem ranking_meaning:
  assumes "strong cs \<noteq> []"
  shows "\<exists>cur. cur \<in> currency ` set (strong cs) \<and>
    (\<forall>d. count_list (map currency (strong cs)) d \<le> count_list (map currency (strong cs)) cur) \<and>
    mset (map fst (rank_executable_candidates_by_tco cs)) = mset (filter (\<lambda>c. currency c = cur) (strong cs)) \<and>
    sorted (map (\<lambda>(c, t). dec_val (price_with_vat c)) (rank_executable_candidates_by_tco cs)) \<and>
    rank_executable_candidates_by_tco cs \<noteq> []"
proof -
  let ?xs = "map currency (strong cs)"
  let ?counts = "count_dict ?xs"
  let ?top = "Max (snd ` set ?counts)"
  let ?best = "map fst (filter (\<lambda>(cur, n). n = ?top) ?counts)"
  have ne: "snd ` set ?counts \<noteq> {}" using assms by (auto simp: count_dict_def)
  then have "?top \<in> snd ` set ?counts" by (intro Max_in) auto
  then have "?best \<noteq> []" by (force simp: filter_empty_conv)
  then have "hd (sort ?best) \<in> set (sort ?best)"
    by (intro hd_in_set) (metis set_empty set_sort)
  then have "hd (sort ?best) \<in> set ?best" by simp
  moreover have "reference_currency (strong cs) = hd (sort ?best)"
    by (simp add: reference_currency_def Let_def)
  ultimately have cur: "(reference_currency (strong cs), ?top) \<in> set ?counts" by auto
  let ?cur = "reference_currency (strong cs)"
  from cur have mem: "?cur \<in> set ?xs" and top: "?top = count_list ?xs ?cur" by (simp_all add: set_count_dict)
  have "count_list ?xs d \<le> count_list ?xs ?cur" for d
  proof (cases "d \<in> set ?xs")
    case True
    then have "(d, count_list ?xs d) \<in> set ?counts" by (simp add: set_count_dict)
    then have "count_list ?xs d \<le> ?top" by (intro Max_ge) force+
    with top show ?thesis by simp
  qed (simp add: count_list_0_iff)
  note most = this
  let ?ys = "filter (\<lambda>c. currency c = ?cur) (strong cs)"
  let ?zs = "sort_key (\<lambda>c. dec_val (price_with_vat c)) ?ys"
  have ranked: "rank_executable_candidates_by_tco cs =
      map (\<lambda>c. (c, \<lparr>base_price_with_vat = price_with_vat c, tco_status = ''partial_price_only''\<rparr>)) ?zs"
    using assms by (simp add: rank_executable_candidates_by_tco_def Let_def strong_def)
  have ys: "?ys \<noteq> []" using mem by (auto simp: filter_empty_conv)
  have m: "mset (map fst (rank_executable_candidates_by_tco cs)) = mset ?ys"
    by (simp add: ranked comp_def)
  moreover have "sorted (map (\<lambda>(c, t). dec_val (price_with_vat c)) (rank_executable_candidates_by_tco cs))"
    by (simp add: ranked comp_def sorted_sort_key)
  moreover have "rank_executable_candidates_by_tco cs \<noteq> []" using m ys by force
  ultimately show ?thesis using mem[unfolded list.set_map] most by blast
qed

definition demo_candidate :: "int \<Rightarrow> string \<Rightarrow> nat \<Rightarrow> match_candidate" where
  "demo_candidate v cur p =
     \<lparr>boqline_source_line_id = 7, candidate_offer_id = v, vendor_id = v, vendor_name = ''v'', material = ''cement'',
      data_realm = ''vendor-sandbox'', watermark = ''w'', currency = cur, freshness = ''fresh'',
      volume_status = ''sufficient'', adverse_case = None, moq_exceeds_qty = False, executable_status = ''reserved'',
      effective_executable_status = ''reserved'', has_positive_reputation = (v = 1), has_negative_reputation = False,
      price_with_vat = Dec False p 0\<rparr>"

definition demo_candidates :: "match_candidate list" where
  "demo_candidates = [demo_candidate 1 ''AZN'' 9, demo_candidate 2 ''USD'' 1, demo_candidate 3 ''AZN'' 4]"

definition cement_line :: boq_line where
  "cement_line = \<lparr>source_line_id = 7, page_number = 1, section_name = None, category_code = None, description = ''cement 42.5'',
     unit_raw = ''ton'', unit_canonical = cu_canonical (canonicalize_unit ''ton''), unit_status = ''mapped'', qty = Dec False 50 0,
     line_type = ''normal'', spec_requirements = [], rate = None, amount = None\<rparr>"

definition cement_offer :: "int \<Rightarrow> int \<Rightarrow> vendor_offer" where
  "cement_offer v t = \<lparr>offer_id = v, offer_vendor_id = v, offer_vendor_name = ''v'', offer_data_realm = ''vendor-sandbox'', offer_watermark = ''w'',
     offer_material = ''cement'', price = Dec False 9 0, offer_currency = ''AZN'', vat_rate = Dec False 18 0, uom = ''ton'',
     moq = Dec False 1 0, inventory = Dec False 60 0, valid_until = t, offer_adverse_case = None, offer_executable_status = ''reserved'',
     offer_effective_status = ''reserved'', offer_positive = (v = 1), offer_negative = False\<rparr>"

lemma cement_offers:
  "material_matches id cement_line (offer_material (cement_offer v t))" "comparable cement_line (cement_offer v t)"
  "supplies cement_line 5 (cement_offer v t) \<longleftrightarrow> 5 \<le> t" "\<not> too_small cement_line (cement_offer v t)"
proof -
  show "material_matches id cement_line (offer_material (cement_offer v t))" by code_simp
  have "unit_status cement_line = ''mapped''" "cu_status (canonicalize_unit ''ton'') = ''mapped''" by code_simp+
  then show c: "comparable cement_line (cement_offer v t)" by (simp add: comparable_def cement_offer_def cement_line_def)
  have "dec_val (qty cement_line) \<le> dec_val (inventory (cement_offer v t))" by code_simp
  with c show "supplies cement_line 5 (cement_offer v t) \<longleftrightarrow> 5 \<le> t" "\<not> too_small cement_line (cement_offer v t)"
    by (simp_all add: supplies_def too_small_def cement_offer_def)
qed

text \<open>Two vendors with valid offers are enough; once the offer of one has expired, the line is yellow.\<close>

theorem traffic_light_meaning_witness:
  "traffic_light (match_boq_line id cement_line [cement_offer 1 9, cement_offer 2 9] 5) = ''green'' \<and>
   traffic_light (match_boq_line id cement_line [cement_offer 1 9, cement_offer 2 4] 5) = ''yellow''"
proof -
  have r: "\<forall>x \<in> set [cement_offer 1 9, cement_offer 2 t]. \<forall>y \<in> set [cement_offer 1 9, cement_offer 2 t].
      offer_vendor_id x = offer_vendor_id y \<longrightarrow> offer_positive x = offer_positive y" for t
    by (simp add: cement_offer_def)
  have v: "offer_vendor_id (cement_offer v t) = v" "offer_positive (cement_offer v t) \<longleftrightarrow> v = 1" for v t by (simp_all add: cement_offer_def)
  have light: "traffic_light (match_boq_line id cement_line [cement_offer 1 9, cement_offer 2 t] 5) =
      (if 2 \<le> card (offer_vendor_id ` {x \<in> {cement_offer 1 9, cement_offer 2 t}. supplies cement_line 5 x}) then ''green'' else ''yellow'')" for t
  proof -
    have m: "{x \<in> set [cement_offer 1 9, cement_offer 2 t]. material_matches id cement_line (offer_material x)} = {cement_offer 1 9, cement_offer 2 t}"
      using cement_offers(1) by auto
    show ?thesis
      unfolding traffic_light_meaning[OF r[of t], of id cement_line 5] Let_def m by (simp add: cement_offers v)
  qed
  have "{x \<in> {cement_offer 1 9, cement_offer 2 9}. supplies cement_line 5 x} = {cement_offer 1 9, cement_offer 2 9}"
    "{x \<in> {cement_offer 1 9, cement_offer 2 4}. supplies cement_line 5 x} = {cement_offer 1 9}"
    by (auto simp: cement_offers)
  then show ?thesis by (simp add: light v)
qed

theorem ranking_meaning_witness: "rank_executable_candidates_by_tco demo_candidates \<noteq> []"
proof -
  have "strong demo_candidates \<noteq> []" by (simp add: strong_def demo_candidates_def demo_candidate_def is_strong_source_def)
  from ranking_meaning[OF this] show ?thesis by blast
qed

section \<open>Every line is accounted for\<close>

definition light_lines :: "(int \<rightharpoonup> boq_line_match) \<Rightarrow> string set \<Rightarrow> boq_line list \<Rightarrow> dec list" where
  "light_lines matches lights lines =
     List.map_filter (\<lambda>l. if line_type l = ''normal'' \<and> traffic_light (the (matches (source_line_id l))) \<in> lights
        then amount l else None) lines"

definition sum_from :: "dec \<Rightarrow> dec list \<Rightarrow> dec" where
  "sum_from = foldl dec_add"

lemma summary_loop_result:
  assumes "\<forall>l \<in> set lines. line_type l = ''normal'' \<longrightarrow> matches (source_line_id l) \<noteq> None"
  shows "summary_loop matches lines a = Some
    \<lparr>acc_green = sum_from (acc_green a) (light_lines matches {''green''} lines),
     acc_yellow = sum_from (acc_yellow a) (light_lines matches {''yellow''} lines),
     acc_red = sum_from (acc_red a) (light_lines matches (- {''green'', ''yellow''}) lines),
     acc_unpriced = acc_unpriced a + length (filter (\<lambda>l. line_type l = ''normal'' \<and> amount l = None) lines),
     acc_non_matchable = acc_non_matchable a + length (filter (\<lambda>l. line_type l \<noteq> ''normal'') lines),
     acc_non_matchable_amount = sum_from (acc_non_matchable_amount a)
       (List.map_filter (\<lambda>l. if line_type l \<noteq> ''normal'' then amount l else None) lines)\<rparr>"
  using assms
proof (induction lines arbitrary: a)
  case Nil
  then show ?case by (simp add: light_lines_def List.map_filter_simps sum_from_def)
next
  case (Cons l ls)
  then show ?case
    by (auto simp: summary_step_def Let_def light_lines_def List.map_filter_simps sum_from_def add_light_def split: option.splits)
qed

lemma summary_lines:
  fixes lines :: "boq_line list" and lower :: "string \<Rightarrow> string" and offers :: "vendor_offer list" and as_of :: int
  defines "m \<equiv> map_of (line_matches lower lines offers as_of)"
  shows "\<exists>s. summarize_boq_matches lines m = Some s \<and>
    green_amount s = sum_from dec_zero (light_lines m {''green''} lines) \<and>
    yellow_amount s = sum_from dec_zero (light_lines m {''yellow''} lines) \<and>
    red_amount s = sum_from dec_zero (light_lines m {''red''} lines) \<and>
    total_priced_amount s = dec_add (dec_add (green_amount s) (yellow_amount s)) (red_amount s) \<and>
    unpriced_line_count s + non_matchable_line_count s +
      length (light_lines m {''green''} lines @ light_lines m {''yellow''} lines @ light_lines m {''red''} lines) =
      length lines"
proof -
  let ?ps = "map (\<lambda>l. (source_line_id l, match_boq_line lower l offers as_of)) (filter (\<lambda>l. line_type l = ''normal'') lines)"
  have some: "m (source_line_id l) \<noteq> None" if "l \<in> set lines" "line_type l = ''normal''" for l
  proof -
    have "source_line_id l \<in> fst ` set ?ps" using that by force
    then have "source_line_id l \<in> fst ` set (dict_items ?ps)" by (simp only: keys_dict_items)
    then show ?thesis by (simp add: m_def line_matches_def map_of_eq_None_iff)
  qed
  have light: "traffic_light x \<in> {''green'', ''yellow'', ''red''}" if "m k = Some x" for k x
  proof -
    from that have "(k, x) \<in> set (dict_items ?ps)" by (auto simp: m_def line_matches_def dest: map_of_SomeD)
    from mem_dict_items[OF this] obtain l where "x = match_boq_line lower l offers as_of" by auto
    then show ?thesis by (simp add: match_boq_line_def Let_def traffic_light_of_def)
  qed
  have red: "light_lines m (- {''green'', ''yellow''}) ls = light_lines m {''red''} ls" if "set ls \<subseteq> set lines" for ls
    using that
  proof (induction ls)
    case (Cons l ls)
    show ?case
    proof (cases "line_type l = ''normal''")
      case True
      with Cons.prems some obtain x where x: "m (source_line_id l) = Some x" by auto
      with light[OF x] Cons show ?thesis by (cases "amount l") (auto simp: light_lines_def List.map_filter_simps)
    next
      case False
      with Cons show ?thesis by (simp add: light_lines_def List.map_filter_simps)
    qed
  qed (simp add: light_lines_def List.map_filter_simps)
  have count: "length (filter (\<lambda>l. line_type l = ''normal'' \<and> amount l = None) ls) + length (filter (\<lambda>l. line_type l \<noteq> ''normal'') ls) +
      length (light_lines m {''green''} ls @ light_lines m {''yellow''} ls @ light_lines m {''red''} ls) = length ls"
    if "set ls \<subseteq> set lines" for ls
    using that
  proof (induction ls)
    case (Cons l ls)
    show ?case
    proof (cases "line_type l = ''normal''")
      case True
      with Cons.prems some obtain x where x: "m (source_line_id l) = Some x" by auto
      with light[OF x] Cons True show ?thesis
        by (cases "amount l") (auto simp: light_lines_def List.map_filter_simps)
    next
      case False
      with Cons show ?thesis by (simp add: light_lines_def List.map_filter_simps)
    qed
  qed (simp add: light_lines_def List.map_filter_simps)
  have "\<forall>l \<in> set lines. line_type l = ''normal'' \<longrightarrow> m (source_line_id l) \<noteq> None" using some by blast
  note loop = summary_loop_result[OF this]
  show ?thesis
    unfolding summarize_boq_matches_def loop
    using count[OF subset_refl] by (simp add: Let_def red)
qed

text \<open>
  The summary of a tender's BOQ never fails and loses no line: a line that is not of the
  normal type counts as non-matchable, a normal line without an amount as unpriced, and the
  amount of every other line is added, in order, to the sum of its light; the total is the sum
  of the three.
\<close>

theorem summary_accounts_for_lines:
  "let m = map_of (line_matches lower lines offers as_of) in
   \<exists>s. summarize_boq_matches lines m = Some s \<and>
    green_amount s = sum_from dec_zero (light_lines m {''green''} lines) \<and>
    yellow_amount s = sum_from dec_zero (light_lines m {''yellow''} lines) \<and>
    red_amount s = sum_from dec_zero (light_lines m {''red''} lines) \<and>
    total_priced_amount s = dec_add (dec_add (green_amount s) (yellow_amount s)) (red_amount s) \<and>
    unpriced_line_count s + non_matchable_line_count s +
      length (light_lines m {''green''} lines @ light_lines m {''yellow''} lines @ light_lines m {''red''} lines) =
      length lines"
  unfolding Let_def by (rule summary_lines)

section \<open>Single-vendor lines\<close>

text \<open>
  A line is listed as critical exactly when all of its strong sources are of one vendor, and
  then it is listed once, with that vendor.
\<close>

theorem critical_line_meaning:
  "critical_line_of m =
    (if \<exists>v. vendor_id ` set (strong (candidates m)) = {v}
     then [\<lparr>critical_line_id = match_line_id m, critical_vendor_id = (THE v. vendor_id ` set (strong (candidates m)) = {v}),
            critical_vendor_name = vendor_name (hd (strong (candidates m)))\<rparr>]
     else [])"
proof (cases "\<exists>v. vendor_id ` set (strong (candidates m)) = {v}")
  case True
  then obtain v where v: "vendor_id ` set (strong (candidates m)) = {v}" by blast
  then have ne: "strong (candidates m) \<noteq> []" by auto
  have "vendor_id (hd (strong (candidates m))) = v" using v hd_in_set[OF ne] by blast
  moreover have "(THE v. vendor_id ` set (strong (candidates m)) = {v}) = v" using v by auto
  ultimately show ?thesis using v by (simp add: critical_line_of_def Let_def flip: strong_def)
next
  case False
  then have "card (vendor_id ` set (strong (candidates m))) \<noteq> 1" by (auto simp: card_1_singleton_iff)
  with False show ?thesis by (simp add: critical_line_of_def Let_def flip: strong_def)
qed

section \<open>Unpriced tenders\<close>

lemma sum_from_Nil [simp]: "sum_from a [] = a"
  by (simp add: sum_from_def)

text \<open>
  A tender none of whose normal lines has an amount is always called a lottery, whatever the
  offers: its coverage is zero percent.
\<close>

theorem unpriced_tender_is_lottery:
  assumes "\<forall>l \<in> set lines. line_type l = ''normal'' \<longrightarrow> amount l = None"
  shows "\<exists>b. build_bid_readiness_candidate lower tid lines offers as_of t = Some b \<and> is_lottery b"
proof -
  let ?m = "map_of (line_matches lower lines offers as_of)"
  obtain s where s: "summarize_boq_matches lines ?m = Some s"
    using summary_lines by blast
  have "light_lines f L ls = []" if "\<forall>l \<in> set ls. line_type l = ''normal'' \<longrightarrow> amount l = None" for f L ls
    using that by (induction ls) (auto simp: light_lines_def List.map_filter_simps)
  then have none: "light_lines ?m L lines = []" for L using assms by blast
  have "\<forall>l \<in> set lines. line_type l = ''normal'' \<longrightarrow> ?m (source_line_id l) \<noteq> None"
  proof (intro ballI impI)
    fix l assume l: "l \<in> set lines" "line_type l = ''normal''"
    then have "source_line_id l \<in> fst ` set (map (\<lambda>l. (source_line_id l, match_boq_line lower l offers as_of))
        (filter (\<lambda>l. line_type l = ''normal'') lines))" by force
    then have "source_line_id l \<in> fst ` set (line_matches lower lines offers as_of)"
      by (simp only: line_matches_def keys_dict_items)
    then show "?m (source_line_id l) \<noteq> None" by (simp add: map_of_eq_None_iff)
  qed
  from summary_loop_result[OF this] s none
  have "green_pct s = 0" "yellow_pct s = 0"
    by (auto simp: summarize_boq_matches_def Let_def pct_of_def dec_div_def dec_add_def scaled_def signed_def of_signed_def
        fix_dec_def digits_def nat_digits.simps[of 0])
  then have "float64 (green_pct s + yellow_pct s) < LOTTERY_COVERAGE_THRESHOLD_PCT"
    by (simp add: float64_def LOTTERY_COVERAGE_THRESHOLD_PCT_def)
  with s show ?thesis by (simp add: build_bid_readiness_candidate_def Let_def)
qed

definition demo_line :: boq_line where
  "demo_line = \<lparr>source_line_id = 7, page_number = 1, section_name = None, category_code = None, description = ''cement'',
     unit_raw = ''t'', unit_canonical = Some ''t'', unit_status = ''mapped'', qty = Dec False 5 0, line_type = ''normal'',
     spec_requirements = [], rate = None, amount = None\<rparr>"

theorem unpriced_tender_is_lottery_witness:
  "\<exists>b. build_bid_readiness_candidate id 1 [demo_line] [] 0 0 = Some b \<and> is_lottery b"
  using unpriced_tender_is_lottery[of "[demo_line]" id 1 "[]" 0 0] by (simp add: demo_line_def)

end
