(* ===== verification/Tender_Tables.thy ===== *)
theory Tender_Tables
  imports Platform Matching
begin

text \<open>
  The tables of ingested tenders and the statements on them: raw snapshots
  (\<open>packages/tender/raw_snapshot.py\<close>), tenders and their versions (\<open>normalized.py\<close>), BOQ lines
  (\<open>boq_lines_store.py\<close>) and the exception queue (\<open>packages/platform/exception_queue.py\<close>).

  These tables never lose a row, so the next id of a table is one more than its length.
  \<open>sha\<close> is SHA-256 in hexadecimal, \<open>parse\<close> the database's reader of JSON text.
\<close>

record raw_snapshot =
  snap_source :: string
  resource_type :: string
  snap_identity_key :: string
  checksum :: string
  body :: json
  snap_contract_version :: string
  snap_correlation_id :: string
  fetched_at :: int

record tender_row =
  tender_source :: string
  identity_key :: string
  current_version_id :: "int option"
  tender_created_at :: int

record tender_version =
  tv_tender_id :: int
  version_number :: int
  tv_raw_snapshot_id :: int
  parser_version :: string
  normalized_fields :: jobject

record boq_row =
  boq_source :: string
  boq_event_id :: int
  boq_version_id :: int
  boq_raw_snapshot_id :: int
  boq_content :: boq_line

record exception_record =
  ex_source :: string
  exception_type :: string
  ex_category :: string
  raw_ref :: "int option"
  contract_name :: "string option"
  ex_reason :: string
  ex_correlation_id :: string
  ex_attempts :: int
  ex_next_retry_at :: "int option"
  ex_status :: string
  closed_reason :: "string option"
  closed_by :: "string option"
  first_seen_at :: int

record tender_db = platform_db +
  raw_snapshots :: "(int \<times> raw_snapshot) list"
  tenders :: "(int \<times> tender_row) list"
  tender_versions :: "(int \<times> tender_version) list"
  boq_lines :: "(int \<times> boq_row) list"
  exception_queue :: "(int \<times> exception_record) list"

type_synonym ('t, 'a) tender_op = "('t tender_db_scheme, api_error, 'a) db"

section \<open>Raw snapshots\<close>

definition save_raw_snapshot :: "(string \<Rightarrow> string) \<Rightarrow> (string \<Rightarrow> json option) \<Rightarrow> string \<Rightarrow> string \<Rightarrow> string \<Rightarrow> string \<Rightarrow>
    string \<Rightarrow> string \<Rightarrow> ('t, int) tender_op" where
  "save_raw_snapshot sha parse src rtype key raw ver cid =
     (case parse raw of
        None \<Rightarrow> raise (Exc ''DBAPIError'' [''invalid input syntax for type json''])
      | Some b \<Rightarrow>
          bind (gets (\<lambda>s. next_id (raw_snapshots s))) (\<lambda>i.
          then_db (modify (\<lambda>s. s\<lparr>raw_snapshots := raw_snapshots s @ [(i,
            \<lparr>snap_source = src, resource_type = rtype, snap_identity_key = key, checksum = sha raw, body = b,
             snap_contract_version = ver, snap_correlation_id = cid, fetched_at = clock s\<rparr>)]\<rparr>))
          (ret i)))"

definition get_raw_snapshot :: "int \<Rightarrow> ('t, raw_snapshot) tender_op" where
  "get_raw_snapshot i =
     bind (gets (\<lambda>s. map_of (raw_snapshots s) i)) (\<lambda>r.
     case r of None \<Rightarrow> raise (Exc ''NoResultFound'' []) | Some x \<Rightarrow> ret x)"

definition last_fetched_at_by_source :: "'t tender_db_scheme \<Rightarrow> string \<rightharpoonup> int" where
  "last_fetched_at_by_source s src =
     (let ts = map (fetched_at \<circ> snd) (filter (\<lambda>(i, r). snap_source r = src) (raw_snapshots s))
      in if ts = [] then None else Some (Max (set ts)))"

section \<open>Tenders and their versions\<close>

definition get_or_create_tender :: "string \<Rightarrow> string \<Rightarrow> ('t, int) tender_op" where
  "get_or_create_tender src key =
     bind (gets (\<lambda>s. find (\<lambda>(i, r). tender_source r = src \<and> identity_key r = key) (tenders s))) (\<lambda>row.
     case row of
       Some (i, r) \<Rightarrow> ret i
     | None \<Rightarrow>
         bind (gets (\<lambda>s. next_id (tenders s))) (\<lambda>i.
         then_db (modify (\<lambda>s. s\<lparr>tenders := tenders s @
           [(i, \<lparr>tender_source = src, identity_key = key, current_version_id = None, tender_created_at = clock s\<rparr>)]\<rparr>))
         (ret i)))"

definition current_version :: "'t tender_db_scheme \<Rightarrow> int \<Rightarrow> tender_version option" where
  "current_version s tid =
     (case map_of (tenders s) tid of
        None \<Rightarrow> None
      | Some r \<Rightarrow> (case current_version_id r of None \<Rightarrow> None | Some v \<Rightarrow> map_of (tender_versions s) v))"

text \<open>
  \<open>normalized_fields ->> 'id'\<close> is the text of the value; \<open>int\<close> of a text that is not a number
  raises a \<open>ValueError\<close>.
\<close>

definition get_event_id_for_tender :: "int \<Rightarrow> ('t, int option) tender_op" where
  "get_event_id_for_tender tid =
     bind (gets (\<lambda>s. current_version s tid)) (\<lambda>v.
     case v of
       None \<Rightarrow> ret None
     | Some v \<Rightarrow>
         (case jget (normalized_fields v) ''id'' of
            JNull \<Rightarrow> ret None
          | JInt i \<Rightarrow> ret (Some i)
          | JStr t \<Rightarrow> (case parse_int t of None \<Rightarrow> raise (Exc ''ValueError'' [t]) | Some i \<Rightarrow> ret (Some i))
          | _ \<Rightarrow> raise (Exc ''ValueError'' [])))"

definition get_current_tender_version_id :: "'t tender_db_scheme \<Rightarrow> int \<Rightarrow> int option" where
  "get_current_tender_version_id s tid =
     (case map_of (tenders s) tid of None \<Rightarrow> None | Some r \<Rightarrow> current_version_id r)"

definition versions_of :: "'t tender_db_scheme \<Rightarrow> int \<Rightarrow> (int \<times> tender_version) list" where
  "versions_of s tid = filter (\<lambda>(i, v). tv_tender_id v = tid) (tender_versions s)"

definition create_normalized_version :: "int \<Rightarrow> int \<Rightarrow> string \<Rightarrow> jobject \<Rightarrow> ('t, int \<times> tender_version) tender_op" where
  "create_normalized_version tid snap parser nf =
     bind (gets id) (\<lambda>s.
     let ns = map (version_number \<circ> snd) (versions_of s tid);
         n = (if ns = [] then 1 else Max (set ns) + 1);
         i = next_id (tender_versions s);
         v = \<lparr>tv_tender_id = tid, version_number = n, tv_raw_snapshot_id = snap, parser_version = parser,
              normalized_fields = nf\<rparr> in
     then_db (guard (tid \<in> fst ` set (tenders s)) (Exc ''IntegrityError'' [''tender_versions_tender_id_fkey''])) (
     then_db (guard (snap \<in> fst ` set (raw_snapshots s)) (Exc ''IntegrityError'' [''tender_versions_raw_snapshot_id_fkey''])) (
     then_db (modify (\<lambda>s. s\<lparr>tender_versions := tender_versions s @ [(i, v)]\<rparr>)) (
     then_db (modify (\<lambda>s. s\<lparr>tenders := update_row tid (\<lambda>r. r\<lparr>current_version_id := Some i\<rparr>) (tenders s)\<rparr>))
     (ret (i, v))))))"

section \<open>BOQ lines\<close>

definition store_boq_line :: "string \<Rightarrow> int \<Rightarrow> int \<Rightarrow> int \<Rightarrow> boq_line \<Rightarrow> ('t, unit) tender_op" where
  "store_boq_line src ev ver snap l =
     bind (gets id) (\<lambda>s.
     then_db (guard (ver \<in> fst ` set (tender_versions s) \<and> snap \<in> fst ` set (raw_snapshots s))
       (Exc ''IntegrityError'' [''boq_lines_fkey''])) (
     then_db (guard (unit_status l \<in> {''mapped'', ''unmapped''} \<and>
         line_type l \<in> {''normal'', ''preliminaries'', ''provisional_sum'', ''prime_cost''})
       (Exc ''IntegrityError'' [''boq_lines_check''])) (
     then_db (guard (\<not> (\<exists>(i, r) \<in> set (boq_lines s). boq_source r = src \<and> boq_event_id r = ev \<and>
         source_line_id (boq_content r) = source_line_id l))
       (Exc ''IntegrityError'' [''boq_lines_source_event_id_source_line_id_key'']))
     (modify (\<lambda>s. s\<lparr>boq_lines := boq_lines s @ [(next_id (boq_lines s),
        \<lparr>boq_source = src, boq_event_id = ev, boq_version_id = ver, boq_raw_snapshot_id = snap, boq_content = l\<rparr>)]\<rparr>)))))"

definition store_boq_lines :: "string \<Rightarrow> int \<Rightarrow> int \<Rightarrow> int \<Rightarrow> boq_line list \<Rightarrow> ('t, nat) tender_op" where
  "store_boq_lines src ev ver snap ls =
     then_db (for_each (store_boq_line src ev ver snap) ls) (ret (length ls))"

definition list_boq_lines_by_event :: "'t tender_db_scheme \<Rightarrow> string \<Rightarrow> int \<Rightarrow> boq_line list" where
  "list_boq_lines_by_event s src ev =
     sort_key page_number (sort_key source_line_id
       (map (boq_content \<circ> snd) (filter (\<lambda>(i, r). boq_source r = src \<and> boq_event_id r = ev) (boq_lines s))))"

section \<open>The exception queue\<close>

definition enqueue_exception :: "string \<Rightarrow> string \<Rightarrow> string \<Rightarrow> string \<Rightarrow> string \<Rightarrow> int option \<Rightarrow> string option \<Rightarrow>
    ('t, int \<times> exception_record) tender_op" where
  "enqueue_exception src etype cat why cid ref contract =
     bind (gets (\<lambda>s. find (\<lambda>(i, r). ex_source r = src \<and> exception_type r = etype \<and> ex_correlation_id r = cid \<and>
        ex_status r = ''open'') (exception_queue s))) (\<lambda>existing.
     case existing of
       Some x \<Rightarrow> ret x
     | None \<Rightarrow>
         bind (gets id) (\<lambda>s.
         then_db (guard (cat \<in> {''retryable'', ''needs_human''}) (Exc ''IntegrityError'' [''exception_queue_category_check''])) (
         then_db (guard (case ref of None \<Rightarrow> True | Some i \<Rightarrow> i \<in> fst ` set (raw_snapshots s))
           (Exc ''IntegrityError'' [''exception_queue_raw_ref_fkey''])) (
         let x = (next_id (exception_queue s),
           \<lparr>ex_source = src, exception_type = etype, ex_category = cat, raw_ref = ref, contract_name = contract,
            ex_reason = why, ex_correlation_id = cid, ex_attempts = 0, ex_next_retry_at = None, ex_status = ''open'',
            closed_reason = None, closed_by = None, first_seen_at = clock s\<rparr>) in
         then_db (modify (\<lambda>s. s\<lparr>exception_queue := exception_queue s @ [x]\<rparr>))
         (ret x)))))"

definition list_open :: "'t tender_db_scheme \<Rightarrow> string option \<Rightarrow> (int \<times> exception_record) list" where
  "list_open s cat =
     sort_key (first_seen_at \<circ> snd)
       (filter (\<lambda>(i, r). ex_status r = ''open'' \<and> (case cat of None \<Rightarrow> True | Some c \<Rightarrow> ex_category r = c)) (exception_queue s))"

definition last_seen_by_source :: "'t tender_db_scheme \<Rightarrow> string option \<Rightarrow> string \<rightharpoonup> int" where
  "last_seen_by_source s etype src =
     (let ts = map (first_seen_at \<circ> snd) (filter (\<lambda>(i, r). ex_source r = src \<and>
          (case etype of None \<Rightarrow> True | Some e \<Rightarrow> exception_type r = e)) (exception_queue s))
      in if ts = [] then None else Some (Max (set ts)))"

definition update_exceptions :: "(int \<times> exception_record \<Rightarrow> bool) \<Rightarrow> (exception_record \<Rightarrow> exception_record) \<Rightarrow>
    't tender_db_scheme \<Rightarrow> 't tender_db_scheme" where
  "update_exceptions p f s =
     s\<lparr>exception_queue := map (\<lambda>(i, r). (i, if p (i, r) then f r else r)) (exception_queue s)\<rparr>"

definition schedule_retry :: "int \<Rightarrow> int \<Rightarrow> ('t, exception_record) tender_op" where
  "schedule_retry i backoff =
     bind (gets (\<lambda>s. map_of (exception_queue s) i)) (\<lambda>row.
     case row of
       None \<Rightarrow> raise (Exc ''NoResultFound'' [])
     | Some r \<Rightarrow>
         then_db (guard (ex_status r = ''open'' \<and> ex_category r = ''retryable'') (Exc ''NoResultFound'' [])) (
         bind (gets clock) (\<lambda>t.
         let r' = r\<lparr>ex_attempts := ex_attempts r + 1, ex_next_retry_at := Some (t + backoff)\<rparr> in
         then_db (modify (update_exceptions (\<lambda>(k, x). k = i) (\<lambda>_. r')))
         (ret r'))))"

definition close_exception :: "int \<Rightarrow> string \<Rightarrow> string \<Rightarrow> ('t, exception_record) tender_op" where
  "close_exception i why who =
     then_db (modify (update_exceptions (\<lambda>(k, x). k = i \<and> ex_status x = ''open'')
        (\<lambda>x. x\<lparr>ex_status := ''closed'', closed_reason := Some why, closed_by := Some who\<rparr>))) (
     bind (gets (\<lambda>s. map_of (exception_queue s) i)) (\<lambda>row.
     case row of None \<Rightarrow> raise (Exc ''NoResultFound'' []) | Some r \<Rightarrow> ret r))"

definition close_matching_needs_human :: "string \<Rightarrow> string \<Rightarrow> string \<Rightarrow> ('t, (int \<times> exception_record) list) tender_op" where
  "close_matching_needs_human contract why who =
     (let p = (\<lambda>(k :: int, x). contract_name x = Some contract \<and> ex_category x = ''needs_human'' \<and> ex_status x = ''open'');
          f = (\<lambda>x. x\<lparr>ex_status := ''closed'', closed_reason := Some why, closed_by := Some who\<rparr>) in
     bind (gets (\<lambda>s. map (\<lambda>(i, r). (i, f r)) (filter p (exception_queue s)))) (\<lambda>rows.
     then_db (modify (update_exceptions p f))
     (ret rows)))"

end
