(* ===== verification/Decision.thy ===== *)
theory Decision
  imports Tender_Tables
begin

text \<open>
  Go/No-Go and Bid/No-Bid decisions: \<open>packages/decision/decision_model.py\<close>,
  \<open>packages/decision/decision_store.py\<close> and \<open>apps/api_tender/routers/decision.py\<close> on the tables of
  migration 0014. The record also holds the tables of the execution ledger (0016) and of the
  calibration loop (0017), whose theories follow.

  \<open>datetime.now(UTC).isoformat()\<close> read back by \<open>fromisoformat\<close> is the clock; \<open>isof\<close> prints a time.
  The offers of the vendor service are an argument, \<open>None\<close> when the call raises
  \<open>VendorApiError\<close>.
\<close>

definition DECISION_TYPES :: "string list" where
  "DECISION_TYPES = [''go'', ''no_go'', ''bid'', ''no_bid'', ''conditional_bid'']"

record go_no_go_inputs =
  gng_tender_id :: int
  company_profile_notes :: string
  qualification_notes :: string
  financing_notes :: string
  customer_reputation_notes :: string
  pre_designated_winner_suspected :: bool
  gng_entered_by :: string
  gng_entered_at :: int

record decision =
  decision_tender_id :: int
  decision_type :: string
  conditions :: "string list"
  deadline :: "int option"
  justification :: string
  decision_actor :: string
  decided_at :: int
  go_no_go_inputs_id :: "int option"
  bid_readiness_candidate_id :: "int option"

record lock_in_requirement =
  lock_tender_id :: int
  lock_decision_id :: int
  lock_line_id :: int
  lock_vendor_id :: int
  lock_vendor_name :: string
  lock_status :: string

record execution_fact =
  fact_tender_id :: int
  fact_line_id :: "int option"
  planned_qty :: "dec option"
  actual_qty :: "dec option"
  deviation_reason :: string
  deviation_category :: "string option"
  culprit_type :: string
  culprit_vendor_name :: "string option"
  culprit_vendor_id :: "int option"
  evidence_source :: string
  observed_at :: string

record napkin_evidence =
  ev_tender_id :: int
  capture_kind :: string
  mime_type :: string
  ev_checksum :: string
  raw_bytes :: string
  ev_correlation_id :: string

record contribution =
  contribution_tender_id :: int
  contribution_category :: string
  fact_count :: nat
  contributed_at :: int

record tender_outcome =
  outcome_tender_id :: int
  outcome :: string
  out_submitted_amount :: "dec option"
  out_winner_name :: "string option"
  out_winner_amount :: "dec option"
  out_currency :: "string option"
  out_announced_at :: "int option"
  source_ref :: string
  out_entered_by :: string
  out_entered_at :: int

record loss_reason_row =
  loss_outcome_id :: int
  loss_reason :: string
  loss_note :: string
  loss_entered_by :: string
  loss_entered_at :: int

record decision_db = tender_db +
  go_no_go :: "(int \<times> go_no_go_inputs) list"
  readiness :: "(int \<times> bid_readiness_candidate) list"
  decisions :: "(int \<times> decision) list"
  lock_ins :: "(int \<times> lock_in_requirement) list"
  execution_facts :: "(int \<times> execution_fact) list"
  napkin_evidence_rows :: "(int \<times> napkin_evidence) list"
  contributions :: "(int \<times> contribution) list"
  outcomes :: "(int \<times> tender_outcome) list"
  loss_reasons :: "(int \<times> loss_reason_row) list"

type_synonym 'a decision_op = "(decision_db, api_error, 'a) db"

definition tender_exists :: "decision_db \<Rightarrow> int \<Rightarrow> bool" where
  "tender_exists s tid \<longleftrightarrow> tid \<in> fst ` set (tenders s)"

section \<open>The store\<close>

definition mk_decision :: "decision \<Rightarrow> decision decision_op" where
  "mk_decision d =
     then_db (guard (decision_type d \<in> set DECISION_TYPES) (Exc ''ValueError'' [decision_type d])) (ret d)"

definition store_go_no_go_inputs :: "go_no_go_inputs \<Rightarrow> int decision_op" where
  "store_go_no_go_inputs x =
     bind (gets id) (\<lambda>s.
     then_db (guard (tender_exists s (gng_tender_id x)) (Exc ''IntegrityError'' [''go_no_go_inputs_tender_id_fkey''])) (
     let i = next_id (go_no_go s) in
     then_db (modify (\<lambda>s. s\<lparr>go_no_go := go_no_go s @ [(i, x)]\<rparr>)) (ret i)))"

definition load_go_no_go_inputs :: "decision_db \<Rightarrow> int \<Rightarrow> go_no_go_inputs option" where
  "load_go_no_go_inputs s i = map_of (go_no_go s) i"

definition store_bid_readiness_candidate :: "bid_readiness_candidate \<Rightarrow> int decision_op" where
  "store_bid_readiness_candidate x =
     bind (gets id) (\<lambda>s.
     then_db (guard (tender_exists s (brc_tender_id x)) (Exc ''IntegrityError'' [''bid_readiness_candidates_tender_id_fkey''])) (
     let i = next_id (readiness s) in
     then_db (modify (\<lambda>s. s\<lparr>readiness := readiness s @ [(i, x)]\<rparr>)) (ret i)))"

definition load_bid_readiness_candidate :: "int \<Rightarrow> bid_readiness_candidate decision_op" where
  "load_bid_readiness_candidate i =
     bind (gets (\<lambda>s. map_of (readiness s) i)) (\<lambda>row.
     case row of None \<Rightarrow> raise (Exc ''ValueError'' [str_int i]) | Some c \<Rightarrow> ret c)"

definition store_decision :: "decision \<Rightarrow> int decision_op" where
  "store_decision d =
     bind (gets id) (\<lambda>s.
     then_db (guard (tender_exists s (decision_tender_id d)) (Exc ''IntegrityError'' [''decisions_tender_id_fkey''])) (
     then_db (guard (case go_no_go_inputs_id d of None \<Rightarrow> True | Some k \<Rightarrow> k \<in> fst ` set (go_no_go s))
       (Exc ''IntegrityError'' [''decisions_go_no_go_inputs_id_fkey''])) (
     then_db (guard (case bid_readiness_candidate_id d of None \<Rightarrow> True | Some k \<Rightarrow> k \<in> fst ` set (readiness s))
       (Exc ''IntegrityError'' [''decisions_bid_readiness_candidate_id_fkey''])) (
     let i = next_id (decisions s) in
     then_db (modify (\<lambda>s. s\<lparr>decisions := decisions s @ [(i, d)]\<rparr>)) (ret i)))))"

definition store_lock_in_requirement :: "int \<Rightarrow> int \<Rightarrow> critical_line \<Rightarrow> int decision_op" where
  "store_lock_in_requirement tid did c =
     bind (gets id) (\<lambda>s.
     then_db (guard (tender_exists s tid) (Exc ''IntegrityError'' [''lock_in_requirements_tender_id_fkey''])) (
     then_db (guard (did \<in> fst ` set (decisions s)) (Exc ''IntegrityError'' [''lock_in_requirements_decision_id_fkey''])) (
     let i = next_id (lock_ins s) in
     then_db (modify (\<lambda>s. s\<lparr>lock_ins := lock_ins s @ [(i,
        \<lparr>lock_tender_id = tid, lock_decision_id = did, lock_line_id = critical_line_id c,
         lock_vendor_id = critical_vendor_id c, lock_vendor_name = critical_vendor_name c, lock_status = ''pending''\<rparr>)]\<rparr>))
     (ret i))))"

definition list_lock_in_requirements_by_tender :: "decision_db \<Rightarrow> int \<Rightarrow> (int \<times> lock_in_requirement) list" where
  "list_lock_in_requirements_by_tender s tid =
     sort_key fst (filter (\<lambda>(i, l). lock_tender_id l = tid) (lock_ins s))"

text \<open>\<open>ORDER BY decided_at DESC, id DESC\<close>: the first row is the latest decision.\<close>

definition decisions_latest_first :: "decision_db \<Rightarrow> int \<Rightarrow> (int \<times> decision) list" where
  "decisions_latest_first s tid =
     sort_key (\<lambda>(i, d). - decided_at d) (sort_key (\<lambda>(i, d). - i) (filter (\<lambda>(i, d). decision_tender_id d = tid) (decisions s)))"

definition get_latest_decision_type :: "decision_db \<Rightarrow> int \<Rightarrow> string option" where
  "get_latest_decision_type s tid =
     (case decisions_latest_first s tid of [] \<Rightarrow> None | (i, d) # _ \<Rightarrow> Some (decision_type d))"

definition list_tenders_with_active_bid_decision :: "decision_db \<Rightarrow> int list" where
  "list_tenders_with_active_bid_decision s =
     filter (\<lambda>tid. get_latest_decision_type s tid \<in> {Some ''bid'', Some ''conditional_bid''})
       (sorted_set (map (decision_tender_id \<circ> snd) (decisions s)))"

definition list_decision_cycle_seconds :: "decision_db \<Rightarrow> (int \<times> int \<times> string \<times> int) list" where
  "list_decision_cycle_seconds s =
     List.map_filter (\<lambda>(i, d).
       case bid_readiness_candidate_id d of
         None \<Rightarrow> None
       | Some k \<Rightarrow> map_option (\<lambda>c. (i, decision_tender_id d, decision_type d, decided_at d - computed_at c)) (map_of (readiness s) k))
       (sort_key (decided_at \<circ> snd) (decisions s))"

section \<open>The routes\<close>

definition create_go_no_go_inputs :: "(jobject \<Rightarrow> string) \<Rightarrow> (int \<Rightarrow> string) \<Rightarrow> string option \<Rightarrow> string \<Rightarrow> int \<Rightarrow>
    string \<Rightarrow> string \<Rightarrow> string \<Rightarrow> string \<Rightarrow> bool \<Rightarrow> jobject decision_op" where
  "create_go_no_go_inputs fp isof cookie key tid company qualification financing reputation suspected =
     (let dump = [(''company_profile_notes'', JStr company), (''qualification_notes'', JStr qualification),
          (''financing_notes'', JStr financing), (''customer_reputation_notes'', JStr reputation),
          (''pre_designated_winner_suspected'', JBool suspected)] in
     route_of ''decision.go_no_go.create'' cookie (\<lambda>ident.
     idempotent key ''POST /tenders/{tender_id}/go-no-go-inputs'' (fp ((''tender_id'', JInt tid) # dump)) (
     bind (gets clock) (\<lambda>t.
     bind (catch (store_go_no_go_inputs
         \<lparr>gng_tender_id = tid, company_profile_notes = company, qualification_notes = qualification,
          financing_notes = financing, customer_reputation_notes = reputation,
          pre_designated_winner_suspected = suspected, gng_entered_by = subject ident, gng_entered_at = t\<rparr>)
        (except_class ''IntegrityError'' (\<lambda>_. ApiError 422 ''invalid_reference'' [str_int tid]))) (\<lambda>i.
     then_db (write_audit_log (subject ident) ''go_no_go_inputs.create'' ''go_no_go_inputs'' (str_int i) None None)
     (ret ([(''id'', JInt i), (''tender_id'', JInt tid)] @ dump @
        [(''entered_by'', JStr (subject ident)), (''entered_at'', JStr (isof t))])))))))"

definition get_bid_readiness_candidate :: "(string \<Rightarrow> string) \<Rightarrow> string option \<Rightarrow> int \<Rightarrow> bool \<Rightarrow> int \<Rightarrow> vendor_offer list option \<Rightarrow>
    (int \<times> bid_readiness_candidate) decision_op" where
  "get_bid_readiness_candidate lower cookie tid aware as_of offers =
     route_of ''decision.bid_readiness.read'' cookie (\<lambda>ident.
     then_db (guard aware (ApiError 422 ''naive_datetime'' [])) (
     bind (get_event_id_for_tender tid) (\<lambda>ev.
     case ev of
       None \<Rightarrow> raise (ApiError 404 ''not_found'' [str_int tid])
     | Some ev \<Rightarrow>
         bind (gets (\<lambda>s. list_boq_lines_by_event s ''etender'' ev)) (\<lambda>ls.
         then_db (guard (ls \<noteq> []) (ApiError 404 ''not_found'' [str_int tid])) (
         case offers of
           None \<Rightarrow> raise (ApiError 502 ''vendor_service_unavailable'' [])
         | Some offers \<Rightarrow>
             bind (gets clock) (\<lambda>t.
             case build_bid_readiness_candidate lower tid ls offers as_of t of
               None \<Rightarrow> raise (Exc ''KeyError'' [])
             | Some c \<Rightarrow>
                 bind (store_bid_readiness_candidate c) (\<lambda>i.
                 ret (i, c))))))))"

text \<open>The references of a decision must be of the same tender.\<close>

definition check_go_no_go :: "int \<Rightarrow> int option \<Rightarrow> unit decision_op" where
  "check_go_no_go tid ref =
     (case ref of
        None \<Rightarrow> ret ()
      | Some k \<Rightarrow>
          bind (gets (\<lambda>s. load_go_no_go_inputs s k)) (\<lambda>row.
          guard (case row of None \<Rightarrow> False | Some x \<Rightarrow> gng_tender_id x = tid)
            (ApiError 422 ''invalid_reference'' [str_int k, str_int tid])))"

definition check_candidate :: "int \<Rightarrow> int option \<Rightarrow> bid_readiness_candidate option decision_op" where
  "check_candidate tid ref =
     (case ref of
        None \<Rightarrow> ret None
      | Some k \<Rightarrow>
          bind (catch (load_bid_readiness_candidate k)
             (except_class ''ValueError'' (ApiError 422 ''invalid_reference''))) (\<lambda>c.
          then_db (guard (brc_tender_id c = tid) (ApiError 422 ''invalid_reference'' [str_int k, str_int tid]))
          (ret (Some c))))"

fun store_lock_ins :: "int \<Rightarrow> int \<Rightarrow> critical_line list \<Rightarrow> jobject list decision_op" where
  "store_lock_ins tid did [] = ret []"
| "store_lock_ins tid did (c # cs) =
     bind (store_lock_in_requirement tid did c) (\<lambda>i.
     bind (store_lock_ins tid did cs) (\<lambda>rest.
     ret ([(''id'', JInt i), (''boqline_source_line_id'', JInt (critical_line_id c)),
        (''vendor_id'', JInt (critical_vendor_id c)), (''vendor_name'', JStr (critical_vendor_name c)),
        (''status'', JStr ''pending'')] # rest)))"

record decision_request =
  req_decision_type :: string
  req_conditions :: "string list"
  req_deadline :: "int option"
  req_justification :: string
  req_go_no_go_inputs_id :: "int option"
  req_candidate_id :: "int option"

definition opt_dump :: "('x \<Rightarrow> json) \<Rightarrow> 'x option \<Rightarrow> json" where
  "opt_dump f x = (case x of None \<Rightarrow> JNull | Some y \<Rightarrow> f y)"

definition decision_request_dump :: "(int \<Rightarrow> string) \<Rightarrow> decision_request \<Rightarrow> jobject" where
  "decision_request_dump isof b =
     [(''decision_type'', JStr (req_decision_type b)), (''conditions'', JArr (map JStr (req_conditions b))),
      (''deadline'', opt_dump (JStr \<circ> isof) (req_deadline b)), (''justification'', JStr (req_justification b)),
      (''go_no_go_inputs_id'', opt_dump JInt (req_go_no_go_inputs_id b)),
      (''bid_readiness_candidate_id'', opt_dump JInt (req_candidate_id b))]"

definition decision_work :: "(int \<Rightarrow> string) \<Rightarrow> identity \<Rightarrow> int \<Rightarrow> decision_request \<Rightarrow> jobject decision_op" where
  "decision_work isof ident tid b =
     then_db (check_go_no_go tid (req_go_no_go_inputs_id b)) (
     bind (check_candidate tid (req_candidate_id b)) (\<lambda>candidate.
     bind (gets clock) (\<lambda>t.
     bind (mk_decision \<lparr>decision_tender_id = tid, decision_type = req_decision_type b, conditions = req_conditions b,
        deadline = req_deadline b, justification = req_justification b, decision_actor = subject ident, decided_at = t,
        go_no_go_inputs_id = req_go_no_go_inputs_id b, bid_readiness_candidate_id = req_candidate_id b\<rparr>) (\<lambda>d.
     bind (catch (store_decision d)
        (except_class ''IntegrityError'' (\<lambda>_. ApiError 422 ''invalid_reference'' [str_int tid]))) (\<lambda>did.
     then_db (write_audit_log (subject ident) ''decision.create'' ''decision'' (str_int did) None (Some (justification d))) (
     bind (case candidate of
             None \<Rightarrow> ret []
           | Some c \<Rightarrow>
               if req_decision_type b \<in> {''bid'', ''conditional_bid''} then store_lock_ins tid did (critical_lines c)
               else ret []) (\<lambda>locks.
     ret [(''id'', JInt did), (''tender_id'', JInt tid), (''decision_type'', JStr (decision_type d)),
        (''conditions'', JArr (map JStr (conditions d))), (''deadline'', opt_dump (JStr \<circ> isof) (deadline d)),
        (''justification'', JStr (justification d)), (''actor'', JStr (decision_actor d)),
        (''decided_at'', JStr (isof (decided_at d))), (''lock_in_requirements'', JArr (map JObj locks))])))))))"

definition create_decision :: "(jobject \<Rightarrow> string) \<Rightarrow> (int \<Rightarrow> string) \<Rightarrow> string option \<Rightarrow> string \<Rightarrow> int \<Rightarrow> decision_request \<Rightarrow>
    jobject decision_op" where
  "create_decision fp isof cookie key tid b =
     route_of ''decision.decisions.create'' cookie (\<lambda>ident.
     then_db (guard (req_decision_type b \<in> set DECISION_TYPES)
       (ApiError 422 ''unknown_decision_type'' [req_decision_type b]))
     (idempotent key ''POST /tenders/{tender_id}/decisions'' (fp ((''tender_id'', JInt tid) # decision_request_dump isof b))
       (decision_work isof ident tid b)))"

end
