(* ===== verification/Ledger.thy ===== *)
theory Ledger
  imports Decision
begin

text \<open>
  The execution ledger: \<open>packages/decision/execution_fact_model.py\<close>, \<open>execution_fact_resolution.py\<close>,
  \<open>execution_ledger_store.py\<close>, \<open>execution_ledger_summary.py\<close>, \<open>execution_napkin_evidence.py\<close>,
  \<open>execution_napkin_provider.py\<close>, \<open>reputation_feed.py\<close> and \<open>apps/api_tender/routers/execution_ledger.py\<close>.

  What is not the program's own is an argument, collected in \<open>ledger_env\<close>: \<open>str.lower\<close>, SHA-256,
  \<open>fromisoformat\<close>, \<open>isoformat\<close>, \<open>str\<close> and \<open>Decimal(str(x))\<close> of a JSON value, the OCR engine with
  \<open>json.loads\<close> of its text (\<open>Inl\<close> is the message of \<open>OcrEngineError\<close> or of the decoder) and the call
  to the vendor service (\<open>False\<close> is \<open>VendorApiError\<close>).
\<close>

definition DEVIATION_CATEGORIES :: "string list" where
  "DEVIATION_CATEGORIES = [''preliminaries'', ''downtime'', ''rework'', ''last_mile'']"

definition CULPRIT_TYPES :: "string list" where
  "CULPRIT_TYPES = [''vendor'', ''customer'', ''internal'', ''external'']"

record ledger_env =
  env_lower :: "string \<Rightarrow> string"
  env_sha :: "string \<Rightarrow> string"
  env_parse_iso :: "string \<Rightarrow> int option"
  env_iso :: "int \<Rightarrow> string"
  env_str :: "json \<Rightarrow> string"
  env_decimal :: "json \<Rightarrow> dec option"
  env_ocr :: "string \<Rightarrow> string + json"
  env_report :: "int \<Rightarrow> string \<Rightarrow> string \<Rightarrow> string \<Rightarrow> string \<Rightarrow> int \<Rightarrow> bool"

section \<open>Facts\<close>

text \<open>\<open>ExecutionFact.__post_init__\<close>; the string is the message of the \<open>ValueError\<close>.\<close>

definition mk_execution_fact :: "execution_fact \<Rightarrow> string + execution_fact" where
  "mk_execution_fact f =
     (if culprit_type f \<notin> set CULPRIT_TYPES then Inl ''unknown culprit_type''
      else if (case deviation_category f of None \<Rightarrow> False | Some c \<Rightarrow> c \<notin> set DEVIATION_CATEGORIES)
      then Inl ''unknown deviation_category''
      else if culprit_type f = ''vendor'' then
        (if culprit_vendor_name f \<in> {None, Some []} then Inl ''culprit_vendor_name is required'' else Inr f)
      else if culprit_vendor_name f \<noteq> None then Inl ''culprit_vendor_name must be None''
      else if culprit_vendor_id f \<noteq> None then Inl ''culprit_vendor_id must be None''
      else Inr f)"

definition resolve_boqline_reference :: "(string \<Rightarrow> string) \<Rightarrow> boq_line list \<Rightarrow> string option \<Rightarrow> boq_line option" where
  "resolve_boqline_reference lower ls d =
     (case d of
        None \<Rightarrow> None
      | Some d \<Rightarrow>
          (let needle = lower (py_strip d) in
           if d = [] \<or> needle = [] then None else find (\<lambda>l. contains needle (lower (description l))) ls))"

definition resolve_vendor_reference :: "(string \<Rightarrow> string) \<Rightarrow> (int \<times> lock_in_requirement) list \<Rightarrow> string option \<Rightarrow> int option" where
  "resolve_vendor_reference lower locks name =
     (case name of
        None \<Rightarrow> None
      | Some n \<Rightarrow>
          (let needle = lower (py_strip n) in
           if n = [] \<or> needle = [] then None
           else map_option (lock_vendor_id \<circ> snd) (find (\<lambda>(i, l). lower (py_strip (lock_vendor_name l)) = needle) locks)))"

definition store_execution_fact :: "ledger_env \<Rightarrow> execution_fact \<Rightarrow> int decision_op" where
  "store_execution_fact env f =
     bind (gets id) (\<lambda>s.
     then_db (guard (env_parse_iso env (observed_at f) \<noteq> None) (Exc ''ValueError'' [observed_at f])) (
     then_db (guard (tender_exists s (fact_tender_id f)) (Exc ''IntegrityError'' [''execution_facts_tender_id_fkey''])) (
     then_db (guard (culprit_type f \<in> set CULPRIT_TYPES \<and>
         (case deviation_category f of None \<Rightarrow> True | Some c \<Rightarrow> c \<in> set DEVIATION_CATEGORIES))
       (Exc ''IntegrityError'' [''execution_facts_check''])) (
     let i = next_id (execution_facts s) in
     then_db (modify (\<lambda>s. s\<lparr>execution_facts := execution_facts s @ [(i, f)]\<rparr>)) (ret i)))))"

definition list_execution_facts_by_tender :: "decision_db \<Rightarrow> int \<Rightarrow> (int \<times> execution_fact) list" where
  "list_execution_facts_by_tender s tid = sort_key fst (filter (\<lambda>(i, f). fact_tender_id f = tid) (execution_facts s))"

definition store_overhead_buffer_contribution :: "int \<Rightarrow> string \<Rightarrow> nat \<Rightarrow> int decision_op" where
  "store_overhead_buffer_contribution tid cat n =
     bind (gets id) (\<lambda>s.
     then_db (guard (tender_exists s tid) (Exc ''IntegrityError'' [''overhead_buffer_contributions_tender_id_fkey''])) (
     then_db (guard (cat \<in> set DEVIATION_CATEGORIES) (Exc ''IntegrityError'' [''overhead_buffer_contributions_check''])) (
     let i = next_id (contributions s) in
     then_db (modify (\<lambda>s. s\<lparr>contributions := contributions s @ [(i,
        \<lparr>contribution_tender_id = tid, contribution_category = cat, fact_count = n, contributed_at = clock s\<rparr>)]\<rparr>)) (ret i))))"

text \<open>
  \<open>DISTINCT ON (tender_id) ... ORDER BY tender_id, id DESC\<close>: the newest version of each tender;
  \<open>->>\<close> compares its field as text.
\<close>

definition newest_version :: "'t tender_db_scheme \<Rightarrow> int \<Rightarrow> tender_version option" where
  "newest_version s tid =
     (case sort_key (\<lambda>(i, v). - i) (versions_of s tid) of [] \<Rightarrow> None | (i, v) # _ \<Rightarrow> Some v)"

definition tender_of_voen :: "'t tender_db_scheme \<Rightarrow> string \<Rightarrow> int \<Rightarrow> bool" where
  "tender_of_voen s voen tid \<longleftrightarrow>
     (case newest_version s tid of
        None \<Rightarrow> False
      | Some v \<Rightarrow> jget (normalized_fields v) ''organization_voen'' = JStr voen \<or>
          (case jget (normalized_fields v) ''organization_voen'' of JInt i \<Rightarrow> str_int i = voen | _ \<Rightarrow> False))"

definition list_execution_facts_by_organization_voen :: "decision_db \<Rightarrow> string \<Rightarrow> (int \<times> execution_fact) list" where
  "list_execution_facts_by_organization_voen s voen =
     sort_key (fact_tender_id \<circ> snd) (sort_key fst
       (filter (\<lambda>(i, f). culprit_type f = ''customer'' \<and> tender_of_voen s voen (fact_tender_id f)) (execution_facts s)))"

section \<open>Plan against fact\<close>

record plan_fact_delta =
  delta_line_id :: int
  delta_planned :: dec
  delta_actual :: dec
  delta :: dec

definition delta_of_fact :: "execution_fact \<Rightarrow> plan_fact_delta option" where
  "delta_of_fact f =
     (case (fact_line_id f, planned_qty f, actual_qty f) of
        (Some l, Some p, Some a) \<Rightarrow> Some \<lparr>delta_line_id = l, delta_planned = p, delta_actual = a, delta = dec_sub a p\<rparr>
      | _ \<Rightarrow> None)"

definition summarize_plan_fact_deltas :: "execution_fact list \<Rightarrow> plan_fact_delta list" where
  "summarize_plan_fact_deltas fs = sort_key delta_line_id (List.map_filter delta_of_fact fs)"

definition summarize_deviation_category_counts :: "execution_fact list \<Rightarrow> (string \<times> nat) list" where
  "summarize_deviation_category_counts fs = count_dict (List.map_filter deviation_category fs)"

section \<open>Evidence\<close>

definition save_execution_napkin_evidence :: "ledger_env \<Rightarrow> int \<Rightarrow> string \<Rightarrow> string \<Rightarrow> string \<Rightarrow> string \<Rightarrow> int decision_op" where
  "save_execution_napkin_evidence env tid kind raw mime cid =
     bind (gets id) (\<lambda>s.
     then_db (guard (tender_exists s tid) (Exc ''IntegrityError'' [''execution_napkin_evidence_tender_id_fkey''])) (
     then_db (guard (kind \<in> {''photo'', ''voice''}) (Exc ''IntegrityError'' [''execution_napkin_evidence_capture_kind_check''])) (
     let i = next_id (napkin_evidence_rows s) in
     then_db (modify (\<lambda>s. s\<lparr>napkin_evidence_rows := napkin_evidence_rows s @ [(i,
        \<lparr>ev_tender_id = tid, capture_kind = kind, mime_type = mime, ev_checksum = env_sha env raw, raw_bytes = raw,
         ev_correlation_id = cid\<rparr>)]\<rparr>)) (ret i))))"

definition get_execution_napkin_evidence :: "int \<Rightarrow> napkin_evidence decision_op" where
  "get_execution_napkin_evidence i =
     bind (gets (\<lambda>s. map_of (napkin_evidence_rows s) i)) (\<lambda>row.
     case row of None \<Rightarrow> raise (Exc ''NoResultFound'' []) | Some e \<Rightarrow> ret e)"

section \<open>The provider\<close>

definition str_or_none :: "json \<Rightarrow> string option option" where
  "str_or_none j = (case j of JNull \<Rightarrow> Some None | JStr s \<Rightarrow> Some (Some s) | _ \<Rightarrow> None)"

definition one_of :: "string list \<Rightarrow> json \<Rightarrow> string option" where
  "one_of xs j = (case j of JStr s \<Rightarrow> if s \<in> set xs then Some s else None | _ \<Rightarrow> None)"

text \<open>One observation; \<open>Inl\<close> names the check that raises \<open>ExecutionNapkinParseError\<close>.\<close>

definition parse_observation :: "ledger_env \<Rightarrow> string \<Rightarrow> int \<Rightarrow> boq_line list \<Rightarrow> (int \<times> lock_in_requirement) list \<Rightarrow>
    string \<Rightarrow> json \<Rightarrow> string + execution_fact" where
  "parse_observation env ev_source tid ls locks fallback j =
     (case j of
        JObj obs \<Rightarrow>
          (case (str_or_none (jget obs ''line_description''), str_or_none (jget obs ''culprit_vendor_name'')) of
             (Some line_desc, Some vname) \<Rightarrow>
               if \<not> truthy (jget obs ''deviation_reason'') then Inl ''deviation_reason''
               else (case one_of CULPRIT_TYPES (jget obs ''culprit_type'') of
                 None \<Rightarrow> Inl ''culprit_type''
               | Some ctype \<Rightarrow>
                   let cat_json = jget obs ''deviation_category''; cat = one_of DEVIATION_CATEGORIES cat_json in
                   if cat_json \<noteq> JNull \<and> cat = None then Inl ''deviation_category''
                   else if ctype = ''vendor'' \<and> vname \<in> {None, Some []} then Inl ''culprit_vendor_name''
                   else
                     let name = (if ctype \<noteq> ''vendor'' then None else vname);
                         line = resolve_boqline_reference (env_lower env) ls line_desc;
                         vid = (if ctype = ''vendor'' then resolve_vendor_reference (env_lower env) locks name else None);
                         obs_at = (if truthy (jget obs ''observed_at'') then jget obs ''observed_at'' else JStr fallback);
                         qty_json = jget obs ''actual_qty'';
                         q = (if qty_json = JNull then Some None else map_option Some (env_decimal env qty_json)) in
                     (case obs_at of
                        JStr at_text \<Rightarrow>
                          if env_parse_iso env at_text = None then Inl ''observed_at''
                          else (case q of
                            None \<Rightarrow> Inl ''actual_qty''
                          | Some q \<Rightarrow>
                              mk_execution_fact
                                \<lparr>fact_tender_id = tid, fact_line_id = map_option source_line_id line,
                                 planned_qty = map_option qty line, actual_qty = q,
                                 deviation_reason = env_str env (jget obs ''deviation_reason''), deviation_category = cat,
                                 culprit_type = ctype, culprit_vendor_name = name, culprit_vendor_id = vid,
                                 evidence_source = ev_source, observed_at = at_text\<rparr>)
                      | _ \<Rightarrow> Inl ''observed_at''))
           | _ \<Rightarrow> Inl ''non-string'')
      | _ \<Rightarrow> Inl ''not an object'')"

fun parse_observations :: "(json \<Rightarrow> string + execution_fact) \<Rightarrow> json list \<Rightarrow> string + execution_fact list" where
  "parse_observations f [] = Inr []"
| "parse_observations f (j # js) =
     (case f j of
        Inl e \<Rightarrow> Inl e
      | Inr x \<Rightarrow> (case parse_observations f js of Inl e \<Rightarrow> Inl e | Inr xs \<Rightarrow> Inr (x # xs)))"

definition generate :: "ledger_env \<Rightarrow> string \<Rightarrow> int \<Rightarrow> int \<Rightarrow> boq_line list \<Rightarrow> (int \<times> lock_in_requirement) list \<Rightarrow> string \<Rightarrow>
    string + execution_fact list" where
  "generate env img ev_id tid ls locks fallback =
     (case env_ocr env img of
        Inl e \<Rightarrow> Inl e
      | Inr (JObj payload) \<Rightarrow>
          (case jget payload ''observations'' of
             JArr js \<Rightarrow> parse_observations (parse_observation env (''napkin-ocr:'' @ str_int ev_id) tid ls locks fallback) js
           | _ \<Rightarrow> Inl ''observations'')
      | Inr _ \<Rightarrow> Inl ''observations'')"

definition map_to_reputation_event_type :: "string option \<Rightarrow> string \<Rightarrow> string option" where
  "map_to_reputation_event_type cat ctype =
     (if ctype \<noteq> ''vendor'' then None
      else case cat of
        None \<Rightarrow> None
      | Some c \<Rightarrow> map_of [(''downtime'', ''missed_deadline''), (''last_mile'', ''missed_deadline''), (''rework'', ''quality_complaint'')] c)"

section \<open>The routes\<close>

definition require_active_bid_decision :: "int \<Rightarrow> unit decision_op" where
  "require_active_bid_decision tid =
     bind (gets (\<lambda>s. get_latest_decision_type s tid)) (\<lambda>d.
     guard (d \<in> {Some ''bid'', Some ''conditional_bid''}) (ApiError 409 ''tender_not_decided_bid'' [str_int tid]))"

definition queue_gap :: "string \<Rightarrow> string \<Rightarrow> string \<Rightarrow> unit decision_op" where
  "queue_gap etype why cid =
     bind (enqueue_exception ''execution-ledger'' etype ''needs_human'' why cid None None) (\<lambda>_. ret ())"

text \<open>The reputation feed of one stored fact, \<open>n\<close> its position among the drafts.\<close>

definition feed_reputation :: "ledger_env \<Rightarrow> string \<Rightarrow> int \<Rightarrow> int option \<Rightarrow> nat \<Rightarrow> execution_fact \<Rightarrow> unit decision_op" where
  "feed_reputation env cid tid ttl n f =
     (case map_to_reputation_event_type (deviation_category f) (culprit_type f) of
        None \<Rightarrow> ret ()
      | Some etype \<Rightarrow>
          (let fact_cid = cid @ '':'' @ str_int (int n) in
           case culprit_vendor_id f of
             None \<Rightarrow> queue_gap ''vendor_reputation_unresolved_vendor'' etype fact_cid
           | Some v \<Rightarrow>
               (case ttl of
                  None \<Rightarrow> queue_gap ''vendor_reputation_ttl_missing'' etype fact_cid
                | Some days \<Rightarrow>
                    if env_report env v etype (str_int tid) (evidence_source f) (observed_at f) days then ret ()
                    else queue_gap ''vendor_reputation_feed_failed'' etype fact_cid)))"

fun store_drafts :: "ledger_env \<Rightarrow> string \<Rightarrow> int \<Rightarrow> int option \<Rightarrow> nat \<Rightarrow> execution_fact list \<Rightarrow> unit decision_op" where
  "store_drafts env cid tid ttl n [] = ret ()"
| "store_drafts env cid tid ttl n (f # fs) =
     bind (store_execution_fact env f) (\<lambda>_.
     then_db (feed_reputation env cid tid ttl n f)
     (store_drafts env cid tid ttl (Suc n) fs))"

record napkin_request =
  req_capture_kind :: string
  req_mime_type :: string
  req_image :: "string option"
  req_ttl_days :: "int option"

text \<open>
  \<open>submit_napkin_capture\<close>: the evidence and the record of an unreadable capture are written in
  transactions of their own, which stay when the rest of the request is rolled back. The
  image is the decoded one, \<open>None\<close> when \<open>b64decode\<close> raises; \<open>configured\<close> says that an OCR engine is
  given or its model is set. The result is the id of the evidence and, for a photo, the facts.
\<close>

definition submit_napkin_capture :: "ledger_env \<Rightarrow> bool \<Rightarrow> string option \<Rightarrow> int \<Rightarrow> napkin_request \<Rightarrow>
    (int \<times> execution_fact list option) decision_op" where
  "submit_napkin_capture env configured cookie tid b = (\<lambda>s.
     case transaction (bind (require_permission ''decision.execution_facts.create'' cookie)
         (\<lambda>ident. then_db (require_active_bid_decision tid) (ret ident))) s of
       (Inl e, s) \<Rightarrow> (Inl e, s)
     | (Inr ident, s) \<Rightarrow>
         (case (req_image b, correlation_id_var s) of
            (Some raw, Some cid) \<Rightarrow>
              (case transaction (save_execution_napkin_evidence env tid (req_capture_kind b) raw (req_mime_type b) cid) s of
                 (Inl e, s1) \<Rightarrow> (Inl e, s1)
               | (Inr ev_id, s1) \<Rightarrow>
                   if req_capture_kind b = ''voice'' then
                     transaction (then_db (write_audit_log (subject ident) ''execution_facts.create''
                       ''execution_napkin_evidence'' (str_int ev_id) None None) (ret (ev_id, None))) s1
                   else if \<not> configured then (Inl (ApiError 503 ''ocr_not_configured'' []), s1)
                   else (case fst (get_event_id_for_tender tid s1) of
                     Inl e \<Rightarrow> (Inl e, s1)
                   | Inr event \<Rightarrow>
                       let ls = (case event of None \<Rightarrow> [] | Some ev \<Rightarrow> list_boq_lines_by_event s1 ''etender'' ev);
                           locks = list_lock_in_requirements_by_tender s1 tid in
                       (case generate env raw ev_id tid ls locks (env_iso env (clock s1)) of
                          Inl why \<Rightarrow>
                            (case transaction (enqueue_exception ''execution-ledger'' ''napkin_unrecognized''
                                ''needs_human'' why cid None None) s1 of
                               (Inl e, s2) \<Rightarrow> (Inl e, s2)
                             | (Inr _, s2) \<Rightarrow> (Inl (ApiError 422 ''napkin_unrecognized'' [why]), s2))
                        | Inr drafts \<Rightarrow>
                            transaction (then_db (store_drafts env cid tid (req_ttl_days b) 0 drafts)
                              (then_db (write_audit_log (subject ident) ''execution_facts.create''
                                 ''execution_napkin_evidence'' (str_int ev_id) None None)
                              (ret (ev_id, Some drafts)))) s1)))
          | (None, _) \<Rightarrow> (Inl (Exc ''binascii.Error'' []), s)
          | (_, None) \<Rightarrow> (Inl (Exc ''RuntimeError'' [''no correlation id bound in this context'']), s)))"

definition get_execution_facts :: "string option \<Rightarrow> int \<Rightarrow> (int \<times> execution_fact) list decision_op" where
  "get_execution_facts cookie tid =
     route_of ''decision.execution_facts.read'' cookie (\<lambda>_. gets (\<lambda>s. list_execution_facts_by_tender s tid))"

definition build_summary :: "decision_db \<Rightarrow> int \<Rightarrow> plan_fact_delta list \<times> (string \<times> nat) list" where
  "build_summary s tid =
     (let fs = map snd (list_execution_facts_by_tender s tid)
      in (summarize_plan_fact_deltas fs, summarize_deviation_category_counts fs))"

definition get_execution_summary :: "string option \<Rightarrow> int \<Rightarrow> (plan_fact_delta list \<times> (string \<times> nat) list) decision_op" where
  "get_execution_summary cookie tid =
     route_of ''decision.execution_facts.read'' cookie (\<lambda>_. gets (\<lambda>s. build_summary s tid))"

definition close_project :: "string option \<Rightarrow> int \<Rightarrow> (plan_fact_delta list \<times> (string \<times> nat) list) decision_op" where
  "close_project cookie tid =
     route_of ''decision.execution_facts.close_project'' cookie (\<lambda>ident.
     then_db (require_active_bid_decision tid) (
     bind (gets id) (\<lambda>s.
     then_db (guard (\<not> (\<exists>p \<in> set (contributions s). contribution_tender_id (snd p) = tid))
       (ApiError 409 ''project_already_closed'' [str_int tid])) (
     let summary = build_summary s tid in
     then_db (for_each (\<lambda>(cat, n). bind (store_overhead_buffer_contribution tid cat n) (\<lambda>_. ret ())) (snd summary)) (
     then_db (write_audit_log (subject ident) ''execution_ledger.close_project'' ''tender'' (str_int tid) None None)
     (ret summary))))))"

definition get_organization_execution_history :: "string option \<Rightarrow> string \<Rightarrow> (int \<times> execution_fact) list decision_op" where
  "get_organization_execution_history cookie voen =
     route_of ''decision.execution_facts.read'' cookie (\<lambda>_. gets (\<lambda>s. list_execution_facts_by_organization_voen s voen))"

end
