(* ===== verification/Calibration.thy ===== *)
theory Calibration
  imports Ledger
begin

text \<open>
  The calibration loop: \<open>packages/decision/calibration_model.py\<close>, \<open>calibration_store.py\<close>,
  \<open>calibration_summary.py\<close> and the routes on outcomes, loss reasons, overhead buffers and the
  price comparison of \<open>apps/api_tender/routers/calibration.py\<close>.

  \<open>num\<close> reads an amount as the database does (\<open>None\<close> is its error), \<open>parse\<close> is \<open>fromisoformat\<close>.
\<close>

definition OUTCOME_TYPES :: "string list" where
  "OUTCOME_TYPES = [''won'', ''lost'', ''cancelled'']"

definition LOSS_REASONS :: "string list" where
  "LOSS_REASONS = [''competitor_cheap_access'', ''dumping'', ''drawn_tender'', ''other'']"

record outcome_request =
  or_outcome :: string
  or_our_submitted_amount :: "string option"
  or_winner_name :: "string option"
  or_winner_amount :: "string option"
  or_currency :: "string option"
  or_announced_at :: "string option"
  or_source_ref :: string

text \<open>\<open>TenderOutcome.__post_init__\<close> and \<open>LossReason.__post_init__\<close>.\<close>

definition outcome_valid :: "outcome_request \<Rightarrow> bool" where
  "outcome_valid p \<longleftrightarrow> or_outcome p \<in> set OUTCOME_TYPES \<and> \<not> blank (or_source_ref p)"

definition loss_reason_valid :: "string \<Rightarrow> string \<Rightarrow> bool" where
  "loss_reason_valid r note_text \<longleftrightarrow> r \<in> set LOSS_REASONS \<and> (r = ''other'' \<longrightarrow> \<not> blank note_text)"

section \<open>The store\<close>

text \<open>\<open>_ts\<close>, and the amounts as the driver binds them: \<open>None\<close> stays null, a bad text raises.\<close>

definition read_opt :: "(string \<Rightarrow> 'x option) \<Rightarrow> string \<Rightarrow> string option \<Rightarrow> 'x option decision_op" where
  "read_opt f cls v =
     (case v of
        None \<Rightarrow> ret None
      | Some t \<Rightarrow> (case f t of None \<Rightarrow> raise (Exc cls [t]) | Some x \<Rightarrow> ret (Some x)))"

definition load_tender_outcome :: "decision_db \<Rightarrow> int \<Rightarrow> (int \<times> tender_outcome) option" where
  "load_tender_outcome s tid = find (\<lambda>(i, r). outcome_tender_id r = tid) (outcomes s)"

definition store_tender_outcome :: "(string \<Rightarrow> dec option) \<Rightarrow> (string \<Rightarrow> int option) \<Rightarrow> int \<Rightarrow> outcome_request \<Rightarrow> string \<Rightarrow> int \<Rightarrow>
    int decision_op" where
  "store_tender_outcome num parse tid p who t =
     bind (read_opt parse ''ValueError'' (or_announced_at p)) (\<lambda>announced.
     bind (read_opt num ''DBAPIError'' (or_our_submitted_amount p)) (\<lambda>ours.
     bind (read_opt num ''DBAPIError'' (or_winner_amount p)) (\<lambda>winner.
     bind (gets id) (\<lambda>s.
     then_db (guard (tender_exists s tid) (Exc ''IntegrityError'' [''tender_outcomes_tender_id_fkey''])) (
     then_db (guard (or_outcome p \<in> set OUTCOME_TYPES) (Exc ''IntegrityError'' [''tender_outcomes_outcome_check''])) (
     then_db (guard (load_tender_outcome s tid = None) (Exc ''IntegrityError'' [''tender_outcomes_tender_uniq''])) (
     let i = next_id (outcomes s) in
     then_db (modify (\<lambda>s. s\<lparr>outcomes := outcomes s @ [(i,
        \<lparr>outcome_tender_id = tid, outcome = or_outcome p, out_submitted_amount = ours, out_winner_name = or_winner_name p,
         out_winner_amount = winner, out_currency = or_currency p, out_announced_at = announced,
         source_ref = or_source_ref p, out_entered_by = who, out_entered_at = t\<rparr>)]\<rparr>)) (ret i))))))))"

definition store_loss_reason :: "string \<Rightarrow> string \<Rightarrow> string \<Rightarrow> int \<Rightarrow> int \<Rightarrow> int decision_op" where
  "store_loss_reason r note_text who t oid =
     bind (gets id) (\<lambda>s.
     then_db (guard (oid \<in> fst ` set (outcomes s)) (Exc ''IntegrityError'' [''tender_loss_reasons_tender_outcome_id_fkey''])) (
     then_db (guard (r \<in> set LOSS_REASONS) (Exc ''IntegrityError'' [''tender_loss_reasons_loss_reason_check''])) (
     let i = next_id (loss_reasons s) in
     then_db (modify (\<lambda>s. s\<lparr>loss_reasons := loss_reasons s @ [(i,
        \<lparr>loss_outcome_id = oid, loss_reason = r, loss_note = note_text, loss_entered_by = who, loss_entered_at = t\<rparr>)]\<rparr>))
     (ret i))))"

definition list_loss_reasons_by_outcome :: "decision_db \<Rightarrow> int \<Rightarrow> (int \<times> loss_reason_row) list" where
  "list_loss_reasons_by_outcome s oid = sort_key fst (filter (\<lambda>(i, r). loss_outcome_id r = oid) (loss_reasons s))"

definition list_outcomes_by_organization_voen :: "decision_db \<Rightarrow> string \<Rightarrow> (int \<times> tender_outcome) list" where
  "list_outcomes_by_organization_voen s voen =
     sort_key (outcome_tender_id \<circ> snd) (sort_key fst
       (filter (\<lambda>(i, r). tender_of_voen s voen (outcome_tender_id r)) (outcomes s)))"

definition list_overhead_buffer_contributions :: "decision_db \<Rightarrow> int \<Rightarrow> (int \<times> contribution) list" where
  "list_overhead_buffer_contributions s tid =
     sort_key fst (filter (\<lambda>(i, c). contribution_tender_id c = tid) (contributions s))"

definition summarize_loss_reasons :: "(int \<times> loss_reason_row) list \<Rightarrow> (string \<times> nat) list" where
  "summarize_loss_reasons rows = count_dict (map (loss_reason \<circ> snd) rows)"

section \<open>The routes\<close>

definition post_outcome :: "(string \<Rightarrow> dec option) \<Rightarrow> (string \<Rightarrow> int option) \<Rightarrow> string option \<Rightarrow> int \<Rightarrow> outcome_request \<Rightarrow>
    (int \<times> tender_outcome) decision_op" where
  "post_outcome num parse cookie tid p =
     route_of ''decision.outcome.write'' cookie (\<lambda>ident.
     then_db (require_active_bid_decision tid) (
     bind (gets (\<lambda>s. load_tender_outcome s tid)) (\<lambda>existing.
     then_db (guard (existing = None) (ApiError 409 ''outcome_already_recorded'' [str_int tid])) (
     then_db (guard (outcome_valid p) (ApiError 422 ''invalid_outcome'' [or_outcome p])) (
     bind (gets clock) (\<lambda>t.
     bind (store_tender_outcome num parse tid p (subject ident) t) (\<lambda>i.
     then_db (write_audit_log (subject ident) ''calibration.record_outcome'' ''tender_outcome'' (str_int i) None None) (
     bind (gets (\<lambda>s. load_tender_outcome s tid)) (\<lambda>loaded.
     case loaded of None \<Rightarrow> raise (Exc ''AssertionError'' []) | Some r \<Rightarrow> ret r)))))))))"

definition get_outcome :: "string option \<Rightarrow> int \<Rightarrow> (int \<times> tender_outcome) decision_op" where
  "get_outcome cookie tid =
     route_of ''decision.outcome.read'' cookie (\<lambda>_.
     bind (gets (\<lambda>s. load_tender_outcome s tid)) (\<lambda>loaded.
     case loaded of None \<Rightarrow> raise (ApiError 404 ''outcome_not_found'' [str_int tid]) | Some r \<Rightarrow> ret r))"

definition post_loss_reason :: "string option \<Rightarrow> int \<Rightarrow> string \<Rightarrow> string \<Rightarrow> (int \<times> loss_reason_row) decision_op" where
  "post_loss_reason cookie tid r note_text =
     route_of ''decision.outcome.write'' cookie (\<lambda>ident.
     bind (gets (\<lambda>s. load_tender_outcome s tid)) (\<lambda>row.
     case row of
       None \<Rightarrow> raise (ApiError 404 ''outcome_not_found'' [str_int tid])
     | Some (oid, out) \<Rightarrow>
         then_db (guard (outcome out = ''lost'') (ApiError 409 ''outcome_not_a_loss'' [str_int tid, outcome out])) (
         then_db (guard (loss_reason_valid r note_text) (ApiError 422 ''invalid_loss_reason'' [r])) (
         bind (gets clock) (\<lambda>t.
         bind (store_loss_reason r note_text (subject ident) t oid) (\<lambda>i.
         then_db (write_audit_log (subject ident) ''calibration.record_loss_reason'' ''tender_loss_reason'' (str_int i) None None) (
         bind (gets (\<lambda>s. find (\<lambda>p. fst p = i) (list_loss_reasons_by_outcome s oid))) (\<lambda>stored.
         case stored of None \<Rightarrow> raise (Exc ''StopIteration'' []) | Some p \<Rightarrow> ret p)))))))) "

definition get_overhead_buffer :: "string option \<Rightarrow> int \<Rightarrow> (int \<times> contribution) list decision_op" where
  "get_overhead_buffer cookie tid =
     route_of ''decision.outcome.read'' cookie (\<lambda>_. gets (\<lambda>s. list_overhead_buffer_contributions s tid))"

text \<open>The loop of \<open>get_calibration\<close>: the cost basis and the number of lines it covers.\<close>

fun cost_basis :: "(string \<Rightarrow> string) \<Rightarrow> vendor_offer list \<Rightarrow> int \<Rightarrow> boq_line list \<Rightarrow> dec \<times> nat \<Rightarrow> dec \<times> nat" where
  "cost_basis lower offers as_of [] acc = acc"
| "cost_basis lower offers as_of (l # ls) (b, n) =
     cost_basis lower offers as_of ls
       (case ranked_executable (match_boq_line lower l offers as_of) of
          [] \<Rightarrow> (b, n)
        | (c, tco) # _ \<Rightarrow> (dec_add b (dec_mul (base_price_with_vat tco) (qty l)), n + 1))"

record calibration_response =
  cal_outcome :: "int \<times> tender_outcome"
  cal_loss_reasons :: "(int \<times> loss_reason_row) list"
  cal_rollup :: "(string \<times> nat) list"
  cal_comparison :: price_comparison
  cal_overhead :: "(int \<times> contribution) list"

definition get_calibration :: "(string \<Rightarrow> string) \<Rightarrow> string option \<Rightarrow> int \<Rightarrow> bool \<Rightarrow> int \<Rightarrow> vendor_offer list option \<Rightarrow>
    calibration_response decision_op" where
  "get_calibration lower cookie tid aware as_of offers =
     route_of ''decision.outcome.read'' cookie (\<lambda>_.
     then_db (guard aware (ApiError 422 ''naive_datetime'' [])) (
     bind (gets (\<lambda>s. load_tender_outcome s tid)) (\<lambda>row.
     case row of
       None \<Rightarrow> raise (ApiError 404 ''outcome_not_found'' [str_int tid])
     | Some (oid, out) \<Rightarrow>
         bind (gets (\<lambda>s. list_loss_reasons_by_outcome s oid)) (\<lambda>losses.
         bind (gets (\<lambda>s. list_overhead_buffer_contributions s tid)) (\<lambda>overhead.
         bind (get_event_id_for_tender tid) (\<lambda>ev.
         bind (gets (\<lambda>s. case ev of None \<Rightarrow> [] | Some e \<Rightarrow> list_boq_lines_by_event s ''etender'' e)) (\<lambda>ls.
         let matchable = filter (\<lambda>l. line_type l = ''normal'') ls in
         case offers of
           None \<Rightarrow> raise (ApiError 502 ''vendor_service_unavailable'' [])
         | Some offers \<Rightarrow>
             (let (b, n) = cost_basis lower offers as_of matchable (dec_zero, 0) in
              ret \<lparr>cal_outcome = (oid, out), cal_loss_reasons = losses, cal_rollup = summarize_loss_reasons losses,
                cal_comparison = compare_winner_to_our_basis (out_winner_amount out) (out_submitted_amount out)
                  (if 0 < n then Some b else None) n (length matchable),
                cal_overhead = overhead\<rparr>)))))))) "

definition get_organization_outcomes :: "string option \<Rightarrow> string \<Rightarrow>
    ((int \<times> tender_outcome) \<times> (int \<times> loss_reason_row) list) list decision_op" where
  "get_organization_outcomes cookie voen =
     route_of ''decision.outcome.read'' cookie (\<lambda>_. gets (\<lambda>s.
       map (\<lambda>r. (r, list_loss_reasons_by_outcome s (fst r))) (list_outcomes_by_organization_voen s voen)))"

end
