(* ===== verification/Numbered.thy ===== *)
theory Numbered
  imports Systems
begin

text \<open>
  Tables whose ids count from one, as the sequences of the database give them to tables that
  never lose a row.
\<close>

fun add_rows :: "(int \<times> 'v) list \<Rightarrow> 'v list \<Rightarrow> (int \<times> 'v) list" where
  "add_rows xs [] = xs"
| "add_rows xs (v # vs) = add_rows (xs @ [(next_id xs, v)]) vs"

definition numbered :: "(int \<times> 'v) list \<Rightarrow> bool" where
  "numbered xs \<longleftrightarrow> map fst xs = map int [1..<Suc (length xs)]"

lemma numbered_Nil [simp]: "numbered []"
  by (simp add: numbered_def)

lemma numbered_snoc [simp]: "numbered xs \<Longrightarrow> numbered (xs @ [(next_id xs, v)])"
  by (simp add: numbered_def next_id_def)

lemma numbered_add_rows [simp]: "numbered xs \<Longrightarrow> numbered (add_rows xs vs)"
  by (induction vs arbitrary: xs) simp_all

lemma numbered_ids: "numbered xs \<Longrightarrow> fst ` set xs = {1..int (length xs)}"
proof -
  assume n: "numbered xs"
  have "fst ` set xs = set (map fst xs)" by simp
  also have "\<dots> = int ` {1..<Suc (length xs)}" using n by (simp only: numbered_def set_map set_upt)
  also have "\<dots> = {1..int (length xs)}" by (simp only: atLeastLessThanSuc_atLeastAtMost image_int_atLeastAtMost of_nat_1)
  finally show ?thesis .
qed

lemma numbered_distinct: "numbered xs \<Longrightarrow> distinct (map fst xs)"
  by (simp add: numbered_def distinct_map)

lemma next_id_fresh: "numbered xs \<Longrightarrow> next_id xs \<notin> fst ` set xs"
  by (simp add: numbered_ids next_id_def)

lemma map_of_add_row: "numbered xs \<Longrightarrow> map_of (xs @ [(next_id xs, v)]) k = (if k = next_id xs then Some v else map_of xs k)"
  by (rule map_of_snoc) (rule next_id_fresh)

lemma map_of_append_row: "map_of xs k = Some v \<Longrightarrow> map_of (xs @ ys) k = Some v"
  by simp

lemma snd_add_rows [simp]: "map snd (add_rows xs vs) = map snd xs @ vs"
  by (induction vs arbitrary: xs) simp_all

lemma extends_add_rows [simp]: "extends xs (add_rows xs vs)"
  by (induction vs arbitrary: xs) (simp, metis add_rows.simps(2) extends_append extends_trans)

lemma numbered_sorted: "numbered xs \<Longrightarrow> sorted (map fst xs)"
  unfolding numbered_def by (simp only:) (simp add: sorted_map del: upt_Suc)

end
