(* ===== verification/Book.thy ===== *)
theory Book
  imports Calibration Numbered "HOL-Library.Multiset"
begin

text \<open>
  The abstract specification of the decision tables: a book of rows that is only ever written
  at its end, and the ten ways to write into it. Sessions, permissions, idempotency keys, the
  audit log, the exception queue and every error are left out; \<open>Decision_Spec\<close> shows that the routes
  do nothing to the tables but these steps.
\<close>

record book =
  bk_clock :: int
  bk_tenders :: "int set"
  bk_inputs :: "(int \<times> go_no_go_inputs) list"
  bk_candidates :: "(int \<times> bid_readiness_candidate) list"
  bk_decisions :: "(int \<times> decision) list"
  bk_locks :: "(int \<times> lock_in_requirement) list"
  bk_facts :: "(int \<times> execution_fact) list"
  bk_evidence :: "(int \<times> napkin_evidence) list"
  bk_contributions :: "(int \<times> contribution) list"
  bk_outcomes :: "(int \<times> tender_outcome) list"
  bk_losses :: "(int \<times> loss_reason_row) list"

definition book_of :: "decision_db \<Rightarrow> book" where
  "book_of s =
     \<lparr>bk_clock = clock s, bk_tenders = fst ` set (tenders s), bk_inputs = go_no_go s, bk_candidates = readiness s,
      bk_decisions = decisions s, bk_locks = lock_ins s, bk_facts = execution_facts s,
      bk_evidence = napkin_evidence_rows s, bk_contributions = contributions s, bk_outcomes = outcomes s,
      bk_losses = loss_reasons s\<rparr>"

lemma set_add_rows: "snd ` set (add_rows xs vs) = snd ` set xs \<union> set vs"
  by (metis list.set_map set_append snd_add_rows)

lemma filter_add_rows: "map snd (filter (\<lambda>(i, v). P v) (add_rows xs vs)) = map snd (filter (\<lambda>(i, v). P v) xs) @ filter P vs"
  by (induction vs arbitrary: xs) simp_all

section \<open>Decided tenders\<close>

definition last_type :: "(int \<times> decision) list \<Rightarrow> int \<Rightarrow> string option" where
  "last_type ds tid =
     (case rev (filter (\<lambda>(i, d). decision_tender_id d = tid) ds) of [] \<Rightarrow> None | (i, d) # _ \<Rightarrow> Some (decision_type d))"

definition bid_type :: "decision \<Rightarrow> bool" where
  "bid_type d \<longleftrightarrow> decision_type d \<in> {''bid'', ''conditional_bid''}"

definition active_bid :: "book \<Rightarrow> int \<Rightarrow> bool" where
  "active_bid b tid \<longleftrightarrow> last_type (bk_decisions b) tid \<in> {Some ''bid'', Some ''conditional_bid''}"

definition ever_bid :: "book \<Rightarrow> int \<Rightarrow> bool" where
  "ever_bid b tid \<longleftrightarrow> (\<exists>(i, d) \<in> set (bk_decisions b). decision_tender_id d = tid \<and> bid_type d)"

lemma active_ever: "active_bid b tid \<Longrightarrow> ever_bid b tid"
proof -
  assume a: "active_bid b tid"
  let ?f = "filter (\<lambda>(i, d). decision_tender_id d = tid) (bk_decisions b)"
  obtain i d r where r: "rev ?f = (i, d) # r" using a by (auto simp: active_bid_def last_type_def split: list.splits)
  then have "(i, d) \<in> set ?f" by (metis list.set_intros(1) set_rev)
  moreover have "bid_type d" using a r by (auto simp: active_bid_def last_type_def bid_type_def)
  ultimately show ?thesis by (auto simp: ever_bid_def)
qed

definition lock_of :: "int \<Rightarrow> int \<Rightarrow> critical_line \<Rightarrow> lock_in_requirement" where
  "lock_of tid did c =
     \<lparr>lock_tender_id = tid, lock_decision_id = did, lock_line_id = critical_line_id c, lock_vendor_id = critical_vendor_id c,
      lock_vendor_name = critical_vendor_name c, lock_status = ''pending''\<rparr>"

text \<open>The critical lines that a decision to bid has to lock in.\<close>

definition required_locks :: "(int \<times> bid_readiness_candidate) list \<Rightarrow> decision \<Rightarrow> critical_line list" where
  "required_locks cs d =
     (if bid_type d then
        (case bid_readiness_candidate_id d of
           None \<Rightarrow> []
         | Some k \<Rightarrow> (case map_of cs k of None \<Rightarrow> [] | Some c \<Rightarrow> critical_lines c))
      else [])"

definition fact_ok :: "execution_fact \<Rightarrow> bool" where
  "fact_ok f \<longleftrightarrow> mk_execution_fact f = Inr f"

definition refs_of :: "book \<Rightarrow> decision \<Rightarrow> bool" where
  "refs_of b d \<longleftrightarrow>
     decision_tender_id d \<in> bk_tenders b \<and> decision_type d \<in> set DECISION_TYPES \<and>
     (\<forall>k. go_no_go_inputs_id d = Some k \<longrightarrow> (\<exists>x. map_of (bk_inputs b) k = Some x \<and> gng_tender_id x = decision_tender_id d)) \<and>
     (\<forall>k. bid_readiness_candidate_id d = Some k \<longrightarrow>
        (\<exists>c. map_of (bk_candidates b) k = Some c \<and> brc_tender_id c = decision_tender_id d))"

definition facts_of :: "(int \<times> execution_fact) list \<Rightarrow> int \<Rightarrow> execution_fact list" where
  "facts_of fs tid = map snd (filter (\<lambda>(i, f). fact_tender_id f = tid) fs)"

definition contribution_rows :: "book \<Rightarrow> int \<Rightarrow> contribution list" where
  "contribution_rows b tid =
     map (\<lambda>(cat, n). \<lparr>contribution_tender_id = tid, contribution_category = cat, fact_count = n, contributed_at = bk_clock b\<rparr>)
       (summarize_deviation_category_counts (facts_of (bk_facts b) tid))"

section \<open>The steps\<close>

inductive book_step :: "book \<Rightarrow> book \<Rightarrow> bool" where
  tick: "book_step b (b\<lparr>bk_clock := bk_clock b + int n\<rparr>)"
| register: "bk_tenders b \<subseteq> ts \<Longrightarrow> book_step b (b\<lparr>bk_tenders := ts\<rparr>)"
| inputs: "gng_tender_id x \<in> bk_tenders b \<Longrightarrow> book_step b (b\<lparr>bk_inputs := add_rows (bk_inputs b) [x]\<rparr>)"
| candidate: "brc_tender_id c \<in> bk_tenders b \<Longrightarrow> book_step b (b\<lparr>bk_candidates := add_rows (bk_candidates b) [c]\<rparr>)"
| decide: "refs_of b d \<Longrightarrow> decided_at d = bk_clock b \<Longrightarrow>
    book_step b (b\<lparr>bk_decisions := add_rows (bk_decisions b) [d],
      bk_locks := add_rows (bk_locks b)
        (map (lock_of (decision_tender_id d) (next_id (bk_decisions b))) (required_locks (bk_candidates b) d))\<rparr>)"
| evidence: "active_bid b (ev_tender_id e) \<Longrightarrow> capture_kind e \<in> {''photo'', ''voice''} \<Longrightarrow>
    book_step b (b\<lparr>bk_evidence := add_rows (bk_evidence b) [e]\<rparr>)"
| observe: "active_bid b tid \<Longrightarrow> \<forall>f \<in> set fs. fact_ok f \<and> fact_tender_id f = tid \<Longrightarrow>
    book_step b (b\<lparr>bk_facts := add_rows (bk_facts b) fs\<rparr>)"
| close: "active_bid b tid \<Longrightarrow> \<forall>(i, c) \<in> set (bk_contributions b). contribution_tender_id c \<noteq> tid \<Longrightarrow>
    book_step b (b\<lparr>bk_contributions := add_rows (bk_contributions b) (contribution_rows b tid)\<rparr>)"
| result: "active_bid b (outcome_tender_id r) \<Longrightarrow> \<forall>(i, q) \<in> set (bk_outcomes b). outcome_tender_id q \<noteq> outcome_tender_id r \<Longrightarrow>
    outcome r \<in> set OUTCOME_TYPES \<Longrightarrow> \<not> blank (source_ref r) \<Longrightarrow>
    book_step b (b\<lparr>bk_outcomes := add_rows (bk_outcomes b) [r]\<rparr>)"
| explain: "map_of (bk_outcomes b) (loss_outcome_id l) = Some r \<Longrightarrow> outcome r = ''lost'' \<Longrightarrow>
    loss_reason_valid (loss_reason l) (loss_note l) \<Longrightarrow>
    book_step b (b\<lparr>bk_losses := add_rows (bk_losses b) [l]\<rparr>)"

section \<open>What the steps keep\<close>

definition ids_ok :: "book \<Rightarrow> bool" where
  "ids_ok b \<longleftrightarrow> numbered (bk_inputs b) \<and> numbered (bk_candidates b) \<and> numbered (bk_decisions b) \<and> numbered (bk_locks b) \<and>
     numbered (bk_facts b) \<and> numbered (bk_evidence b) \<and> numbered (bk_contributions b) \<and> numbered (bk_outcomes b) \<and>
     numbered (bk_losses b)"

definition times_ok :: "book \<Rightarrow> bool" where
  "times_ok b \<longleftrightarrow> sorted (map (decided_at \<circ> snd) (bk_decisions b) @ [bk_clock b])"

definition refs_ok :: "book \<Rightarrow> bool" where
  "refs_ok b \<longleftrightarrow> (\<forall>(i, d) \<in> set (bk_decisions b). refs_of b d)"

definition locks_for :: "book \<Rightarrow> int \<Rightarrow> lock_in_requirement list" where
  "locks_for b did = map snd (filter (\<lambda>(j, l). lock_decision_id l = did) (bk_locks b))"

definition locks_ok :: "book \<Rightarrow> bool" where
  "locks_ok b \<longleftrightarrow>
     (\<forall>(i, d) \<in> set (bk_decisions b).
        locks_for b i = map (lock_of (decision_tender_id d) i) (required_locks (bk_candidates b) d)) \<and>
     (\<forall>l \<in> snd ` set (bk_locks b). lock_decision_id l \<in> fst ` set (bk_decisions b))"

definition results_ok :: "book \<Rightarrow> bool" where
  "results_ok b \<longleftrightarrow>
     distinct (map (outcome_tender_id \<circ> snd) (bk_outcomes b)) \<and>
     (\<forall>r \<in> snd ` set (bk_outcomes b). ever_bid b (outcome_tender_id r) \<and> outcome r \<in> set OUTCOME_TYPES \<and> \<not> blank (source_ref r)) \<and>
     (\<forall>l \<in> snd ` set (bk_losses b).
        (\<exists>r. map_of (bk_outcomes b) (loss_outcome_id l) = Some r \<and> outcome r = ''lost'') \<and>
        loss_reason_valid (loss_reason l) (loss_note l))"

definition category_count :: "book \<Rightarrow> int \<Rightarrow> string \<Rightarrow> nat" where
  "category_count b tid cat = length (filter (\<lambda>f. deviation_category f = Some cat) (facts_of (bk_facts b) tid))"

definition ledger_ok :: "book \<Rightarrow> bool" where
  "ledger_ok b \<longleftrightarrow>
     (\<forall>f \<in> snd ` set (bk_facts b). fact_ok f \<and> ever_bid b (fact_tender_id f)) \<and>
     (\<forall>e \<in> snd ` set (bk_evidence b). ever_bid b (ev_tender_id e)) \<and>
     distinct (map (\<lambda>(i, c). (contribution_tender_id c, contribution_category c)) (bk_contributions b)) \<and>
     (\<forall>c \<in> snd ` set (bk_contributions b).
        0 < fact_count c \<and> fact_count c \<le> category_count b (contribution_tender_id c) (contribution_category c))"

definition book_ok :: "book \<Rightarrow> bool" where
  "book_ok b \<longleftrightarrow> ids_ok b \<and> times_ok b \<and> refs_ok b \<and> locks_ok b \<and> results_ok b \<and> ledger_ok b"

section \<open>The book only grows\<close>

definition grows :: "book \<Rightarrow> book \<Rightarrow> bool" where
  "grows b c \<longleftrightarrow>
     bk_clock b \<le> bk_clock c \<and> bk_tenders b \<subseteq> bk_tenders c \<and> extends (bk_inputs b) (bk_inputs c) \<and>
     extends (bk_candidates b) (bk_candidates c) \<and> extends (bk_decisions b) (bk_decisions c) \<and>
     extends (bk_locks b) (bk_locks c) \<and> extends (bk_facts b) (bk_facts c) \<and> extends (bk_evidence b) (bk_evidence c) \<and>
     extends (bk_contributions b) (bk_contributions c) \<and> extends (bk_outcomes b) (bk_outcomes c) \<and>
     extends (bk_losses b) (bk_losses c)"

lemma grows_refl [simp]: "grows b b"
  by (simp add: grows_def)

lemma grows_trans: "grows b c \<Longrightarrow> grows c d \<Longrightarrow> grows b d"
  unfolding grows_def by (meson extends_trans order_trans)

lemma step_grows: "book_step b c \<Longrightarrow> grows b c"
  by (induction rule: book_step.induct) (simp_all add: grows_def del: add_rows.simps)

lemma steps_grow: "book_step\<^sup>*\<^sup>* b c \<Longrightarrow> grows b c"
  by (induction rule: rtranclp_induct) (auto intro: grows_trans step_grows)

lemma extends_map_of: "extends xs ys \<Longrightarrow> map_of xs k = Some v \<Longrightarrow> map_of ys k = Some v"
  by (auto simp: extends_def)

lemma ever_bid_mono: "grows b c \<Longrightarrow> ever_bid b t \<Longrightarrow> ever_bid c t"
  by (auto simp: grows_def extends_def ever_bid_def)

lemma refs_of_mono: "grows b c \<Longrightarrow> refs_of b d \<Longrightarrow> refs_of c d"
  unfolding grows_def refs_of_def by (meson extends_map_of subsetD)

lemma required_locks_mono:
  assumes "grows b c" "refs_of b d"
  shows "required_locks (bk_candidates c) d = required_locks (bk_candidates b) d"
proof (cases "bid_readiness_candidate_id d")
  case (Some k)
  with assms(2) obtain x where x: "map_of (bk_candidates b) k = Some x" by (auto simp: refs_of_def)
  moreover from assms(1) x have "map_of (bk_candidates c) k = Some x" by (auto simp: grows_def intro: extends_map_of)
  ultimately show ?thesis by (simp add: required_locks_def Some)
qed (simp add: required_locks_def)

lemma category_count_mono: "grows b c \<Longrightarrow> category_count b t cat \<le> category_count c t cat"
  by (auto simp: grows_def extends_def category_count_def facts_of_def)

section \<open>The steps keep the book well-formed\<close>

lemma step_ids: "book_step b c \<Longrightarrow> ids_ok b \<Longrightarrow> ids_ok c"
  by (induction rule: book_step.induct) (simp_all add: ids_ok_def del: add_rows.simps)

lemma step_times: "book_step b c \<Longrightarrow> times_ok b \<Longrightarrow> times_ok c"
  by (induction rule: book_step.induct) (auto simp: times_ok_def sorted_append)

lemma new_decision:
  "book_step b c \<Longrightarrow> (i, d) \<in> set (bk_decisions c) \<Longrightarrow>
     (i, d) \<in> set (bk_decisions b) \<or> refs_of b d \<and> i = next_id (bk_decisions b)"
  by (induction rule: book_step.induct) auto

lemma step_refs: "book_step b c \<Longrightarrow> refs_ok b \<Longrightarrow> refs_ok c"
  unfolding refs_ok_def using new_decision[of b c] refs_of_mono[OF step_grows, of b c] by fastforce

text \<open>Only a decision writes lock-ins.\<close>

lemma locks_unchanged:
  assumes "book_step b c" "refs_ok b" "locks_ok b" "bk_decisions c = bk_decisions b" "bk_locks c = bk_locks b"
  shows "locks_ok c"
proof -
  have "required_locks (bk_candidates c) d = required_locks (bk_candidates b) d" if "(i, d) \<in> set (bk_decisions b)" for i d
    using required_locks_mono[OF step_grows[OF assms(1)]] assms(2) that by (auto simp: refs_ok_def)
  with assms(3-5) show ?thesis by (auto simp: locks_ok_def locks_for_def)
qed

lemma step_locks:
  assumes "book_step b c" "ids_ok b" "refs_ok b" "locks_ok b"
  shows "locks_ok c"
  using assms(1)
proof cases
  case (decide d)
  let ?i = "next_id (bk_decisions b)"
  let ?new = "map (lock_of (decision_tender_id d) ?i) (required_locks (bk_candidates b) d)"
  have fresh: "?i \<notin> fst ` set (bk_decisions b)"
    using assms(2) by (simp add: ids_ok_def next_id_fresh)
  have ids: "lock_decision_id l \<in> fst ` set (bk_decisions b)" if "l \<in> snd ` set (bk_locks b)" for l
    using assms(4) that unfolding locks_ok_def by blast
  have none: "locks_for b ?i = []"
    using ids fresh by (force simp: locks_for_def filter_empty_conv)
  have for_c: "locks_for c j = locks_for b j @ (if j = ?i then ?new else [])" for j
    by (simp add: decide(1) locks_for_def filter_add_rows del: add_rows.simps) (simp add: filter_map comp_def lock_of_def)
  have "locks_for c j = map (lock_of (decision_tender_id e) j) (required_locks (bk_candidates c) e)"
    if "(j, e) \<in> set (bk_decisions c)" for j e
  proof (cases "(j, e) \<in> set (bk_decisions b)")
    case True
    with fresh have "j \<noteq> ?i" by force
    with True assms(4) for_c show ?thesis by (auto simp: locks_ok_def decide(1))
  next
    case False
    with that have "j = ?i" "e = d" by (auto simp: decide(1))
    with for_c none show ?thesis by (simp add: decide(1))
  qed
  moreover have "lock_decision_id l \<in> fst ` set (bk_decisions c)" if "l \<in> snd ` set (bk_locks c)" for l
  proof -
    from that have "l \<in> snd ` set (bk_locks b) \<or> l \<in> set ?new" by (simp add: decide(1) set_add_rows del: set_map)
    with ids show ?thesis by (auto simp: decide(1) lock_of_def)
  qed
  ultimately show ?thesis unfolding locks_ok_def by blast
qed (rule locks_unchanged[OF assms(1,3,4)]; simp)+

lemma step_results:
  assumes "book_step b c" "ids_ok b" "results_ok b"
  shows "results_ok c"
proof -
  have ever: "ever_bid b t \<Longrightarrow> ever_bid c t" for t by (rule ever_bid_mono[OF step_grows[OF assms(1)]])
  have keep: "map_of (bk_outcomes b) k = Some r \<Longrightarrow> map_of (bk_outcomes c) k = Some r" for k r
    using step_grows[OF assms(1)] extends_map_of by (force simp: grows_def)
  have d: "distinct (map (outcome_tender_id \<circ> snd) (bk_outcomes c))"
    using assms(1,3) by (cases rule: book_step.cases) (force simp: results_ok_def)+
  have o: "r \<in> snd ` set (bk_outcomes b) \<or> active_bid b (outcome_tender_id r) \<and> outcome r \<in> set OUTCOME_TYPES \<and> \<not> blank (source_ref r)"
    if "r \<in> snd ` set (bk_outcomes c)" for r
    using assms(1) that by (cases rule: book_step.cases) auto
  have l: "l \<in> snd ` set (bk_losses b) \<or>
      (\<exists>r. map_of (bk_outcomes b) (loss_outcome_id l) = Some r \<and> outcome r = ''lost'') \<and> loss_reason_valid (loss_reason l) (loss_note l)"
    if "l \<in> snd ` set (bk_losses c)" for l
    using assms(1) that by (cases rule: book_step.cases) auto
  have "ever_bid c (outcome_tender_id r) \<and> outcome r \<in> set OUTCOME_TYPES \<and> \<not> blank (source_ref r)"
    if "r \<in> snd ` set (bk_outcomes c)" for r
    using o[OF that] assms(3) ever active_ever unfolding results_ok_def by blast
  moreover have "(\<exists>r. map_of (bk_outcomes c) (loss_outcome_id l) = Some r \<and> outcome r = ''lost'') \<and> loss_reason_valid (loss_reason l) (loss_note l)"
    if "l \<in> snd ` set (bk_losses c)" for l
    using l[OF that] assms(3) keep unfolding results_ok_def by blast
  ultimately show ?thesis using d unfolding results_ok_def by blast
qed

text \<open>The contributions of a project are the counts of its facts by category.\<close>

lemma count_list_map_filter: "count_list (List.map_filter f xs) x = length (filter (\<lambda>y. f y = Some x) xs)"
  by (induction xs) (auto simp: map_filter_simps split: option.splits)

lemma contribution_rows_mem:
  assumes "c \<in> set (contribution_rows b t)"
  shows "contribution_tender_id c = t" "0 < fact_count c" "fact_count c = category_count b t (contribution_category c)"
proof -
  from assms obtain cat n where c: "c = \<lparr>contribution_tender_id = t, contribution_category = cat, fact_count = n, contributed_at = bk_clock b\<rparr>"
    "(cat, n) \<in> set (count_dict (List.map_filter deviation_category (facts_of (bk_facts b) t)))"
    by (auto simp: contribution_rows_def summarize_deviation_category_counts_def)
  then have n: "cat \<in> set (List.map_filter deviation_category (facts_of (bk_facts b) t))"
    "n = category_count b t cat"
    by (simp_all add: set_count_dict count_list_map_filter category_count_def)
  show "contribution_tender_id c = t" "fact_count c = category_count b t (contribution_category c)" using c(1) n(2) by simp_all
  show "0 < fact_count c" using n c(1) count_list_0_iff[of "List.map_filter deviation_category (facts_of (bk_facts b) t)" cat]
    by (simp add: category_count_def count_list_map_filter)
qed

lemma contribution_rows_ok: "c \<in> set (contribution_rows b t) \<Longrightarrow>
    0 < fact_count c \<and> fact_count c = category_count b (contribution_tender_id c) (contribution_category c)"
  using contribution_rows_mem by metis

lemma contribution_rows_distinct: "distinct (map (\<lambda>c. (contribution_tender_id c, contribution_category c)) (contribution_rows b t))"
proof -
  let ?ks = "map fst (count_dict (List.map_filter deviation_category (facts_of (bk_facts b) t)))"
  have "map (\<lambda>c. (contribution_tender_id c, contribution_category c)) (contribution_rows b t) = map (Pair t) ?ks"
    by (simp add: contribution_rows_def summarize_deviation_category_counts_def case_prod_beta comp_def)
  moreover have "distinct (map (Pair t) ?ks)"
    by (subst distinct_map) (simp add: distinct_count_dict inj_on_def del: map_map)
  ultimately show ?thesis by (simp only:)
qed

lemma step_ledger:
  assumes "book_step b c" "ledger_ok b"
  shows "ledger_ok c"
proof -
  have ever: "ever_bid b t \<Longrightarrow> ever_bid c t" for t by (rule ever_bid_mono[OF step_grows[OF assms(1)]])
  have mono: "category_count b t cat \<le> category_count c t cat" for t cat
    by (rule category_count_mono[OF step_grows[OF assms(1)]])
  have old: "f \<in> snd ` set (bk_facts b) \<Longrightarrow> fact_ok f \<and> ever_bid b (fact_tender_id f)"
    "e \<in> snd ` set (bk_evidence b) \<Longrightarrow> ever_bid b (ev_tender_id e)"
    "k \<in> snd ` set (bk_contributions b) \<Longrightarrow>
       0 < fact_count k \<and> fact_count k \<le> category_count b (contribution_tender_id k) (contribution_category k)" for f e k
    using assms(2) unfolding ledger_ok_def by (blast, blast, blast)
  have f: "f \<in> snd ` set (bk_facts b) \<or> fact_ok f \<and> active_bid b (fact_tender_id f)" if "f \<in> snd ` set (bk_facts c)" for f
    using assms(1) that by (cases rule: book_step.cases) (auto simp: set_add_rows)
  have e: "e \<in> snd ` set (bk_evidence b) \<or> active_bid b (ev_tender_id e)" if "e \<in> snd ` set (bk_evidence c)" for e
    using assms(1) that by (cases rule: book_step.cases) auto
  have k: "k \<in> snd ` set (bk_contributions b) \<or> 0 < fact_count k \<and> fact_count k = category_count b (contribution_tender_id k) (contribution_category k)"
    if "k \<in> snd ` set (bk_contributions c)" for k
    using assms(1) that by (cases rule: book_step.cases) (auto simp: set_add_rows dest: contribution_rows_ok)
  have "distinct (map (\<lambda>(i, c). (contribution_tender_id c, contribution_category c)) (bk_contributions c))"
    using assms(1)
  proof cases
    case (close t)
    let ?g = "\<lambda>c. (contribution_tender_id c, contribution_category c)"
    have m: "map (\<lambda>(i, c). ?g c) xs = map ?g (map snd xs)" for xs :: "(int \<times> contribution) list"
      by (simp add: case_prod_beta)
    have dist: "distinct (map ?g (map snd (bk_contributions b)))" using assms(2) by (simp only: ledger_ok_def m)
    have "?g x \<noteq> ?g y" if "x \<in> snd ` set (bk_contributions b)" "y \<in> set (contribution_rows b t)" for x y
      using close(3) that(1) contribution_rows_mem(1)[OF that(2)] by auto
    then have "set (map ?g (map snd (bk_contributions b))) \<inter> set (map ?g (contribution_rows b t)) = {}" by fastforce
    with dist contribution_rows_distinct[of b t] show ?thesis
      by (simp only: m close(1) book.simps snd_add_rows map_append distinct_append) simp
  qed (use assms(2) in \<open>simp_all add: ledger_ok_def\<close>)
  moreover have "fact_ok f \<and> ever_bid c (fact_tender_id f)" if "f \<in> snd ` set (bk_facts c)" for f
    using f[OF that] old(1)[of f] ever[of "fact_tender_id f"] active_ever[of b "fact_tender_id f"] by argo
  moreover have "ever_bid c (ev_tender_id e)" if "e \<in> snd ` set (bk_evidence c)" for e
    using e[OF that] old(2)[of e] ever[of "ev_tender_id e"] active_ever[of b "ev_tender_id e"] by argo
  moreover have "0 < fact_count k \<and> fact_count k \<le> category_count c (contribution_tender_id k) (contribution_category k)"
    if "k \<in> snd ` set (bk_contributions c)" for k
    using k[OF that] old(3)[of k] mono[of "contribution_tender_id k" "contribution_category k"] by linarith
  ultimately show ?thesis unfolding ledger_ok_def by blast
qed

lemma step_book_ok: "book_step b c \<Longrightarrow> book_ok b \<Longrightarrow> book_ok c"
  by (simp add: book_ok_def step_ids step_times step_refs step_locks step_results step_ledger)

definition book_start :: "book \<Rightarrow> bool" where
  "book_start b \<longleftrightarrow> bk_inputs b = [] \<and> bk_candidates b = [] \<and> bk_decisions b = [] \<and> bk_locks b = [] \<and> bk_facts b = [] \<and>
     bk_evidence b = [] \<and> bk_contributions b = [] \<and> bk_outcomes b = [] \<and> bk_losses b = []"

lemma start_book_ok: "book_start b \<Longrightarrow> book_ok b"
  by (simp add: book_start_def book_ok_def ids_ok_def times_ok_def refs_ok_def locks_ok_def results_ok_def ledger_ok_def)

interpretation book: invariant_system book_start book_step book_ok
  by unfold_locales (rule start_book_ok, assumption, rule step_book_ok, assumption+)

section \<open>The latest decision\<close>

lemma sorted_filter_map: "sorted (map f xs) \<Longrightarrow> sorted (map f (filter p xs))"
  by (rule sorted_filter)

text \<open>
  Ordered by time and id, the first row is the last one written: ids ascend and the clock never
  goes back.
\<close>

lemma decisions_latest_first_rev:
  assumes "numbered (decisions s)" "sorted (map (decided_at \<circ> snd) (decisions s))"
  shows "decisions_latest_first s tid = rev (filter (\<lambda>(i, d). decision_tender_id d = tid) (decisions s))"
proof -
  let ?F = "filter (\<lambda>(i, d). decision_tender_id d = tid) (decisions s)"
  have neg: "sorted (map (\<lambda>p. - (f p :: int)) (rev xs))" if "sorted (map f xs)" for f and xs :: "(int \<times> decision) list"
    using that by (induction xs) (auto simp: sorted_append)
  have "sort_key (\<lambda>p. - fst p) ?F = rev ?F"
  proof (rule sort_key_inj_key_eq)
    show "inj_on (\<lambda>p. - fst p) (set ?F)"
      using numbered_distinct[OF assms(1)] by (auto simp: distinct_map inj_on_def)
    show "sorted (map (\<lambda>p. - fst p) (rev ?F))"
      by (rule neg) (rule sorted_filter, rule numbered_sorted[OF assms(1)])
  qed simp
  moreover have "sort_key (\<lambda>p. - decided_at (snd p)) (rev ?F) = rev ?F"
    by (rule sort_key_id_if_sorted, rule neg[of "\<lambda>p. decided_at (snd p)"], rule sorted_filter)
      (use assms(2) in \<open>simp add: comp_def\<close>)
  moreover have "(\<lambda>(i, d). - i) = (\<lambda>p :: int \<times> decision. - fst p)"
    "(\<lambda>(i :: int, d :: decision). - decided_at d) = (\<lambda>p. - decided_at (snd p))" by auto
  ultimately show ?thesis by (simp only: decisions_latest_first_def)
qed

lemma latest_decision:
  assumes "book_ok (book_of s)"
  shows "get_latest_decision_type s tid = last_type (decisions s) tid"
proof -
  have "numbered (decisions s)" using assms by (simp add: book_ok_def ids_ok_def book_of_def)
  moreover have "sorted (map (decided_at \<circ> snd) (decisions s))"
    using assms by (simp add: book_ok_def times_ok_def book_of_def sorted_append)
  ultimately show ?thesis by (simp add: get_latest_decision_type_def last_type_def decisions_latest_first_rev)
qed

end
