(* ===== verification/Decision_Spec.thy ===== *)
theory Decision_Spec
  imports Book Accounts_Spec
begin

text \<open>
  The routes of the decision core, the execution ledger and the calibration loop as one system of
  requests in any order, with sign-ins and the ingestion of tenders in between, and the lemmas
  that each of them does to the decision tables only what a step of the book does.
\<close>

section \<open>Statements that leave the book alone\<close>

definition same_book :: "decision_db \<Rightarrow> decision_db \<Rightarrow> bool" where
  "same_book s t \<longleftrightarrow> book_of t = book_of s"

interpretation same_book: preorder_rel same_book
  by unfold_locales (simp_all add: same_book_def)

lemma same_bookD: "does same_book m \<Longrightarrow> book_of (snd (m s)) = book_of s"
  by (simp add: does_def same_book_def)

lemma same_book_pair: "does same_book m \<Longrightarrow> m s = (r, t) \<Longrightarrow> book_of t = book_of s"
  using same_bookD[of m s] by simp

lemma book_audit: "does same_book (write_audit_log a b c d e f)"
  unfolding write_audit_log_def by (rule does_modify) (simp add: same_book_def book_of_def)

lemma book_reserve: "does same_book (reserve k rt fp)"
  unfolding reserve_def by (intro same_book.does_rules does_control does_modify) (simp add: same_book_def book_of_def)

lemma book_store_response: "does same_book (store_response k rt st b)"
  unfolding store_response_def by (rule does_modify) (simp add: same_book_def book_of_def)

lemma book_set_user: "does same_book (set_user i f)"
  unfolding set_user_def by (rule does_modify) (simp add: same_book_def book_of_def)

lemma book_create_session: "does same_book (create_session tok i)"
  unfolding create_session_def
  by (intro same_book.does_rules does_modify) (simp add: same_book_def book_of_def)

lemma book_login: "does same_book (login h tok n pw)"
proof -
  have "does same_book (case out of AccountLocked \<Rightarrow> raise a | InvalidCredentials \<Rightarrow> raise b | Success i t \<Rightarrow> ret (f i t))" for out a b f
    by (cases out) (simp_all add: same_book.does_rules)
  then show ?thesis unfolding login_def authenticate_user_def record_login_failure_def reset_login_failures_def
    by (intro same_book.does_rules does_control book_set_user book_create_session)
qed

lemma book_logout: "does same_book (logout c)"
  unfolding logout_def revoke_session_def
  by (intro same_book.does_rules does_control does_modify) (simp add: same_book_def book_of_def)

lemma book_enqueue: "does same_book (enqueue_exception src et cat why cid ref con)"
  unfolding enqueue_exception_def Let_def
  by (intro same_book.does_rules does_control does_modify) (simp add: same_book_def book_of_def)

lemma book_snapshot: "does same_book (save_raw_snapshot sha parse src rt key raw ver cid)"
  unfolding save_raw_snapshot_def
  by (intro same_book.does_rules does_control does_modify) (simp add: same_book_def book_of_def)

lemma book_version: "does same_book (create_normalized_version tid snap parser nf)"
  unfolding create_normalized_version_def Let_def
  by (intro same_book.does_rules does_control does_modify) (simp_all add: same_book_def book_of_def)

lemma book_lines: "does same_book (store_boq_lines src ev ver snap ls)"
  unfolding store_boq_lines_def store_boq_line_def
  by (intro same_book.does_rules does_control does_modify) (simp add: same_book_def book_of_def)

lemma book_feed: "does same_book (feed_reputation env cid tid ttl n f)"
  unfolding feed_reputation_def queue_gap_def Let_def
  by (intro same_book.does_rules does_control book_enqueue)

text \<open>A route that fails is rolled back; one that succeeds has done its work.\<close>

lemma route_of_cases:
  obtains (failed) e where "route_of p c f s = (Inl e, s)"
  | (done_now) x t i where "route_of p c f s = (Inr x, t)" "authorized s c p i" "f i s = (Inr x, t)"
proof (cases "route_of p c f s")
  case (Pair r t)
  show thesis
  proof (cases r)
    case (Inl e)
    with Pair have "t = s" by (auto simp: route_of_def transaction_Inl)
    with Pair Inl failed show thesis by simp
  next
    case (Inr x)
    with Pair show thesis using route_of_Inr[of p c f s x t] done_now by blast
  qed
qed

lemma idempotent_book:
  assumes "idempotent k rt fp w s = (Inr x, t)"
  shows "book_of t = book_of s \<or> (\<exists>u v. book_of u = book_of s \<and> w u = (Inr x, v) \<and> book_of t = book_of v)"
  using assms
proof (cases rule: idempotent_cases)
  case (done_now b u v)
  have "book_of u = book_of s" by (rule same_book_pair[OF book_reserve done_now(1)])
  moreover have "book_of t = book_of v" using same_bookD[OF book_store_response, of k rt 201 b v] done_now(4) by simp
  ultimately show ?thesis using done_now(2,3) by auto
qed simp_all

section \<open>The stores\<close>

lemma store_inputs_book:
  "store_go_no_go_inputs x s = (Inr i, t) \<Longrightarrow> gng_tender_id x \<in> bk_tenders (book_of s) \<and>
     book_of t = (book_of s)\<lparr>bk_inputs := add_rows (bk_inputs (book_of s)) [x]\<rparr>"
  by (auto simp: store_go_no_go_inputs_def bind_Inr then_db_Inr book_of_def tender_exists_def Let_def split: if_splits)

lemma store_candidate_book:
  "store_bid_readiness_candidate x s = (Inr i, t) \<Longrightarrow> brc_tender_id x \<in> bk_tenders (book_of s) \<and>
     book_of t = (book_of s)\<lparr>bk_candidates := add_rows (bk_candidates (book_of s)) [x]\<rparr>"
  by (auto simp: store_bid_readiness_candidate_def bind_Inr then_db_Inr book_of_def tender_exists_def Let_def split: if_splits)

lemma store_decision_book:
  "store_decision d s = (Inr i, t) \<Longrightarrow> decision_tender_id d \<in> bk_tenders (book_of s) \<and> i = next_id (bk_decisions (book_of s)) \<and>
     book_of t = (book_of s)\<lparr>bk_decisions := add_rows (bk_decisions (book_of s)) [d]\<rparr>"
  by (auto simp: store_decision_def bind_Inr then_db_Inr book_of_def tender_exists_def Let_def split: if_splits)

lemma store_lock_book:
  "store_lock_in_requirement tid did c s = (Inr i, t) \<Longrightarrow>
     book_of t = (book_of s)\<lparr>bk_locks := add_rows (bk_locks (book_of s)) [lock_of tid did c]\<rparr>"
  by (auto simp: store_lock_in_requirement_def bind_Inr then_db_Inr book_of_def lock_of_def Let_def split: if_splits)

lemma store_locks_book:
  "store_lock_ins tid did cs s = (Inr r, t) \<Longrightarrow>
     book_of t = (book_of s)\<lparr>bk_locks := add_rows (bk_locks (book_of s)) (map (lock_of tid did) cs)\<rparr>"
proof (induction cs arbitrary: s r)
  case (Cons c cs)
  then obtain i u r' where u: "store_lock_in_requirement tid did c s = (Inr i, u)" "store_lock_ins tid did cs u = (Inr r', t)"
    by (auto simp: bind_Inr)
  show ?case unfolding Cons.IH[OF u(2)] store_lock_book[OF u(1)] by simp
qed simp

lemma store_fact_book:
  "store_execution_fact env f s = (Inr i, t) \<Longrightarrow>
     book_of t = (book_of s)\<lparr>bk_facts := add_rows (bk_facts (book_of s)) [f]\<rparr>"
  by (auto simp: store_execution_fact_def bind_Inr then_db_Inr book_of_def Let_def split: if_splits)

lemma store_drafts_book:
  "store_drafts env cid tid ttl n fs s = (Inr r, t) \<Longrightarrow>
     book_of t = (book_of s)\<lparr>bk_facts := add_rows (bk_facts (book_of s)) fs\<rparr>"
proof (induction fs arbitrary: s n)
  case (Cons f fs)
  then obtain i u v where u: "store_execution_fact env f s = (Inr i, u)" "feed_reputation env cid tid ttl n f u = (Inr (), v)"
    "store_drafts env cid tid ttl (Suc n) fs v = (Inr r, t)"
    by (auto simp: bind_Inr then_db_Inr)
  show ?case unfolding Cons.IH[OF u(3)] same_book_pair[OF book_feed u(2)] store_fact_book[OF u(1)] by simp
qed simp

lemma save_evidence_book:
  "save_execution_napkin_evidence env tid kind raw mime cid s = (Inr i, t) \<Longrightarrow>
     kind \<in> {''photo'', ''voice''} \<and> i = next_id (bk_evidence (book_of s)) \<and>
     book_of t = (book_of s)\<lparr>bk_evidence := add_rows (bk_evidence (book_of s))
       [\<lparr>ev_tender_id = tid, capture_kind = kind, mime_type = mime, ev_checksum = env_sha env raw, raw_bytes = raw,
         ev_correlation_id = cid\<rparr>]\<rparr>"
  by (auto simp: save_execution_napkin_evidence_def bind_Inr then_db_Inr book_of_def Let_def split: if_splits)

lemma store_contribution_book:
  "store_overhead_buffer_contribution tid cat n s = (Inr i, t) \<Longrightarrow>
     book_of t = (book_of s)\<lparr>bk_contributions := add_rows (bk_contributions (book_of s))
       [\<lparr>contribution_tender_id = tid, contribution_category = cat, fact_count = n, contributed_at = bk_clock (book_of s)\<rparr>]\<rparr>"
  by (auto simp: store_overhead_buffer_contribution_def bind_Inr then_db_Inr book_of_def Let_def split: if_splits)

lemma store_contributions_book:
  "for_each (\<lambda>(cat, n). bind (store_overhead_buffer_contribution tid cat n) (\<lambda>_. ret ())) cs s = (Inr r, t) \<Longrightarrow>
     book_of t = (book_of s)\<lparr>bk_contributions := add_rows (bk_contributions (book_of s))
       (map (\<lambda>(cat, n). \<lparr>contribution_tender_id = tid, contribution_category = cat, fact_count = n,
          contributed_at = bk_clock (book_of s)\<rparr>) cs)\<rparr>"
proof (induction cs arbitrary: s)
  case (Cons p cs)
  obtain cat n where p: "p = (cat, n)" by (cases p)
  from Cons.prems obtain u where u: "(\<lambda>(cat, n). bind (store_overhead_buffer_contribution tid cat n) (\<lambda>_. ret ())) p s = (Inr (), u)"
    "for_each (\<lambda>(cat, n). bind (store_overhead_buffer_contribution tid cat n) (\<lambda>_. ret ())) cs u = (Inr r, t)"
    by (simp only: for_each.simps then_db_Inr) blast
  from u(1) obtain i where i: "store_overhead_buffer_contribution tid cat n s = (Inr i, u)" by (auto simp: p bind_Inr)
  show ?case unfolding Cons.IH[OF u(2)] store_contribution_book[OF i] p by simp
qed simp

section \<open>Refinement\<close>

text \<open>
  \<open>refines m\<close>: when \<open>m\<close> returns on a well-formed book, it has left the book as it was or made one step
  of the specification.
\<close>

definition refines :: "'a decision_op \<Rightarrow> bool" where
  "refines m \<longleftrightarrow> (\<forall>s x t. book_ok (book_of s) \<longrightarrow> m s = (Inr x, t) \<longrightarrow> book_step\<^sup>=\<^sup>= (book_of s) (book_of t))"

lemma refinesI: "(\<And>s x t. book_ok (book_of s) \<Longrightarrow> m s = (Inr x, t) \<Longrightarrow> book_step\<^sup>=\<^sup>= (book_of s) (book_of t)) \<Longrightarrow> refines m"
  by (simp add: refines_def)

lemma refinesD: "refines m \<Longrightarrow> book_ok (book_of s) \<Longrightarrow> m s = (Inr x, t) \<Longrightarrow> book_step\<^sup>=\<^sup>= (book_of s) (book_of t)"
  unfolding refines_def by blast

lemma refines_same: "does same_book m \<Longrightarrow> refines m"
  by (rule refinesI) (simp add: same_book_pair)

lemma refines_after_same:
  assumes "does same_book m" "\<And>x. refines (k x)"
  shows "refines (bind m k)"
proof (rule refinesI)
  fix s x t assume s: "book_ok (book_of s)" and "bind m k s = (Inr x, t)"
  then obtain y u where u: "m s = (Inr y, u)" "k y u = (Inr x, t)" by (auto simp: bind_Inr)
  have b: "book_of u = book_of s" by (rule same_book_pair[OF assms(1) u(1)])
  with refinesD[OF assms(2) _ u(2)] s show "book_step\<^sup>=\<^sup>= (book_of s) (book_of t)" by simp
qed

lemma refines_before_same:
  assumes "refines m" "\<And>x. does same_book (k x)"
  shows "refines (bind m k)"
proof (rule refinesI)
  fix s x t assume s: "book_ok (book_of s)" and "bind m k s = (Inr x, t)"
  then obtain y u where u: "m s = (Inr y, u)" "k y u = (Inr x, t)" by (auto simp: bind_Inr)
  have "book_of t = book_of u" by (rule same_book_pair[OF assms(2) u(2)])
  with refinesD[OF assms(1) s u(1)] show "book_step\<^sup>=\<^sup>= (book_of s) (book_of t)" by simp
qed

lemma refines_gets: "(\<And>x. refines (k x)) \<Longrightarrow> refines (bind (gets f) k)"
  by (rule refines_after_same) (rule same_book.does_rules)

lemma refines_guard: "refines k \<Longrightarrow> refines (then_db (guard b e) k)"
  unfolding then_db_def by (rule refines_after_same) (rule same_book.does_rules)

lemma refines_catch: "refines m \<Longrightarrow> refines (catch m h)"
  by (simp add: refines_def)

lemma refines_idempotent: "refines w \<Longrightarrow> refines (idempotent k rt fp w)"
proof (rule refinesI)
  fix s x t
  assume w: "refines w" and s: "book_ok (book_of s)" and i: "idempotent k rt fp w s = (Inr x, t)"
  from idempotent_book[OF i] show "book_step\<^sup>=\<^sup>= (book_of s) (book_of t)"
  proof
    assume "\<exists>u v. book_of u = book_of s \<and> w u = (Inr x, v) \<and> book_of t = book_of v"
    then obtain u v where "book_of u = book_of s" "w u = (Inr x, v)" "book_of t = book_of v" by blast
    with refinesD[OF w, of u x v] s show ?thesis by simp
  qed simp
qed

lemma refines_raise: "refines (raise e)"
  by (simp add: refines_same same_book.does_rules)

lemma refines_case_option: "refines a \<Longrightarrow> (\<And>y. refines (b y)) \<Longrightarrow> refines (case x of None \<Rightarrow> a | Some y \<Rightarrow> b y)"
  by (cases x) auto

text \<open>What a request has done: nothing to the book if it failed, at most one step otherwise.\<close>

definition one_step :: "('e + 'a) \<times> decision_db \<Rightarrow> decision_db \<Rightarrow> bool" where
  "one_step r s \<longleftrightarrow>
     (case fst r of Inl e \<Rightarrow> book_of (snd r) = book_of s | Inr x \<Rightarrow> book_step\<^sup>=\<^sup>= (book_of s) (book_of (snd r)))"

lemma one_step_same: "does same_book m \<Longrightarrow> one_step (m s) s"
  using same_bookD[of m s] by (simp add: one_step_def split: sum.split)

lemma one_step_transaction:
  assumes "refines m" "book_ok (book_of s)"
  shows "one_step (transaction m s) s"
proof (cases rule: transaction_cases[of m s])
  case (ok x t)
  show ?thesis unfolding one_step_def ok(2) using refinesD[OF assms ok(1)] by simp
qed (simp add: one_step_def)

lemma refines_route:
  assumes "\<And>i. refines (f i)" "book_ok (book_of s)"
  shows "one_step (route_of p c f s) s"
proof (rule route_of_cases[of p c f s])
  fix x t i assume "route_of p c f s = (Inr x, t)" "f i s = (Inr x, t)"
  with refinesD[OF assms(1) assms(2), of i x t] show ?thesis by (simp add: one_step_def)
qed (simp add: one_step_def)

section \<open>The decision core\<close>

lemma refines_store_inputs: "refines (store_go_no_go_inputs x)"
  by (rule refinesI) (metis store_inputs_book book_step.inputs sup2CI)

lemma refines_store_candidate: "refines (store_bid_readiness_candidate x)"
  by (rule refinesI) (metis store_candidate_book book_step.candidate sup2CI)

lemma inputs_refines:
  "book_ok (book_of s) \<Longrightarrow> one_step (create_go_no_go_inputs fp isof c key tid co q fi re su s) s"
  unfolding create_go_no_go_inputs_def Let_def
  by (rule refines_route, rule refines_idempotent, rule refines_gets, rule refines_before_same, rule refines_catch,
      rule refines_store_inputs, intro same_book.does_rules book_audit)

lemma event_id_same: "does same_book (get_event_id_for_tender tid)"
  unfolding get_event_id_for_tender_def
  by (intro same_book.does_rules does_control) (simp split: json.split option.split add: same_book.does_rules)

lemma readiness_refines:
  "book_ok (book_of s) \<Longrightarrow> one_step (get_bid_readiness_candidate lower c tid aware as_of offers s) s"
proof -
  have "refines (bind (store_bid_readiness_candidate x) (\<lambda>i. ret (i, x)))" for x
    by (rule refines_before_same, rule refines_store_candidate, rule same_book.does_rules)
  then show "book_ok (book_of s) \<Longrightarrow> ?thesis"
    unfolding get_bid_readiness_candidate_def
    by (intro refines_route refines_guard refines_after_same[OF event_id_same] refines_case_option refines_raise refines_gets)
qed

lemma check_inputs_ok:
  "check_go_no_go tid ref s = (Inr u, t) \<Longrightarrow>
     t = s \<and> (\<forall>k. ref = Some k \<longrightarrow> (\<exists>x. map_of (go_no_go s) k = Some x \<and> gng_tender_id x = tid))"
  by (auto simp: check_go_no_go_def bind_Inr load_go_no_go_inputs_def split: option.splits if_splits)

lemma check_candidate_ok:
  "check_candidate tid ref s = (Inr c, t) \<Longrightarrow>
     t = s \<and> (case ref of None \<Rightarrow> c = None | Some k \<Rightarrow> c = map_of (readiness s) k \<and> (\<exists>x. c = Some x \<and> brc_tender_id x = tid))"
  by (auto simp: check_candidate_def bind_Inr then_db_Inr load_bid_readiness_candidate_def split: option.splits if_splits) metis

text \<open>A decision that is stored: its references are of its tender, and the lock-ins are written with it.\<close>

lemma decision_work_book:
  assumes "decision_work isof ident tid b s = (Inr r, t)"
  obtains d where "refs_of (book_of s) d" "decided_at d = clock s" "decision_tender_id d = tid" "decision_type d = req_decision_type b"
    "book_of t = (book_of s)\<lparr>bk_decisions := add_rows (decisions s) [d],
      bk_locks := add_rows (lock_ins s) (map (lock_of tid (next_id (decisions s))) (required_locks (readiness s) d))\<rparr>"
proof -
  let ?d = "\<lparr>decision_tender_id = tid, decision_type = req_decision_type b, conditions = req_conditions b,
        deadline = req_deadline b, justification = req_justification b, decision_actor = subject ident, decided_at = clock s,
        go_no_go_inputs_id = req_go_no_go_inputs_id b, bid_readiness_candidate_id = req_candidate_id b\<rparr>"
  obtain s1 where 1: "check_go_no_go tid (req_go_no_go_inputs_id b) s = (Inr (), s1)"
    using assms by (auto simp: decision_work_def then_db_Inr)
  obtain cand s2 where 2: "check_candidate tid (req_candidate_id b) s1 = (Inr cand, s2)"
    using assms 1 by (auto simp: decision_work_def then_db_Inr bind_Inr)
  have eq: "s1 = s" "s2 = s" using check_inputs_ok[OF 1] check_candidate_ok[OF 2] by simp_all
  note c1 = check_inputs_ok[OF 1] and c2 = check_candidate_ok[OF 2[unfolded eq]]
  obtain did s3 where 3: "decision_type ?d \<in> set DECISION_TYPES" "store_decision ?d s = (Inr did, s3)"
    using assms 1 2 by (auto simp: decision_work_def then_db_Inr bind_Inr eq mk_decision_def split: if_splits)
  let ?A = "write_audit_log (subject ident) ''decision.create'' ''decision'' (str_int did) None (Some (req_justification b))"
  let ?L = "case cand of None \<Rightarrow> ret []
           | Some c \<Rightarrow> if req_decision_type b \<in> {''bid'', ''conditional_bid''} then store_lock_ins tid did (critical_lines c) else ret []"
  obtain s4 ls where 4: "?A s3 = (Inr (), s4)" "?L s4 = (Inr ls, t)"
    using assms 1 2 3 by (auto simp: decision_work_def then_db_Inr bind_Inr eq mk_decision_def split: if_splits)
  note d = store_decision_book[OF 3(2)]
  have b4: "book_of s4 = book_of s3" by (rule same_book_pair[OF book_audit 4(1)])
  have refs: "refs_of (book_of s) ?d"
    using c1 c2 3(1) d by (auto simp: refs_of_def book_of_def split: option.splits)
  have "book_of t = (book_of s4)\<lparr>bk_locks := add_rows (bk_locks (book_of s4)) (map (lock_of tid did) (required_locks (readiness s) ?d))\<rparr>"
  proof (cases "req_candidate_id b")
    case None
    with c2 4(2) show ?thesis by (simp add: required_locks_def)
  next
    case (Some k)
    with c2 obtain c where c: "cand = Some c" "map_of (readiness s) k = Some c" by auto
    show ?thesis
    proof (cases "req_decision_type b \<in> {''bid'', ''conditional_bid''}")
      case True
      with 4(2) c have "store_lock_ins tid did (critical_lines c) s4 = (Inr ls, t)" by auto
      from store_locks_book[OF this] True Some c show ?thesis by (simp add: required_locks_def bid_type_def)
    next
      case False
      with 4(2) c Some show ?thesis by (auto simp: required_locks_def bid_type_def)
    qed
  qed
  then have "book_of t = (book_of s)\<lparr>bk_decisions := add_rows (decisions s) [?d],
      bk_locks := add_rows (lock_ins s) (map (lock_of tid (next_id (decisions s))) (required_locks (readiness s) ?d))\<rparr>"
    using b4 d by (simp add: book_of_def del: add_rows.simps)
  with that[OF refs] show thesis by simp
qed

lemma refines_decision_work: "refines (decision_work isof ident tid b)"
proof (rule refinesI)
  fix s x t assume "decision_work isof ident tid b s = (Inr x, t)"
  then obtain d where d: "refs_of (book_of s) d" "decided_at d = clock s" "decision_tender_id d = tid"
    "book_of t = (book_of s)\<lparr>bk_decisions := add_rows (decisions s) [d],
      bk_locks := add_rows (lock_ins s) (map (lock_of tid (next_id (decisions s))) (required_locks (readiness s) d))\<rparr>"
    by (rule decision_work_book)
  have "book_step (book_of s) (book_of t)"
    using book_step.decide[OF d(1)] d(2-4) by (simp add: book_of_def del: add_rows.simps)
  then show "book_step\<^sup>=\<^sup>= (book_of s) (book_of t)" by simp
qed

lemma decision_refines:
  "book_ok (book_of s) \<Longrightarrow> one_step (create_decision fp isof c key tid b s) s"
  unfolding create_decision_def by (intro refines_route refines_guard refines_idempotent refines_decision_work)

section \<open>The execution ledger\<close>

lemma require_active_ok:
  assumes "require_active_bid_decision tid s = (Inr u, t)" "book_ok (book_of s)"
  shows "t = s" "active_bid (book_of s) tid"
proof -
  have "get_latest_decision_type s tid = last_type (decisions s) tid" by (rule latest_decision[OF assms(2)])
  with assms(1) show "t = s" "active_bid (book_of s) tid"
    by (auto simp: require_active_bid_decision_def bind_Inr active_bid_def book_of_def split: if_splits)
qed

lemma mk_execution_fact_Inr: "mk_execution_fact f = Inr g \<Longrightarrow> g = f \<and> fact_ok f"
  by (auto simp: mk_execution_fact_def fact_ok_def split: if_splits)

lemma parse_observation_ok:
  "parse_observation env src tid ls locks fb j = Inr f \<Longrightarrow> fact_ok f \<and> fact_tender_id f = tid"
  unfolding parse_observation_def Let_def
  by (auto split: json.splits option.splits if_splits dest!: mk_execution_fact_Inr)

lemma parse_observations_ok:
  "parse_observations f js = Inr xs \<Longrightarrow> (\<And>j x. f j = Inr x \<Longrightarrow> P x) \<Longrightarrow> x \<in> set xs \<Longrightarrow> P x"
  by (induction f js arbitrary: xs rule: parse_observations.induct) (auto split: sum.splits)

lemma generate_ok:
  assumes "generate env img ev tid ls locks fb = Inr fs" "f \<in> set fs"
  shows "fact_ok f \<and> fact_tender_id f = tid"
proof -
  obtain js where "parse_observations (parse_observation env (''napkin-ocr:'' @ str_int ev) tid ls locks fb) js = Inr fs"
    using assms(1) by (auto simp: generate_def split: sum.splits json.splits)
  from parse_observations_ok[OF this, of "\<lambda>f. fact_ok f \<and> fact_tender_id f = tid"] assms(2) parse_observation_ok
  show ?thesis by blast
qed

text \<open>The part of \<open>submit_napkin_capture\<close> after the evidence is committed, from the state \<open>s1\<close> it leaves.\<close>

definition napkin_rest :: "ledger_env \<Rightarrow> bool \<Rightarrow> identity \<Rightarrow> int \<Rightarrow> napkin_request \<Rightarrow> string \<Rightarrow> string \<Rightarrow> int \<Rightarrow>
    (int \<times> execution_fact list option) decision_op" where
  "napkin_rest env configured ident tid b raw cid ev_id = (\<lambda>s1.
     if req_capture_kind b = ''voice'' then
       transaction (then_db (write_audit_log (subject ident) ''execution_facts.create''
         ''execution_napkin_evidence'' (str_int ev_id) None None) (ret (ev_id, None))) s1
     else if \<not> configured then (Inl (ApiError 503 ''ocr_not_configured'' []), s1)
     else (case fst (get_event_id_for_tender tid s1) of
       Inl e \<Rightarrow> (Inl e, s1)
     | Inr event \<Rightarrow>
         let ls = (case event of None \<Rightarrow> [] | Some ev \<Rightarrow> list_boq_lines_by_event s1 ''etender'' ev);
             locks = list_lock_in_requirements_by_tender s1 tid in
         (case generate env raw ev_id tid ls locks (env_iso env (clock s1)) of
            Inl why \<Rightarrow>
              (case transaction (enqueue_exception ''execution-ledger'' ''napkin_unrecognized''
                  ''needs_human'' why cid None None) s1 of
                 (Inl e, s2) \<Rightarrow> (Inl e, s2)
               | (Inr _, s2) \<Rightarrow> (Inl (ApiError 422 ''napkin_unrecognized'' [why]), s2))
          | Inr drafts \<Rightarrow>
              transaction (then_db (store_drafts env cid tid (req_ttl_days b) 0 drafts)
                (then_db (write_audit_log (subject ident) ''execution_facts.create''
                   ''execution_napkin_evidence'' (str_int ev_id) None None)
                (ret (ev_id, Some drafts)))) s1)))"

definition napkin_gate :: "string option \<Rightarrow> int \<Rightarrow> identity decision_op" where
  "napkin_gate cookie tid = transaction (bind (require_permission ''decision.execution_facts.create'' cookie)
     (\<lambda>ident. then_db (require_active_bid_decision tid) (ret ident)))"

lemma submit_napkin_eq:
  "submit_napkin_capture env configured cookie tid b s =
     (case napkin_gate cookie tid s of
        (Inl e, s) \<Rightarrow> (Inl e, s)
      | (Inr ident, s) \<Rightarrow>
          (case (req_image b, correlation_id_var s) of
             (Some raw, Some cid) \<Rightarrow>
               (case transaction (save_execution_napkin_evidence env tid (req_capture_kind b) raw (req_mime_type b) cid) s of
                  (Inl e, s1) \<Rightarrow> (Inl e, s1)
                | (Inr ev_id, s1) \<Rightarrow> napkin_rest env configured ident tid b raw cid ev_id s1)
           | (None, _) \<Rightarrow> (Inl (Exc ''binascii.Error'' []), s)
           | (_, None) \<Rightarrow> (Inl (Exc ''RuntimeError'' [''no correlation id bound in this context'']), s)))"
  unfolding submit_napkin_capture_def napkin_rest_def napkin_gate_def ..

lemma napkin_gate_state: "snd (napkin_gate c tid s) = s"
proof (cases "napkin_gate c tid s")
  case (Pair r t)
  show ?thesis
  proof (cases r)
    case (Inl e)
    with Pair have "t = s" by (simp add: napkin_gate_def transaction_Inl)
    with Pair show ?thesis by simp
  next
    case (Inr i)
    with Pair have "bind (require_permission ''decision.execution_facts.create'' c)
      (\<lambda>ident. then_db (require_active_bid_decision tid) (ret ident)) s = (Inr i, t)" by (simp add: napkin_gate_def)
    then show ?thesis
      using Pair by (auto simp: bind_Inr then_db_Inr require_permission_eq require_active_bid_decision_def split: option.splits if_splits)
  qed
qed

lemma napkin_gate_Inr:
  "napkin_gate c tid s = (Inr ident, t) \<longleftrightarrow> t = s \<and> authorized s c ''decision.execution_facts.create'' ident \<and>
     get_latest_decision_type s tid \<in> {Some ''bid'', Some ''conditional_bid''}"
  by (auto simp: napkin_gate_def bind_Inr then_db_Inr require_permission_eq require_active_bid_decision_def authorized_def
      split: option.splits if_splits)

lemma napkin_rest_book:
  assumes "napkin_rest env conf ident tid b raw cid ev_id s = (r, t)"
  shows "book_of t = book_of s \<and> (\<forall>fs. r \<noteq> Inr (ev_id, Some fs)) \<or>
    (\<exists>fs. r = Inr (ev_id, Some fs) \<and> (\<forall>f \<in> set fs. fact_ok f \<and> fact_tender_id f = tid) \<and>
       book_of t = (book_of s)\<lparr>bk_facts := add_rows (bk_facts (book_of s)) fs\<rparr>)"
proof (cases "req_capture_kind b = ''voice'' \<or> \<not> conf")
  case True
  have "does same_book (transaction (then_db (write_audit_log (subject ident) ''execution_facts.create''
         ''execution_napkin_evidence'' (str_int ev_id) None None) (ret (ev_id, None :: execution_fact list option))))"
    by (intro same_book.does_rules book_audit)
  from same_book_pair[OF this, of s r t] True assms show ?thesis
    by (auto simp: napkin_rest_def then_db_Inr split: if_splits)
next
  case False
  show ?thesis
  proof (cases "fst (get_event_id_for_tender tid s)")
    case (Inl e)
    with False assms show ?thesis by (auto simp: napkin_rest_def)
  next
    case (Inr event)
    define ls where "ls = (case event of None \<Rightarrow> [] | Some ev \<Rightarrow> list_boq_lines_by_event s ''etender'' ev)"
    define locks where "locks = list_lock_in_requirements_by_tender s tid"
    show ?thesis
    proof (cases "generate env raw ev_id tid ls locks (env_iso env (clock s))")
      case (Inl why)
      let ?q = "transaction (enqueue_exception ''execution-ledger'' ''napkin_unrecognized'' ''needs_human'' why cid None None)"
      obtain q u where q: "?q s = (q, u)" by (cases "?q s")
      have "does same_book ?q" by (intro same_book.does_rules book_enqueue)
      then have "book_of u = book_of s" using q by (rule same_book_pair)
      moreover have "t = u \<and> (\<exists>e. r = Inl e)"
        using assms False by (cases q) (auto simp: napkin_rest_def Let_def Inr Inl[unfolded ls_def locks_def] q)
      ultimately show ?thesis by auto
    next
      case g: (Inr fs)
      have e: "transaction (then_db (store_drafts env cid tid (req_ttl_days b) 0 fs)
                (then_db (write_audit_log (subject ident) ''execution_facts.create''
                   ''execution_napkin_evidence'' (str_int ev_id) None None) (ret (ev_id, Some fs)))) s = (r, t)"
        using False Inr g assms by (simp add: napkin_rest_def Let_def ls_def locks_def)
      show ?thesis
      proof (cases r)
        case (Inl err)
        with e show ?thesis by (simp add: transaction_Inl)
      next
        case (Inr v)
        with e obtain u where u: "store_drafts env cid tid (req_ttl_days b) 0 fs s = (Inr (), u)" "v = (ev_id, Some fs)"
          "write_audit_log (subject ident) ''execution_facts.create'' ''execution_napkin_evidence'' (str_int ev_id) None None u = (Inr (), t)"
          by (auto simp: then_db_Inr)
        have "book_of t = (book_of s)\<lparr>bk_facts := add_rows (bk_facts (book_of s)) fs\<rparr>"
          using same_book_pair[OF book_audit u(3)] store_drafts_book[OF u(1)] by simp
        with generate_ok[OF g] Inr u(2) show ?thesis by blast
      qed
    qed
  qed
qed

lemma napkin_rest_id:
  assumes "napkin_rest env conf ident tid b raw cid ev_id s = (Inr (i, x), t)"
  shows "i = ev_id"
  using assms by (auto simp: napkin_rest_def Let_def then_db_Inr split: if_splits sum.splits prod.splits)

text \<open>
  A capture that fails leaves the book as it was or with its evidence; one that succeeds has added
  its evidence and then its facts, if it has any.
\<close>

definition capture_done :: "int \<Rightarrow> ('e + 'a) \<times> decision_db \<Rightarrow> decision_db \<Rightarrow> bool" where
  "capture_done tid r s \<longleftrightarrow>
     (\<exists>ev b. ev_tender_id ev = tid \<and> b = (book_of s)\<lparr>bk_evidence := add_rows (bk_evidence (book_of s)) [ev]\<rparr> \<and> book_step (book_of s) b \<and>
        (case fst r of Inl e \<Rightarrow> book_of (snd r) = b | Inr x \<Rightarrow> book_step\<^sup>=\<^sup>= b (book_of (snd r)))) \<or>
     (\<exists>e. fst r = Inl e \<and> book_of (snd r) = book_of s)"

lemma napkin_refines:
  assumes "book_ok (book_of s)"
  shows "capture_done tid (submit_napkin_capture env conf c tid b s) s"
proof (cases "napkin_gate c tid s")
  case (Pair q s0)
  have s0: "s0 = s" using napkin_gate_state[of c tid s] Pair by simp
  show ?thesis
  proof (cases "\<exists>ident raw cid. q = Inr ident \<and> req_image b = Some raw \<and> correlation_id_var s = Some cid")
    case False
    then show ?thesis using Pair s0 by (cases q) (auto simp: submit_napkin_eq capture_done_def split: option.split)
  next
    case True
    then obtain ident raw cid where q: "q = Inr ident" "req_image b = Some raw" "correlation_id_var s = Some cid" by blast
    let ?save = "save_execution_napkin_evidence env tid (req_capture_kind b) raw (req_mime_type b) cid"
    have "get_latest_decision_type s tid \<in> {Some ''bid'', Some ''conditional_bid''}"
      using Pair q(1) by (simp add: napkin_gate_Inr)
    then have act: "active_bid (book_of s) tid" using latest_decision[OF assms, of tid] by (simp add: active_bid_def book_of_def)
    show ?thesis
    proof (cases rule: transaction_cases[of ?save s])
      case (err e u)
      then show ?thesis using Pair s0 q by (simp add: submit_napkin_eq capture_done_def)
    next
      case (ok ev s1)
      obtain r t where rest: "napkin_rest env conf ident tid b raw cid ev s1 = (r, t)" by (cases "napkin_rest env conf ident tid b raw cid ev s1")
      note ev = save_evidence_book[OF ok(1)]
      have step1: "book_step (book_of s) (book_of s1)"
        using ev by (simp del: add_rows.simps) (rule book_step.evidence, simp_all add: act)
      have act1: "active_bid (book_of s1) tid" using act ev by (simp add: active_bid_def)
      have c: "case r of Inl e \<Rightarrow> book_of t = book_of s1 | Inr x \<Rightarrow> book_step\<^sup>=\<^sup>= (book_of s1) (book_of t)"
        using napkin_rest_book[OF rest] book_step.observe[OF act1] by (auto split: sum.splits)
      have r: "submit_napkin_capture env conf c tid b s = (r, t)" by (simp add: submit_napkin_eq Pair s0 q ok(2) rest)
      have "\<exists>ev. ev_tender_id ev = tid \<and> book_of s1 = (book_of s)\<lparr>bk_evidence := add_rows (bk_evidence (book_of s)) [ev]\<rparr>"
        by (rule exI, rule conjI[rotated], rule conjunct2[OF conjunct2[OF ev]]) simp
      then obtain x where x: "ev_tender_id x = tid" "book_of s1 = (book_of s)\<lparr>bk_evidence := add_rows (bk_evidence (book_of s)) [x]\<rparr>"
        by (elim exE conjE)
      show ?thesis
        unfolding capture_done_def r fst_conv snd_conv
        by (rule disjI1, rule exI[of _ x], rule exI[of _ "book_of s1"], intro conjI x step1 c)
    qed
  qed
qed

lemma facts_by_tender:
  assumes "numbered (execution_facts s)"
  shows "map snd (list_execution_facts_by_tender s tid) = facts_of (execution_facts s) tid"
proof -
  have "sorted (map fst (filter (\<lambda>(i, f). fact_tender_id f = tid) (execution_facts s)))"
    by (rule sorted_filter, rule numbered_sorted[OF assms])
  then show ?thesis by (simp add: list_execution_facts_by_tender_def facts_of_def sort_key_id_if_sorted)
qed

definition close_work :: "int \<Rightarrow> identity \<Rightarrow> (plan_fact_delta list \<times> (string \<times> nat) list) decision_op" where
  "close_work tid ident =
     then_db (require_active_bid_decision tid) (
     bind (gets id) (\<lambda>s.
     then_db (guard (\<not> (\<exists>p \<in> set (contributions s). contribution_tender_id (snd p) = tid))
       (ApiError 409 ''project_already_closed'' [str_int tid])) (
     let summary = build_summary s tid in
     then_db (for_each (\<lambda>(cat, n). bind (store_overhead_buffer_contribution tid cat n) (\<lambda>_. ret ())) (snd summary)) (
     then_db (write_audit_log (subject ident) ''execution_ledger.close_project'' ''tender'' (str_int tid) None None)
     (ret summary)))))"

lemma close_project_eq: "close_project c tid = route_of ''decision.execution_facts.close_project'' c (close_work tid)"
  unfolding close_project_def close_work_def ..

lemma close_work_book:
  assumes "close_work tid ident s = (Inr r, t)" "book_ok (book_of s)"
  shows "active_bid (book_of s) tid" "\<forall>(i, c) \<in> set (bk_contributions (book_of s)). contribution_tender_id c \<noteq> tid"
    "r = build_summary s tid" "book_of t = (book_of s)\<lparr>bk_contributions := add_rows (bk_contributions (book_of s)) (contribution_rows (book_of s) tid)\<rparr>"
proof -
  obtain s1 where 1: "require_active_bid_decision tid s = (Inr (), s1)"
    using assms(1) by (auto simp: close_work_def then_db_Inr)
  note act = require_active_ok[OF 1 assms(2)]
  let ?each = "for_each (\<lambda>(cat, n). bind (store_overhead_buffer_contribution tid cat n) (\<lambda>_. ret ()))"
  have b: "bind (gets id) (\<lambda>s.
     then_db (guard (\<not> (\<exists>p \<in> set (contributions s). contribution_tender_id (snd p) = tid))
       (ApiError 409 ''project_already_closed'' [str_int tid])) (
     let summary = build_summary s tid in
     then_db (?each (snd summary)) (
     then_db (write_audit_log (subject ident) ''execution_ledger.close_project'' ''tender'' (str_int tid) None None)
     (ret summary)))) s = (Inr r, t)"
    using assms(1) 1 act(1) unfolding close_work_def then_db_Inr by auto
  then obtain s2 where 2: "\<not> (\<exists>p \<in> set (contributions s). contribution_tender_id (snd p) = tid)"
    "?each (snd (build_summary s tid)) s = (Inr (), s2)" "r = build_summary s tid"
    "write_audit_log (subject ident) ''execution_ledger.close_project'' ''tender'' (str_int tid) None None s2 = (Inr (), t)"
    unfolding bind_Inr then_db_Inr Let_def guard_Inr gets_eq ret_eq by auto
  have "numbered (execution_facts s)" using assms(2) by (simp add: book_ok_def ids_ok_def book_of_def)
  then have sum: "snd (build_summary s tid) = summarize_deviation_category_counts (facts_of (bk_facts (book_of s)) tid)"
    by (simp add: build_summary_def facts_by_tender book_of_def Let_def)
  show "active_bid (book_of s) tid" by (rule act(2))
  show "\<forall>(i, c) \<in> set (bk_contributions (book_of s)). contribution_tender_id c \<noteq> tid" using 2(1) by (auto simp: book_of_def)
  show "r = build_summary s tid" by (rule 2(3))
  show "book_of t = (book_of s)\<lparr>bk_contributions := add_rows (bk_contributions (book_of s)) (contribution_rows (book_of s) tid)\<rparr>"
    using same_book_pair[OF book_audit 2(4)] store_contributions_book[OF 2(2)] by (simp add: sum contribution_rows_def)
qed

lemma close_refines:
  "book_ok (book_of s) \<Longrightarrow> one_step (close_project c tid s) s"
proof -
  have "refines (close_work tid i)" for i
  proof (rule refinesI)
    fix s x t assume s: "book_ok (book_of s)" and w: "close_work tid i s = (Inr x, t)"
    have "book_step (book_of s) (book_of t)"
      unfolding close_work_book(4)[OF w s] by (rule book_step.close[OF close_work_book(1,2)[OF w s]])
    then show "book_step\<^sup>=\<^sup>= (book_of s) (book_of t)" by simp
  qed
  then show "book_ok (book_of s) \<Longrightarrow> ?thesis" unfolding close_project_eq by (rule refines_route)
qed

section \<open>The calibration loop\<close>

lemma find_outcome: "load_tender_outcome s tid = None \<longleftrightarrow> (\<forall>(i, r) \<in> set (outcomes s). outcome_tender_id r \<noteq> tid)"
  by (auto simp: load_tender_outcome_def find_None_iff)

lemma read_opt_state: "read_opt f cls v s = (Inr x, u) \<Longrightarrow> u = s"
  by (auto simp: read_opt_def split: option.splits)

lemma store_outcome_book:
  assumes "store_tender_outcome num parse tid p who tm s = (Inr i, t)"
  obtains r where "outcome_tender_id r = tid" "outcome r = or_outcome p" "source_ref r = or_source_ref p" "i = next_id (outcomes s)"
    "book_of t = (book_of s)\<lparr>bk_outcomes := add_rows (bk_outcomes (book_of s)) [r]\<rparr>"
proof -
  have "\<exists>r. outcome_tender_id r = tid \<and> outcome r = or_outcome p \<and> source_ref r = or_source_ref p \<and> i = next_id (outcomes s) \<and>
    book_of t = (book_of s)\<lparr>bk_outcomes := add_rows (bk_outcomes (book_of s)) [r]\<rparr>"
    using assms by (auto simp: store_tender_outcome_def bind_Inr then_db_Inr Let_def book_of_def split: if_splits dest!: read_opt_state)
  then show thesis using that by blast
qed

definition outcome_work :: "(string \<Rightarrow> dec option) \<Rightarrow> (string \<Rightarrow> int option) \<Rightarrow> int \<Rightarrow> outcome_request \<Rightarrow> identity \<Rightarrow>
    (int \<times> tender_outcome) decision_op" where
  "outcome_work num parse tid p ident =
     then_db (require_active_bid_decision tid) (
     bind (gets (\<lambda>s. load_tender_outcome s tid)) (\<lambda>existing.
     then_db (guard (existing = None) (ApiError 409 ''outcome_already_recorded'' [str_int tid])) (
     then_db (guard (outcome_valid p) (ApiError 422 ''invalid_outcome'' [or_outcome p])) (
     bind (gets clock) (\<lambda>t.
     bind (store_tender_outcome num parse tid p (subject ident) t) (\<lambda>i.
     then_db (write_audit_log (subject ident) ''calibration.record_outcome'' ''tender_outcome'' (str_int i) None None) (
     bind (gets (\<lambda>s. load_tender_outcome s tid)) (\<lambda>loaded.
     case loaded of None \<Rightarrow> raise (Exc ''AssertionError'' []) | Some r \<Rightarrow> ret r))))))))"

lemma post_outcome_eq: "post_outcome num parse c tid p = route_of ''decision.outcome.write'' c (outcome_work num parse tid p)"
  unfolding post_outcome_def outcome_work_def ..

lemma outcome_work_book:
  assumes "outcome_work num parse tid p ident s = (Inr x, t)" "book_ok (book_of s)"
  obtains r where "outcome_tender_id r = tid" "outcome r = or_outcome p" "source_ref r = or_source_ref p" "outcome_valid p"
    "active_bid (book_of s) tid" "load_tender_outcome s tid = None" "load_tender_outcome t tid = Some x"
    "book_of t = (book_of s)\<lparr>bk_outcomes := add_rows (bk_outcomes (book_of s)) [r]\<rparr>"
proof -
  obtain s1 where 1: "require_active_bid_decision tid s = (Inr (), s1)"
    using assms(1) by (auto simp: outcome_work_def then_db_Inr)
  note act = require_active_ok[OF 1 assms(2)]
  obtain i s2 where 2: "load_tender_outcome s tid = None" "outcome_valid p"
    "store_tender_outcome num parse tid p (subject ident) (clock s) s = (Inr i, s2)"
    using assms(1) 1 act(1) unfolding outcome_work_def then_db_Inr bind_Inr guard_Inr gets_eq by auto
  have 3: "write_audit_log (subject ident) ''calibration.record_outcome'' ''tender_outcome'' (str_int i) None None s2 = (Inr (), t)"
    "load_tender_outcome t tid = Some x"
    using assms(1) 1 2 act(1) unfolding outcome_work_def then_db_Inr bind_Inr guard_Inr gets_eq
    by (auto split: option.splits)
  obtain r where r: "outcome_tender_id r = tid" "outcome r = or_outcome p" "source_ref r = or_source_ref p"
    "book_of s2 = (book_of s)\<lparr>bk_outcomes := add_rows (bk_outcomes (book_of s)) [r]\<rparr>"
    using store_outcome_book[OF 2(3)] by blast
  with same_book_pair[OF book_audit 3(1)] 2 3(2) act(2) that[of r] show thesis by simp
qed

lemma outcome_refines:
  "book_ok (book_of s) \<Longrightarrow> one_step (post_outcome num parse c tid p s) s"
proof -
  have "refines (outcome_work num parse tid p i)" for i
  proof (rule refinesI)
    fix s x t assume s: "book_ok (book_of s)" and w: "outcome_work num parse tid p i s = (Inr x, t)"
    obtain r where r: "outcome_tender_id r = tid" "outcome r = or_outcome p" "source_ref r = or_source_ref p" "outcome_valid p"
      "active_bid (book_of s) tid" "load_tender_outcome s tid = None"
      "book_of t = (book_of s)\<lparr>bk_outcomes := add_rows (bk_outcomes (book_of s)) [r]\<rparr>"
      using outcome_work_book[OF w s] by blast
    have "book_step (book_of s) (book_of t)"
      unfolding r(7) by (rule book_step.result)
        (use r(1-6) in \<open>simp_all add: outcome_valid_def find_outcome book_of_def\<close>)
    then show "book_step\<^sup>=\<^sup>= (book_of s) (book_of t)" by simp
  qed
  then show "book_ok (book_of s) \<Longrightarrow> ?thesis" unfolding post_outcome_eq by (rule refines_route)
qed

lemma load_outcome_map_of:
  assumes "numbered (outcomes s)" "load_tender_outcome s tid = Some (i, r)"
  shows "map_of (outcomes s) i = Some r" "outcome_tender_id r = tid"
proof -
  have "(i, r) \<in> set (outcomes s)" "outcome_tender_id r = tid"
    using assms(2) by (auto simp: load_tender_outcome_def find_Some_iff) (metis nth_mem)
  then show "map_of (outcomes s) i = Some r" "outcome_tender_id r = tid"
    using numbered_distinct[OF assms(1)] by simp_all
qed

lemma refines_loss:
  assumes "map_of (outcomes s) oid = Some r" "outcome r = ''lost''" "loss_reason_valid re nt"
    "store_loss_reason re nt who tm oid s = (Inr i, t)"
  shows "book_step (book_of s) (book_of t)"
proof -
  let ?l = "\<lparr>loss_outcome_id = oid, loss_reason = re, loss_note = nt, loss_entered_by = who, loss_entered_at = tm\<rparr>"
  have "book_of t = (book_of s)\<lparr>bk_losses := add_rows (bk_losses (book_of s)) [?l]\<rparr>"
    using assms(4) by (auto simp: store_loss_reason_def bind_Inr then_db_Inr Let_def book_of_def split: if_splits)
  moreover have "book_step (book_of s) ((book_of s)\<lparr>bk_losses := add_rows (bk_losses (book_of s)) [?l]\<rparr>)"
    by (rule book_step.explain[where r = r]) (use assms(1-3) in \<open>simp_all add: book_of_def\<close>)
  ultimately show ?thesis by simp
qed

lemma loss_refines:
  "book_ok (book_of s) \<Longrightarrow> one_step (post_loss_reason c tid re nt s) s"
  unfolding post_loss_reason_def
proof (rule refines_route)
  fix ident
  show "refines (bind (gets (\<lambda>s. load_tender_outcome s tid)) (\<lambda>row.
     case row of
       None \<Rightarrow> raise (ApiError 404 ''outcome_not_found'' [str_int tid])
     | Some (oid, out) \<Rightarrow>
         then_db (guard (outcome out = ''lost'') (ApiError 409 ''outcome_not_a_loss'' [str_int tid, outcome out])) (
         then_db (guard (loss_reason_valid re nt) (ApiError 422 ''invalid_loss_reason'' [re])) (
         bind (gets clock) (\<lambda>t.
         bind (store_loss_reason re nt (subject ident) t oid) (\<lambda>i.
         then_db (write_audit_log (subject ident) ''calibration.record_loss_reason'' ''tender_loss_reason'' (str_int i) None None) (
         bind (gets (\<lambda>s. find (\<lambda>p. fst p = i) (list_loss_reasons_by_outcome s oid))) (\<lambda>stored.
         case stored of None \<Rightarrow> raise (Exc ''StopIteration'' []) | Some p \<Rightarrow> ret p))))))))" (is "refines ?m")
  proof (rule refinesI)
    fix s x t assume s: "book_ok (book_of s)" and m: "?m s = (Inr x, t)"
    obtain oid out where o: "load_tender_outcome s tid = Some (oid, out)"
      using m by (auto simp: bind_Inr split: option.splits)
    have lost: "outcome out = ''lost''" "loss_reason_valid re nt"
      using m o by (auto simp: bind_Inr then_db_Inr split: if_splits)
    obtain i u where u: "store_loss_reason re nt (subject ident) (clock s) oid s = (Inr i, u)"
      "write_audit_log (subject ident) ''calibration.record_loss_reason'' ''tender_loss_reason'' (str_int i) None None u = (Inr (), t)"
      using m o lost by (auto simp: bind_Inr then_db_Inr split: option.splits)
    have "numbered (outcomes s)" using s by (simp add: book_ok_def ids_ok_def book_of_def)
    then have "book_step (book_of s) (book_of u)"
      using refines_loss[OF _ lost u(1)] load_outcome_map_of(1)[OF _ o] by blast
    then show "book_step\<^sup>=\<^sup>= (book_of s) (book_of t)" using same_book_pair[OF book_audit u(2)] by simp
  qed
qed

section \<open>The system\<close>

datatype decision_event =
    EnterInputs "string option" string int string string string string bool
  | ReadCandidate "string option" int bool int "vendor_offer list option"
  | MakeDecision "string option" string int decision_request
  | SubmitNapkin bool "string option" int napkin_request
  | CloseProject "string option" int
  | RecordOutcome "string option" int outcome_request
  | RecordLoss "string option" int string string
  | SignIn string string string
  | SignOut "string option"
  | NewTender string string
  | NewSnapshot "string \<Rightarrow> json option" string string string string string string
  | NewVersion int int string jobject
  | NewLines string int int int "boq_line list"
  | Pass nat
  | BindCorrelation "string option"

text \<open>The state after an event; the answer of a request is dropped.\<close>

fun decision_next :: "ledger_env \<Rightarrow> (jobject \<Rightarrow> string) \<Rightarrow> (string \<Rightarrow> dec option) \<Rightarrow> (string \<Rightarrow> string \<Rightarrow> bool) \<Rightarrow>
    decision_event \<Rightarrow> decision_db \<Rightarrow> decision_db" where
  "decision_next env fp num h (EnterInputs c key tid co q fi re su) s = snd (create_go_no_go_inputs fp (env_iso env) c key tid co q fi re su s)"
| "decision_next env fp num h (ReadCandidate c tid aware as_of offers) s = snd (get_bid_readiness_candidate (env_lower env) c tid aware as_of offers s)"
| "decision_next env fp num h (MakeDecision c key tid b) s = snd (create_decision fp (env_iso env) c key tid b s)"
| "decision_next env fp num h (SubmitNapkin conf c tid b) s = snd (submit_napkin_capture env conf c tid b s)"
| "decision_next env fp num h (CloseProject c tid) s = snd (close_project c tid s)"
| "decision_next env fp num h (RecordOutcome c tid p) s = snd (post_outcome num (env_parse_iso env) c tid p s)"
| "decision_next env fp num h (RecordLoss c tid r nt) s = snd (post_loss_reason c tid r nt s)"
| "decision_next env fp num h (SignIn tok name pw) s = snd (login h tok name pw s)"
| "decision_next env fp num h (SignOut c) s = snd (logout c s)"
| "decision_next env fp num h (NewTender src key) s = snd (transaction (get_or_create_tender src key) s)"
| "decision_next env fp num h (NewSnapshot parse src rt key raw ver cid) s = snd (transaction (save_raw_snapshot (env_sha env) parse src rt key raw ver cid) s)"
| "decision_next env fp num h (NewVersion tid snap parser nf) s = snd (transaction (create_normalized_version tid snap parser nf) s)"
| "decision_next env fp num h (NewLines src ev ver snap ls) s = snd (transaction (store_boq_lines src ev ver snap ls) s)"
| "decision_next env fp num h (Pass n) s = s\<lparr>clock := clock s + int n\<rparr>"
| "decision_next env fp num h (BindCorrelation c) s = s\<lparr>correlation_id_var := c\<rparr>"

definition decision_start :: "decision_db \<Rightarrow> bool" where
  "decision_start s \<longleftrightarrow> book_start (book_of s)"

inductive decision_step :: "ledger_env \<Rightarrow> (jobject \<Rightarrow> string) \<Rightarrow> (string \<Rightarrow> dec option) \<Rightarrow> (string \<Rightarrow> string \<Rightarrow> bool) \<Rightarrow>
    decision_db \<Rightarrow> decision_db \<Rightarrow> bool" for env fp num h where
  event: "decision_step env fp num h s (decision_next env fp num h e s)"

inductive_cases decision_stepE: "decision_step env fp num h s t"

lemma tender_refines: "refines (get_or_create_tender src key)"
proof (rule refinesI)
  fix s t :: decision_db and x assume g: "get_or_create_tender src key s = (Inr x, t)"
  show "book_step\<^sup>=\<^sup>= (book_of s) (book_of t)"
  proof (cases "find (\<lambda>(i, r). tender_source r = src \<and> identity_key r = key) (tenders s)")
    case None
    with g have "book_of t = (book_of s)\<lparr>bk_tenders := insert (next_id (tenders s)) (fst ` set (tenders s))\<rparr>"
      by (auto simp: get_or_create_tender_def bind_Inr then_db_Inr book_of_def)
    moreover have "book_step (book_of s) ((book_of s)\<lparr>bk_tenders := insert (next_id (tenders s)) (fst ` set (tenders s))\<rparr>)"
      by (rule book_step.register) (auto simp: book_of_def)
    ultimately show ?thesis by simp
  next
    case (Some p)
    with g show ?thesis by (cases p) (auto simp: get_or_create_tender_def bind_Inr)
  qed
qed

text \<open>The answer of an event: the error it ends with, if any.\<close>

definition error_of :: "('e + 'a) \<times> 's \<Rightarrow> 'e option" where
  "error_of r = (case fst r of Inl e \<Rightarrow> Some e | Inr _ \<Rightarrow> None)"

fun decision_error :: "ledger_env \<Rightarrow> (jobject \<Rightarrow> string) \<Rightarrow> (string \<Rightarrow> dec option) \<Rightarrow> (string \<Rightarrow> string \<Rightarrow> bool) \<Rightarrow>
    decision_event \<Rightarrow> decision_db \<Rightarrow> api_error option" where
  "decision_error env fp num h (EnterInputs c key tid co q fi re su) s = error_of (create_go_no_go_inputs fp (env_iso env) c key tid co q fi re su s)"
| "decision_error env fp num h (ReadCandidate c tid aware as_of offers) s = error_of (get_bid_readiness_candidate (env_lower env) c tid aware as_of offers s)"
| "decision_error env fp num h (MakeDecision c key tid b) s = error_of (create_decision fp (env_iso env) c key tid b s)"
| "decision_error env fp num h (SubmitNapkin conf c tid b) s = error_of (submit_napkin_capture env conf c tid b s)"
| "decision_error env fp num h (CloseProject c tid) s = error_of (close_project c tid s)"
| "decision_error env fp num h (RecordOutcome c tid p) s = error_of (post_outcome num (env_parse_iso env) c tid p s)"
| "decision_error env fp num h (RecordLoss c tid r nt) s = error_of (post_loss_reason c tid r nt s)"
| "decision_error env fp num h (SignIn tok name pw) s = error_of (login h tok name pw s)"
| "decision_error env fp num h (SignOut c) s = error_of (logout c s)"
| "decision_error env fp num h (NewTender src key) s = error_of (transaction (get_or_create_tender src key) s)"
| "decision_error env fp num h (NewSnapshot parse src rt key raw ver cid) s =
     error_of (transaction (save_raw_snapshot (env_sha env) parse src rt key raw ver cid) s)"
| "decision_error env fp num h (NewVersion tid snap parser nf) s = error_of (transaction (create_normalized_version tid snap parser nf) s)"
| "decision_error env fp num h (NewLines src ev ver snap ls) s = error_of (transaction (store_boq_lines src ev ver snap ls) s)"
| "decision_error env fp num h (Pass n) s = None"
| "decision_error env fp num h (BindCorrelation c) s = None"

fun capture_tender :: "decision_event \<Rightarrow> int option" where
  "capture_tender (SubmitNapkin conf c tid b) = Some tid"
| "capture_tender _ = None"

text \<open>What one event does to the book.\<close>

definition event_effect :: "decision_event \<Rightarrow> api_error option \<Rightarrow> book \<Rightarrow> book \<Rightarrow> bool" where
  "event_effect e err b b' \<longleftrightarrow>
     (case (err, capture_tender e) of
        (Some _, None) \<Rightarrow> b' = b
      | (None, None) \<Rightarrow> book_step\<^sup>=\<^sup>= b b'
      | (Some _, Some tid) \<Rightarrow>
          b' = b \<or> (\<exists>ev. ev_tender_id ev = tid \<and> b' = b\<lparr>bk_evidence := add_rows (bk_evidence b) [ev]\<rparr> \<and> book_step b b')
      | (None, Some tid) \<Rightarrow>
          (\<exists>ev m. ev_tender_id ev = tid \<and> m = b\<lparr>bk_evidence := add_rows (bk_evidence b) [ev]\<rparr> \<and> book_step b m \<and> book_step\<^sup>=\<^sup>= m b'))"

lemma one_step_effect: "one_step r s \<Longrightarrow> capture_tender e = None \<Longrightarrow> event_effect e (error_of r) (book_of s) (book_of (snd r))"
  by (auto simp: one_step_def event_effect_def error_of_def split: sum.splits)

lemma capture_effect: "capture_done tid r s \<Longrightarrow> capture_tender e = Some tid \<Longrightarrow> event_effect e (error_of r) (book_of s) (book_of (snd r))"
  by (cases "fst r") (auto simp: capture_done_def event_effect_def error_of_def simp del: add_rows.simps)

lemma event_has_effect:
  assumes "book_ok (book_of s)"
  shows "event_effect e (decision_error env fp num h e s) (book_of s) (book_of (decision_next env fp num h e s))"
proof (cases e)
  case (Pass n)
  then show ?thesis using book_step.tick[of "book_of s" n] by (simp add: event_effect_def book_of_def)
next
  case (BindCorrelation c)
  then show ?thesis by (simp add: event_effect_def book_of_def)
next
  case (SubmitNapkin conf c tid b)
  then show ?thesis using capture_effect[OF napkin_refines[OF assms], of e tid env conf c b] by simp
next
  case (NewTender src key)
  then show ?thesis using one_step_effect[OF one_step_transaction[OF tender_refines assms]] by simp
qed (simp_all add: one_step_effect assms inputs_refines readiness_refines decision_refines close_refines outcome_refines loss_refines
    one_step_same book_login book_logout same_book.does_transaction book_snapshot book_version book_lines)

lemma effect_steps:
  assumes "event_effect e err b b'"
  shows "book_step\<^sup>*\<^sup>* b b'"
proof -
  have s: "book_step\<^sup>=\<^sup>= x y \<Longrightarrow> book_step\<^sup>*\<^sup>* x y" for x y by auto
  show ?thesis
    using assms unfolding event_effect_def
    by (auto split: option.splits simp del: add_rows.simps dest!: s intro: converse_rtranclp_into_rtranclp)
qed

lemma event_refines:
  assumes "book_ok (book_of s)"
  shows "book_step\<^sup>*\<^sup>* (book_of s) (book_of (decision_next env fp num h e s))"
  by (rule effect_steps[OF event_has_effect[OF assms]])

interpretation decision: invariant_system decision_start "decision_step env fp num h" "\<lambda>s. book_ok (book_of s)" for env fp num h
proof
  show "decision_start s \<Longrightarrow> book_ok (book_of s)" for s by (simp add: decision_start_def start_book_ok)
  show "book_ok (book_of s) \<Longrightarrow> decision_step env fp num h s t \<Longrightarrow> book_ok (book_of t)" for s t
    using book.steps_inv[OF event_refines] by (auto elim: decision_stepE)
qed

end
