(* ===== verification/Decision_Theorems.thy ===== *)
theory Decision_Theorems
  imports Decision_Spec
begin

text \<open>
  The properties of the decision core, the execution ledger and the calibration loop, over every
  sequence of requests.
\<close>

section \<open>A small installation for the witnesses\<close>

definition demo_rights :: "string list" where
  "demo_rights = [''decision.go_no_go.create'', ''decision.bid_readiness.read'', ''decision.decisions.create'',
     ''decision.execution_facts.create'', ''decision.execution_facts.close_project'', ''decision.outcome.write'',
     ''decision.outcome.read'']"

definition demo_db :: decision_db where
  "demo_db =
     \<lparr>roles = [(1, ''lead'')], permissions = zip [1..7] demo_rights, role_permissions = map (\<lambda>i. (1, i)) [1..7],
      users = [(1, \<lparr>username = ''ann'', display_name = ''Ann'', role_id = 1, user_status = ''active'', user_version = 1,
         password_hash = Some ''secret'', failed_login_count = 0, locked_until = None\<rparr>)],
      user_seq = 2, sessions = [], idempotency_keys = [], audit_log = [], clock = 0, correlation_id_var = Some ''c1'',
      raw_snapshots = [], tenders = [], tender_versions = [], boq_lines = [], exception_queue = [],
      go_no_go = [], readiness = [], decisions = [], lock_ins = [], execution_facts = [], napkin_evidence_rows = [],
      contributions = [], outcomes = [], loss_reasons = []\<rparr>"

definition demo_env :: ledger_env where
  "demo_env = \<lparr>env_lower = id, env_sha = id, env_parse_iso = (\<lambda>s. if s = ''now'' then Some 0 else None), env_iso = (\<lambda>_. ''now''),
     env_str = (\<lambda>_. ''delay''), env_decimal = (\<lambda>_. None), env_ocr = (\<lambda>img. Inl ''unreadable''),
     env_report = (\<lambda>_ _ _ _ _ _. True)\<rparr>"

definition run_demo :: "decision_event list \<Rightarrow> decision_db" where
  "run_demo es = foldl (\<lambda>s e. decision_next demo_env (\<lambda>_. ''f'') (\<lambda>_. Some dec_zero) (=) e s) demo_db es"

lemma demo_start_ok: "decision_start demo_db"
  by (simp add: decision_start_def book_start_def book_of_def demo_db_def)

lemma run_demo_steps: "(decision_step demo_env (\<lambda>_. ''f'') (\<lambda>_. Some dec_zero) (=))\<^sup>*\<^sup>* (run_demo es) (run_demo (es @ fs))"
proof (induction fs rule: rev_induct)
  case (snoc f fs)
  have "decision_step demo_env (\<lambda>_. ''f'') (\<lambda>_. Some dec_zero) (=) (run_demo (es @ fs)) (run_demo (es @ fs @ [f]))"
    using decision_step.event[of demo_env "\<lambda>_. ''f''" "\<lambda>_. Some dec_zero" "(=)" "run_demo (es @ fs)" f] by (simp add: run_demo_def)
  with snoc show ?case by (rule rtranclp.rtrancl_into_rtrancl)
qed simp

lemma run_demo_reachable: "reachable decision_start (decision_step demo_env (\<lambda>_. ''f'') (\<lambda>_. Some dec_zero) (=)) (run_demo es)"
proof (induction es rule: rev_induct)
  case Nil
  show ?case using demo_start_ok by (simp add: run_demo_def reachable.initially)
next
  case (snoc e es)
  have "decision_step demo_env (\<lambda>_. ''f'') (\<lambda>_. Some dec_zero) (=) (run_demo es) (run_demo (es @ [e]))"
    using decision_step.event[of demo_env "\<lambda>_. ''f''" "\<lambda>_. Some dec_zero" "(=)" "run_demo es" e] by (simp add: run_demo_def)
  with snoc show ?case by (rule reachable.stepwise)
qed

definition demo_request :: decision_request where
  "demo_request = \<lparr>req_decision_type = ''bid'', req_conditions = [], req_deadline = None, req_justification = ''margin'',
     req_go_no_go_inputs_id = Some 1, req_candidate_id = None\<rparr>"

definition demo_bid :: "decision_event list" where
  "demo_bid =
     [SignIn ''t1'' ''ann'' ''secret'', NewTender ''etender'' ''7'', EnterInputs (Some ''t1'') ''k0'' 1 ''a'' ''b'' ''c'' ''d'' False,
      MakeDecision (Some ''t1'') ''k1'' 1 demo_request]"

lemma demo_bid_made: "map (\<lambda>(i, d). (i, decision_tender_id d, go_no_go_inputs_id d)) (decisions (run_demo demo_bid)) = [(1, 1, Some 1)]"
  by code_simp

section \<open>The routes implement the book\<close>



section \<open>Decisions and their lock-ins\<close>

text \<open>
  C21. In every reachable state the Go/No-Go inputs and the bid readiness candidate that a
  decision names exist and are of the same tender, and its lock-in requirements are exactly one
  per critical line of that candidate, in order, when it decides to bid, and none otherwise.
\<close>

theorem decisions_consistent:
  assumes "reachable decision_start (decision_step env fp num h) s" "(i, d) \<in> set (decisions s)"
  shows "(\<forall>k. go_no_go_inputs_id d = Some k \<longrightarrow> (\<exists>x. map_of (go_no_go s) k = Some x \<and> gng_tender_id x = decision_tender_id d)) \<and>
    (\<forall>k. bid_readiness_candidate_id d = Some k \<longrightarrow>
       (\<exists>c. map_of (readiness s) k = Some c \<and> brc_tender_id c = decision_tender_id d)) \<and>
    map snd (filter (\<lambda>(j, l). lock_decision_id l = i) (lock_ins s)) =
      map (\<lambda>c. \<lparr>lock_tender_id = decision_tender_id d, lock_decision_id = i, lock_line_id = critical_line_id c,
              lock_vendor_id = critical_vendor_id c, lock_vendor_name = critical_vendor_name c, lock_status = ''pending''\<rparr>)
        (if decision_type d \<in> {''bid'', ''conditional_bid''}
         then (case Option.bind (bid_readiness_candidate_id d) (map_of (readiness s)) of None \<Rightarrow> [] | Some c \<Rightarrow> critical_lines c)
         else [])"
proof -
  have ok: "book_ok (book_of s)" by (rule decision.reachable_inv[OF assms(1)])
  have refs: "refs_of (book_of s) d"
    using ok assms(2) by (auto simp: book_ok_def refs_ok_def book_of_def)
  have "locks_for (book_of s) i = map (lock_of (decision_tender_id d) i) (required_locks (readiness s) d)"
    using ok assms(2) by (auto simp: book_ok_def locks_ok_def book_of_def)
  then have "map snd (filter (\<lambda>(j, l). lock_decision_id l = i) (lock_ins s)) =
      map (lock_of (decision_tender_id d) i) (if decision_type d \<in> {''bid'', ''conditional_bid''}
         then (case Option.bind (bid_readiness_candidate_id d) (map_of (readiness s)) of None \<Rightarrow> [] | Some c \<Rightarrow> critical_lines c) else [])"
    by (simp add: locks_for_def book_of_def required_locks_def bid_type_def split: option.split)
  with refs show ?thesis by (simp add: refs_of_def book_of_def lock_of_def[abs_def])
qed

theorem decisions_consistent_witness:
  "\<exists>x. map_of (go_no_go (run_demo demo_bid)) 1 = Some x \<and> gng_tender_id x = 1"
proof -
  obtain d where "decisions (run_demo demo_bid) = [(1, d)]" "decision_tender_id d = 1" "go_no_go_inputs_id d = Some 1"
    using demo_bid_made by (auto simp: map_eq_Cons_conv)
  with decisions_consistent[OF run_demo_reachable, of 1 d demo_bid] show ?thesis by simp
qed

section \<open>Outcomes\<close>

lemma find_append_Some: "find P xs = Some x \<Longrightarrow> find P (xs @ ys) = Some x"
  by (induction xs) auto

lemma outcome_kept:
  assumes "grows (book_of t) (book_of u)" "load_tender_outcome t tid = Some x"
  shows "load_tender_outcome u tid = Some x"
proof -
  obtain zs where "outcomes u = outcomes t @ zs" using assms(1) by (auto simp: grows_def book_of_def extends_def)
  with assms(2) show ?thesis by (simp add: load_tender_outcome_def find_append_Some)
qed

lemma steps_grow_db:
  assumes "(decision_step env fp num h)\<^sup>*\<^sup>* t u" "book_ok (book_of t)"
  shows "grows (book_of t) (book_of u)"
  using assms
proof (induction rule: rtranclp_induct)
  case (step u v)
  have "book_ok (book_of u)" by (rule decision.steps_inv[OF step(1) step(4)])
  then have "grows (book_of u) (book_of v)" using step(2) by (auto elim!: decision_stepE intro!: steps_grow event_refines)
  with step(3)[OF step(4)] show ?case by (rule grows_trans)
qed simp

text \<open>
  C22. An outcome is recorded once and for all: it is answered with the outcome and source
  that were sent, and at any later time every authorized reader gets that same row while
  every further attempt to record an outcome of the tender fails and changes nothing.
\<close>

theorem outcome_is_final:
  assumes "reachable decision_start (decision_step env fp num h) s"
    "post_outcome num (env_parse_iso env) c tid p s = (Inr (i, r), t)"
    "(decision_step env fp num h)\<^sup>*\<^sup>* t u"
  shows "outcome_tender_id r = tid \<and> outcome r = or_outcome p \<and> source_ref r = or_source_ref p \<and>
    (\<forall>c' ident. authorized u c' ''decision.outcome.read'' ident \<longrightarrow> get_outcome c' tid u = (Inr (i, r), u)) \<and>
    (\<forall>c' p'. \<exists>e. post_outcome num (env_parse_iso env) c' tid p' u = (Inl e, u))"
proof -
  have ok: "book_ok (book_of s)" by (rule decision.reachable_inv[OF assms(1)])
  obtain ident where w: "outcome_work num (env_parse_iso env) tid p ident s = (Inr (i, r), t)"
    using assms(2) by (auto simp: post_outcome_eq route_of_Inr)
  obtain q where q: "outcome_tender_id q = tid" "outcome q = or_outcome p" "source_ref q = or_source_ref p"
    "load_tender_outcome s tid = None" "load_tender_outcome t tid = Some (i, r)"
    "book_of t = (book_of s)\<lparr>bk_outcomes := add_rows (bk_outcomes (book_of s)) [q]\<rparr>"
    using outcome_work_book[OF w ok] by blast
  have "outcomes t = outcomes s @ [(next_id (outcomes s), q)]" using q(6) by (simp add: book_of_def)
  moreover have "find (\<lambda>(i, r). outcome_tender_id r = tid) (xs @ [(j, q)]) = Some (j, q)"
    if "find (\<lambda>(i, r). outcome_tender_id r = tid) xs = None" for xs :: "(int \<times> tender_outcome) list" and j
    using that q(1) by (induction xs) (auto split: if_splits)
  ultimately have "r = q" using q(4,5) by (simp add: load_tender_outcome_def)
  have okt: "book_ok (book_of t)"
    using book.steps_inv[OF event_refines[OF ok, of env fp num h "RecordOutcome c tid p"] ok] assms(2) by simp
  have u: "load_tender_outcome u tid = Some (i, r)"
    by (rule outcome_kept[OF steps_grow_db[OF assms(3) okt] q(5)])
  have "get_outcome c' tid u = (Inr (i, r), u)" if "authorized u c' ''decision.outcome.read'' ident" for c' ident
    using u by (simp add: get_outcome_def route_of_authorized[OF that] transaction_def bind_eq)
  moreover have "\<exists>e. post_outcome num (env_parse_iso env) c' tid p' u = (Inl e, u)" for c' p'
  proof (cases rule: route_of_cases[of "''decision.outcome.write''" c' "outcome_work num (env_parse_iso env) tid p'" u])
    case (done_now x v i')
    have "book_ok (book_of u)" by (rule decision.steps_inv[OF assms(3) okt])
    then have "load_tender_outcome u tid = None" using outcome_work_book[OF done_now(3)] by blast
    with u show ?thesis by simp
  qed (auto simp: post_outcome_eq)
  ultimately show ?thesis using q(1-3) \<open>r = q\<close> by blast
qed

definition demo_outcome :: outcome_request where
  "demo_outcome = \<lparr>or_outcome = ''lost'', or_our_submitted_amount = None, or_winner_name = Some ''Rival'', or_winner_amount = None,
     or_currency = None, or_announced_at = None, or_source_ref = ''portal''\<rparr>"

theorem outcome_is_final_witness:
  "\<exists>e. post_outcome (\<lambda>_. Some dec_zero) (env_parse_iso demo_env) (Some ''t1'') 1 demo_outcome
     (run_demo (demo_bid @ [RecordOutcome (Some ''t1'') 1 demo_outcome, Pass 9])) =
     (Inl e, run_demo (demo_bid @ [RecordOutcome (Some ''t1'') 1 demo_outcome, Pass 9]))"
proof -
  let ?s = "run_demo demo_bid"
  let ?o = "post_outcome (\<lambda>_. Some dec_zero) (env_parse_iso demo_env) (Some ''t1'') 1 demo_outcome"
  have "map_sum id fst (fst (?o ?s)) = Inr 1" by code_simp
  then obtain i r where r: "?o ?s = (Inr (i, r), snd (?o ?s))"
    by (cases "?o ?s"; cases "fst (?o ?s)") auto
  have "snd (?o ?s) = run_demo (demo_bid @ [RecordOutcome (Some ''t1'') 1 demo_outcome])" by (simp add: run_demo_def)
  with outcome_is_final[OF run_demo_reachable r] run_demo_steps[of "demo_bid @ [RecordOutcome (Some ''t1'') 1 demo_outcome]" "[Pass 9]"]
  show ?thesis by simp
qed

section \<open>Evidence\<close>

lemma ever_bid_tender:
  assumes "book_ok b" "active_bid b tid"
  shows "tid \<in> bk_tenders b"
  using active_ever[OF assms(2)] assms(1) by (auto simp: ever_bid_def book_ok_def refs_ok_def refs_of_def)

lemma evidence_kept:
  assumes "grows (book_of t) (book_of u)" "map_of (napkin_evidence_rows t) i = Some e"
  shows "get_execution_napkin_evidence i u = (Inr e, u)"
proof -
  have "map_of (napkin_evidence_rows u) i = Some e"
    using assms extends_map_of[of "napkin_evidence_rows t" "napkin_evidence_rows u"] by (simp add: grows_def book_of_def)
  then show ?thesis by (simp add: get_execution_napkin_evidence_def bind_eq)
qed

text \<open>
  C23. A napkin capture of an authorized user for a tender that is decided to bid is never lost:
  whatever happens afterwards (no OCR engine, an unreadable image, a fact the database
  refuses), its bytes are stored and can be read at any later time. Its facts are stored all
  together or, when the request fails, not at all.
\<close>

theorem napkin_evidence_survives:
  assumes "reachable decision_start (decision_step env fp num h) s"
    "authorized s c ''decision.execution_facts.create'' ident"
    "get_latest_decision_type s tid \<in> {Some ''bid'', Some ''conditional_bid''}"
    "req_image b = Some raw" "correlation_id_var s = Some cid" "req_capture_kind b \<in> {''photo'', ''voice''}"
    "submit_napkin_capture env conf c tid b s = (r, t)"
  shows "\<exists>i e. raw_bytes e = raw \<and> ev_tender_id e = tid \<and> ev_checksum e = env_sha env raw \<and> ev_correlation_id e = cid \<and>
    (\<forall>u. (decision_step env fp num h)\<^sup>*\<^sup>* t u \<longrightarrow> get_execution_napkin_evidence i u = (Inr e, u)) \<and>
    map snd (execution_facts t) = map snd (execution_facts s) @ (case r of Inr (_, Some fs) \<Rightarrow> fs | _ \<Rightarrow> [])"
proof -
  have ok: "book_ok (book_of s)" by (rule decision.reachable_inv[OF assms(1)])
  have act: "active_bid (book_of s) tid" using assms(3) latest_decision[OF ok, of tid] by (simp add: active_bid_def book_of_def)
  have gate: "napkin_gate c tid s = (Inr ident, s)" using assms(2,3) by (simp add: napkin_gate_Inr)
  let ?save = "save_execution_napkin_evidence env tid (req_capture_kind b) raw (req_mime_type b) cid"
  obtain i s1 where save: "?save s = (Inr i, s1)"
    using ever_bid_tender[OF ok act] assms(6)
    by (auto simp: save_execution_napkin_evidence_def bind_eq then_db_eq Let_def tender_exists_def book_of_def)
  then have tx: "transaction ?save s = (Inr i, s1)" by simp
  note ev = save_evidence_book[OF save]
  let ?e = "\<lparr>ev_tender_id = tid, capture_kind = req_capture_kind b, mime_type = req_mime_type b, ev_checksum = env_sha env raw,
      raw_bytes = raw, ev_correlation_id = cid\<rparr>"
  have rest: "napkin_rest env conf ident tid b raw cid i s1 = (r, t)"
    using assms(7) by (simp add: submit_napkin_eq gate assms(4,5) tx)
  have facts1: "execution_facts s1 = execution_facts s" and rows1: "napkin_evidence_rows s1 = napkin_evidence_rows s @ [(i, ?e)]"
    using ev by (simp_all add: book_of_def)
  have ids: "j = i" if "r = Inr (j, x)" for j x using rest napkin_rest_id unfolding that by blast
  have rows: "napkin_evidence_rows t = napkin_evidence_rows s1" and
    facts: "map snd (execution_facts t) = map snd (execution_facts s1) @ (case r of Inr (_, Some fs) \<Rightarrow> fs | _ \<Rightarrow> [])"
    using napkin_rest_book[OF rest] ids by (auto simp: book_of_def split: sum.splits option.splits)
  have "numbered (napkin_evidence_rows s)" using ok by (simp add: book_ok_def ids_ok_def book_of_def)
  moreover have "i = next_id (napkin_evidence_rows s)" using ev by (simp add: book_of_def)
  ultimately have m: "map_of (napkin_evidence_rows t) i = Some ?e"
    unfolding rows rows1 by (simp only: map_of_add_row simp_thms if_True)
  have okt: "book_ok (book_of t)"
    using book.steps_inv[OF event_refines[OF ok, of env fp num h "SubmitNapkin conf c tid b"] ok] assms(7) by simp
  have "\<forall>u. (decision_step env fp num h)\<^sup>*\<^sup>* t u \<longrightarrow> get_execution_napkin_evidence i u = (Inr ?e, u)"
    using evidence_kept[OF steps_grow_db[OF _ okt] m] by blast
  with facts facts1 show ?thesis by (intro exI[of _ i] exI[of _ ?e]) simp
qed

definition demo_napkin :: napkin_request where
  "demo_napkin = \<lparr>req_capture_kind = ''photo'', req_mime_type = ''image/png'', req_image = Some ''bytes'', req_ttl_days = None\<rparr>"

theorem napkin_evidence_survives_witness:
  "\<exists>i e. raw_bytes e = ''bytes'' \<and>
     get_execution_napkin_evidence i (run_demo (demo_bid @ [SubmitNapkin True (Some ''t1'') 1 demo_napkin, Pass 3])) =
       (Inr e, run_demo (demo_bid @ [SubmitNapkin True (Some ''t1'') 1 demo_napkin, Pass 3]))"
proof -
  let ?s = "run_demo demo_bid"
  let ?m = "submit_napkin_capture demo_env True (Some ''t1'') 1 demo_napkin"
  have "(case resolve_session ?s ''t1'' of None \<Rightarrow> False | Some i \<Rightarrow> has_permission i ''decision.execution_facts.create'')" by code_simp
  then obtain ident where a: "authorized ?s (Some ''t1'') ''decision.execution_facts.create'' ident"
    by (auto simp: authorized_def split: option.splits)
  have l: "get_latest_decision_type ?s 1 = Some ''bid''" by code_simp
  have c: "correlation_id_var ?s = Some ''c1''" by code_simp
  have t: "?m ?s = (fst (?m ?s), snd (?m ?s))" by simp
  have n: "snd (?m ?s) = run_demo (demo_bid @ [SubmitNapkin True (Some ''t1'') 1 demo_napkin])" by (simp add: run_demo_def)
  obtain i e where "raw_bytes e = ''bytes''"
    "\<forall>u. (decision_step demo_env (\<lambda>_. ''f'') (\<lambda>_. Some dec_zero) (=))\<^sup>*\<^sup>* (snd (?m ?s)) u \<longrightarrow> get_execution_napkin_evidence i u = (Inr e, u)"
    using napkin_evidence_survives[OF run_demo_reachable a _ _ c _ t, of "''bytes''"] l by (auto simp: demo_napkin_def)
  then show ?thesis
    using run_demo_steps[of "demo_bid @ [SubmitNapkin True (Some ''t1'') 1 demo_napkin]" "[Pass 3]"] by (auto simp: n)
qed

end
