(* ===== verification/Egress.thy ===== *)
theory Egress
  imports Decision "HOL-Library.Word"
begin

text \<open>
  Egress control: the registry of trusted hosts (\<open>packages/platform/egress/registry.py\<close>), the
  validator (\<open>validator.py\<close>) and the fetch that follows redirects by hand (\<open>fetch.py\<close>).

  An address is a 32 or 128 bit word; the networks are those of the standard library's
  \<open>ipaddress\<close> in Python 3.12. What lies outside the program is one argument, a \<open>net_env\<close>: the
  URL parser and joiner of \<open>urllib\<close>, the parser of addresses, and for every hop the answers of
  the resolver and of the contacted server, which may change from one hop to the next.
  \<open>fetch_via_validator\<close> returns the targets it connected to beside its result.
\<close>

section \<open>The registry\<close>

record trusted_source =
  ts_host :: string
  allowed_schemes :: "string list"
  ts_status :: string
  scanner_run_reference :: "string option"
  registered_by :: string
  revoked_reason :: "string option"

record egress_db = decision_db +
  trusted_sources :: "(int \<times> trusted_source) list"

type_synonym ('t, 'a) egress_op = "('t egress_db_scheme, api_error, 'a) db"

definition register_source :: "string \<Rightarrow> string list \<Rightarrow> string \<Rightarrow> ('t, int \<times> trusted_source) egress_op" where
  "register_source host schemes who =
     bind (gets trusted_sources) (\<lambda>rows.
     then_db (guard (host \<notin> ts_host ` snd ` set rows) (Exc ''IntegrityError'' [''trusted_sources_host_key''])) (
     let x = (next_id rows, \<lparr>ts_host = host, allowed_schemes = schemes, ts_status = ''pending_scan'',
          scanner_run_reference = None, registered_by = who, revoked_reason = None\<rparr>) in
     then_db (modify (\<lambda>s. s\<lparr>trusted_sources := trusted_sources s @ [x]\<rparr>)) (ret x)))"

definition update_source :: "string \<Rightarrow> (trusted_source \<Rightarrow> trusted_source) \<Rightarrow> ('t, int \<times> trusted_source) egress_op" where
  "update_source host f =
     bind (gets (\<lambda>s. find (\<lambda>(i, r). ts_host r = host) (trusted_sources s))) (\<lambda>row.
     case row of
       None \<Rightarrow> raise (Exc ''NoResultFound'' [])
     | Some (i, r) \<Rightarrow>
         then_db (modify (\<lambda>s. s\<lparr>trusted_sources :=
           map (\<lambda>(k, x). (k, if ts_host x = host then f x else x)) (trusted_sources s)\<rparr>))
         (ret (i, f r)))"

definition promote_to_trusted :: "string \<Rightarrow> string \<Rightarrow> ('t, int \<times> trusted_source) egress_op" where
  "promote_to_trusted host ref =
     update_source host (\<lambda>r. r\<lparr>ts_status := ''trusted'', scanner_run_reference := Some ref\<rparr>)"

definition revoke_source :: "string \<Rightarrow> string \<Rightarrow> ('t, int \<times> trusted_source) egress_op" where
  "revoke_source host why =
     update_source host (\<lambda>r. r\<lparr>ts_status := ''revoked'', revoked_reason := Some why\<rparr>)"

definition get_trusted_source :: "'t egress_db_scheme \<Rightarrow> string \<Rightarrow> trusted_source option" where
  "get_trusted_source s host =
     map_option snd (find (\<lambda>(i, r). ts_host r = host \<and> ts_status r = ''trusted'') (trusted_sources s))"

section \<open>Addresses\<close>

datatype ip = IPv4 "32 word" | IPv6 "128 word"

text \<open>\<open>ip in net\<close>, for the network with the given base address and prefix length.\<close>

definition in_net :: "'a::len word \<Rightarrow> 'a word \<times> nat \<Rightarrow> bool" where
  "in_net a net = (drop_bit (LENGTH('a) - snd net) a = drop_bit (LENGTH('a) - snd net) (fst net))"

definition private_networks4 :: "(32 word \<times> nat) list" where
  "private_networks4 =
     [(0, 8), (0x0A000000, 8), (0x7F000000, 8), (0xA9FE0000, 16), (0xAC100000, 12), (0xC0000000, 24),
      (0xC00000AA, 31), (0xC0000200, 24), (0xC0A80000, 16), (0xC6120000, 15), (0xC6336400, 24),
      (0xCB007100, 24), (0xF0000000, 4), (0xFFFFFFFF, 32)]"

definition private_exceptions4 :: "(32 word \<times> nat) list" where
  "private_exceptions4 = [(0xC0000009, 32), (0xC000000A, 32)]"

definition is_private4 :: "32 word \<Rightarrow> bool" where
  "is_private4 a \<longleftrightarrow> list_ex (in_net a) private_networks4 \<and> \<not> list_ex (in_net a) private_exceptions4"

definition private_networks6 :: "(128 word \<times> nat) list" where
  "private_networks6 =
     [(1, 128), (0, 128), (0xFFFF00000000, 96), (0x0064FF9B000100000000000000000000, 48),
      (0x01000000000000000000000000000000, 64), (0x20010000000000000000000000000000, 23),
      (0x20010DB8000000000000000000000000, 32), (0x20020000000000000000000000000000, 16),
      (0xFC000000000000000000000000000000, 7), (0xFE800000000000000000000000000000, 10)]"

definition private_exceptions6 :: "(128 word \<times> nat) list" where
  "private_exceptions6 =
     [(0x20010001000000000000000000000001, 128), (0x20010001000000000000000000000002, 128),
      (0x20010003000000000000000000000000, 32), (0x20010004011200000000000000000000, 48),
      (0x20010020000000000000000000000000, 28), (0x20010030000000000000000000000000, 28)]"

definition reserved_networks6 :: "(128 word \<times> nat) list" where
  "reserved_networks6 =
     [(0, 8), (0x01000000000000000000000000000000, 8), (0x02000000000000000000000000000000, 7),
      (0x04000000000000000000000000000000, 6), (0x08000000000000000000000000000000, 5),
      (0x10000000000000000000000000000000, 4), (0x40000000000000000000000000000000, 3),
      (0x60000000000000000000000000000000, 3), (0x80000000000000000000000000000000, 3),
      (0xA0000000000000000000000000000000, 3), (0xC0000000000000000000000000000000, 3),
      (0xE0000000000000000000000000000000, 4), (0xF0000000000000000000000000000000, 5),
      (0xF8000000000000000000000000000000, 6), (0xFE000000000000000000000000000000, 9)]"

definition ipv4_mapped :: "128 word \<Rightarrow> 32 word option" where
  "ipv4_mapped a = (if drop_bit 32 a = 0xFFFF then Some (ucast a) else None)"

fun is_private :: "ip \<Rightarrow> bool" where
  "is_private (IPv4 a) = is_private4 a"
| "is_private (IPv6 a) =
     (case ipv4_mapped a of
        Some b \<Rightarrow> is_private4 b
      | None \<Rightarrow> list_ex (in_net a) private_networks6 \<and> \<not> list_ex (in_net a) private_exceptions6)"

fun is_loopback :: "ip \<Rightarrow> bool" where
  "is_loopback (IPv4 a) = in_net a (0x7F000000, 8)"
| "is_loopback (IPv6 a) = (a = 1)"

fun is_link_local :: "ip \<Rightarrow> bool" where
  "is_link_local (IPv4 a) = in_net a (0xA9FE0000, 16)"
| "is_link_local (IPv6 a) = in_net a (0xFE800000000000000000000000000000, 10)"

fun is_multicast :: "ip \<Rightarrow> bool" where
  "is_multicast (IPv4 a) = in_net a (0xE0000000, 4)"
| "is_multicast (IPv6 a) = in_net a (0xFF000000000000000000000000000000, 8)"

fun is_reserved :: "ip \<Rightarrow> bool" where
  "is_reserved (IPv4 a) = in_net a (0xF0000000, 4)"
| "is_reserved (IPv6 a) = list_ex (in_net a) reserved_networks6"

fun is_unspecified :: "ip \<Rightarrow> bool" where
  "is_unspecified (IPv4 a) = (a = 0)"
| "is_unspecified (IPv6 a) = (a = 0)"

fun in_extra_blocked :: "ip \<Rightarrow> bool" where
  "in_extra_blocked (IPv4 a) = in_net a (0x64400000, 10)"
| "in_extra_blocked (IPv6 a) = in_net a (0x0064FF9B000000000000000000000000, 96)"

definition is_blocked_ip :: "ip \<Rightarrow> bool" where
  "is_blocked_ip a \<longleftrightarrow>
     is_loopback a \<or> is_private a \<or> is_link_local a \<or> is_multicast a \<or> is_reserved a \<or> is_unspecified a \<or>
     in_extra_blocked a"

section \<open>The validator\<close>

text \<open>\<open>url_port\<close> is \<open>None\<close> when reading the port raises; its value is 0 or absent for no port.\<close>

record url_parts =
  url_scheme :: string
  url_hostname :: "string option"
  url_port :: "int option option"
  url_path :: string
  url_query :: string

record validated_target =
  tg_host :: string
  tg_port :: int
  tg_scheme :: string
  path_and_query :: string
  resolved_ip :: string

type_synonym response = "int \<times> string \<times> (string \<times> string) list"

record net_env =
  urlsplit :: "string \<Rightarrow> url_parts option"
  urljoin :: "string \<Rightarrow> string \<Rightarrow> string"
  ip_address :: "string \<Rightarrow> ip option"
  resolver :: "nat \<Rightarrow> string \<Rightarrow> string list option"
  do_fetch :: "nat \<Rightarrow> validated_target \<Rightarrow> api_error + response"

definition egress_rejected :: "string \<Rightarrow> string list \<Rightarrow> api_error" where
  "egress_rejected why detail = Exc ''EgressRejected'' (why # detail)"

text \<open>The loop over the resolved addresses: the first one that is malformed or blocked raises.\<close>

fun check_addresses :: "(string \<Rightarrow> ip option) \<Rightarrow> string \<Rightarrow> string list \<Rightarrow> api_error option" where
  "check_addresses parse host [] = None"
| "check_addresses parse host (a # as) =
     (case parse a of
        None \<Rightarrow> Some (Exc ''ValueError'' [a])
      | Some x \<Rightarrow> if is_blocked_ip x then Some (egress_rejected ''address_blocked'' [host, a])
                   else check_addresses parse host as)"

definition default_port :: "string \<Rightarrow> int option \<Rightarrow> int" where
  "default_port scheme p =
     (case p of Some n \<Rightarrow> if n = 0 then (if scheme = ''https'' then 443 else 80) else n
      | None \<Rightarrow> if scheme = ''https'' then 443 else 80)"

text \<open>\<open>url_scheme\<close> is the scheme in lower case, as \<open>urlsplit\<close> returns it.\<close>

definition validate :: "net_env \<Rightarrow> nat \<Rightarrow> 't egress_db_scheme \<Rightarrow> string \<Rightarrow> api_error + validated_target" where
  "validate env hop s url =
     (case urlsplit env url of
        None \<Rightarrow> Inl (Exc ''ValueError'' [url])
      | Some u \<Rightarrow>
          if url_scheme u \<notin> {''http'', ''https''} then Inl (egress_rejected ''scheme_not_allowed'' [url_scheme u, url])
          else
          (case url_hostname u of
             None \<Rightarrow> Inl (egress_rejected ''host_not_registered'' [url])
           | Some host \<Rightarrow>
               if host = [] then Inl (egress_rejected ''host_not_registered'' [url])
               else
               (case get_trusted_source s host of
                  None \<Rightarrow> Inl (egress_rejected ''host_not_registered'' [host])
                | Some src \<Rightarrow>
                    if url_scheme u \<notin> set (allowed_schemes src)
                    then Inl (egress_rejected ''scheme_not_allowed'' [url_scheme u, host])
                    else
                    (case url_port u of
                       None \<Rightarrow> Inl (Exc ''ValueError'' [''port''])
                     | Some p \<Rightarrow>
                         (case resolver env hop host of
                            None \<Rightarrow> Inl (egress_rejected ''address_blocked'' [host])
                          | Some addrs \<Rightarrow>
                              (case addrs of
                                 [] \<Rightarrow> Inl (egress_rejected ''address_blocked'' [host])
                               | a # _ \<Rightarrow>
                                   (case check_addresses (ip_address env) host addrs of
                                      Some e \<Rightarrow> Inl e
                                    | None \<Rightarrow>
                                        Inr \<lparr>tg_host = host, tg_port = default_port (url_scheme u) p,
                                             tg_scheme = url_scheme u,
                                             path_and_query = (if url_path u = [] then ''/'' else url_path u) @
                                               (if url_query u = [] then [] else ''?'' @ url_query u),
                                             resolved_ip = a\<rparr>)))))))"

section \<open>Fetching\<close>

definition REDIRECT_STATUSES :: "int list" where
  "REDIRECT_STATUSES = [301, 302, 303, 307, 308]"

definition DEFAULT_MAX_REDIRECTS :: nat where
  "DEFAULT_MAX_REDIRECTS = 5"

text \<open>\<open>hops\<close> is the number of iterations left of \<open>for _ in range(max_redirects + 1)\<close>.\<close>

fun fetch_hops :: "net_env \<Rightarrow> 't egress_db_scheme \<Rightarrow> string \<Rightarrow> nat \<Rightarrow> nat \<Rightarrow> string \<Rightarrow>
    validated_target list \<times> (api_error + response)" where
  "fetch_hops env s start 0 hop url = ([], Inl (Exc ''TooManyRedirects'' [start]))"
| "fetch_hops env s start (Suc n) hop url =
     (case validate env hop s url of
        Inl e \<Rightarrow> ([], Inl e)
      | Inr tg \<Rightarrow>
          (case do_fetch env hop tg of
             Inl e \<Rightarrow> ([tg], Inl e)
           | Inr (code, content, headers) \<Rightarrow>
               if code \<notin> set REDIRECT_STATUSES then ([tg], Inr (code, content, headers))
               else
               (case map_of headers ''location'' of
                  None \<Rightarrow> ([tg], Inl (egress_rejected ''redirect_target_rejected'' [url]))
                | Some loc \<Rightarrow>
                    if loc = [] then ([tg], Inl (egress_rejected ''redirect_target_rejected'' [url]))
                    else
                    (let (tgs, r) = fetch_hops env s start n (Suc hop) (urljoin env url loc)
                     in (tg # tgs, r)))))"

definition fetch_via_validator :: "net_env \<Rightarrow> 't egress_db_scheme \<Rightarrow> string \<Rightarrow> nat \<Rightarrow>
    validated_target list \<times> (api_error + response)" where
  "fetch_via_validator env s url max_redirects = fetch_hops env s url (max_redirects + 1) 0 url"

section \<open>What is contacted\<close>

text \<open>
  A target the validator may hand out in state \<open>s\<close>: a trusted host over one of its schemes,
  pinned to the first of the addresses the resolver gave at that hop, none of them blocked.
\<close>

definition permitted :: "net_env \<Rightarrow> 't egress_db_scheme \<Rightarrow> validated_target \<Rightarrow> bool" where
  "permitted env s tg \<longleftrightarrow>
     (\<exists>src hop addrs. get_trusted_source s (tg_host tg) = Some src \<and>
        tg_scheme tg \<in> {''http'', ''https''} \<inter> set (allowed_schemes src) \<and>
        resolver env hop (tg_host tg) = Some (resolved_ip tg # addrs) \<and>
        (\<forall>a \<in> set (resolved_ip tg # addrs). \<exists>x. ip_address env a = Some x \<and> \<not> is_blocked_ip x))"

lemma check_addresses_None:
  "check_addresses parse host as = None \<longleftrightarrow> (\<forall>a \<in> set as. \<exists>x. parse a = Some x \<and> \<not> is_blocked_ip x)"
  by (induction as) (auto split: option.splits)

lemma validate_permitted: "validate env hop s url = Inr tg \<Longrightarrow> permitted env s tg"
  unfolding permitted_def validate_def
  by (fastforce simp: check_addresses_None split: option.splits list.splits if_splits simp del: check_addresses.simps)

lemma fetch_hops_SucE:
  assumes "fetch_hops env s start (Suc n) hop url = (tgs, r)"
  obtains (rejected) e where "tgs = []" "r = Inl e"
  | (last) tg where "validate env hop s url = Inr tg" "tgs = [tg]" "\<And>x. r = Inr x \<Longrightarrow> fst x \<notin> set REDIRECT_STATUSES"
  | (redirect) tg tgs' url' where "validate env hop s url = Inr tg" "tgs = tg # tgs'"
      "fetch_hops env s start n (Suc hop) url' = (tgs', r)"
proof (cases "validate env hop s url")
  case (Inl e)
  with assms show ?thesis by (intro rejected[of e]) auto
next
  case (Inr tg)
  show ?thesis
  proof (cases "do_fetch env hop tg")
    case (Inl e)
    with assms \<open>validate env hop s url = Inr tg\<close> show ?thesis by (intro last[of tg]) auto
  next
    case r: (Inr x)
    obtain code content headers where x: "x = (code, content, headers)" by (cases x)
    consider (final) "code \<notin> set REDIRECT_STATUSES"
      | (lost) "code \<in> set REDIRECT_STATUSES" "map_of headers ''location'' \<in> {None, Some []}"
      | (follow) loc where "code \<in> set REDIRECT_STATUSES" "map_of headers ''location'' = Some loc" "loc \<noteq> []"
      by (cases "map_of headers ''location''") auto
    then show ?thesis
    proof cases
      case final
      with assms Inr r x show ?thesis by (intro last[of tg]) auto
    next
      case lost
      with assms Inr r x show ?thesis by (intro last[of tg]) (auto split: option.splits)
    next
      case follow
      with assms Inr r x show ?thesis
        by (intro redirect[of tg "fst (fetch_hops env s start n (Suc hop) (urljoin env url loc))" "urljoin env url loc"])
          (auto split: prod.splits)
    qed
  qed
qed

declare fetch_hops.simps(2) [simp del]

lemma fetch_hops_permitted: "fetch_hops env s start n hop url = (tgs, r) \<Longrightarrow> list_all (permitted env s) tgs"
proof (induction n arbitrary: hop url tgs)
  case (Suc n)
  from Suc.prems show ?case
    by (cases rule: fetch_hops_SucE) (auto dest: validate_permitted Suc.IH)
qed simp

lemma fetch_hops_length: "fetch_hops env s start n hop url = (tgs, r) \<Longrightarrow> length tgs \<le> n"
proof (induction n arbitrary: hop url tgs)
  case (Suc n)
  from Suc.prems show ?case
    by (cases rule: fetch_hops_SucE) (auto dest: Suc.IH)
qed simp

lemma fetch_hops_status: "fetch_hops env s start n hop url = (tgs, Inr x) \<Longrightarrow> fst x \<notin> set REDIRECT_STATUSES \<and> tgs \<noteq> []"
proof (induction n arbitrary: hop url tgs)
  case (Suc n)
  from Suc.prems show ?case
    by (cases rule: fetch_hops_SucE) (auto dest: Suc.IH)
qed simp

end
