(* ===== verification/Egress_Theorems.thy ===== *)
theory Egress_Theorems
  imports Egress
begin

text \<open>
  What egress control guarantees: which addresses a connection can have, and that every
  connection of a fetch, redirects included, goes to a target that was checked.
\<close>

section \<open>Networks as intervals\<close>

lemma in_net_iff:
  assumes "2 ^ (LENGTH('a) - p) dvd unat (b :: 'a::len word)"
  shows "in_net a (b, p) \<longleftrightarrow> unat b \<le> unat a \<and> unat a < unat b + 2 ^ (LENGTH('a) - p)"
proof -
  define m where "m = (2 :: nat) ^ (LENGTH('a) - p)"
  then have m: "0 < m" by simp
  from assms obtain k where k: "unat b = m * k" unfolding m_def by (elim dvdE)
  have "in_net a (b, p) \<longleftrightarrow> unat a div m = unat b div m"
    unfolding in_net_def m_def fst_conv snd_conv word_unat_eq_iff unat_drop_bit_eq
      drop_bit_eq_div[where ?'a = nat] ..
  also have "\<dots> \<longleftrightarrow> unat a div m = k"
    using m by (simp add: k)
  also have "\<dots> \<longleftrightarrow> m * k \<le> unat a \<and> unat a < m * k + m"
    using m by (metis add.commute div_nat_eqI dividend_less_div_times less_eq_div_iff_mult_less_eq
        linorder_not_less mult.commute mult_Suc mult_Suc_right nat_le_linear times_div_less_eq_dividend)
  finally show ?thesis by (simp add: k m_def)
qed


lemma in_net4: "in_net (a :: 32 word) (b, p) \<longleftrightarrow> unat b \<le> unat a \<and> unat a < unat b + 2 ^ (32 - p)"
  if "2 ^ (32 - p) dvd unat b"
  using in_net_iff[of p b a] that by simp

lemma in_net6: "in_net (a :: 128 word) (b, p) \<longleftrightarrow> unat b \<le> unat a \<and> unat a < unat b + 2 ^ (128 - p)"
  if "2 ^ (128 - p) dvd unat b"
  using in_net_iff[of p b a] that by simp

lemma unreserved6:
  assumes "\<not> is_reserved (IPv6 a)"
  shows "2 ^ 125 \<le> unat a" "2 ^ 126 \<le> unat a \<Longrightarrow> 0xFC000000000000000000000000000000 \<le> unat a"
    "0xFE000000000000000000000000000000 \<le> unat a \<Longrightarrow> 0xFE800000000000000000000000000000 \<le> unat a"
proof -
  have "list_all (\<lambda>(b, p). 2 ^ (128 - p) dvd unat b) reserved_networks6"
    by (simp add: reserved_networks6_def)
  with assms have "list_all (\<lambda>(b, p). unat b \<le> unat a \<longrightarrow> unat b + 2 ^ (128 - p) \<le> unat a) reserved_networks6"
    by (fastforce simp: list_all_iff list_ex_iff in_net6)
  note b = this[unfolded reserved_networks6_def list.pred_inject prod.case, simplified]
  from b show "2 ^ 125 \<le> unat a" by simp
  from b show "2 ^ 126 \<le> unat a \<Longrightarrow> 0xFC000000000000000000000000000000 \<le> unat a" by simp
  from b show "0xFE000000000000000000000000000000 \<le> unat a \<Longrightarrow> 0xFE800000000000000000000000000000 \<le> unat a" by simp
qed

lemma exceptions6:
  assumes "list_ex (in_net a) private_exceptions6"
  shows "0x20010001000000000000000000000000 \<le> unat a \<and> unat a < 0x20010040000000000000000000000000"
proof -
  from assms obtain b p where bp: "(b, p) \<in> set private_exceptions6" "in_net a (b, p)"
    by (auto simp: list_ex_iff)
  have "list_all (\<lambda>(b, p). 2 ^ (128 - p) dvd unat b \<and> 0x20010001000000000000000000000000 \<le> unat b \<and>
      unat b + 2 ^ (128 - p) \<le> 0x20010040000000000000000000000000) private_exceptions6"
    by (simp add: private_exceptions6_def)
  with bp(1) have "2 ^ (128 - p) dvd unat b" "0x20010001000000000000000000000000 \<le> unat b"
      "unat b + 2 ^ (128 - p) \<le> 0x20010040000000000000000000000000"
    by (auto simp: list_all_iff)
  with bp(2) show ?thesis by (simp add: in_net6)
qed

lemma unprivate6:
  assumes "\<not> is_private (IPv6 a)" "ipv4_mapped a = None" "(b, p) \<in> set private_networks6" "2 ^ (128 - p) dvd unat b"
    "\<not> (0x20010001000000000000000000000000 \<le> unat a \<and> unat a < 0x20010040000000000000000000000000)"
  shows "\<not> (unat b \<le> unat a \<and> unat a < unat b + 2 ^ (128 - p))"
proof -
  from assms(1,2,5) exceptions6 have "\<not> list_ex (in_net a) private_networks6" by auto
  with assms(3) have "\<not> in_net a (b, p)" by (auto simp: list_ex_iff)
  with assms(4) show ?thesis by (simp add: in_net6)
qed

lemma mapped_reserved: "ipv4_mapped a = Some b \<Longrightarrow> is_reserved (IPv6 a)"
proof -
  assume "ipv4_mapped a = Some b"
  then have "drop_bit 32 a = 0xFFFF"
    by (simp add: ipv4_mapped_def split: if_splits)
  then have "unat (drop_bit 32 a) = 0xFFFF" by simp
  then have "unat a div 2 ^ 32 = 0xFFFF"
    unfolding unat_drop_bit_eq drop_bit_eq_div[where ?'a = nat] by simp
  then have "unat a < 2 ^ 120" by simp
  then have "in_net a (0, 8)" by (simp add: in_net6)
  then show ?thesis by (simp add: reserved_networks6_def)
qed

text \<open>
  Which addresses a connection can have: an IPv4 address that is not blocked lies outside
  "this network", loopback, the private ranges, link-local (where cloud metadata services
  live), carrier-grade NAT, multicast and the reserved block; an IPv6 address that is not
  blocked is a global unicast address (\<open>2000::/3\<close>) that is neither Teredo nor 6to4, or an
  address of the deprecated site-local range \<open>fec0::/10\<close>. No IPv4-mapped address passes.
\<close>

theorem allowed_addresses:
  assumes "\<not> is_blocked_ip x"
  shows "case x of
      IPv4 a \<Rightarrow> 0x01000000 \<le> unat a \<and> unat a < 0xE0000000 \<and>
        unat a \<notin> {0x0A000000..<0x0B000000} \<union> {0x64400000..<0x64800000} \<union> {0x7F000000..<0x80000000} \<union>
          {0xA9FE0000..<0xA9FF0000} \<union> {0xAC100000..<0xAC200000} \<union> {0xC0A80000..<0xC0A90000}
    | IPv6 a \<Rightarrow> ipv4_mapped a = None \<and>
        (unat a \<in> {2 ^ 125..<2 ^ 126} -
            ({0x20010000000000000000000000000000..<0x20010001000000000000000000000000} \<union>
             {0x20020000000000000000000000000000..<0x20030000000000000000000000000000}) \<or>
         unat a \<in> {0xFEC00000000000000000000000000000..<0xFF000000000000000000000000000000})"
proof (cases x)
  case (IPv4 a)
  have "\<not> list_ex (in_net a) private_exceptions4 \<or> 0xC0000009 \<le> unat a \<and> unat a \<le> 0xC000000A"
    by (simp add: private_exceptions4_def in_net4) linarith
  moreover from assms IPv4 have "\<not> is_private4 a" by (simp add: is_blocked_ip_def)
  ultimately have "0xC0000009 \<le> unat a \<and> unat a \<le> 0xC000000A \<or> \<not> list_ex (in_net a) private_networks4"
    by (auto simp: is_private4_def)
  then have p: "\<not> in_net a (0, 8)" "\<not> in_net a (0x0A000000, 8)" "\<not> in_net a (0xAC100000, 12)" "\<not> in_net a (0xC0A80000, 16)"
    by (auto simp: private_networks4_def in_net4)
  from assms IPv4 have q: "\<not> in_net a (0x7F000000, 8)" "\<not> in_net a (0xA9FE0000, 16)" "\<not> in_net a (0xE0000000, 4)"
      "\<not> in_net a (0xF0000000, 4)" "\<not> in_net a (0x64400000, 10)"
    by (simp_all add: is_blocked_ip_def)
  have "unat a < 2 ^ 32" using unsigned_less[where ?'a = nat, of a] by simp
  with p q IPv4 show ?thesis by (simp add: in_net4)
next
  case (IPv6 a)
  from assms IPv6 have n: "\<not> is_private (IPv6 a)" "\<not> is_reserved (IPv6 a)" "\<not> is_multicast (IPv6 a)"
    by (simp_all add: is_blocked_ip_def)
  from n(2) mapped_reserved have m: "ipv4_mapped a = None" by (cases "ipv4_mapped a") auto
  have lt: "unat a < 0xFF000000000000000000000000000000"
    using n(3) unsigned_less[where ?'a = nat, of a] by (simp add: in_net6)
  note u = unprivate6[OF n(1) m]
  have ula: "\<not> (0xFC000000000000000000000000000000 \<le> unat a \<and> unat a < 0xFE000000000000000000000000000000)"
    using u[of "0xFC000000000000000000000000000000" 7] by (simp add: private_networks6_def)
  have ll: "\<not> (0xFE800000000000000000000000000000 \<le> unat a \<and> unat a < 0xFEC00000000000000000000000000000)"
    using u[of "0xFE800000000000000000000000000000" 10] by (simp add: private_networks6_def)
  have sixtofour: "\<not> (0x20020000000000000000000000000000 \<le> unat a \<and> unat a < 0x20030000000000000000000000000000)"
    using u[of "0x20020000000000000000000000000000" 16] by (simp add: private_networks6_def)
  have teredo: "\<not> (0x20010000000000000000000000000000 \<le> unat a \<and> unat a < 0x20010001000000000000000000000000)"
  proof
    assume t: "0x20010000000000000000000000000000 \<le> unat a \<and> unat a < 0x20010001000000000000000000000000"
    then have "\<not> 0x20010001000000000000000000000000 \<le> unat a" by simp
    with u[of "0x20010000000000000000000000000000" 23] t show False by (simp add: private_networks6_def)
  qed
  have top: "0xFEC00000000000000000000000000000 \<le> unat a" if "2 ^ 126 \<le> unat a"
  proof -
    from unreserved6(2)[OF n(2) that] ula have "0xFE000000000000000000000000000000 \<le> unat a" by simp
    from unreserved6(3)[OF n(2) this] ll show ?thesis by simp
  qed
  have "unat a < 2 ^ 126 \<or> 0xFEC00000000000000000000000000000 \<le> unat a" using top by fastforce
  with unreserved6(1)[OF n(2)] lt sixtofour teredo m IPv6 show ?thesis by simp
qed

text \<open>
  A public IPv4 address passes, and so does an address of the deprecated site-local range.
\<close>

theorem allowed_addresses_witness:
  "(0x01000000 :: nat) \<le> unat (0x08080808 :: 32 word) \<and> \<not> is_blocked_ip (IPv6 0xFEC00000000000000000000000000001) \<and>
   ipv4_mapped 0xFEC00000000000000000000000000001 = None"
proof -
  have "\<not> is_blocked_ip (IPv4 0x08080808)" "\<not> is_blocked_ip (IPv6 0xFEC00000000000000000000000000001)"
    by code_simp+
  with allowed_addresses[of "IPv4 0x08080808"] allowed_addresses[of "IPv6 0xFEC00000000000000000000000000001"]
  show ?thesis by simp
qed

section \<open>The registry\<close>

definition registry_ok :: "egress_db \<Rightarrow> bool" where
  "registry_ok s \<longleftrightarrow>
     distinct (map (ts_host \<circ> snd) (trusted_sources s)) \<and>
     (\<forall>(i, r) \<in> set (trusted_sources s). ts_status r = ''trusted'' \<longrightarrow> scanner_run_reference r \<noteq> None)"

inductive registry_step :: "egress_db \<Rightarrow> egress_db \<Rightarrow> bool" where
  register: "registry_step s (snd (transaction (register_source host schemes who) s))"
| promote: "registry_step s (snd (transaction (promote_to_trusted host ref) s))"
| revoke: "registry_step s (snd (transaction (revoke_source host why) s))"

definition registry_start :: "egress_db \<Rightarrow> bool" where
  "registry_start s \<longleftrightarrow> trusted_sources s = []"

lemma keeps_update_source [store_inv]:
  assumes "\<And>r. ts_host (f r) = ts_host r"
    "\<And>r. ts_status (f r) = ''trusted'' \<Longrightarrow> scanner_run_reference (f r) \<noteq> None"
  shows "keeps registry_ok (update_source host f)"
proof (rule keepsI)
  fix s assume ok: "registry_ok s"
  have h: "ts_host \<circ> snd \<circ> (\<lambda>(k, x). (k, if ts_host x = host then f x else x)) = ts_host \<circ> snd"
    by (rule ext) (auto simp: assms(1))
  show "registry_ok (snd (update_source host f s))"
    using ok assms(2)
    by (fastforce simp: update_source_def db_simps registry_ok_def h split: option.splits)
qed

lemma keeps_promote [store_inv]: "keeps registry_ok (promote_to_trusted host ref)"
  unfolding promote_to_trusted_def by (rule keeps_update_source) auto

lemma keeps_revoke [store_inv]: "keeps registry_ok (revoke_source host why)"
  unfolding revoke_source_def by (rule keeps_update_source) auto

lemma keeps_register [store_inv]: "keeps registry_ok (register_source host schemes who)"
  by (rule keepsI) (auto simp: register_source_def db_simps registry_ok_def Let_def image_image)

interpretation registry: invariant_system registry_start registry_step registry_ok
proof
  show "registry_start s \<Longrightarrow> registry_ok s" for s
    by (simp add: registry_start_def registry_ok_def)
  show "registry_ok s \<Longrightarrow> registry_step s t \<Longrightarrow> registry_ok t" for s t
    by (erule registry_step.cases) (auto intro!: keepsD keeps_transaction store_inv)
qed

lemma trusted_in_registry:
  "get_trusted_source s host = Some src \<Longrightarrow>
   \<exists>i. (i, src) \<in> set (trusted_sources s) \<and> ts_host src = host \<and> ts_status src = ''trusted''"
  by (fastforce simp: get_trusted_source_def dest: find_SomeD)

text \<open>
  C24. In every state the registry can reach, a fetch connects only to permitted targets: each
  one, the targets of redirects included, is a host that a scanner run promoted to trusted and
  that is still trusted, over one of its schemes, pinned to an address of a resolution with no
  blocked address. It makes at most one connection more than the redirects it may follow, and
  what it returns is the answer of a target, never a redirect.
\<close>

theorem fetch_contacts_permitted:
  assumes "reachable registry_start registry_step s" "fetch_via_validator env s url max_redirects = (tgs, r)"
  shows "list_all (permitted env s) tgs \<and> length tgs \<le> max_redirects + 1 \<and>
    (\<forall>tg \<in> set tgs. \<exists>src. get_trusted_source s (tg_host tg) = Some src \<and> scanner_run_reference src \<noteq> None) \<and>
    (\<forall>x. r = Inr x \<longrightarrow> tgs \<noteq> [] \<and> fst x \<notin> set REDIRECT_STATUSES)"
proof -
  note f = assms(2)[unfolded fetch_via_validator_def]
  have ok: "registry_ok s" by (rule registry.reachable_inv[OF assms(1)])
  have p: "list_all (permitted env s) tgs" by (rule fetch_hops_permitted[OF f])
  have "\<exists>src. get_trusted_source s (tg_host tg) = Some src \<and> scanner_run_reference src \<noteq> None" if "tg \<in> set tgs" for tg
  proof -
    from p that have "permitted env s tg" by (simp add: list_all_iff)
    then obtain src where src: "get_trusted_source s (tg_host tg) = Some src" by (auto simp: permitted_def)
    from trusted_in_registry[OF src] ok have "scanner_run_reference src \<noteq> None" by (auto simp: registry_ok_def)
    with src show ?thesis by blast
  qed
  moreover have "tgs \<noteq> [] \<and> fst x \<notin> set REDIRECT_STATUSES" if "r = Inr x" for x
    using fetch_hops_status f that by blast
  ultimately show ?thesis using p fetch_hops_length[OF f] by blast
qed

definition sample_net :: net_env where
  "sample_net =
     \<lparr>urlsplit = (\<lambda>u. Some \<lparr>url_scheme = ''https'', url_hostname = Some (if u = ''a'' then ''one.az'' else ''two.az''),
        url_port = Some None, url_path = [], url_query = []\<rparr>),
      urljoin = (\<lambda>u l. l),
      ip_address = (\<lambda>a. Some (IPv4 (if a = ''8.8.8.8'' then 0x08080808 else 0x7F000001))),
      resolver = (\<lambda>hop h. Some (if h = ''one.az'' then [''8.8.8.8''] else [''8.8.8.8'', ''127.0.0.1''])),
      do_fetch = (\<lambda>hop t. Inr (302, [], [(''location'', ''b'')]))\<rparr>"

definition empty_egress_db :: egress_db where
  "empty_egress_db =
     \<lparr>roles = [], permissions = [], role_permissions = [], users = [], user_seq = 1, sessions = [], idempotency_keys = [],
      audit_log = [], clock = 0, correlation_id_var = None, raw_snapshots = [], tenders = [], tender_versions = [],
      boq_lines = [], exception_queue = [], go_no_go = [], readiness = [], decisions = [], lock_ins = [],
      execution_facts = [], napkin_evidence_rows = [], contributions = [], outcomes = [], loss_reasons = [],
      trusted_sources = []\<rparr>"

definition after_op :: "('t, 'a) egress_op \<Rightarrow> 't egress_db_scheme \<Rightarrow> 't egress_db_scheme" where
  "after_op m s = snd (transaction m s)"

definition sample_registry :: egress_db where
  "sample_registry =
     after_op (promote_to_trusted ''two.az'' ''scan-2'') (after_op (register_source ''two.az'' [''https''] ''admin'')
       (after_op (promote_to_trusted ''one.az'' ''scan-1'') (after_op (register_source ''one.az'' [''https''] ''admin'')
         empty_egress_db)))"

lemma sample_registry_reachable: "reachable registry_start registry_step sample_registry"
proof -
  have step: "reachable registry_start registry_step s \<Longrightarrow> registry_step s t \<Longrightarrow> reachable registry_start registry_step t" for s t
    by (rule reachable.stepwise)
  have start: "reachable registry_start registry_step empty_egress_db"
    by (rule reachable.initially) (simp add: registry_start_def empty_egress_db_def)
  show ?thesis
    unfolding sample_registry_def after_op_def
    by (rule step, rule step, rule step, rule step, rule start)
      (rule registry_step.intros)+
qed

lemma sample_fetch:
  "fetch_via_validator sample_net sample_registry ''a'' 5 =
     ([\<lparr>tg_host = ''one.az'', tg_port = 443, tg_scheme = ''https'', path_and_query = ''/'', resolved_ip = ''8.8.8.8''\<rparr>],
      Inl (egress_rejected ''address_blocked'' [''two.az'', ''127.0.0.1'']))"
  by code_simp

text \<open>A redirect to a trusted host one of whose addresses is the loopback address is refused.\<close>

theorem fetch_contacts_permitted_witness:
  "length (fst (fetch_via_validator sample_net sample_registry ''a'' 5)) = 1 \<and>
   list_all (permitted sample_net sample_registry) (fst (fetch_via_validator sample_net sample_registry ''a'' 5))"
  using fetch_contacts_permitted[OF sample_registry_reachable sample_fetch] unfolding sample_fetch by simp

text \<open>
  Once a source is revoked, no fetch connects to its host, neither directly nor through a
  redirect from a host that is trusted.
\<close>

theorem revoked_host_unreachable:
  assumes "revoke_source host why s = (Inr x, s')" "fetch_via_validator env s' url max_redirects = (tgs, r)"
  shows "host \<notin> tg_host ` set tgs"
proof
  assume "host \<in> tg_host ` set tgs"
  then obtain tg where tg: "tg \<in> set tgs" "tg_host tg = host" by blast
  with fetch_hops_permitted[OF assms(2)[unfolded fetch_via_validator_def]] have "permitted env s' tg"
    by (simp add: list_all_iff)
  then obtain src where "get_trusted_source s' host = Some src" by (auto simp: permitted_def tg(2))
  from trusted_in_registry[OF this] obtain i where
    i: "(i, src) \<in> set (trusted_sources s')" "ts_host src = host" "ts_status src = ''trusted''" by blast
  from assms(1) have "trusted_sources s' =
      map (\<lambda>(k, x). (k, if ts_host x = host then x\<lparr>ts_status := ''revoked'', revoked_reason := Some why\<rparr> else x)) (trusted_sources s)"
    by (auto simp: revoke_source_def update_source_def db_simps split: option.splits)
  with i(1) have "ts_host src \<noteq> host \<or> ts_status src = ''revoked''" by (auto split: if_splits)
  with i(2,3) show False by simp
qed

theorem revoked_host_unreachable_witness:
  "''one.az'' \<notin> tg_host ` set (fst (fetch_via_validator sample_net
     (snd (revoke_source ''one.az'' ''incident'' sample_registry)) ''a'' 5))"
proof -
  have "fst (revoke_source ''one.az'' ''incident'' sample_registry) =
      Inr (1, \<lparr>ts_host = ''one.az'', allowed_schemes = [''https''], ts_status = ''revoked'',
        scanner_run_reference = Some ''scan-1'', registered_by = ''admin'', revoked_reason = Some ''incident''\<rparr>)"
    by code_simp
  then obtain x where "revoke_source ''one.az'' ''incident'' sample_registry =
      (Inr x, snd (revoke_source ''one.az'' ''incident'' sample_registry))"
    by (metis prod.collapse)
  from revoked_host_unreachable[OF this prod.collapse[symmetric]] show ?thesis .
qed

end
