(* ===== verification/Contracts.thy ===== *)
theory Contracts
  imports Platform
begin

text \<open>
  The source contracts of the ingestion connectors (\<open>packages/tender/source_contract.py\<close>,
  \<open>etender_contract.py\<close>, \<open>worldbank_contract.py\<close>) and the detector of schema drift
  (\<open>schema_drift.py\<close>).

  A contract gives the fields of an object and the JSON type of each. The lemmas at the end
  read the detector as a type checker: \<open>has_type\<close> is the typing of values the contract means,
  \<open>typed_by\<close> the typing of objects, and no drift is reported exactly for the objects that are
  typed. \<open>pystr\<close> is \<open>str\<close> on a JSON value.
\<close>

section \<open>Contracts\<close>

record field_spec =
  fs_name :: string
  fs_type :: string
  fs_optional :: bool

record source_contract =
  sc_name :: string
  identity_query_keys :: "string list"
  sc_fields :: "field_spec list"

abbreviation required :: "string \<Rightarrow> string \<Rightarrow> field_spec" where
  "required n t \<equiv> \<lparr>fs_name = n, fs_type = t, fs_optional = False\<rparr>"

abbreviation optional :: "string \<Rightarrow> string \<Rightarrow> field_spec" where
  "optional n t \<equiv> \<lparr>fs_name = n, fs_type = t, fs_optional = True\<rparr>"

abbreviation mk_contract :: "string \<Rightarrow> string list \<Rightarrow> field_spec list \<Rightarrow> source_contract" where
  "mk_contract n ks fs \<equiv> \<lparr>sc_name = n, identity_query_keys = ks, sc_fields = fs\<rparr>"

fun join :: "string \<Rightarrow> string list \<Rightarrow> string" where
  "join sep [] = []"
| "join sep [x] = x"
| "join sep (x # y # xs) = x @ sep @ join sep (y # xs)"

text \<open>\<open>None\<close> is the \<open>KeyError\<close> of a missing parameter.\<close>

definition canonical_identity :: "(json \<Rightarrow> string) \<Rightarrow> source_contract \<Rightarrow> jobject \<Rightarrow> string option" where
  "canonical_identity pystr c params =
     (if list_all (\<lambda>k. k \<in> fst ` set params) (identity_query_keys c)
      then Some (sc_name c @ ''|'' @ join ''&'' (map (\<lambda>k. k @ ''='' @ pystr (jget params k)) (identity_query_keys c)))
      else None)"

definition EVENT_DETAILS_CONTRACT :: source_contract where
  "EVENT_DETAILS_CONTRACT = mk_contract ''etender.event_details'' [''id''] [
      required ''id'' ''number'', required ''rfxId'' ''number'', required ''eventId'' ''number'',
      required ''tenderName'' ''string'', required ''organizationName'' ''string'',
      required ''organizationVoen'' ''string'', required ''envelopeDate'' ''number'',
      required ''endDate'' ''number'', required ''publishDate'' ''number'',
      required ''startDate'' ''number'', required ''budgetCategoryCode'' ''null'',
      required ''address'' ''string'', required ''cpvCode'' ''null'', required ''eventType'' ''number'',
      required ''isRedirectionAvailable'' ''boolean'', required ''minNumberOfSuppliers'' ''number'',
      required ''estimatedAmount'' ''number'', required ''recreatedFromRfxId'' ''null'',
      required ''recreatedFromEventId'' ''null'', required ''documentNumber'' ''string'',
      required ''recreatedFromDocumentNumber'' ''null'', required ''evaluatedFinalScore'' ''number'',
      required ''categoryCodes'' ''array'']"

definition BOM_LINES_PAGE_CONTRACT :: source_contract where
  "BOM_LINES_PAGE_CONTRACT = mk_contract ''etender.bom_lines_page'' [''event_id'', ''PageNumber''] [
      required ''currentPage'' ''number'', required ''totalPages'' ''number'',
      required ''pageSize'' ''number'', required ''itemsInPage'' ''number'',
      required ''totalItems'' ''number'', required ''items'' ''array'',
      required ''hasPreviousPage'' ''boolean'', required ''hasNextPage'' ''boolean'',
      required ''firstItem'' ''number'', required ''lastItem'' ''number'']"

definition EVENTS_LIST_PAGE_CONTRACT :: source_contract where
  "EVENTS_LIST_PAGE_CONTRACT = mk_contract ''etender.events_list_page'' [''EventType'', ''PageSize'', ''PageNumber'', ''EventStatus'', ''Keyword'', ''buyerOrganizationName'',
      ''documentNumber'', ''publishDateFrom'', ''publishDateTo'', ''AwardedparticipantName'', ''AwardedparticipantVoen'', ''DocumentViewType'', ''IsArchived''] [
      required ''currentPage'' ''number'', required ''totalPages'' ''number'',
      required ''pageSize'' ''number'', required ''itemsInPage'' ''number'',
      required ''totalItems'' ''number'', required ''items'' ''array'',
      required ''hasPreviousPage'' ''boolean'', required ''hasNextPage'' ''boolean'',
      required ''firstItem'' ''number'', required ''lastItem'' ''number'']"

definition BOM_LINE_ITEM_CONTRACT :: source_contract where
  "BOM_LINE_ITEM_CONTRACT = mk_contract ''etender.bom_lines_page.item'' [''id''] [
      required ''id'' ''number'', required ''name'' ''string'', required ''description'' ''string'',
      required ''unitOfMeasure'' ''string'', required ''quantity'' ''number'',
      required ''categoryCode'' ''string'']"

definition APP_LIST_PAGE_CONTRACT :: source_contract where
  "APP_LIST_PAGE_CONTRACT = mk_contract ''etender.app_list_page'' [''Year'', ''PageNumber'', ''BuyerOrganizationName''] [
      required ''currentPage'' ''number'', required ''totalPages'' ''number'',
      required ''pageSize'' ''number'', required ''itemsInPage'' ''number'',
      required ''totalItems'' ''number'', required ''items'' ''array'',
      required ''hasPreviousPage'' ''boolean'', required ''hasNextPage'' ''boolean'',
      required ''firstItem'' ''number'', required ''lastItem'' ''number'']"

definition APP_ITEM_CONTRACT :: source_contract where
  "APP_ITEM_CONTRACT = mk_contract ''etender.app_list_page.item'' [''id''] [
      required ''id'' ''number'', required ''organizationName'' ''string'', required ''year'' ''number'',
      required ''createDate'' ''string'']"

definition DONOR_PIPELINE_PAGE_CONTRACT :: source_contract where
  "DONOR_PIPELINE_PAGE_CONTRACT = mk_contract ''worldbank.donor_pipeline_page'' [''countrycode_exact'', ''os''] [
      required ''rows'' ''number'', required ''os'' ''string'', required ''page'' ''string'',
      required ''total'' ''string'', required ''projects'' ''object'', required ''facets'' ''object'']"

definition DONOR_PIPELINE_PROJECT_CONTRACT :: source_contract where
  "DONOR_PIPELINE_PROJECT_CONTRACT = mk_contract ''worldbank.donor_pipeline_page.project'' [''id''] [
      required ''id'' ''string'', required ''project_name'' ''string'', required ''status'' ''string'',
      required ''projectstatusdisplay'' ''string'', required ''totalamt'' ''string'',
      required ''totalcommamt'' ''string'', required ''country_namecode'' ''string'',
      required ''countryname'' ''array'', required ''countrycode'' ''array'',
      required ''countryshortname'' ''string'', required ''regionname'' ''string'',
      required ''source'' ''array'', required ''mjthemecode'' ''string'',
      required ''mjtheme_namecode'' ''array'', required ''theme1'' ''string'',
      required ''sector1'' ''object'', required ''url'' ''string'', required ''teamleadname'' ''string'',
      required ''lendinginstr'' ''string'', required ''lendinginstrtype'' ''string'',
      required ''lendprojectcost'' ''string'', required ''prodline'' ''string'',
      required ''prodlinetext'' ''string'', required ''productlinetype'' ''string'',
      required ''proj_and_ln_country'' ''array'', required ''projectdocs'' ''array'',
      required ''curr_ibrd_commitment'' ''string'', required ''curr_ida_commitment'' ''string'',
      required ''curr_total_commitment'' ''string'', required ''ibrdcommamt'' ''string'',
      required ''idacommamt'' ''string'', optional ''borrower'' ''string'',
      optional ''impagency'' ''string'', optional ''boardapprovaldate'' ''string'',
      optional ''board_approval_month'' ''string'', optional ''closingdate'' ''string'',
      optional ''approvalfy'' ''string'', optional ''p2a_flag'' ''string'',
      optional ''p2a_updated_date'' ''string'', optional ''supplementprojectflg'' ''string'',
      optional ''envassesmentcategorycode'' ''string'', optional ''grantamt'' ''string'',
      optional ''sector'' ''array'', optional ''sector2'' ''object'', optional ''sector3'' ''object'',
      optional ''sector_namecode'' ''array'', optional ''sectorcode'' ''array'',
      optional ''mjsector_namecode'' ''array'', optional ''theme2'' ''string'',
      optional ''theme3'' ''string'', optional ''theme4'' ''string'', optional ''theme_list'' ''array'',
      optional ''theme_namecode'' ''array'', optional ''themecode'' ''string'',
      optional ''ln_country_id'' ''array'', optional ''ln_country_id_desc'' ''array'']"

section \<open>Schema drift\<close>

primrec json_type :: "json \<Rightarrow> string" where
  "json_type JNull = ''null''"
| "json_type (JBool b) = ''boolean''"
| "json_type (JInt i) = ''number''"
| "json_type (JFloat r) = ''number''"
| "json_type (JStr s) = ''string''"
| "json_type (JArr xs) = ''array''"
| "json_type (JObj d) = ''object''"

record schema_drift =
  added_fields :: "string list"
  removed_fields :: "string list"
  type_changed_fields :: "string list"

definition has_drift :: "schema_drift \<Rightarrow> bool" where
  "has_drift d \<longleftrightarrow> added_fields d \<noteq> [] \<or> removed_fields d \<noteq> [] \<or> type_changed_fields d \<noteq> []"

definition declared_of :: "source_contract \<Rightarrow> string \<rightharpoonup> field_spec" where
  "declared_of c = dict_of (map (\<lambda>f. (fs_name f, f)) (sc_fields c))"

definition type_changed :: "source_contract \<Rightarrow> jobject \<Rightarrow> string \<Rightarrow> bool" where
  "type_changed c p n \<longleftrightarrow>
     (case (declared_of c n, map_of p n) of
        (Some f, Some v) \<Rightarrow> v \<noteq> JNull \<and> json_type v \<noteq> fs_type f
      | _ \<Rightarrow> False)"

definition detect_schema_drift :: "source_contract \<Rightarrow> jobject \<Rightarrow> schema_drift" where
  "detect_schema_drift c p =
     (let names = map fs_name (sc_fields c) in
      \<lparr>added_fields = sorted_set (filter (\<lambda>k. k \<notin> set names) (map fst p)),
       removed_fields = sorted_set (filter (\<lambda>k. k \<notin> fst ` set p \<and>
          (case declared_of c k of None \<Rightarrow> False | Some f \<Rightarrow> \<not> fs_optional f)) names),
       type_changed_fields = sorted_set (filter (type_changed c p) names)\<rparr>)"

text \<open>
  One item of another shape than an object has no \<open>keys\<close>: an \<open>AttributeError\<close>, here \<open>None\<close>.
\<close>

fun objects_of :: "json list \<Rightarrow> jobject list option" where
  "objects_of [] = Some []"
| "objects_of (JObj d # xs) = map_option (Cons d) (objects_of xs)"
| "objects_of (x # xs) = None"

definition union_drifts :: "schema_drift list \<Rightarrow> schema_drift" where
  "union_drifts ds =
     \<lparr>added_fields = sorted_set (concat (map added_fields ds)),
      removed_fields = sorted_set (concat (map removed_fields ds)),
      type_changed_fields = sorted_set (concat (map type_changed_fields ds))\<rparr>"

definition detect_schema_drift_over_items :: "source_contract \<Rightarrow> json list \<Rightarrow> schema_drift option" where
  "detect_schema_drift_over_items c items =
     map_option (\<lambda>ds. union_drifts (map (detect_schema_drift c) ds)) (objects_of items)"

section \<open>Drift as typing\<close>

inductive has_type :: "json \<Rightarrow> string \<Rightarrow> bool" where
  null: "has_type JNull t"
| boolean: "has_type (JBool b) ''boolean''"
| integer: "has_type (JInt i) ''number''"
| fraction: "has_type (JFloat r) ''number''"
| chars: "has_type (JStr s) ''string''"
| array: "has_type (JArr xs) ''array''"
| object: "has_type (JObj d) ''object''"

inductive_simps has_type_simps [simp]:
  "has_type JNull t" "has_type (JBool b) t" "has_type (JInt i) t" "has_type (JFloat r) t"
  "has_type (JStr s) t" "has_type (JArr xs) t" "has_type (JObj d) t"

inductive_cases has_numberE: "has_type v ''number''"
inductive_cases has_stringE: "has_type v ''string''"
inductive_cases has_arrayE: "has_type v ''array''"
inductive_cases has_objectE: "has_type v ''object''"

lemma has_type_iff: "has_type v t \<longleftrightarrow> v = JNull \<or> json_type v = t"
  by (cases v) auto

text \<open>
  An object of a contract: it has every required field and no other field than the declared
  ones, and each field is null or of its declared type.
\<close>

definition typed_by :: "source_contract \<Rightarrow> jobject \<Rightarrow> bool" where
  "typed_by c p \<longleftrightarrow>
     (\<forall>f \<in> set (sc_fields c). \<not> fs_optional f \<longrightarrow> fs_name f \<in> fst ` set p) \<and>
     (\<forall>k v. map_of p k = Some v \<longrightarrow> (\<exists>f \<in> set (sc_fields c). fs_name f = k \<and> has_type v (fs_type f)))"

definition wf_contract :: "source_contract \<Rightarrow> bool" where
  "wf_contract c \<longleftrightarrow> distinct (map fs_name (sc_fields c))"

lemma declared_of_Some:
  assumes "wf_contract c"
  shows "declared_of c n = Some f \<longleftrightarrow> f \<in> set (sc_fields c) \<and> fs_name f = n"
proof -
  have "distinct (map fst (map (\<lambda>f. (fs_name f, f)) (sc_fields c)))"
    using assms by (simp add: wf_contract_def comp_def)
  then show ?thesis
    unfolding declared_of_def by (subst dict_of_distinct) (auto simp: map_of_eq_Some_iff)
qed

lemma set_drift:
  assumes "wf_contract c"
  shows "set (added_fields (detect_schema_drift c p)) = {k \<in> fst ` set p. \<forall>f \<in> set (sc_fields c). fs_name f \<noteq> k}"
    and "set (removed_fields (detect_schema_drift c p)) =
      {fs_name f | f. f \<in> set (sc_fields c) \<and> \<not> fs_optional f \<and> fs_name f \<notin> fst ` set p}"
    and "set (type_changed_fields (detect_schema_drift c p)) =
      {fs_name f | f v. f \<in> set (sc_fields c) \<and> map_of p (fs_name f) = Some v \<and> \<not> has_type v (fs_type f)}"
proof -
  show "set (added_fields (detect_schema_drift c p)) = {k \<in> fst ` set p. \<forall>f \<in> set (sc_fields c). fs_name f \<noteq> k}"
    by (auto simp: detect_schema_drift_def Let_def)
  have d: "f \<in> set (sc_fields c) \<Longrightarrow> declared_of c (fs_name f) = Some f" for f
    by (simp add: declared_of_Some[OF assms])
  show "set (removed_fields (detect_schema_drift c p)) =
      {fs_name f | f. f \<in> set (sc_fields c) \<and> \<not> fs_optional f \<and> fs_name f \<notin> fst ` set p}"
    by (auto simp: detect_schema_drift_def Let_def d)
  show "set (type_changed_fields (detect_schema_drift c p)) =
      {fs_name f | f v. f \<in> set (sc_fields c) \<and> map_of p (fs_name f) = Some v \<and> \<not> has_type v (fs_type f)}"
    by (fastforce simp: detect_schema_drift_def Let_def type_changed_def d has_type_iff split: option.splits)
qed

lemma drift_free_iff_typed:
  assumes "wf_contract c"
  shows "\<not> has_drift (detect_schema_drift c p) \<longleftrightarrow> typed_by c p"
proof -
  have "\<not> has_drift (detect_schema_drift c p) \<longleftrightarrow>
      {k \<in> fst ` set p. \<forall>f \<in> set (sc_fields c). fs_name f \<noteq> k} = {} \<and>
      {fs_name f | f. f \<in> set (sc_fields c) \<and> \<not> fs_optional f \<and> fs_name f \<notin> fst ` set p} = {} \<and>
      {fs_name f | f v. f \<in> set (sc_fields c) \<and> map_of p (fs_name f) = Some v \<and> \<not> has_type v (fs_type f)} = {}"
    unfolding has_drift_def set_drift[OF assms, symmetric] set_empty by auto
  also have "\<dots> \<longleftrightarrow> typed_by c p"
  proof
    assume *: "typed_by c p"
    have u: "f \<in> set (sc_fields c) \<Longrightarrow> g \<in> set (sc_fields c) \<Longrightarrow> fs_name f = fs_name g \<Longrightarrow> f = g" for f g
      using assms by (auto simp: wf_contract_def distinct_map dest: inj_onD)
    have k: "\<exists>f \<in> set (sc_fields c). fs_name f = k" if "k \<in> fst ` set p" for k
      using * that unfolding typed_by_def by (metis map_of_eq_None_iff not_Some_eq)
    show "{k \<in> fst ` set p. \<forall>f \<in> set (sc_fields c). fs_name f \<noteq> k} = {} \<and>
      {fs_name f | f. f \<in> set (sc_fields c) \<and> \<not> fs_optional f \<and> fs_name f \<notin> fst ` set p} = {} \<and>
      {fs_name f | f v. f \<in> set (sc_fields c) \<and> map_of p (fs_name f) = Some v \<and> \<not> has_type v (fs_type f)} = {}"
      using * k u unfolding typed_by_def by blast
  next
    assume *: "{k \<in> fst ` set p. \<forall>f \<in> set (sc_fields c). fs_name f \<noteq> k} = {} \<and>
      {fs_name f | f. f \<in> set (sc_fields c) \<and> \<not> fs_optional f \<and> fs_name f \<notin> fst ` set p} = {} \<and>
      {fs_name f | f v. f \<in> set (sc_fields c) \<and> map_of p (fs_name f) = Some v \<and> \<not> has_type v (fs_type f)} = {}"
    have "\<exists>f \<in> set (sc_fields c). fs_name f = k \<and> has_type v (fs_type f)" if "map_of p k = Some v" for k v
    proof -
      from that have "k \<in> fst ` set p" by (metis domI dom_map_of_conv_image_fst)
      with * obtain f where "f \<in> set (sc_fields c)" "fs_name f = k" by blast
      with * that show ?thesis by blast
    qed
    with * show "typed_by c p" unfolding typed_by_def by blast
  qed
  finally show ?thesis .
qed

lemma objects_of_Some: "objects_of xs = Some ds \<longleftrightarrow> xs = map JObj ds"
  by (induction xs arbitrary: ds rule: objects_of.induct) auto

lemma has_drift_union: "has_drift (union_drifts ds) \<longleftrightarrow> (\<exists>d \<in> set ds. has_drift d)"
  by (auto simp: has_drift_def union_drifts_def)

lemma items_drift_free_iff:
  assumes "wf_contract c" "detect_schema_drift_over_items c items = Some d"
  shows "\<not> has_drift d \<longleftrightarrow> (\<exists>ds. items = map JObj ds \<and> list_all (typed_by c) ds)"
proof -
  from assms(2) obtain ds where ds: "items = map JObj ds" "d = union_drifts (map (detect_schema_drift c) ds)"
    by (auto simp: detect_schema_drift_over_items_def objects_of_Some)
  have inj: "map JObj ds = map JObj ds' \<Longrightarrow> ds' = ds" for ds'
    by (metis inj_onI json.inject(6) map_injective)
  show ?thesis
    using ds inj by (auto simp: has_drift_union drift_free_iff_typed[OF assms(1)] list_all_iff)
qed

text \<open>A field of a drift-free object.\<close>

lemma typed_field:
  assumes "typed_by c p" "required n t \<in> set (sc_fields c)" "wf_contract c"
  obtains v where "map_of p n = Some v" "has_type v t"
proof -
  from assms(1,2) have "\<not> fs_optional (required n t) \<longrightarrow> fs_name (required n t) \<in> fst ` set p"
    unfolding typed_by_def by blast
  then have "n \<in> fst ` set p" by simp
  then obtain v where v: "map_of p n = Some v" by (metis map_of_eq_None_iff not_Some_eq)
  with assms(1) obtain f where f: "f \<in> set (sc_fields c)" "fs_name f = n" "has_type v (fs_type f)"
    unfolding typed_by_def by blast
  have "declared_of c n = Some f" "declared_of c n = Some (required n t)"
    using f assms(2) by (simp_all add: declared_of_Some[OF assms(3)])
  then have "f = required n t" by simp
  with f v that show ?thesis by simp
qed

lemma wf_contracts [simp]:
  "wf_contract EVENT_DETAILS_CONTRACT" "wf_contract BOM_LINES_PAGE_CONTRACT"
  "wf_contract EVENTS_LIST_PAGE_CONTRACT" "wf_contract BOM_LINE_ITEM_CONTRACT"
  "wf_contract APP_LIST_PAGE_CONTRACT" "wf_contract APP_ITEM_CONTRACT"
  "wf_contract DONOR_PIPELINE_PAGE_CONTRACT"
  by (simp_all add: wf_contract_def EVENT_DETAILS_CONTRACT_def BOM_LINES_PAGE_CONTRACT_def
      EVENTS_LIST_PAGE_CONTRACT_def BOM_LINE_ITEM_CONTRACT_def APP_LIST_PAGE_CONTRACT_def
      APP_ITEM_CONTRACT_def DONOR_PIPELINE_PAGE_CONTRACT_def)

lemma wf_project_contract [simp]: "wf_contract DONOR_PIPELINE_PROJECT_CONTRACT"
  by (simp add: wf_contract_def DONOR_PIPELINE_PROJECT_CONTRACT_def)

end
