(* ===== verification/Ingestion.thy ===== *)
theory Ingestion
  imports Contracts Egress Jobs "HOL-Library.AList"
begin

text \<open>
  Tender ingestion: the eTender connector (\<open>packages/tender/etender_connector.py\<close>), the line
  model (\<open>boq_line_model.py\<close>), BOQ completeness (\<open>boq_completeness.py\<close>) and the resumable page
  job (\<open>bom_lines_job.py\<close>). The record below has the tables of signals, forecasts and change
  tracking too; their theories follow.

  The exception \<open>SchemaDriftDetected\<close>, which every caller catches, is the value \<open>Drifted\<close>; the
  writes made before it stay on the connection. What comes from outside is one argument, an
  \<open>ingest_env\<close>: SHA-256, the database's JSON reader, \<open>str\<close> of a JSON value, \<open>fromisoformat\<close>,
  \<open>Decimal(str(x))\<close>, case conversion, the text of a drift, and \<open>search\<close> and \<open>finditer\<close> of the
  compiled patterns. A payload is the decoded object of a response.
\<close>

section \<open>State\<close>

datatype pattern = PRELIMINARIES_RE | PROVISIONAL_SUM_RE | PRIME_COST_RE
  | CONCRETE_GRADE_RE | REBAR_CLASS_RE | STANDARD_REFERENCE_RE | OR_EQUIVALENT_RE

record ingest_env =
  env_sha :: "string \<Rightarrow> string"
  env_parse :: "string \<Rightarrow> json option"
  env_str :: "json \<Rightarrow> string"
  env_iso :: "string \<Rightarrow> int option"
  env_decimal :: "json \<Rightarrow> dec option"
  env_lower :: "string \<Rightarrow> string"
  env_upper :: "string \<Rightarrow> string"
  env_drift_text :: "schema_drift \<Rightarrow> string"
  env_search :: "pattern \<Rightarrow> string \<Rightarrow> bool"
  env_finditer :: "pattern \<Rightarrow> string \<Rightarrow> string list"

record boq_import =
  bi_source :: string
  bi_event_id :: int
  expected_total :: "int option"
  expected_pages :: "int option"
  fetched_pages :: int
  stored_lines :: int
  bi_status :: string
  missing_pages :: "int list"
  page_checksums :: "(int \<times> string) list"

record signal =
  signal_type :: string
  signal_source :: string
  signal_snapshot_id :: int
  signal_value :: jobject
  observed_at :: int
  ttl_class :: string
  confidence :: string
  object_customer :: "string option"
  object_region :: "string option"
  object_project_type :: "string option"
  signal_correlation_id :: string

record card_snapshot =
  card_region :: string
  card_composite :: bool
  card_signal_types :: "string list"
  card_budget :: "jobject option"
  card_evidence :: "jobject list"
  card_computed_at :: int

record card_link =
  link_snapshot_id :: int
  link_tender_id :: int
  link_note :: string
  confirmed_by :: string
  confirmed_at :: int

record change_event =
  ce_tender_id :: int
  change_type :: string
  changed_fields :: "jobject list"
  detected_at :: int
  ce_snapshot_id :: int

record recalc_flag =
  flag_tender_id :: int
  flag_line_id :: int
  flag_event_id :: int
  flagged_at :: int
  resolved_at :: "int option"

record ingest_db = egress_db +
  work :: work_db
  boq_imports :: "(int \<times> boq_import) list"
  signals :: "(int \<times> signal) list"
  card_snapshots :: "(int \<times> card_snapshot) list"
  card_links :: "(int \<times> card_link) list"
  change_events :: "(int \<times> change_event) list"
  recalc_flags :: "(int \<times> recalc_flag) list"
  watch_states :: "(int \<times> int) list"

type_synonym 'a ingest_op = "(ingest_db, api_error, 'a) db"

text \<open>
  The statements of the job store and the outbox run on the same connection; the clock of the
  transaction is one.
\<close>

definition work_exc :: "work_error \<Rightarrow> api_error" where
  "work_exc e =
     (case e of
        JobNotOwned i w \<Rightarrow> Exc ''JobNotOwned'' [str_int i, w]
      | JobVanished i \<Rightarrow> Exc ''AssertionError'' [str_int i]
      | PageError m \<Rightarrow> Exc ''PageError'' [m]
      | DeliveryFailed \<Rightarrow> Exc ''DeliveryFailed'' [])"

definition on_work :: "'a work \<Rightarrow> 'a ingest_op" where
  "on_work m = (\<lambda>s. case m ((work s)\<lparr>now := clock s\<rparr>) of
     (Inl e, w) \<Rightarrow> (Inl (work_exc e), s\<lparr>work := w\<rparr>) | (Inr x, w) \<Rightarrow> (Inr x, s\<lparr>work := w\<rparr>))"

text \<open>\<open>d[k]\<close>, and \<open>d[k]\<close> where the value is iterated as a list.\<close>

definition field :: "jobject \<Rightarrow> string \<Rightarrow> api_error + json" where
  "field d k = (case map_of d k of None \<Rightarrow> Inl (Exc ''KeyError'' [k]) | Some v \<Rightarrow> Inr v)"

definition list_field :: "jobject \<Rightarrow> string \<Rightarrow> api_error + json list" where
  "list_field d k =
     (case map_of d k of
        None \<Rightarrow> Inl (Exc ''KeyError'' [k])
      | Some (JArr xs) \<Rightarrow> Inr xs
      | Some v \<Rightarrow> Inl (Exc ''TypeError'' [k]))"

text \<open>\<open>[item[k] for item in items]\<close>\<close>

definition item_field :: "string \<Rightarrow> json \<Rightarrow> api_error + json" where
  "item_field k item = (case item of JObj d \<Rightarrow> field d k | _ \<Rightarrow> Inl (Exc ''TypeError'' [k]))"

section \<open>The connector\<close>

datatype 'a ingested = Drifted schema_drift string int | Ingested 'a

definition PARSER_VERSION :: string where
  "PARSER_VERSION = ''etender-v3''"

text \<open>The drift of a page: its own fields first, then those of its items.\<close>

definition page_drift :: "source_contract \<Rightarrow> (source_contract \<times> string) option \<Rightarrow> jobject \<Rightarrow> api_error + (schema_drift \<times> string)" where
  "page_drift c item p =
     (let d = detect_schema_drift c p in
      case item of
        None \<Rightarrow> Inr (d, sc_name c)
      | Some (ic, k) \<Rightarrow>
          if has_drift d then Inr (d, sc_name c)
          else sum_bind (list_field p k) (\<lambda>items.
            case detect_schema_drift_over_items ic items of
              None \<Rightarrow> Inl (Exc ''AttributeError'' [''keys''])
            | Some d' \<Rightarrow> Inr (d', sc_name ic)))"

definition drift_payload :: "string \<Rightarrow> string \<Rightarrow> schema_drift \<Rightarrow> jobject" where
  "drift_payload name key d =
     [(''contract'', JStr name), (''identity_key'', JStr key), (''added_fields'', JArr (map JStr (added_fields d))),
      (''removed_fields'', JArr (map JStr (removed_fields d))),
      (''type_changed_fields'', JArr (map JStr (type_changed_fields d)))]"

definition report_drift :: "string \<Rightarrow> string \<Rightarrow> string \<Rightarrow> schema_drift \<Rightarrow> string \<Rightarrow> unit ingest_op" where
  "report_drift agg name key d cid =
     bind (on_work (enqueue_event agg name ''schema_drift_event'' (drift_payload name key d) cid)) (\<lambda>_. ret ())"

definition identity_op :: "ingest_env \<Rightarrow> source_contract \<Rightarrow> jobject \<Rightarrow> string ingest_op" where
  "identity_op env c qs =
     (case canonical_identity (env_str env) c qs of None \<Rightarrow> raise (Exc ''KeyError'' [sc_name c]) | Some k \<Rightarrow> ret k)"

definition ingest :: "ingest_env \<Rightarrow> source_contract \<Rightarrow> jobject \<Rightarrow> string \<Rightarrow> jobject \<Rightarrow> (jobject \<Rightarrow> api_error + jobject) \<Rightarrow>
    string \<Rightarrow> (source_contract \<times> string) option \<Rightarrow> (int \<times> tender_version) ingested ingest_op" where
  "ingest env c ident raw p nf_of cid item =
     bind (identity_op env c ident) (\<lambda>key.
     bind (save_raw_snapshot (env_sha env) (env_parse env) ''etender'' (sc_name c) key raw (sc_name c) cid) (\<lambda>snap.
     bind (of_sum (page_drift c item p)) (\<lambda>(d, name).
     if has_drift d
     then then_db (report_drift ''tender_source_contract'' name key d cid) (ret (Drifted d name snap))
     else
     bind (get_or_create_tender ''etender'' key) (\<lambda>tid.
     bind (of_sum (nf_of p)) (\<lambda>nf.
     bind (create_normalized_version tid snap PARSER_VERSION nf) (\<lambda>v.
     ret (Ingested v)))))))"

definition normalize_event_details :: "jobject \<Rightarrow> api_error + jobject" where
  "normalize_event_details p =
     sum_bind (field p ''id'') (\<lambda>i.
     sum_bind (field p ''tenderName'') (\<lambda>name.
     sum_bind (field p ''organizationName'') (\<lambda>org.
     sum_bind (field p ''eventType'') (\<lambda>etype.
     sum_bind (field p ''documentNumber'') (\<lambda>doc.
     Inr [(''id'', i), (''end_date'', jget p ''endDate''), (''envelope_date'', jget p ''envelopeDate''),
          (''start_date'', jget p ''startDate''), (''tender_name'', name), (''organization_name'', org),
          (''organization_voen'', jget p ''organizationVoen''), (''event_type_actual'', etype),
          (''estimated_amount'', jget p ''estimatedAmount''), (''document_number'', doc)])))))"

definition ingest_event_details :: "ingest_env \<Rightarrow> string \<Rightarrow> jobject \<Rightarrow> string \<Rightarrow> (int \<times> tender_version) ingested ingest_op" where
  "ingest_event_details env raw p cid =
     bind (of_sum (field p ''id'')) (\<lambda>i.
     ingest env EVENT_DETAILS_CONTRACT [(''id'', i)] raw p normalize_event_details cid None)"

definition normalize_bom_page :: "int \<Rightarrow> jobject \<Rightarrow> api_error + jobject" where
  "normalize_bom_page ev p =
     sum_bind (field p ''currentPage'') (\<lambda>page.
     sum_bind (field p ''totalPages'') (\<lambda>pages.
     sum_bind (field p ''totalItems'') (\<lambda>total.
     sum_bind (field p ''itemsInPage'') (\<lambda>n.
     sum_bind (list_field p ''items'') (\<lambda>items.
     sum_bind (sum_map (item_field ''id'') items) (\<lambda>ids.
     Inr [(''event_id'', JInt ev), (''current_page'', page), (''total_pages'', pages), (''total_items'', total),
          (''items_in_page'', n), (''line_ids'', JArr ids)]))))))"

definition ingest_bom_lines_page :: "ingest_env \<Rightarrow> int \<Rightarrow> string \<Rightarrow> jobject \<Rightarrow> string \<Rightarrow> (int \<times> tender_version) ingested ingest_op" where
  "ingest_bom_lines_page env ev raw p cid =
     bind (of_sum (field p ''currentPage'')) (\<lambda>page.
     ingest env BOM_LINES_PAGE_CONTRACT [(''event_id'', JInt ev), (''PageNumber'', page)] raw p (normalize_bom_page ev) cid
       (Some (BOM_LINE_ITEM_CONTRACT, ''items'')))"

definition normalize_events_list :: "jobject \<Rightarrow> api_error + jobject" where
  "normalize_events_list p =
     sum_bind (field p ''currentPage'') (\<lambda>page.
     sum_bind (field p ''totalPages'') (\<lambda>pages.
     sum_bind (field p ''totalItems'') (\<lambda>total.
     sum_bind (list_field p ''items'') (\<lambda>items.
     sum_bind (sum_map (item_field ''eventId'') items) (\<lambda>ids.
     Inr [(''current_page'', page), (''total_pages'', pages), (''total_items'', total), (''event_ids_in_page'', JArr ids)])))))"

definition ingest_events_list_page :: "ingest_env \<Rightarrow> string \<Rightarrow> jobject \<Rightarrow> jobject \<Rightarrow> string \<Rightarrow> (int \<times> tender_version) ingested ingest_op" where
  "ingest_events_list_page env raw p query cid =
     bind (of_sum (field p ''currentPage'')) (\<lambda>page.
     ingest env EVENTS_LIST_PAGE_CONTRACT (jmerge query [(''PageNumber'', page)]) raw p normalize_events_list cid None)"

section \<open>Live fetches\<close>

text \<open>
  \<open>loads\<close> is \<open>json.loads\<close>; a response that is not an object fails at its first use as a dict.
  \<open>urlencode\<close> is an argument, and so is the network.
\<close>

definition fetch_json_live :: "net_env \<Rightarrow> (string \<Rightarrow> json option) \<Rightarrow> 't egress_db_scheme \<Rightarrow> string \<Rightarrow> api_error + (string \<times> jobject)" where
  "fetch_json_live net loads s url =
     (case snd (fetch_via_validator net s url DEFAULT_MAX_REDIRECTS) of
        Inl e \<Rightarrow> Inl e
      | Inr (code, content, headers) \<Rightarrow>
          if code \<noteq> 200 then Inl (Exc ''UnexpectedResponseStatus'' [str_int code, url])
          else (case loads content of
             None \<Rightarrow> Inl (Exc ''JSONDecodeError'' [])
           | Some (JObj p) \<Rightarrow> Inr (content, p)
           | Some v \<Rightarrow> Inl (Exc ''TypeError'' [])))"

definition fetch_event_details_live :: "net_env \<Rightarrow> (string \<Rightarrow> json option) \<Rightarrow> 't egress_db_scheme \<Rightarrow> int \<Rightarrow> api_error + (string \<times> jobject)" where
  "fetch_event_details_live net loads s ev =
     fetch_json_live net loads s (''https://etender.gov.az/api/events/'' @ str_int ev)"

definition fetch_bom_lines_page_live :: "net_env \<Rightarrow> (string \<Rightarrow> json option) \<Rightarrow> 't egress_db_scheme \<Rightarrow> int \<Rightarrow> int \<Rightarrow>
    api_error + (string \<times> jobject)" where
  "fetch_bom_lines_page_live net loads s ev page =
     fetch_json_live net loads s (''https://etender.gov.az/api/events/'' @ str_int ev @ ''/bomLines?PageSize=100&PageNumber='' @ str_int page)"

definition fetch_design_tender_page_live :: "net_env \<Rightarrow> (string \<Rightarrow> json option) \<Rightarrow> (jobject \<Rightarrow> string) \<Rightarrow> 't egress_db_scheme \<Rightarrow>
    jobject \<Rightarrow> int \<Rightarrow> api_error + (string \<times> jobject)" where
  "fetch_design_tender_page_live net loads urlencode s query page =
     fetch_json_live net loads s
       (''https://etender.gov.az/api/events?'' @ urlencode (jmerge query [(''PageNumber'', JInt page)]))"

definition fetch_procurement_plan_page_live :: "net_env \<Rightarrow> (string \<Rightarrow> json option) \<Rightarrow> (jobject \<Rightarrow> string) \<Rightarrow> 't egress_db_scheme \<Rightarrow>
    int \<Rightarrow> int \<Rightarrow> string \<Rightarrow> api_error + (string \<times> jobject)" where
  "fetch_procurement_plan_page_live net loads urlencode s year page buyer =
     fetch_json_live net loads s
       (''https://etender.gov.az/api/app?'' @ urlencode ([(''PageSize'', JInt 10), (''PageNumber'', JInt page), (''Year'', JInt year)] @
          (if buyer = [] then [] else [(''BuyerOrganizationName'', JStr buyer)])))"

definition fetch_donor_pipeline_page_live :: "net_env \<Rightarrow> (string \<Rightarrow> json option) \<Rightarrow> 't egress_db_scheme \<Rightarrow> string \<Rightarrow> int \<Rightarrow> int \<Rightarrow>
    api_error + (string \<times> jobject)" where
  "fetch_donor_pipeline_page_live net loads s country rows os =
     fetch_json_live net loads s
       (''https://search.worldbank.org/api/v2/projects?format=json&countrycode_exact='' @ country @ ''&rows='' @ str_int rows @
        ''&os='' @ str_int os)"

section \<open>Lines\<close>

text \<open>
  A line as it is built from an item, before the constraints of its table: its id, section and
  category are JSON values, its unit may be null.
\<close>

record parsed_line =
  pl_id :: json
  pl_page :: int
  pl_section :: json
  pl_category :: json
  pl_description :: string
  pl_unit_raw :: "string option"
  pl_unit_canonical :: "string option"
  pl_unit_status :: string
  pl_qty :: dec
  pl_line_type :: string
  pl_specs :: "(string \<times> string) list"
  pl_rate :: "dec option"
  pl_amount :: "dec option"

definition classify_line_type :: "ingest_env \<Rightarrow> string \<Rightarrow> string \<Rightarrow> string" where
  "classify_line_type env name desc =
     (let t = name @ '' '' @ desc in
      if env_search env PRELIMINARIES_RE t then ''preliminaries''
      else if env_search env PROVISIONAL_SUM_RE t then ''provisional_sum''
      else if env_search env PRIME_COST_RE t then ''prime_cost''
      else ''normal'')"

definition extract_spec_requirements :: "ingest_env \<Rightarrow> string \<Rightarrow> (string \<times> string) list" where
  "extract_spec_requirements env desc =
     map (Pair ''concrete_grade'') (env_finditer env CONCRETE_GRADE_RE desc) @
     map (Pair ''rebar_class'') (env_finditer env REBAR_CLASS_RE desc) @
     map (Pair ''standard_reference'') (env_finditer env STANDARD_REFERENCE_RE desc) @
     map (Pair ''or_equivalent'') (env_finditer env OR_EQUIVALENT_RE desc)"

definition to_decimal_or_none :: "ingest_env \<Rightarrow> json \<Rightarrow> api_error + dec option" where
  "to_decimal_or_none env v =
     (case v of
        JNull \<Rightarrow> Inr None
      | _ \<Rightarrow> (case env_decimal env v of None \<Rightarrow> Inl (Exc ''InvalidOperation'' []) | Some d \<Rightarrow> Inr (Some d)))"

text \<open>A name that is null is formatted as \<open>None\<close>; a description that is null has no matches to iterate.\<close>

definition str_value :: "json \<Rightarrow> api_error + string" where
  "str_value v = (case v of JStr t \<Rightarrow> Inr t | _ \<Rightarrow> Inl (Exc ''TypeError'' []))"

definition name_text :: "ingest_env \<Rightarrow> jobject \<Rightarrow> string" where
  "name_text env d = (case map_of d ''name'' of None \<Rightarrow> [] | Some (JStr t) \<Rightarrow> t | Some v \<Rightarrow> env_str env v)"

definition unit_of :: "json \<Rightarrow> api_error + (string option \<times> string option \<times> string)" where
  "unit_of v =
     (case v of
        JNull \<Rightarrow> Inr (None, None, ''unmapped'')
      | JStr t \<Rightarrow> (let u = canonicalize_unit t in Inr (Some t, cu_canonical u, cu_status u))
      | _ \<Rightarrow> Inl (Exc ''TypeError'' []))"

definition build_boq_line :: "ingest_env \<Rightarrow> int \<Rightarrow> json \<Rightarrow> api_error + parsed_line" where
  "build_boq_line env page item =
     (case item of
        JObj d \<Rightarrow>
          sum_bind (field d ''unitOfMeasure'') (\<lambda>uv.
          sum_bind (unit_of uv) (\<lambda>(raw, canonical, st).
          sum_bind (field d ''id'') (\<lambda>i.
          sum_bind (field d ''description'') (\<lambda>dv.
          sum_bind (field d ''quantity'') (\<lambda>qv.
          sum_bind (case env_decimal env qv of None \<Rightarrow> Inl (Exc ''InvalidOperation'' []) | Some q \<Rightarrow> Inr q) (\<lambda>q.
          sum_bind (str_value dv) (\<lambda>desc.
          sum_bind (to_decimal_or_none env (jget d ''rate'')) (\<lambda>rt.
          sum_bind (to_decimal_or_none env (jget d ''amount'')) (\<lambda>am.
          Inr \<lparr>pl_id = i, pl_page = page, pl_section = jget d ''name'', pl_category = jget d ''categoryCode'',
               pl_description = desc, pl_unit_raw = raw, pl_unit_canonical = canonical, pl_unit_status = st, pl_qty = q,
               pl_line_type = classify_line_type env (name_text env d) desc,
               pl_specs = extract_spec_requirements env desc, pl_rate = rt, pl_amount = am\<rparr>)))))))))
      | _ \<Rightarrow> Inl (Exc ''TypeError'' []))"

definition build_boq_lines :: "ingest_env \<Rightarrow> int \<Rightarrow> json list \<Rightarrow> api_error + parsed_line list" where
  "build_boq_lines env page items = sum_map (build_boq_line env page) items"

text \<open>The columns of \<open>boq_lines\<close>: a null or a value of another type is refused by the database.\<close>

definition text_column :: "json \<Rightarrow> api_error + string option" where
  "text_column v =
     (case v of JNull \<Rightarrow> Inr None | JStr t \<Rightarrow> Inr (Some t) | _ \<Rightarrow> Inl (Exc ''DBAPIError'' []))"

definition int_column :: "string \<Rightarrow> json \<Rightarrow> api_error + int" where
  "int_column col v =
     (case v of JInt i \<Rightarrow> Inr i | JNull \<Rightarrow> Inl (Exc ''IntegrityError'' [col]) | _ \<Rightarrow> Inl (Exc ''DBAPIError'' [col]))"

definition line_row :: "parsed_line \<Rightarrow> api_error + boq_line" where
  "line_row l =
     sum_bind (int_column ''source_line_id'' (pl_id l)) (\<lambda>i.
     sum_bind (text_column (pl_section l)) (\<lambda>sec.
     sum_bind (text_column (pl_category l)) (\<lambda>cat.
     sum_bind (case pl_unit_raw l of None \<Rightarrow> Inl (Exc ''IntegrityError'' [''unit_raw'']) | Some u \<Rightarrow> Inr u) (\<lambda>u.
     Inr \<lparr>source_line_id = i, page_number = pl_page l, section_name = sec, category_code = cat,
          description = pl_description l, unit_raw = u, unit_canonical = pl_unit_canonical l, unit_status = pl_unit_status l,
          qty = pl_qty l, line_type = pl_line_type l, spec_requirements = pl_specs l, rate = pl_rate l, amount = pl_amount l\<rparr>))))"

definition store_parsed_lines :: "int \<Rightarrow> int \<Rightarrow> int \<Rightarrow> parsed_line list \<Rightarrow> nat ingest_op" where
  "store_parsed_lines ev ver snap ls =
     then_db (for_each (\<lambda>l. bind (of_sum (line_row l)) (store_boq_line ''etender'' ev ver snap)) ls) (ret (length ls))"

section \<open>Completeness\<close>

definition find_import :: "ingest_db \<Rightarrow> string \<Rightarrow> int \<Rightarrow> (int \<times> boq_import) option" where
  "find_import s src ev = find (\<lambda>(i, r). bi_source r = src \<and> bi_event_id r = ev) (boq_imports s)"

definition new_import :: "string \<Rightarrow> int \<Rightarrow> boq_import" where
  "new_import src ev =
     \<lparr>bi_source = src, bi_event_id = ev, expected_total = None, expected_pages = None, fetched_pages = 0, stored_lines = 0,
      bi_status = ''in_progress'', missing_pages = [], page_checksums = []\<rparr>"

definition get_or_create_boq_import :: "string \<Rightarrow> int \<Rightarrow> (int \<times> boq_import) ingest_op" where
  "get_or_create_boq_import src ev =
     bind (gets (\<lambda>s. find_import s src ev)) (\<lambda>existing.
     case existing of
       Some x \<Rightarrow> ret x
     | None \<Rightarrow>
         bind (gets (\<lambda>s. (next_id (boq_imports s), new_import src ev))) (\<lambda>x.
         then_db (modify (\<lambda>s. s\<lparr>boq_imports := boq_imports s @ [x]\<rparr>)) (ret x)))"

definition import_status :: "int \<Rightarrow> int \<Rightarrow> int option \<Rightarrow> int option \<Rightarrow> string" where
  "import_status fetched stored tot pages =
     (if tot = None \<or> pages = None then ''source_exhausted_unverified''
      else if pages = Some fetched \<and> tot = Some stored then ''complete''
      else ''in_progress'')"

definition record_page_fetched :: "string \<Rightarrow> int \<Rightarrow> int \<Rightarrow> int \<Rightarrow> int option \<Rightarrow> int option \<Rightarrow> string \<Rightarrow> (int \<times> boq_import) ingest_op" where
  "record_page_fetched src ev page lines_on_page tot pages chk =
     bind (get_or_create_boq_import src ev) (\<lambda>(i, current).
     let fetched = fetched_pages current + 1; stored = stored_lines current + lines_on_page;
         r = current\<lparr>expected_total := tot, expected_pages := pages, fetched_pages := fetched, stored_lines := stored,
               bi_status := import_status fetched stored tot pages,
               page_checksums := AList.update page chk (page_checksums current)\<rparr> in
     then_db (modify (\<lambda>s. s\<lparr>boq_imports := update_row i (\<lambda>_. r) (boq_imports s)\<rparr>))
     (ret (i, r)))"

definition imports_by_status :: "ingest_db \<Rightarrow> (string \<times> nat) list" where
  "imports_by_status s = count_dict (map (bi_status \<circ> snd) (boq_imports s))"

definition mark_import_stalled :: "string \<Rightarrow> int \<Rightarrow> (int \<times> boq_import) ingest_op" where
  "mark_import_stalled src ev =
     bind (get_or_create_boq_import src ev) (\<lambda>(i, current).
     if bi_status current \<in> {''complete'', ''source_exhausted_unverified''} then ret (i, current)
     else (case expected_pages current of
        None \<Rightarrow> ret (i, current)
      | Some n \<Rightarrow>
          (let missing = filter (\<lambda>k. k \<notin> fst ` set (page_checksums current)) [1..n];
               r = current\<lparr>bi_status := ''incomplete'', missing_pages := missing\<rparr> in
           then_db (modify (\<lambda>s. s\<lparr>boq_imports := update_row i (\<lambda>_. r) (boq_imports s)\<rparr>))
           (ret (i, r)))))"

section \<open>The page job\<close>

text \<open>
  \<open>total_pages is not None and next_page >= total_pages\<close>; a number is compared with numbers only.
\<close>

definition page_done :: "int \<Rightarrow> json \<Rightarrow> api_error + bool" where
  "page_done page tot =
     (case tot of
        JNull \<Rightarrow> Inr False
      | JInt n \<Rightarrow> Inr (n \<le> page)
      | JFloat r \<Rightarrow> Inr (r \<le> of_int page)
      | JBool b \<Rightarrow> Inr ((if b then 1 else 0) \<le> page)
      | _ \<Rightarrow> Inl (Exc ''TypeError'' [''>='']))"

text \<open>The parameters and the checkpoint of a page job hold integers, as the code writes them.\<close>

definition job_param :: "jobject \<Rightarrow> string \<Rightarrow> api_error + int" where
  "job_param d k = sum_bind (field d k) (\<lambda>v. case v of JInt i \<Rightarrow> Inr i | _ \<Rightarrow> Inl (Exc ''TypeError'' [k]))"

definition checkpoint_int :: "jobject \<Rightarrow> string \<Rightarrow> int \<Rightarrow> api_error + int" where
  "checkpoint_int d k dflt =
     (case map_of d k of None \<Rightarrow> Inr dflt | Some (JInt i) \<Rightarrow> Inr i | Some v \<Rightarrow> Inl (Exc ''TypeError'' [k]))"

definition optional_int :: "string \<Rightarrow> json \<Rightarrow> api_error + int option" where
  "optional_int col v =
     (case v of JNull \<Rightarrow> Inr None | JInt i \<Rightarrow> Inr (Some i) | _ \<Rightarrow> Inl (Exc ''DBAPIError'' [col]))"

definition counted_int :: "json \<Rightarrow> api_error + int" where
  "counted_int v = (case v of JInt i \<Rightarrow> Inr i | JNull \<Rightarrow> Inl (Exc ''TypeError'' [''+'']) | _ \<Rightarrow> Inl (Exc ''DBAPIError'' [''stored_lines'']))"

definition queue_drift :: "ingest_env \<Rightarrow> string \<Rightarrow> string \<Rightarrow> schema_drift \<Rightarrow> string \<Rightarrow> int \<Rightarrow> int ingest_op" where
  "queue_drift env src cid d name snap =
     bind (enqueue_exception src ''schema_drift'' ''needs_human'' (env_drift_text env d) cid (Some snap) (Some name)) (\<lambda>(i, r).
     ret i)"

text \<open>What follows the ingestion of a page: the drift is queued, or the page is counted and its lines stored.\<close>

definition finish_bom_page :: "ingest_env \<Rightarrow> string \<Rightarrow> int \<Rightarrow> int \<Rightarrow> string \<Rightarrow> jobject \<Rightarrow> (int \<times> tender_version) ingested \<Rightarrow> jobject ingest_op" where
  "finish_bom_page env cid ev page raw p r =
     (case r of
        Drifted d name snap \<Rightarrow>
          bind (queue_drift env ''etender'' cid d name snap) (\<lambda>ex.
          bind (of_sum (page_done page (jget p ''totalPages''))) (\<lambda>dn.
          ret [(''next_page'', JInt (page + 1)), (''done'', JBool dn), (''tender_version_id'', JNull), (''boq_status'', JNull),
               (''exception_queue_id'', JInt ex), (''boq_lines_stored'', JInt 0)]))
      | Ingested (ver, v) \<Rightarrow>
          bind (of_sum (sum_bind (field p ''itemsInPage'') counted_int)) (\<lambda>n.
          bind (of_sum (optional_int ''expected_total'' (jget p ''totalItems''))) (\<lambda>total.
          bind (of_sum (optional_int ''expected_pages'' (jget p ''totalPages''))) (\<lambda>pages.
          bind (record_page_fetched ''etender'' ev page n total pages (env_sha env raw)) (\<lambda>(i, st).
          bind (of_sum (sum_bind (list_field p ''items'') (build_boq_lines env page))) (\<lambda>ls.
          bind (store_parsed_lines ev ver (tv_raw_snapshot_id v) ls) (\<lambda>k.
          bind (of_sum (page_done page (jget p ''totalPages''))) (\<lambda>dn.
          ret [(''next_page'', JInt (page + 1)), (''done'', JBool dn), (''tender_version_id'', JInt ver),
               (''boq_status'', JStr (bi_status st)), (''boq_lines_stored'', JInt (int k))]))))))))"

definition process_bom_lines_page :: "ingest_env \<Rightarrow> job \<Rightarrow> (int \<Rightarrow> int \<Rightarrow> api_error + (string \<times> jobject)) \<Rightarrow> jobject ingest_op" where
  "process_bom_lines_page env j fetch_page =
     bind (of_sum (job_param (params j) ''event_id'')) (\<lambda>ev.
     bind (of_sum (checkpoint_int (checkpoint j) ''next_page'' 1)) (\<lambda>page.
     bind (of_sum (fetch_page ev page)) (\<lambda>(raw, p).
     bind (ingest_bom_lines_page env ev raw p (job_correlation_id j)) (\<lambda>r.
     finish_bom_page env (job_correlation_id j) ev page raw p r))))"

end
