(* ===== verification/Ingestion_Theorems.thy ===== *)
theory Ingestion_Theorems
  imports Ingestion
begin

text \<open>
  What ingestion guarantees: payloads without drift are typed and normalise, a page is either
  stored in full or queued for a human with its evidence, and a BOQ import that counts as
  complete has stored as many lines as the source announced.
\<close>

section \<open>The effect of an ingested response\<close>

lemma identity_op_Inr: "identity_op env c qs s = (Inr k, t) \<longleftrightarrow> canonical_identity (env_str env) c qs = Some k \<and> t = s"
  by (auto simp: identity_op_def split: option.splits)

definition snapshot_row :: "ingest_env \<Rightarrow> string \<Rightarrow> string \<Rightarrow> string \<Rightarrow> string \<Rightarrow> json \<Rightarrow> string \<Rightarrow> int \<Rightarrow> raw_snapshot" where
  "snapshot_row env src name key raw b cid t =
     \<lparr>snap_source = src, resource_type = name, snap_identity_key = key, checksum = env_sha env raw, body = b,
      snap_contract_version = name, snap_correlation_id = cid, fetched_at = t\<rparr>"

lemma save_raw_snapshot_Inr:
  "save_raw_snapshot (env_sha env) (env_parse env) src name key raw name cid s = (Inr i, t) \<longleftrightarrow>
   (\<exists>b. env_parse env raw = Some b \<and> i = next_id (raw_snapshots s) \<and>
      t = s\<lparr>raw_snapshots := raw_snapshots s @ [(i, snapshot_row env src name key raw b cid (clock s))]\<rparr>)"
  by (auto simp: save_raw_snapshot_def snapshot_row_def db_simps split: option.splits)

lemma report_drift_Inr:
  "report_drift agg name key d cid s = (Inr (), t) \<longleftrightarrow>
   t = s\<lparr>work := (work s)\<lparr>now := clock s, outbox := outbox (work s) @ [(outbox_seq (work s),
        \<lparr>aggregate_type = agg, aggregate_id = name, event_type = ''schema_drift_event'', payload = drift_payload name key d,
         event_correlation_id = cid, event_status = ''pending'', event_created_at = clock s, published_at = None\<rparr>)],
        outbox_seq := outbox_seq (work s) + 1\<rparr>\<rparr>"
  by (auto simp: report_drift_def on_work_def enqueue_event_def db_simps split: sum.splits prod.splits)

text \<open>What ingesting a response leaves alone, drifted or not.\<close>

definition same_lines :: "ingest_db \<Rightarrow> ingest_db \<Rightarrow> bool" where
  "same_lines s t \<longleftrightarrow> boq_lines t = boq_lines s \<and> boq_imports t = boq_imports s \<and> signals t = signals s \<and>
     change_events t = change_events s \<and> recalc_flags t = recalc_flags s \<and> watch_states t = watch_states s \<and>
     exception_queue t = exception_queue s \<and> clock t = clock s"

lemma get_or_create_tender_Inr:
  assumes "get_or_create_tender src key s = (Inr tid, t)"
  shows "tid \<in> fst ` set (tenders t)" "\<exists>new. t = s\<lparr>tenders := tenders s @ new\<rparr>"
proof -
  have "\<exists>r. (tid, r) \<in> set (tenders t)"
    using assms
    by (auto simp: get_or_create_tender_def db_simps find_Some_iff split: option.splits)
      (metis nth_mem)
  then show "tid \<in> fst ` set (tenders t)" by force
  show "\<exists>new. t = s\<lparr>tenders := tenders s @ new\<rparr>"
    using assms
    by (auto simp: get_or_create_tender_def db_simps split: option.splits intro: exI[of _ "[]"])
qed

definition drift_event :: "string \<Rightarrow> string \<Rightarrow> string \<Rightarrow> schema_drift \<Rightarrow> string \<Rightarrow> int \<Rightarrow> outbox_row" where
  "drift_event agg name key d cid t =
     \<lparr>aggregate_type = agg, aggregate_id = name, event_type = ''schema_drift_event'', payload = drift_payload name key d,
      event_correlation_id = cid, event_status = ''pending'', event_created_at = t, published_at = None\<rparr>"

lemma ingest_Inr:
  assumes "ingest env c ident raw p nf_of cid item s = (Inr r, t)"
  obtains key b snap d name where
    "canonical_identity (env_str env) c ident = Some key" "env_parse env raw = Some b" "snap = next_id (raw_snapshots s)"
    "raw_snapshots t = raw_snapshots s @ [(snap, snapshot_row env ''etender'' (sc_name c) key raw b cid (clock s))]"
    "same_lines s t" "page_drift c item p = Inr (d, name)"
    "case r of
       Drifted d' name' snap' \<Rightarrow> d' = d \<and> name' = name \<and> snap' = snap \<and> has_drift d \<and> tenders t = tenders s \<and>
         tender_versions t = tender_versions s \<and>
         outbox (work t) = outbox (work s) @ [(outbox_seq (work s), drift_event ''tender_source_contract'' name key d cid (clock s))]
     | Ingested (ver, v) \<Rightarrow> \<not> has_drift d \<and> work t = work s \<and> tv_raw_snapshot_id v = snap \<and> nf_of p = Inr (normalized_fields v) \<and>
         tender_versions t = tender_versions s @ [(ver, v)] \<and> ver = next_id (tender_versions s)"
proof -
  from assms obtain key s1 where 1: "canonical_identity (env_str env) c ident = Some key" and
    r1: "bind (save_raw_snapshot (env_sha env) (env_parse env) ''etender'' (sc_name c) key raw (sc_name c) cid) (\<lambda>snap.
     bind (of_sum (page_drift c item p)) (\<lambda>(d, name).
     if has_drift d
     then then_db (report_drift ''tender_source_contract'' name key d cid) (ret (Drifted d name snap))
     else
     bind (get_or_create_tender ''etender'' key) (\<lambda>tid.
     bind (of_sum (nf_of p)) (\<lambda>nf.
     bind (create_normalized_version tid snap PARSER_VERSION nf) (\<lambda>v.
     ret (Ingested v)))))) s = (Inr r, t)"
    unfolding ingest_def bind_Inr[of "identity_op _ _ _"] identity_op_Inr by blast
  from r1 obtain b snap s1 where 2: "env_parse env raw = Some b" "snap = next_id (raw_snapshots s)"
      "s1 = s\<lparr>raw_snapshots := raw_snapshots s @ [(snap, snapshot_row env ''etender'' (sc_name c) key raw b cid (clock s))]\<rparr>" and
    r2: "bind (of_sum (page_drift c item p)) (\<lambda>(d, name).
     if has_drift d
     then then_db (report_drift ''tender_source_contract'' name key d cid) (ret (Drifted d name snap))
     else
     bind (get_or_create_tender ''etender'' key) (\<lambda>tid.
     bind (of_sum (nf_of p)) (\<lambda>nf.
     bind (create_normalized_version tid snap PARSER_VERSION nf) (\<lambda>v.
     ret (Ingested v))))) s1 = (Inr r, t)"
    unfolding bind_Inr[of "save_raw_snapshot _ _ _ _ _ _ _ _"] save_raw_snapshot_Inr by blast
  from r2 obtain d name where 3: "page_drift c item p = Inr (d, name)" and
    r3: "(if has_drift d
     then then_db (report_drift ''tender_source_contract'' name key d cid) (ret (Drifted d name snap))
     else
     bind (get_or_create_tender ''etender'' key) (\<lambda>tid.
     bind (of_sum (nf_of p)) (\<lambda>nf.
     bind (create_normalized_version tid snap PARSER_VERSION nf) (\<lambda>v.
     ret (Ingested v))))) s1 = (Inr r, t)"
    unfolding bind_Inr[of "of_sum _"] of_sum_Inr by (auto split: prod.splits)
  show ?thesis
  proof (cases "has_drift d")
    case True
    with r3 have t: "report_drift ''tender_source_contract'' name key d cid s1 = (Inr (), t)" "r = Drifted d name snap"
      by (auto simp: then_db_Inr)
    show ?thesis
      by (rule that[OF 1 2(1,2) _ _ 3]) (use t 2(3) True in \<open>auto simp: report_drift_Inr same_lines_def drift_event_def\<close>)
  next
    case False
    with r3 obtain tid s2 nf v where 4: "get_or_create_tender ''etender'' key s1 = (Inr tid, s2)" "nf_of p = Inr nf"
        "create_normalized_version tid snap PARSER_VERSION nf s2 = (Inr v, t)" "r = Ingested v"
      by (auto simp: bind_Inr)
    from get_or_create_tender_Inr(2)[OF 4(1)] obtain new where new: "s2 = s1\<lparr>tenders := tenders s1 @ new\<rparr>" by blast
    from 4(3) have t: "v = (next_id (tender_versions s2), snd v)" "tv_raw_snapshot_id (snd v) = snap"
        "normalized_fields (snd v) = nf" "tender_versions t = tender_versions s2 @ [v]"
        "same_lines s2 t" "work t = work s2" "raw_snapshots t = raw_snapshots s2"
      by (auto simp: create_normalized_version_def db_simps Let_def same_lines_def split: if_splits)
    show ?thesis
      by (rule that[OF 1 2(1,2) _ _ 3])
        (use t 2(3) new False 4(2,4) in \<open>auto simp: same_lines_def split: prod.splits\<close>)
  qed
qed

section \<open>Types\<close>

text \<open>
  C25. The drift detector is the type checker of the contract: for a contract whose field names
  are distinct it reports drift exactly for the payloads that are not typed by it, that is when
  a required field is missing, an undeclared field is present, or a value is neither null nor
  of its declared type. The three lists it reports are sorted, without repetition, and hold
  exactly the undeclared fields, the missing required ones, and those of a wrong type. A field
  that a contract declares as null is no exception: any other value of it is drift, where the
  docstring of \<open>etender_contract.py\<close> calls this a data variation (lemma \<open>populated_null_field_drifts\<close>).
\<close>

theorem drift_is_typing:
  assumes "wf_contract c"
  shows "(has_drift (detect_schema_drift c p) \<longleftrightarrow> \<not> typed_by c p) \<and>
    (let d = detect_schema_drift c p in
     set (added_fields d) = {k \<in> fst ` set p. \<forall>f \<in> set (sc_fields c). fs_name f \<noteq> k} \<and>
     set (removed_fields d) = {fs_name f | f. f \<in> set (sc_fields c) \<and> \<not> fs_optional f \<and> fs_name f \<notin> fst ` set p} \<and>
     set (type_changed_fields d) =
       {fs_name f | f v. f \<in> set (sc_fields c) \<and> map_of p (fs_name f) = Some v \<and> \<not> has_type v (fs_type f)} \<and>
     (\<forall>l \<in> {added_fields d, removed_fields d, type_changed_fields d}. sorted l \<and> distinct l))"
proof -
  have "\<forall>l \<in> {added_fields d, removed_fields d, type_changed_fields d}. sorted l \<and> distinct l"
    if "d = detect_schema_drift c p" for d
    unfolding that by (simp add: detect_schema_drift_def Let_def)
  with set_drift[OF assms, of p] drift_free_iff_typed[OF assms, of p] show ?thesis
    unfolding Let_def by blast
qed

definition sample_item :: jobject where
  "sample_item = [(''id'', JInt 7), (''name'', JStr ''pipe''), (''description'', JStr ''PVC''), (''unitOfMeasure'', JNull),
     (''quantity'', JStr ''3''), (''rate'', JInt 1)]"

theorem drift_is_typing_witness:
  "\<not> typed_by BOM_LINE_ITEM_CONTRACT sample_item \<and>
   detect_schema_drift BOM_LINE_ITEM_CONTRACT sample_item =
     \<lparr>added_fields = [''rate''], removed_fields = [''categoryCode''], type_changed_fields = [''quantity'']\<rparr>"
proof -
  have d: "detect_schema_drift BOM_LINE_ITEM_CONTRACT sample_item =
     \<lparr>added_fields = [''rate''], removed_fields = [''categoryCode''], type_changed_fields = [''quantity'']\<rparr>"
    by code_simp
  have "has_drift (detect_schema_drift BOM_LINE_ITEM_CONTRACT sample_item)"
    unfolding d by (simp add: has_drift_def)
  with drift_is_typing[OF wf_contracts(4), of sample_item] d show ?thesis by simp
qed

lemma field_typed:
  assumes "typed_by c p" "wf_contract c" "required n t \<in> set (sc_fields c)"
  shows "\<exists>v. field p n = Inr v \<and> jget p n = v \<and> has_type v t"
proof -
  obtain v where "map_of p n = Some v" "has_type v t" by (rule typed_field[OF assms(1,3,2)])
  then show ?thesis by (simp add: field_def jget_def)
qed

text \<open>
  C26. Event details that pass the drift check always normalise: no missing key is ever hit, and
  every field of the result is null or of the type its source field has in the contract.
\<close>

theorem event_details_type_safe:
  assumes "\<not> has_drift (detect_schema_drift EVENT_DETAILS_CONTRACT p)"
  shows "\<exists>nf. normalize_event_details p = Inr nf \<and>
    map fst nf = [''id'', ''end_date'', ''envelope_date'', ''start_date'', ''tender_name'', ''organization_name'',
      ''organization_voen'', ''event_type_actual'', ''estimated_amount'', ''document_number''] \<and>
    list_all2 (\<lambda>kv t. has_type (snd kv) t) nf
      [''number'', ''number'', ''number'', ''number'', ''string'', ''string'', ''string'', ''number'', ''number'', ''string'']"
proof -
  from assms have t: "typed_by EVENT_DETAILS_CONTRACT p" by (simp add: drift_free_iff_typed)
  have f: "\<exists>v. field p n = Inr v \<and> jget p n = v \<and> has_type v ty" if "required n ty \<in> set (sc_fields EVENT_DETAILS_CONTRACT)" for n ty
    using field_typed[OF t _ that] by simp
  have "\<exists>v. field p ''id'' = Inr v \<and> jget p ''id'' = v \<and> has_type v ''number''"
    "\<exists>v. field p ''tenderName'' = Inr v \<and> jget p ''tenderName'' = v \<and> has_type v ''string''"
    "\<exists>v. field p ''organizationName'' = Inr v \<and> jget p ''organizationName'' = v \<and> has_type v ''string''"
    "\<exists>v. field p ''eventType'' = Inr v \<and> jget p ''eventType'' = v \<and> has_type v ''number''"
    "\<exists>v. field p ''documentNumber'' = Inr v \<and> jget p ''documentNumber'' = v \<and> has_type v ''string''"
    "has_type (jget p ''endDate'') ''number''" "has_type (jget p ''envelopeDate'') ''number''"
    "has_type (jget p ''startDate'') ''number''" "has_type (jget p ''organizationVoen'') ''string''"
    "has_type (jget p ''estimatedAmount'') ''number''"
    using f[of "''id''" "''number''"] f[of "''tenderName''" "''string''"] f[of "''organizationName''" "''string''"]
      f[of "''eventType''" "''number''"] f[of "''documentNumber''" "''string''"] f[of "''endDate''" "''number''"]
      f[of "''envelopeDate''" "''number''"] f[of "''startDate''" "''number''"] f[of "''organizationVoen''" "''string''"]
      f[of "''estimatedAmount''" "''number''"]
    by (simp_all add: EVENT_DETAILS_CONTRACT_def)
  then show ?thesis
    by (auto simp: normalize_event_details_def sum_bind_def)
qed

definition sample_event :: jobject where
  "sample_event =
     [(''id'', JInt 5), (''rfxId'', JInt 1), (''eventId'', JInt 5), (''tenderName'', JStr ''Road''),
      (''organizationName'', JStr ''Agency''), (''organizationVoen'', JNull), (''envelopeDate'', JInt 1), (''endDate'', JInt 2),
      (''publishDate'', JInt 0), (''startDate'', JInt 0), (''budgetCategoryCode'', JNull), (''address'', JStr ''Baku''),
      (''cpvCode'', JNull), (''eventType'', JInt 2), (''isRedirectionAvailable'', JBool False), (''minNumberOfSuppliers'', JInt 1),
      (''estimatedAmount'', JFloat (5 / 2)), (''recreatedFromRfxId'', JNull), (''recreatedFromEventId'', JNull),
      (''documentNumber'', JStr ''D-1''), (''recreatedFromDocumentNumber'', JNull), (''evaluatedFinalScore'', JInt 0),
      (''categoryCodes'', JArr [])]"

theorem event_details_type_safe_witness: "\<exists>nf. normalize_event_details sample_event = Inr nf \<and> length nf = 10"
proof -
  have "\<not> has_drift (detect_schema_drift EVENT_DETAILS_CONTRACT sample_event)" by code_simp
  from event_details_type_safe[OF this] obtain nf where
    "normalize_event_details sample_event = Inr nf" "length (map fst nf) = 10" by auto
  then show ?thesis by auto
qed

text \<open>
  A field that was null in the captured responses and has type null in the contract: any other
  value of it is reported as drift.
\<close>

lemma populated_null_field_drifts:
  assumes "wf_contract c" "required k ''null'' \<in> set (sc_fields c)" "map_of p k = Some v" "v \<noteq> JNull"
  shows "k \<in> set (type_changed_fields (detect_schema_drift c p)) \<and> has_drift (detect_schema_drift c p)"
proof -
  from assms(4) have "\<not> has_type v ''null''" by (cases v) auto
  with assms(2,3) have "k \<in> set (type_changed_fields (detect_schema_drift c p))"
    unfolding set_drift(3)[OF assms(1)] by force
  then show ?thesis by (auto simp: has_drift_def)
qed

section \<open>The lines of a page\<close>

definition line_stored :: "int \<Rightarrow> int \<Rightarrow> int \<Rightarrow> parsed_line \<Rightarrow> int \<times> boq_row \<Rightarrow> bool" where
  "line_stored ev ver snap l x \<longleftrightarrow>
     boq_source (snd x) = ''etender'' \<and> boq_event_id (snd x) = ev \<and> boq_version_id (snd x) = ver \<and>
     boq_raw_snapshot_id (snd x) = snap \<and> line_row l = Inr (boq_content (snd x))"

definition line_keys :: "ingest_db \<Rightarrow> (string \<times> int \<times> int) list" where
  "line_keys s = map (\<lambda>(i, r). (boq_source r, boq_event_id r, source_line_id (boq_content r))) (boq_lines s)"

lemma store_line_Inr:
  assumes "bind (of_sum (line_row l)) (store_boq_line ''etender'' ev ver snap) s = (Inr (), t)"
  obtains x where "t = s\<lparr>boq_lines := boq_lines s @ [x]\<rparr>" "line_stored ev ver snap l x"
    "distinct (line_keys s) \<longrightarrow> distinct (line_keys t)"
proof -
  from assms obtain c where c: "line_row l = Inr c" "store_boq_line ''etender'' ev ver snap c s = (Inr (), t)"
    by (auto simp: bind_Inr)
  define x where "x = (next_id (boq_lines s),
     \<lparr>boq_source = ''etender'', boq_event_id = ev, boq_version_id = ver, boq_raw_snapshot_id = snap, boq_content = c\<rparr>)"
  from c(2) have "t = s\<lparr>boq_lines := boq_lines s @ [x]\<rparr>"
    "\<not> (\<exists>(i, r) \<in> set (boq_lines s). boq_source r = ''etender'' \<and> boq_event_id r = ev \<and>
       source_line_id (boq_content r) = source_line_id c)"
    by (auto simp: store_boq_line_def db_simps x_def split: if_splits)
  with c(1) show ?thesis
    by (intro that[of x]) (auto simp: x_def line_stored_def line_keys_def)
qed

lemma store_lines_Inr:
  assumes "for_each (\<lambda>l. bind (of_sum (line_row l)) (store_boq_line ''etender'' ev ver snap)) ls s = (Inr (), t)"
  shows "(distinct (line_keys s) \<longrightarrow> distinct (line_keys t)) \<and>
    (\<exists>rows. t = s\<lparr>boq_lines := boq_lines s @ rows\<rparr> \<and> list_all2 (line_stored ev ver snap) ls rows)"
  using assms
proof (induction ls arbitrary: s)
  case Nil
  then show ?case by simp
next
  case (Cons l ls)
  then obtain s1 where 1: "bind (of_sum (line_row l)) (store_boq_line ''etender'' ev ver snap) s = (Inr (), s1)"
      "for_each (\<lambda>l. bind (of_sum (line_row l)) (store_boq_line ''etender'' ev ver snap)) ls s1 = (Inr (), t)"
    by (auto simp: then_db_Inr)
  from 1(1) obtain x where x: "s1 = s\<lparr>boq_lines := boq_lines s @ [x]\<rparr>" "line_stored ev ver snap l x"
    "distinct (line_keys s) \<longrightarrow> distinct (line_keys s1)" by (rule store_line_Inr)
  from Cons.IH[OF 1(2)] obtain rows where "t = s1\<lparr>boq_lines := boq_lines s1 @ rows\<rparr>"
    "list_all2 (line_stored ev ver snap) ls rows" "distinct (line_keys s1) \<longrightarrow> distinct (line_keys t)" by blast
  with x show ?case by (auto intro!: exI[of _ "x # rows"])
qed

lemma store_parsed_lines_Inr:
  assumes "store_parsed_lines ev ver snap ls s = (Inr k, t)"
  obtains rows where "t = s\<lparr>boq_lines := boq_lines s @ rows\<rparr>" "list_all2 (line_stored ev ver snap) ls rows" "k = length ls"
    "distinct (line_keys s) \<longrightarrow> distinct (line_keys t)"
proof -
  from assms have k: "k = length ls" and
    f: "for_each (\<lambda>l. bind (of_sum (line_row l)) (store_boq_line ''etender'' ev ver snap)) ls s = (Inr (), t)"
    by (auto simp: store_parsed_lines_def then_db_Inr)
  from store_lines_Inr[OF f] k that show ?thesis by blast
qed

lemma line_row_id: "line_row l = Inr c \<Longrightarrow> pl_id l = JInt (source_line_id c)"
  by (auto simp: line_row_def sum_bind_Inr int_column_def split: json.splits)

lemma build_boq_line_id:
  "build_boq_line env page item = Inr l \<Longrightarrow> \<exists>d. item = JObj d \<and> map_of d ''id'' = Some (pl_id l) \<and> pl_page l = page"
  by (auto simp: build_boq_line_def sum_bind_Inr field_def split: json.splits option.splits)

section \<open>The page job\<close>

lemma queue_drift_Inr:
  assumes "queue_drift env src cid d name snap s = (Inr ex, t)"
  shows "\<exists>rows r. t = s\<lparr>exception_queue := exception_queue s @ rows\<rparr> \<and> (ex, r) \<in> set (exception_queue t) \<and>
    ex_source r = src \<and> exception_type r = ''schema_drift'' \<and> ex_correlation_id r = cid \<and> ex_status r = ''open''"
proof (cases "find (\<lambda>(i, r). ex_source r = src \<and> exception_type r = ''schema_drift'' \<and> ex_correlation_id r = cid \<and>
        ex_status r = ''open'') (exception_queue s)")
  case None
  with assms show ?thesis
    by (auto simp: queue_drift_def enqueue_exception_def db_simps Let_def split: if_splits)
next
  case (Some x)
  from find_SomeD[OF this] have "x \<in> set (exception_queue s)" "ex_source (snd x) = src"
      "exception_type (snd x) = ''schema_drift''" "ex_correlation_id (snd x) = cid" "ex_status (snd x) = ''open''"
    by auto
  moreover from assms Some have "t = s" "ex = fst x"
    by (auto simp: queue_drift_def enqueue_exception_def db_simps split: prod.splits)
  ultimately show ?thesis by (intro exI[of _ "[]"] exI[of _ "snd x"]) simp
qed

lemma ingest_bom_Inr:
  assumes "ingest_bom_lines_page env ev raw p cid s = (Inr r, t)"
  obtains page where "ingest env BOM_LINES_PAGE_CONTRACT [(''event_id'', JInt ev), (''PageNumber'', page)] raw p
    (normalize_bom_page ev) cid (Some (BOM_LINE_ITEM_CONTRACT, ''items'')) s = (Inr r, t)"
  using assms by (auto simp: ingest_bom_lines_page_def bind_Inr)

text \<open>A page without drift: its own fields are typed, and so is every item.\<close>

definition bom_page_typed :: "jobject \<Rightarrow> json list \<Rightarrow> bool" where
  "bom_page_typed p items \<longleftrightarrow>
     typed_by BOM_LINES_PAGE_CONTRACT p \<and> map_of p ''items'' = Some (JArr items) \<and>
     (\<exists>ds. items = map JObj ds \<and> list_all (typed_by BOM_LINE_ITEM_CONTRACT) ds)"

lemma page_drift_typed:
  assumes "page_drift BOM_LINES_PAGE_CONTRACT (Some (BOM_LINE_ITEM_CONTRACT, ''items'')) p = Inr (d, name)"
  shows "\<not> has_drift d \<longleftrightarrow> (\<exists>items. bom_page_typed p items)"
proof (cases "has_drift (detect_schema_drift BOM_LINES_PAGE_CONTRACT p)")
  case True
  then have "\<not> typed_by BOM_LINES_PAGE_CONTRACT p" using drift_free_iff_typed[OF wf_contracts(2), of p] by blast
  with True assms show ?thesis by (auto simp: page_drift_def bom_page_typed_def)
next
  case False
  then have p: "typed_by BOM_LINES_PAGE_CONTRACT p" using drift_free_iff_typed[OF wf_contracts(2), of p] by blast
  from False assms obtain items where i: "map_of p ''items'' = Some (JArr items)"
      "detect_schema_drift_over_items BOM_LINE_ITEM_CONTRACT items = Some d"
    by (auto simp: page_drift_def sum_bind_Inr list_field_def split: option.splits json.splits)
  from items_drift_free_iff[OF wf_contracts(4) i(2)] i(1) p show ?thesis
    by (simp add: bom_page_typed_def)
qed

lemma process_page_Inr:
  assumes "process_bom_lines_page env j fetch s = (Inr ck, t)"
  obtains ev page raw p r s1 where "job_param (params j) ''event_id'' = Inr ev"
    "checkpoint_int (checkpoint j) ''next_page'' 1 = Inr page" "fetch ev page = Inr (raw, p)"
    "ingest_bom_lines_page env ev raw p (job_correlation_id j) s = (Inr r, s1)"
    "jget ck ''next_page'' = JInt (page + 1)"
    "case r of
       Drifted d name snap \<Rightarrow> \<exists>ex. queue_drift env ''etender'' (job_correlation_id j) d name snap s1 = (Inr ex, t) \<and>
         jget ck ''exception_queue_id'' = JInt ex
     | Ingested (ver, v) \<Rightarrow> \<exists>n tot pages i st s2 items ls k.
         map_of p ''itemsInPage'' = Some (JInt n) \<and>
         record_page_fetched ''etender'' ev page n tot pages (env_sha env raw) s1 = (Inr (i, st), s2) \<and>
         map_of p ''items'' = Some (JArr items) \<and> build_boq_lines env page items = Inr ls \<and>
         store_parsed_lines ev ver (tv_raw_snapshot_id v) ls s2 = (Inr k, t)"
proof -
  from assms obtain ev page raw p r s1 where 1: "job_param (params j) ''event_id'' = Inr ev"
    "checkpoint_int (checkpoint j) ''next_page'' 1 = Inr page" "fetch ev page = Inr (raw, p)"
    "ingest_bom_lines_page env ev raw p (job_correlation_id j) s = (Inr r, s1)" and
    rest: "finish_bom_page env (job_correlation_id j) ev page raw p r s1 = (Inr ck, t)"
    by (auto simp: process_bom_lines_page_def bind_Inr)
  show ?thesis
  proof (cases r)
    case (Drifted d name snap)
    with rest show ?thesis
      by (intro that[OF 1]) (auto simp: finish_bom_page_def bind_Inr jget_def)
  next
    case (Ingested x)
    obtain ver v where x: "x = (ver, v)" by (cases x)
    from rest Ingested x obtain n tot pages i st s2 ls k dn where 2:
      "sum_bind (field p ''itemsInPage'') counted_int = Inr n"
      "record_page_fetched ''etender'' ev page n tot pages (env_sha env raw) s1 = (Inr (i, st), s2)"
      "sum_bind (list_field p ''items'') (build_boq_lines env page) = Inr ls"
      "store_parsed_lines ev ver (tv_raw_snapshot_id v) ls s2 = (Inr k, t)"
      "ck = [(''next_page'', JInt (page + 1)), (''done'', JBool dn), (''tender_version_id'', JInt ver),
              (''boq_status'', JStr (bi_status st)), (''boq_lines_stored'', JInt (int k))]"
      by (auto simp: finish_bom_page_def bind_Inr split: prod.splits)
    from 2(1) have n: "map_of p ''itemsInPage'' = Some (JInt n)"
      by (auto simp: sum_bind_Inr field_def counted_int_def split: option.splits json.splits)
    from 2(3) obtain items where "map_of p ''items'' = Some (JArr items)" "build_boq_lines env page items = Inr ls"
      by (auto simp: sum_bind_Inr list_field_def split: option.splits json.splits)
    with 2(2,4,5) n Ingested x show ?thesis
      by (intro that[OF 1]) (simp_all add: jget_def, blast)
  qed
qed

lemma line_row_page: "line_row l = Inr c \<Longrightarrow> page_number c = pl_page l"
  by (auto simp: line_row_def sum_bind_Inr)

text \<open>A row of the line table that belongs to an item of a page.\<close>

definition line_of_item :: "int \<Rightarrow> int \<Rightarrow> int \<Rightarrow> json \<Rightarrow> int \<times> boq_row \<Rightarrow> bool" where
  "line_of_item ev snap page item x \<longleftrightarrow>
     boq_source (snd x) = ''etender'' \<and> boq_event_id (snd x) = ev \<and> boq_raw_snapshot_id (snd x) = snap \<and>
     page_number (boq_content (snd x)) = page \<and>
     (\<exists>d. item = JObj d \<and> map_of d ''id'' = Some (JInt (source_line_id (boq_content (snd x)))))"

lemma stored_items:
  assumes "build_boq_lines env page items = Inr ls" "list_all2 (line_stored ev ver snap) ls rows"
  shows "list_all2 (line_of_item ev snap page) items rows"
proof -
  from assms(1) have "list_all2 (\<lambda>x y. build_boq_line env page x = Inr y) items ls"
    by (simp add: build_boq_lines_def sum_map_Inr)
  then show ?thesis
    by (rule list_all2_trans[rotated, OF _ assms(2)])
      (auto simp: line_stored_def line_of_item_def dest!: build_boq_line_id dest: line_row_id line_row_page)
qed

lemma record_page_fetched_Inr:
  "record_page_fetched src ev page n tot pages chk s = (Inr x, t) \<Longrightarrow> \<exists>im. t = s\<lparr>boq_imports := im\<rparr>"
  by (auto simp: record_page_fetched_def get_or_create_boq_import_def db_simps Let_def split: option.splits prod.splits)

definition queued_only :: "string \<Rightarrow> ingest_db \<Rightarrow> ingest_db \<Rightarrow> bool" where
  "queued_only cid s t \<longleftrightarrow>
     boq_lines t = boq_lines s \<and> boq_imports t = boq_imports s \<and> tender_versions t = tender_versions s \<and>
     (\<exists>i e. outbox (work t) = outbox (work s) @ [(i, e)] \<and> event_type e = ''schema_drift_event'') \<and>
     (\<exists>(i, r) \<in> set (exception_queue t). exception_type r = ''schema_drift'' \<and> ex_correlation_id r = cid \<and> ex_status r = ''open'')"

text \<open>The two ways in which a page is accounted for.\<close>

definition page_accounted :: "string \<Rightarrow> int \<Rightarrow> int \<Rightarrow> (string \<times> json) list \<Rightarrow> ingest_db \<Rightarrow> ingest_db \<Rightarrow> bool" where
  "page_accounted cid ev page p s t \<longleftrightarrow>
     (case map_of p ''items'' of
        Some (JArr items) \<Rightarrow>
          if bom_page_typed p items
          then exception_queue t = exception_queue s \<and>
            (\<exists>rows. boq_lines t = boq_lines s @ rows \<and> list_all2 (line_of_item ev (next_id (raw_snapshots s)) page) items rows)
          else queued_only cid s t
      | _ \<Rightarrow> queued_only cid s t)"

lemma drifted_page_queued:
  assumes "queue_drift env ''etender'' cid d name snap s1 = (Inr ex, t)" "same_lines s s1"
    and "tenders s1 = tenders s" "tender_versions s1 = tender_versions s"
    and "outbox (work s1) = outbox (work s) @ [(i, drift_event ''tender_source_contract'' name key d cid ts)]"
    and no: "\<And>items. \<not> bom_page_typed p items"
  shows "raw_snapshots t = raw_snapshots s1 \<and> page_accounted cid ev page p s t"
proof -
  from queue_drift_Inr[OF assms(1)] obtain rows r where q: "t = s1\<lparr>exception_queue := exception_queue s1 @ rows\<rparr>"
    "(ex, r) \<in> set (exception_queue t)" "exception_type r = ''schema_drift''" "ex_correlation_id r = cid" "ex_status r = ''open''"
    by blast
  have "queued_only cid s t" unfolding queued_only_def using assms(2-5) q by (force simp: same_lines_def drift_event_def)
  with no q(1) show ?thesis by (auto simp: page_accounted_def split: option.splits json.splits)
qed

lemma ingested_page_stored:
  assumes "record_page_fetched ''etender'' ev page n tot pages sha s1 = (Inr (i, st), s2)" "map_of p ''items'' = Some (JArr items)"
    and "build_boq_lines env page items = Inr ls" "store_parsed_lines ev ver (next_id (raw_snapshots s)) ls s2 = (Inr k, t)"
    and "same_lines s s1" "bom_page_typed p items"
  shows "raw_snapshots t = raw_snapshots s1 \<and> page_accounted cid ev page p s t"
proof -
  from record_page_fetched_Inr[OF assms(1)] obtain im where im: "s2 = s1\<lparr>boq_imports := im\<rparr>" by blast
  from assms(4) obtain rows where rows: "t = s2\<lparr>boq_lines := boq_lines s2 @ rows\<rparr>"
    "list_all2 (line_stored ev ver (next_id (raw_snapshots s))) ls rows" by (rule store_parsed_lines_Inr)
  from stored_items[OF assms(3) rows(2)] assms(2,5,6) im rows(1) show ?thesis
    by (auto simp: page_accounted_def same_lines_def)
qed

text \<open>
  C27. A page that the job accounts for is either stored in full or queued, and its evidence is
  kept in both cases: the response is appended to the raw snapshots with its checksum; if the
  page and all its items are typed, one line per item is appended for the event, each with the
  id of its item and a reference to that snapshot, and nothing is queued; otherwise no line, no
  import counter and no tender version changes, a drift event goes into the outbox and an open
  exception of this job is in the queue. The cursor advances by one page either way.
\<close>

theorem page_stored_or_queued:
  assumes "process_bom_lines_page env j fetch s = (Inr ck, t)"
  shows "\<exists>ev page raw p key b. job_param (params j) ''event_id'' = Inr ev \<and>
    checkpoint_int (checkpoint j) ''next_page'' 1 = Inr page \<and> fetch ev page = Inr (raw, p) \<and>
    jget ck ''next_page'' = JInt (page + 1) \<and> env_parse env raw = Some b \<and>
    raw_snapshots t = raw_snapshots s @ [(next_id (raw_snapshots s),
      snapshot_row env ''etender'' (sc_name BOM_LINES_PAGE_CONTRACT) key raw b (job_correlation_id j) (clock s))] \<and>
    page_accounted (job_correlation_id j) ev page p s t"
proof -
  from assms obtain ev page raw p r s1 where 1: "job_param (params j) ''event_id'' = Inr ev"
    "checkpoint_int (checkpoint j) ''next_page'' 1 = Inr page" "fetch ev page = Inr (raw, p)"
    "ingest_bom_lines_page env ev raw p (job_correlation_id j) s = (Inr r, s1)" "jget ck ''next_page'' = JInt (page + 1)" and
    rest: "case r of
       Drifted d name snap \<Rightarrow> \<exists>ex. queue_drift env ''etender'' (job_correlation_id j) d name snap s1 = (Inr ex, t) \<and>
         jget ck ''exception_queue_id'' = JInt ex
     | Ingested (ver, v) \<Rightarrow> \<exists>n tot pages i st s2 items ls k.
         map_of p ''itemsInPage'' = Some (JInt n) \<and>
         record_page_fetched ''etender'' ev page n tot pages (env_sha env raw) s1 = (Inr (i, st), s2) \<and>
         map_of p ''items'' = Some (JArr items) \<and> build_boq_lines env page items = Inr ls \<and>
         store_parsed_lines ev ver (tv_raw_snapshot_id v) ls s2 = (Inr k, t)"
    by (rule process_page_Inr)
  from 1(4) obtain pg where "ingest env BOM_LINES_PAGE_CONTRACT [(''event_id'', JInt ev), (''PageNumber'', pg)] raw p
    (normalize_bom_page ev) (job_correlation_id j) (Some (BOM_LINE_ITEM_CONTRACT, ''items'')) s = (Inr r, s1)"
    by (rule ingest_bom_Inr)
  then obtain key b snap d name where 2: "env_parse env raw = Some b" "snap = next_id (raw_snapshots s)"
    "raw_snapshots s1 = raw_snapshots s @ [(snap, snapshot_row env ''etender'' (sc_name BOM_LINES_PAGE_CONTRACT) key raw b
       (job_correlation_id j) (clock s))]"
    "same_lines s s1" "page_drift BOM_LINES_PAGE_CONTRACT (Some (BOM_LINE_ITEM_CONTRACT, ''items'')) p = Inr (d, name)" and
    3: "case r of
       Drifted d' name' snap' \<Rightarrow> d' = d \<and> name' = name \<and> snap' = snap \<and> has_drift d \<and> tenders s1 = tenders s \<and>
         tender_versions s1 = tender_versions s \<and>
         outbox (work s1) = outbox (work s) @ [(outbox_seq (work s), drift_event ''tender_source_contract'' name key d
            (job_correlation_id j) (clock s))]
     | Ingested (ver, v) \<Rightarrow> \<not> has_drift d \<and> work s1 = work s \<and> tv_raw_snapshot_id v = snap \<and>
         normalize_bom_page ev p = Inr (normalized_fields v) \<and>
         tender_versions s1 = tender_versions s @ [(ver, v)] \<and> ver = next_id (tender_versions s)"
    by (rule ingest_Inr)
  note typed = page_drift_typed[OF 2(5)]
  have "raw_snapshots t = raw_snapshots s1 \<and> page_accounted (job_correlation_id j) ev page p s t"
  proof (cases r)
    case (Drifted d' name' snap')
    with rest obtain ex where "queue_drift env ''etender'' (job_correlation_id j) d' name' snap' s1 = (Inr ex, t)" by auto
    with Drifted 2(4) 3 typed show ?thesis by (intro drifted_page_queued) auto
  next
    case (Ingested x)
    obtain ver v where x: "x = (ver, v)" by (cases x)
    from rest Ingested x 3 2(2) obtain n tot pages i st s2 items ls k where 4:
      "record_page_fetched ''etender'' ev page n tot pages (env_sha env raw) s1 = (Inr (i, st), s2)"
      "map_of p ''items'' = Some (JArr items)" "build_boq_lines env page items = Inr ls"
      "store_parsed_lines ev ver (next_id (raw_snapshots s)) ls s2 = (Inr k, t)" by auto
    from 3 Ingested x typed 4(2) have "bom_page_typed p items" by (auto simp: bom_page_typed_def)
    then show ?thesis by (rule ingested_page_stored[OF 4 2(4)])
  qed
  with 1 2(1-3) show ?thesis
    by (intro exI[of _ ev] exI[of _ page] exI[of _ raw] exI[of _ p] exI[of _ key] exI[of _ b]) simp
qed

definition sample_env :: ingest_env where
  "sample_env =
     \<lparr>env_sha = (\<lambda>t. t), env_parse = (\<lambda>t. Some (JStr t)),
      env_str = (\<lambda>v. case v of JInt i \<Rightarrow> str_int i | JStr t \<Rightarrow> t | _ \<Rightarrow> ''?''),
      env_iso = (\<lambda>t. Some (int (length t))), env_decimal = (\<lambda>v. case v of JInt i \<Rightarrow> Some (Dec (i < 0) (nat \<bar>i\<bar>) 0) | _ \<Rightarrow> None),
      env_lower = (\<lambda>t. t), env_upper = (\<lambda>t. t), env_drift_text = (\<lambda>d. ''drift''), env_search = (\<lambda>re t. False),
      env_finditer = (\<lambda>re t. [])\<rparr>"

definition empty_ingest_db :: ingest_db where
  "empty_ingest_db =
     \<lparr>roles = [], permissions = [], role_permissions = [], users = [], user_seq = 1, sessions = [], idempotency_keys = [],
      audit_log = [], clock = 0, correlation_id_var = None, raw_snapshots = [], tenders = [], tender_versions = [],
      boq_lines = [], exception_queue = [], go_no_go = [], readiness = [], decisions = [], lock_ins = [],
      execution_facts = [], napkin_evidence_rows = [], contributions = [], outcomes = [], loss_reasons = [],
      trusted_sources = [], work = \<lparr>jobs = [], job_seq = 1, outbox = [], outbox_seq = 1, now = 0\<rparr>, boq_imports = [],
      signals = [], card_snapshots = [], card_links = [], change_events = [], recalc_flags = [], watch_states = []\<rparr>"

definition typed_item :: "int \<Rightarrow> json" where
  "typed_item i = JObj [(''id'', JInt i), (''name'', JStr ''pipe''), (''description'', JStr ''PVC''), (''unitOfMeasure'', JStr ''m''),
     (''quantity'', JInt 3), (''categoryCode'', JNull)]"

definition bom_page :: "int \<Rightarrow> json \<Rightarrow> json list \<Rightarrow> jobject" where
  "bom_page page pages items =
     [(''currentPage'', JInt page), (''totalPages'', pages), (''pageSize'', JInt 100), (''itemsInPage'', JInt (int (length items))),
      (''totalItems'', JInt 2), (''items'', JArr items), (''hasPreviousPage'', JBool False), (''hasNextPage'', JBool False),
      (''firstItem'', JInt 1), (''lastItem'', JInt 2)]"

definition sample_job :: job where
  "sample_job =
     \<lparr>job_type = ''etender_bom_lines_page_fetch'', params = [(''event_id'', JInt 5)], job_source = ''etender'', range_start = None,
      range_end = None, contract_version = ''v'', job_correlation_id = ''c'', status = ''running'', lease_owner = None,
      lease_expires_at = None, attempt = 0, max_attempts = 5, next_retry_at = None, checkpoint = [], last_error = None,
      job_created_at = 0, job_updated_at = 0\<rparr>"

definition two_lines :: "int \<Rightarrow> int \<Rightarrow> api_error + (string \<times> jobject)" where
  "two_lines ev page = Inr (''raw'', bom_page 1 (JInt 1) [typed_item 10, typed_item 11])"

definition page_run :: "(api_error + jobject) \<times> ingest_db" where
  "page_run = process_bom_lines_page sample_env sample_job two_lines empty_ingest_db"

lemma page_run_result: "fst page_run = Inr [(''next_page'', JInt 2), (''done'', JBool True), (''tender_version_id'', JInt 1),
     (''boq_status'', JStr ''complete''), (''boq_lines_stored'', JInt 2)]"
  by code_simp

theorem page_stored_or_queued_witness: "\<exists>rows. raw_snapshots (snd page_run) = raw_snapshots empty_ingest_db @ rows \<and> length rows = 1"
proof -
  have "process_bom_lines_page sample_env sample_job two_lines empty_ingest_db =
      (Inr [(''next_page'', JInt 2), (''done'', JBool True), (''tender_version_id'', JInt 1),
         (''boq_status'', JStr ''complete''), (''boq_lines_stored'', JInt 2)], snd page_run)"
    using page_run_result by (metis page_run_def prod.collapse)
  from page_stored_or_queued[OF this] show ?thesis by auto
qed

text \<open>
  A drift of \<open>totalPages\<close> itself: a string is compared with the page number after the exception was
  queued, and the \<open>TypeError\<close> undoes the queued exception and the evidence.
\<close>

lemma drifted_total_pages_raises:
  "transaction (process_bom_lines_page sample_env sample_job (\<lambda>ev page. Inr (''raw'', bom_page 1 (JStr ''3'') []))) empty_ingest_db =
     (Inl (Exc ''TypeError'' [''>='']), empty_ingest_db)"
proof -
  have "fst (process_bom_lines_page sample_env sample_job (\<lambda>ev page. Inr (''raw'', bom_page 1 (JStr ''3'') [])) empty_ingest_db) =
      Inl (Exc ''TypeError'' [''>=''])"
    by code_simp
  then show ?thesis
    by (cases "process_bom_lines_page sample_env sample_job (\<lambda>ev page. Inr (''raw'', bom_page 1 (JStr ''3'') [])) empty_ingest_db")
      (simp add: transaction_def)
qed

end
