(* ===== verification/Completeness.thy ===== *)
theory Completeness
  imports Ingestion_Theorems Numbered
begin

text \<open>
  BOQ completeness as an invariant of the page job and of \<open>mark_import_stalled\<close>, run in any order
  for any number of events: for pages that contain as many items as they claim, the counter of
  an import is the number of stored lines, and the status \<open>complete\<close> is given only to imports
  whose counters agree with the totals of the source.
\<close>

section \<open>The table of imports\<close>

definition import_key :: "int \<times> boq_import \<Rightarrow> string \<times> int" where
  "import_key x = (bi_source (snd x), bi_event_id (snd x))"

definition imports_wf :: "ingest_db \<Rightarrow> bool" where
  "imports_wf s \<longleftrightarrow> numbered (boq_imports s) \<and> distinct (map import_key (boq_imports s))"

lemma find_import_iff:
  assumes "imports_wf s"
  shows "find_import s src ev = Some x \<longleftrightarrow> x \<in> set (boq_imports s) \<and> import_key x = (src, ev)"
proof
  show "find_import s src ev = Some x \<Longrightarrow> x \<in> set (boq_imports s) \<and> import_key x = (src, ev)"
    by (auto simp: find_import_def import_key_def dest!: find_SomeD)
  assume x: "x \<in> set (boq_imports s) \<and> import_key x = (src, ev)"
  then obtain y where y: "find_import s src ev = Some y"
    unfolding find_import_def import_key_def
    by (cases x; cases "find (\<lambda>(i, r). bi_source r = src \<and> bi_event_id r = ev) (boq_imports s)") (auto simp: find_None_iff)
  then have "y \<in> set (boq_imports s)" "import_key y = import_key x"
    using x by (auto simp: find_import_def import_key_def dest!: find_SomeD)
  moreover have "inj_on import_key (set (boq_imports s))" using assms by (simp add: imports_wf_def distinct_map)
  ultimately have "y = x" using x by (metis inj_onD)
  with y show "find_import s src ev = Some x" by simp
qed

lemma find_import_eqI:
  assumes "imports_wf s" "imports_wf t"
    "\<And>x. import_key x = (src, ev) \<Longrightarrow> x \<in> set (boq_imports t) \<longleftrightarrow> x \<in> set (boq_imports s)"
  shows "find_import t src ev = find_import s src ev"
proof -
  have "find_import t src ev = Some x \<longleftrightarrow> find_import s src ev = Some x" for x
    unfolding find_import_iff[OF assms(1)] find_import_iff[OF assms(2)] using assms(3) by blast
  then show ?thesis by (metis not_None_eq)
qed

lemma update_import:
  assumes wf: "imports_wf s" and c: "(i, c) \<in> set (boq_imports s)" and key: "import_key (i, r) = import_key (i, c)"
    and t: "t = s\<lparr>boq_imports := update_row i (\<lambda>_. r) (boq_imports s)\<rparr>"
  shows "imports_wf t"
    "find_import t src ev = (if (src, ev) = import_key (i, c) then Some (i, r) else find_import s src ev)"
proof -
  have u: "(i, c') \<in> set (boq_imports s) \<Longrightarrow> c' = c" for c'
    using wf c numbered_distinct eq_key_imp_eq_value unfolding imports_wf_def by fastforce
  have "map import_key (update_row i (\<lambda>_. r) (boq_imports s)) = map import_key (boq_imports s)"
    using u key by (auto simp: update_row_def import_key_def)
  moreover have "map fst (update_row i (\<lambda>_. r) (boq_imports s)) = map fst (boq_imports s)" by simp
  ultimately show wt: "imports_wf t" using wf by (simp add: imports_wf_def t numbered_def)
  have mem: "(k, x) \<in> set (boq_imports t) \<longleftrightarrow> (if k = i then x = r else (k, x) \<in> set (boq_imports s))" for k x
    using c by (force simp: t update_row_def)
  show "find_import t src ev = (if (src, ev) = import_key (i, c) then Some (i, r) else find_import s src ev)"
  proof (cases "(src, ev) = import_key (i, c)")
    case True
    with mem key find_import_iff[OF wt, of src ev "(i, r)"] show ?thesis by simp
  next
    case False
    have "find_import t src ev = find_import s src ev"
    proof (rule find_import_eqI[OF wf wt])
      fix x assume x: "import_key x = (src, ev)"
      with False key u show "x \<in> set (boq_imports t) \<longleftrightarrow> x \<in> set (boq_imports s)"
        by (cases x) (auto simp: mem import_key_def)
    qed
    with False show ?thesis by auto
  qed
qed

definition import_or_new :: "ingest_db \<Rightarrow> string \<Rightarrow> int \<Rightarrow> boq_import" where
  "import_or_new s src ev = (case find_import s src ev of None \<Rightarrow> new_import src ev | Some x \<Rightarrow> snd x)"

lemma get_or_create_boq_import_Inr:
  assumes wf: "imports_wf s" and run: "get_or_create_boq_import src ev s = (Inr (i, c), t)"
  shows "imports_wf t" "(i, c) \<in> set (boq_imports t)" "import_key (i, c) = (src, ev)" "c = import_or_new s src ev"
    "t = s\<lparr>boq_imports := boq_imports t\<rparr>"
    "(src', ev') \<noteq> (src, ev) \<Longrightarrow> find_import t src' ev' = find_import s src' ev'"
proof -
  have "imports_wf t \<and> (i, c) \<in> set (boq_imports t) \<and> import_key (i, c) = (src, ev) \<and> c = import_or_new s src ev \<and>
    t = s\<lparr>boq_imports := boq_imports t\<rparr> \<and> ((src', ev') \<noteq> (src, ev) \<longrightarrow> find_import t src' ev' = find_import s src' ev')"
  proof (cases "find_import s src ev")
    case (Some x)
    with run have "t = s" "x = (i, c)" by (auto simp: get_or_create_boq_import_def db_simps)
    with Some wf find_import_iff[OF wf, of src ev "(i, c)"] show ?thesis by (simp add: import_or_new_def)
  next
    case None
    with run have t: "t = s\<lparr>boq_imports := boq_imports s @ [(i, c)]\<rparr>" "i = next_id (boq_imports s)" "c = new_import src ev"
      by (auto simp: get_or_create_boq_import_def db_simps)
    have k: "import_key (i, c) = (src, ev)" by (simp add: t(3) import_key_def new_import_def)
    from None have "(src, ev) \<notin> import_key ` set (boq_imports s)"
      using find_import_iff[OF wf, of src ev] by (auto simp: image_iff) metis
    with wf k have wt: "imports_wf t" by (auto simp: imports_wf_def t(1,2))
    moreover have "find_import t src' ev' = find_import s src' ev'" if "(src', ev') \<noteq> (src, ev)"
      by (rule find_import_eqI[OF wf wt]) (use that k t(1) in auto)
    ultimately show ?thesis using t k None by (simp add: import_or_new_def)
  qed
  then show "imports_wf t" "(i, c) \<in> set (boq_imports t)" "import_key (i, c) = (src, ev)" "c = import_or_new s src ev"
    "t = s\<lparr>boq_imports := boq_imports t\<rparr>" "(src', ev') \<noteq> (src, ev) \<Longrightarrow> find_import t src' ev' = find_import s src' ev'"
    by auto
qed

section \<open>The invariant\<close>

definition lines_of :: "ingest_db \<Rightarrow> string \<Rightarrow> int \<Rightarrow> nat" where
  "lines_of s src ev = length (filter (\<lambda>(k, x). boq_source x = src \<and> boq_event_id x = ev) (boq_lines s))"

definition import_ok :: "ingest_db \<Rightarrow> string \<Rightarrow> int \<Rightarrow> bool" where
  "import_ok s src ev \<longleftrightarrow>
     (case find_import s src ev of
        None \<Rightarrow> lines_of s src ev = 0
      | Some (i, r) \<Rightarrow> stored_lines r = int (lines_of s src ev) \<and>
          (bi_status r = ''complete'' \<longrightarrow> expected_total r = Some (stored_lines r) \<and> expected_pages r = Some (fetched_pages r)))"

definition completeness_ok :: "ingest_db \<Rightarrow> bool" where
  "completeness_ok s \<longleftrightarrow> imports_wf s \<and> distinct (line_keys s) \<and> (\<forall>src ev. import_ok s src ev)"

lemma lines_of_append:
  assumes "list_all2 (line_stored ev ver snap) ls rows"
  shows "lines_of (s\<lparr>boq_lines := boq_lines s @ rows\<rparr>) src ev' =
    lines_of s src ev' + (if (src, ev') = (''etender'', ev) then length ls else 0)"
proof -
  from assms have len: "length ls = length rows" and
    r: "\<And>x. x \<in> set rows \<Longrightarrow> boq_source (snd x) = ''etender'' \<and> boq_event_id (snd x) = ev"
    by (auto simp: list_all2_conv_all_nth line_stored_def in_set_conv_nth)
  have "length (filter (\<lambda>(k, x). boq_source x = src \<and> boq_event_id x = ev') rows) =
      (if (src, ev') = (''etender'', ev) then length rows else 0)"
  proof (cases "(src, ev') = (''etender'', ev)")
    case True
    then have "filter (\<lambda>(k, x). boq_source x = src \<and> boq_event_id x = ev') rows = rows"
      using r by (intro filter_True) (auto split: prod.splits)
    with True show ?thesis by simp
  next
    case False
    then have "filter (\<lambda>(k, x). boq_source x = src \<and> boq_event_id x = ev') rows = []"
      using r by (force simp: filter_empty_conv)
    with False show ?thesis by auto
  qed
  with len show ?thesis by (simp add: lines_of_def)
qed

lemma stored_or_new: "import_ok s src ev \<Longrightarrow> stored_lines (import_or_new s src ev) = int (lines_of s src ev)"
  by (auto simp: import_ok_def import_or_new_def new_import_def split: option.splits)

lemma record_page_fetched_effect:
  assumes wf: "imports_wf s" and run: "record_page_fetched src ev page n tot pages chk s = (Inr (i, r), t)"
  shows "imports_wf t" "t = s\<lparr>boq_imports := boq_imports t\<rparr>" "find_import t src ev = Some (i, r)"
    "(src', ev') \<noteq> (src, ev) \<Longrightarrow> find_import t src' ev' = find_import s src' ev'"
    "stored_lines r = stored_lines (import_or_new s src ev) + n"
    "bi_status r = ''complete'' \<Longrightarrow> expected_total r = Some (stored_lines r) \<and> expected_pages r = Some (fetched_pages r)"
proof -
  from run obtain c s1 where 1: "get_or_create_boq_import src ev s = (Inr (i, c), s1)" and
    r: "r = c\<lparr>expected_total := tot, expected_pages := pages, fetched_pages := fetched_pages c + 1,
          stored_lines := stored_lines c + n,
          bi_status := import_status (fetched_pages c + 1) (stored_lines c + n) tot pages,
          page_checksums := AList.update page chk (page_checksums c)\<rparr>" and
    t: "t = s1\<lparr>boq_imports := update_row i (\<lambda>_. r) (boq_imports s1)\<rparr>"
    by (auto simp: record_page_fetched_def bind_Inr then_db_Inr Let_def split: prod.splits)
  note g = get_or_create_boq_import_Inr[OF wf 1]
  have key: "import_key (i, r) = import_key (i, c)" by (simp add: r import_key_def)
  note u = update_import[OF g(1,2) key t]
  show "imports_wf t" by (rule u(1))
  show "t = s\<lparr>boq_imports := boq_imports t\<rparr>" using g(5) t by (metis ingest_db.ext_inject ingest_db.surjective ingest_db.update_convs(2))
  show "find_import t src ev = Some (i, r)" using u(2) g(3) by simp
  show "(src', ev') \<noteq> (src, ev) \<Longrightarrow> find_import t src' ev' = find_import s src' ev'"
    using u(2)[of src' ev'] g(3) g(6) by auto
  show "stored_lines r = stored_lines (import_or_new s src ev) + n" using g(4) by (simp add: r)
  show "bi_status r = ''complete'' \<Longrightarrow> expected_total r = Some (stored_lines r) \<and> expected_pages r = Some (fetched_pages r)"
    by (auto simp: r import_status_def split: if_splits)
qed

text \<open>A source whose pages hold as many items as they say.\<close>

definition honest :: "(int \<Rightarrow> int \<Rightarrow> api_error + (string \<times> jobject)) \<Rightarrow> bool" where
  "honest fetch \<longleftrightarrow>
     (\<forall>ev page raw p n items. fetch ev page = Inr (raw, p) \<longrightarrow> map_of p ''items'' = Some (JArr items) \<longrightarrow>
        map_of p ''itemsInPage'' = Some (JInt n) \<longrightarrow> n = int (length items))"

lemma import_ok_cong:
  assumes "find_import t src ev = find_import s src ev" "lines_of t src ev = lines_of s src ev"
  shows "import_ok t src ev = import_ok s src ev"
  unfolding import_ok_def assms ..

lemma completeness_same_lines:
  assumes "boq_lines t = boq_lines s" "boq_imports t = boq_imports s"
  shows "completeness_ok t \<longleftrightarrow> completeness_ok s"
  unfolding completeness_ok_def imports_wf_def line_keys_def import_ok_def find_import_def lines_of_def assms ..

lemma process_page_keeps:
  assumes ok: "completeness_ok s" and hon: "honest fetch" and run: "process_bom_lines_page env j fetch s = (Inr ck, t)"
  shows "completeness_ok t"
proof -
  from run obtain ev page raw p r s1 where fetch: "fetch ev page = Inr (raw, p)" and
    ing: "ingest_bom_lines_page env ev raw p (job_correlation_id j) s = (Inr r, s1)" and
    rest: "case r of
       Drifted d name snap \<Rightarrow> \<exists>ex. queue_drift env ''etender'' (job_correlation_id j) d name snap s1 = (Inr ex, t) \<and>
         jget ck ''exception_queue_id'' = JInt ex
     | Ingested (ver, v) \<Rightarrow> \<exists>n tot pages i st s2 items ls k.
         map_of p ''itemsInPage'' = Some (JInt n) \<and>
         record_page_fetched ''etender'' ev page n tot pages (env_sha env raw) s1 = (Inr (i, st), s2) \<and>
         map_of p ''items'' = Some (JArr items) \<and> build_boq_lines env page items = Inr ls \<and>
         store_parsed_lines ev ver (tv_raw_snapshot_id v) ls s2 = (Inr k, t)"
    by (rule process_page_Inr)
  have same: "same_lines s s1" using ing by (elim ingest_bom_Inr ingest_Inr)
  then have ok1: "completeness_ok s1" using ok completeness_same_lines[of s1 s] by (simp add: same_lines_def)
  show ?thesis
  proof (cases r)
    case (Drifted d name snap)
    with rest obtain ex where "queue_drift env ''etender'' (job_correlation_id j) d name snap s1 = (Inr ex, t)" by auto
    from queue_drift_Inr[OF this] obtain rows where "t = s1\<lparr>exception_queue := exception_queue s1 @ rows\<rparr>" by blast
    with ok1 completeness_same_lines[of t s1] show ?thesis by simp
  next
    case (Ingested x)
    obtain ver v where x: "x = (ver, v)" by (cases x)
    from rest Ingested x obtain n tot pages i st s2 items ls k where 4: "map_of p ''itemsInPage'' = Some (JInt n)"
      "record_page_fetched ''etender'' ev page n tot pages (env_sha env raw) s1 = (Inr (i, st), s2)"
      "map_of p ''items'' = Some (JArr items)" "build_boq_lines env page items = Inr ls"
      "store_parsed_lines ev ver (tv_raw_snapshot_id v) ls s2 = (Inr k, t)" by auto
    from hon fetch 4(1,3) have n: "n = int (length items)" by (auto simp: honest_def)
    also from 4(4) have "length items = length ls" by (simp add: build_boq_lines_def sum_map_Inr list_all2_lengthD)
    finally have n: "n = int (length ls)" .
    from ok1 have w: "imports_wf s1" "distinct (line_keys s1)" "\<And>src ev. import_ok s1 src ev"
      by (auto simp: completeness_ok_def)
    note u = record_page_fetched_effect[OF w(1) 4(2)]
    from 4(5) obtain rows where rows: "t = s2\<lparr>boq_lines := boq_lines s2 @ rows\<rparr>"
      "list_all2 (line_stored ev ver (tv_raw_snapshot_id v)) ls rows" "distinct (line_keys s2) \<longrightarrow> distinct (line_keys t)"
      by (rule store_parsed_lines_Inr)
    have l2: "lines_of s2 = lines_of s1" "line_keys s2 = line_keys s1"
      using arg_cong[OF u(2), of boq_lines] by (simp_all add: lines_of_def line_keys_def fun_eq_iff)
    have fi: "find_import t = find_import s2" using rows(1) by (simp add: find_import_def fun_eq_iff)
    note lt = lines_of_append[OF rows(2), of s2, folded rows(1), unfolded l2(1)]
    have "import_ok t src' ev'" for src' ev'
    proof (cases "(src', ev') = (''etender'', ev)")
      case True
      then show ?thesis
        using u(3,5,6) lt[of "''etender''" ev] n stored_or_new[OF w(3), of "''etender''" ev]
        by (simp add: import_ok_def fi)
    next
      case False
      then have "import_ok t src' ev' = import_ok s1 src' ev'"
        using u(4) lt[of src' ev'] by (intro import_ok_cong) (auto simp: fi)
      with w(3) show ?thesis by simp
    qed
    moreover have "imports_wf t" using u(1) rows(1) by (simp add: imports_wf_def)
    moreover have "distinct (line_keys t)" using rows(3) l2(2) w(2) by simp
    ultimately show ?thesis by (simp add: completeness_ok_def)
  qed
qed

lemma stalled_keeps:
  assumes ok: "completeness_ok s" and run: "mark_import_stalled src ev s = (Inr x, t)"
  shows "completeness_ok t"
proof -
  from ok have w: "imports_wf s" "distinct (line_keys s)" "\<And>src ev. import_ok s src ev"
    by (auto simp: completeness_ok_def)
  from run obtain i c s1 where 1: "get_or_create_boq_import src ev s = (Inr (i, c), s1)" and
    2: "t = s1 \<or> (\<exists>m. t = s1\<lparr>boq_imports := update_row i (\<lambda>_. c\<lparr>bi_status := ''incomplete'', missing_pages := m\<rparr>) (boq_imports s1)\<rparr>)"
    by (auto simp: mark_import_stalled_def bind_Inr then_db_Inr Let_def split: prod.splits if_splits option.splits)
  note g = get_or_create_boq_import_Inr[OF w(1) 1]
  have l: "lines_of s1 = lines_of s" "line_keys s1 = line_keys s"
    using arg_cong[OF g(5), of boq_lines] by (simp_all add: lines_of_def line_keys_def fun_eq_iff)
  have f1: "find_import s1 src ev = Some (i, c)" using find_import_iff[OF g(1)] g(2,3) by simp
  have "import_ok s1 src' ev'" for src' ev'
  proof (cases "(src', ev') = (src, ev)")
    case True
    with f1 g(4) w(3)[of src ev] show ?thesis
      by (auto simp: import_ok_def import_or_new_def new_import_def l split: option.splits)
  next
    case False
    with g(6) l w(3) import_ok_cong[of s1 src' ev' s] show ?thesis by simp
  qed
  then have ok1: "completeness_ok s1" using g(1) l w(2) by (simp add: completeness_ok_def)
  from 2 show ?thesis
  proof
    assume "\<exists>m. t = s1\<lparr>boq_imports := update_row i (\<lambda>_. c\<lparr>bi_status := ''incomplete'', missing_pages := m\<rparr>) (boq_imports s1)\<rparr>"
    then obtain m where t: "t = s1\<lparr>boq_imports := update_row i (\<lambda>_. c\<lparr>bi_status := ''incomplete'', missing_pages := m\<rparr>) (boq_imports s1)\<rparr>" ..
    have "import_key (i, c\<lparr>bi_status := ''incomplete'', missing_pages := m\<rparr>) = import_key (i, c)" by (simp add: import_key_def)
    note u = update_import[OF g(1,2) this t]
    have lt: "lines_of t = lines_of s1" "line_keys t = line_keys s1" by (simp_all add: t lines_of_def line_keys_def fun_eq_iff)
    from ok1 have o1: "import_ok s1 src' ev'" for src' ev' by (simp add: completeness_ok_def)
    have "import_ok t src' ev'" for src' ev'
    proof (cases "(src', ev') = (src, ev)")
      case True
      with u(2)[of src ev] g(3) f1 o1[of src ev] show ?thesis by (simp add: import_ok_def lt)
    next
      case False
      with u(2)[of src' ev'] g(3) have "find_import t src' ev' = find_import s1 src' ev'" by auto
      from import_ok_cong[OF this] lt o1 show ?thesis by simp
    qed
    then show ?thesis using ok1 u(1) lt by (simp add: completeness_ok_def)
  qed (use ok1 in simp)
qed

section \<open>Complete imports\<close>

text \<open>Any other step of the program leaves the lines and the imports alone.\<close>

inductive boq_step :: "ingest_env \<Rightarrow> ingest_db \<Rightarrow> ingest_db \<Rightarrow> bool" for env where
  page: "honest fetch \<Longrightarrow> boq_step env s (snd (transaction (process_bom_lines_page env j fetch) s))"
| stalled: "boq_step env s (snd (transaction (mark_import_stalled src ev) s))"
| elsewhere: "boq_lines t = boq_lines s \<Longrightarrow> boq_imports t = boq_imports s \<Longrightarrow> boq_step env s t"

definition boq_start :: "ingest_db \<Rightarrow> bool" where
  "boq_start s \<longleftrightarrow> boq_lines s = [] \<and> boq_imports s = []"

interpretation boq: invariant_system boq_start "boq_step env" completeness_ok for env
proof
  show "boq_start s \<Longrightarrow> completeness_ok s" for s
    by (simp add: boq_start_def completeness_ok_def imports_wf_def line_keys_def import_ok_def find_import_def lines_of_def)
  show "completeness_ok s \<Longrightarrow> boq_step env s t \<Longrightarrow> completeness_ok t" for s t
  proof -
    assume ok: "completeness_ok s" and "boq_step env s t"
    from this(2) show "completeness_ok t"
    proof cases
      case (page fetch j)
      show ?thesis unfolding page(1) by (rule after_transaction[where P = completeness_ok, OF ok]) (rule process_page_keeps[OF ok page(2)])
    next
      case (stalled src ev)
      show ?thesis unfolding stalled by (rule after_transaction[where P = completeness_ok, OF ok]) (rule stalled_keeps[OF ok])
    next
      case elsewhere
      from completeness_same_lines[OF this] ok show ?thesis by blast
    qed
  qed
qed

lemma card_line_ids:
  assumes "distinct (line_keys s)"
  shows "card {source_line_id (boq_content x) | k x. (k, x) \<in> set (boq_lines s) \<and> boq_source x = src \<and> boq_event_id x = ev} =
    lines_of s src ev"
proof -
  define rows where "rows = filter (\<lambda>(k, x). boq_source x = src \<and> boq_event_id x = ev) (boq_lines s)"
  have "distinct (map (\<lambda>(k, x). (boq_source x, boq_event_id x, source_line_id (boq_content x))) rows)"
    using distinct_map_filter assms unfolding line_keys_def rows_def by blast
  moreover have "map (\<lambda>(k, x). (boq_source x, boq_event_id x, source_line_id (boq_content x))) rows =
      map (\<lambda>i. (src, ev, i)) (map (\<lambda>(k, x). source_line_id (boq_content x)) rows)"
    by (auto simp: rows_def)
  ultimately have "distinct (map (\<lambda>i. (src, ev, i)) (map (\<lambda>(k, x). source_line_id (boq_content x)) rows))" by simp
  then have "distinct (map (\<lambda>(k, x). source_line_id (boq_content x)) rows)" unfolding distinct_map[of "\<lambda>i. (src, ev, i)"] ..
  from distinct_card[OF this] have "card ((\<lambda>(k, x). source_line_id (boq_content x)) ` set rows) = length rows" by simp
  moreover have "(\<lambda>(k, x). source_line_id (boq_content x)) ` set rows =
      {source_line_id (boq_content x) | k x. (k, x) \<in> set (boq_lines s) \<and> boq_source x = src \<and> boq_event_id x = ev}"
    by (force simp: rows_def)
  ultimately show ?thesis by (simp add: lines_of_def rows_def)
qed

text \<open>
  C28. In every state that page jobs and stalled imports can reach, for any mix of events and
  jobs and any pages that hold as many items as they claim, an import with status \<open>complete\<close> has
  as many distinct lines stored for its event as the source announced, and as many pages were
  fetched as it announced.
\<close>

theorem complete_import_has_all_lines:
  assumes "reachable boq_start (boq_step env) s" "find_import s src ev = Some (i, r)" "bi_status r = ''complete''"
  shows "expected_total r = Some (int (card {source_line_id (boq_content x) | k x. (k, x) \<in> set (boq_lines s) \<and>
      boq_source x = src \<and> boq_event_id x = ev})) \<and> expected_pages r = Some (fetched_pages r)"
proof -
  have ok: "completeness_ok s" by (rule boq.reachable_inv[OF assms(1)])
  then have "import_ok s src ev" "distinct (line_keys s)" by (auto simp: completeness_ok_def)
  with assms(2,3) show ?thesis by (simp add: import_ok_def card_line_ids)
qed

theorem complete_import_has_all_lines_witness:
  "\<exists>i r. find_import (snd page_run) ''etender'' 5 = Some (i, r) \<and> expected_total r = Some 2 \<and>
     card {source_line_id (boq_content x) | k x. (k, x) \<in> set (boq_lines (snd page_run)) \<and>
      boq_source x = ''etender'' \<and> boq_event_id x = 5} = 2"
proof -
  have h: "honest two_lines" by (auto simp: honest_def two_lines_def bom_page_def)
  have "boq_start empty_ingest_db" by (simp add: boq_start_def empty_ingest_db_def)
  then have "reachable boq_start (boq_step sample_env) empty_ingest_db" by (rule reachable.initially)
  moreover have "boq_step sample_env empty_ingest_db (snd page_run)"
    using boq_step.page[OF h, of sample_env empty_ingest_db sample_job] page_run_result
    by (cases page_run) (auto simp: transaction_def page_run_def)
  ultimately have r: "reachable boq_start (boq_step sample_env) (snd page_run)" by (rule reachable.stepwise)
  have "map_option (\<lambda>(i, r). (bi_status r, expected_total r)) (find_import (snd page_run) ''etender'' 5) = Some (''complete'', Some 2)"
    by code_simp
  then obtain i im where f: "find_import (snd page_run) ''etender'' 5 = Some (i, im)" "bi_status im = ''complete''" "expected_total im = Some 2"
    by auto
  from complete_import_has_all_lines[OF r f(1,2)] f show ?thesis by auto
qed

end
