(* ===== verification/Changes.thy ===== *)
theory Changes
  imports Ingestion
begin

text \<open>
  Tracking of tenders after submission: the diffs (\<open>packages/tender/tender_change_detection.py\<close>,
  \<open>boq_line_diff.py\<close>), the tables (\<open>change_tracking_store.py\<close>), the check of one tender
  (\<open>post_submission_tracking_job.py\<close>), the scheduler and the tender branch of the worker
  (\<open>apps/worker/main.py\<close>) and the route \<open>get_recalc_flags\<close>.

  The loop over the pages of a tender ends when the source says so; it takes fuel, and \<open>None\<close>
  means that it did not end within it. The heartbeat runs on a connection of its own: \<open>beat\<close>
  says for each page whether it raises. Two decimals are equal when their values are.
\<close>

section \<open>Changed fields\<close>

definition DEADLINE_FIELDS :: "string list" where
  "DEADLINE_FIELDS = [''end_date'', ''envelope_date'', ''start_date'']"

definition IGNORED_FIELDS :: "string list" where
  "IGNORED_FIELDS = [''id'']"

record field_change =
  fch_field :: string
  old_value :: json
  new_value :: json

definition diff_normalized_fields :: "jobject \<Rightarrow> jobject \<Rightarrow> field_change list" where
  "diff_normalized_fields old new =
     map (\<lambda>k. \<lparr>fch_field = k, old_value = jget old k, new_value = jget new k\<rparr>)
       (filter (\<lambda>k. \<not> py_eq (jget old k) (jget new k))
         (sorted_set (filter (\<lambda>k. k \<notin> set IGNORED_FIELDS) (map fst old @ map fst new))))"

definition classify_change_type :: "field_change list \<Rightarrow> string" where
  "classify_change_type cs =
     (if list_ex (\<lambda>c. fch_field c \<in> set DEADLINE_FIELDS) cs then ''deadline_shift'' else ''document_changed'')"

section \<open>Changed lines\<close>

type_synonym fingerprint = "string \<times> string option \<times> rat \<times> rat option \<times> rat option"

definition fingerprint_old :: "boq_line \<Rightarrow> fingerprint" where
  "fingerprint_old l =
     (description l, Some (unit_raw l), dec_val (qty l), map_option dec_val (rate l), map_option dec_val (amount l))"

definition fingerprint_new :: "parsed_line \<Rightarrow> fingerprint" where
  "fingerprint_new l =
     (pl_description l, pl_unit_raw l, dec_val (pl_qty l), map_option dec_val (pl_rate l), map_option dec_val (pl_amount l))"

text \<open>\<open>{line.source_line_id: line for line in lines}\<close>, read at a key: Python's equality of keys.\<close>

definition line_at :: "('a \<Rightarrow> json) \<Rightarrow> 'a list \<Rightarrow> json \<Rightarrow> 'a option" where
  "line_at key ls k = find (\<lambda>l. py_eq (key l) k) (rev ls)"

definition old_key :: "boq_line \<Rightarrow> json" where
  "old_key l = JInt (source_line_id l)"

definition line_changed :: "boq_line list \<Rightarrow> parsed_line list \<Rightarrow> json \<Rightarrow> bool" where
  "line_changed old new k \<longleftrightarrow>
     (case (line_at old_key old k, line_at pl_id new k) of
        (Some a, Some b) \<Rightarrow> fingerprint_old a \<noteq> fingerprint_new b
      | _ \<Rightarrow> True)"

text \<open>\<open>sorted\<close> of line ids: a null among several does not compare.\<close>

definition number_value :: "json \<Rightarrow> rat" where
  "number_value v = (case v of JInt i \<Rightarrow> of_int i | JFloat r \<Rightarrow> r | _ \<Rightarrow> 0)"

definition sorted_ids :: "json list \<Rightarrow> api_error + json list" where
  "sorted_ids ks =
     (if JNull \<in> set ks \<and> 1 < length ks then Inl (Exc ''TypeError'' [''<'']) else Inr (sort_key number_value ks))"

definition diff_boq_lines :: "boq_line list \<Rightarrow> parsed_line list \<Rightarrow> api_error + json list" where
  "diff_boq_lines old new =
     sorted_ids (filter (line_changed old new) (py_set (map old_key old @ map pl_id new)))"

section \<open>The tables\<close>

definition change_json :: "field_change \<Rightarrow> jobject" where
  "change_json c = [(''field'', JStr (fch_field c)), (''old_value'', old_value c), (''new_value'', new_value c)]"

definition store_tender_change_event :: "int \<Rightarrow> string \<Rightarrow> field_change list \<Rightarrow> int \<Rightarrow> int \<Rightarrow> int ingest_op" where
  "store_tender_change_event tid ctype cs t snap =
     bind (gets id) (\<lambda>s.
     then_db (guard (tid \<in> fst ` set (tenders s)) (Exc ''IntegrityError'' [''tender_change_events_tender_id_fkey''])) (
     then_db (guard (ctype \<in> {''deadline_shift'', ''document_changed''}) (Exc ''IntegrityError'' [''tender_change_events_check''])) (
     then_db (guard (snap \<in> fst ` set (raw_snapshots s)) (Exc ''IntegrityError'' [''tender_change_events_raw_snapshot_id_fkey''])) (
     let i = next_id (change_events s) in
     then_db (modify (\<lambda>s. s\<lparr>change_events := change_events s @ [(i,
        \<lparr>ce_tender_id = tid, change_type = ctype, changed_fields = map change_json cs, detected_at = t, ce_snapshot_id = snap\<rparr>)]\<rparr>))
     (ret i)))))"

definition store_boq_line_recalc_flag :: "int \<Rightarrow> int \<Rightarrow> int \<Rightarrow> int \<Rightarrow> unit ingest_op" where
  "store_boq_line_recalc_flag tid line ev t =
     bind (gets id) (\<lambda>s.
     then_db (guard (tid \<in> fst ` set (tenders s)) (Exc ''IntegrityError'' [''boq_line_recalc_flags_tender_id_fkey''])) (
     then_db (guard (ev \<in> fst ` set (change_events s)) (Exc ''IntegrityError'' [''boq_line_recalc_flags_change_event_id_fkey'']))
     (modify (\<lambda>s. s\<lparr>recalc_flags := recalc_flags s @ [(next_id (recalc_flags s),
        \<lparr>flag_tender_id = tid, flag_line_id = line, flag_event_id = ev, flagged_at = t, resolved_at = None\<rparr>)]\<rparr>))))"

definition list_unresolved_recalc_flags :: "ingest_db \<Rightarrow> int \<Rightarrow> (int \<times> recalc_flag) list" where
  "list_unresolved_recalc_flags s tid =
     sort_key (flagged_at \<circ> snd) (sort_key fst (filter (\<lambda>(i, f). flag_tender_id f = tid \<and> resolved_at f = None) (recalc_flags s)))"

definition get_watch_state :: "ingest_db \<Rightarrow> int \<Rightarrow> int option" where
  "get_watch_state s tid = map_of (watch_states s) tid"

definition upsert_watch_state :: "int \<Rightarrow> int \<Rightarrow> unit ingest_op" where
  "upsert_watch_state tid t =
     bind (gets id) (\<lambda>s.
     then_db (guard (tid \<in> fst ` set (tenders s)) (Exc ''IntegrityError'' [''tender_watch_state_tender_id_fkey'']))
     (modify (\<lambda>s. s\<lparr>watch_states := AList.update tid t (watch_states s)\<rparr>)))"

definition list_tenders_due_for_check :: "ingest_db \<Rightarrow> int list \<Rightarrow> int \<Rightarrow> int \<Rightarrow> int list" where
  "list_tenders_due_for_check s tids t hours =
     filter (\<lambda>i. case get_watch_state s i of None \<Rightarrow> True | Some c \<Rightarrow> c \<le> t - hours * 3600) (sort tids)"

section \<open>The check of one tender\<close>

definition drift_seen :: "ingest_env \<Rightarrow> string \<Rightarrow> schema_drift \<Rightarrow> string \<Rightarrow> int \<Rightarrow> unit ingest_op" where
  "drift_seen env cid d name snap = bind (queue_drift env ''etender'' cid d name snap) (\<lambda>_. ret ())"

text \<open>\<open>total_pages is None or page_number >= total_pages\<close>\<close>

definition walk_stop :: "int \<Rightarrow> json \<Rightarrow> api_error + bool" where
  "walk_stop page tot = (if tot = JNull then Inr True else page_done page tot)"

definition walk_page :: "ingest_env \<Rightarrow> (int \<Rightarrow> int \<Rightarrow> api_error + (string \<times> jobject)) \<Rightarrow> (int \<Rightarrow> api_error + unit) \<Rightarrow> int \<Rightarrow> string \<Rightarrow>
    int \<Rightarrow> (parsed_line list \<times> bool) ingest_op" where
  "walk_page env fetch_page beat ev cid page =
     bind (of_sum (beat page)) (\<lambda>_.
     bind (of_sum (fetch_page ev page)) (\<lambda>(raw, p).
     bind (ingest_bom_lines_page env ev raw p cid) (\<lambda>r.
     bind (case r of
         Drifted d name snap \<Rightarrow> then_db (drift_seen env cid d name snap) (ret [])
       | Ingested v \<Rightarrow> of_sum (sum_bind (list_field p ''items'') (build_boq_lines env page))) (\<lambda>ls.
     bind (of_sum (walk_stop page (jget p ''totalPages''))) (\<lambda>stop.
     ret (ls, stop))))))"

fun walk_pages :: "ingest_env \<Rightarrow> (int \<Rightarrow> int \<Rightarrow> api_error + (string \<times> jobject)) \<Rightarrow> (int \<Rightarrow> api_error + unit) \<Rightarrow> int \<Rightarrow> string \<Rightarrow>
    nat \<Rightarrow> int \<Rightarrow> parsed_line list \<Rightarrow> ingest_db \<Rightarrow> ((api_error + parsed_line list) \<times> ingest_db) option" where
  "walk_pages env fetch_page beat ev cid 0 page acc s = None"
| "walk_pages env fetch_page beat ev cid (Suc fuel) page acc s =
     (case walk_page env fetch_page beat ev cid page s of
        (Inl e, t) \<Rightarrow> Some (Inl e, t)
      | (Inr (ls, stop), t) \<Rightarrow>
          if stop then Some (Inr (acc @ ls), t)
          else walk_pages env fetch_page beat ev cid fuel (page + 1) (acc @ ls) t)"

record check_result =
  change_detected :: bool
  detected_type :: "string option"
  flagged_line_count :: nat

record walk_task =
  task_event_id :: int
  task_change_id :: int
  task_type :: string
  task_old_lines :: "boq_line list"

definition iso_op :: "ingest_env \<Rightarrow> string \<Rightarrow> int ingest_op" where
  "iso_op env t = of_sum (case env_iso env t of None \<Rightarrow> Inl (Exc ''ValueError'' [t]) | Some x \<Rightarrow> Inr x)"

definition no_change :: check_result where
  "no_change = \<lparr>change_detected = False, detected_type = None, flagged_line_count = 0\<rparr>"

text \<open>Up to the walk over the pages; \<open>Inl\<close> is a check that ends before it.\<close>

definition compare_details :: "ingest_env \<Rightarrow> int \<Rightarrow> string \<Rightarrow> string \<Rightarrow> int \<Rightarrow> jobject \<Rightarrow> (int \<times> tender_version) ingested \<Rightarrow>
    (check_result + walk_task) ingest_op" where
  "compare_details env tid cid obs ev previous r =
     (case r of
        Drifted d name snap \<Rightarrow>
          then_db (drift_seen env cid d name snap) (
          bind (iso_op env obs) (\<lambda>t.
          then_db (upsert_watch_state tid t) (ret (Inl no_change))))
      | Ingested (ver, v) \<Rightarrow>
          then_db (guard (tv_tender_id v = tid) (Exc ''AssertionError'' [str_int (tv_tender_id v), str_int tid])) (
          let cs = diff_normalized_fields previous (normalized_fields v) in
          bind (iso_op env obs) (\<lambda>t.
          if cs = [] then then_db (upsert_watch_state tid t) (ret (Inl no_change))
          else
          bind (store_tender_change_event tid (classify_change_type cs) cs t (tv_raw_snapshot_id v)) (\<lambda>ce.
          bind (gets (\<lambda>s. list_boq_lines_by_event s ''etender'' ev)) (\<lambda>old.
          ret (Inr \<lparr>task_event_id = ev, task_change_id = ce, task_type = classify_change_type cs, task_old_lines = old\<rparr>))))))"

definition check_details :: "ingest_env \<Rightarrow> int \<Rightarrow> (int \<Rightarrow> api_error + (string \<times> jobject)) \<Rightarrow> string \<Rightarrow> string \<Rightarrow>
    (check_result + walk_task) ingest_op" where
  "check_details env tid fetch_details cid obs =
     bind (get_event_id_for_tender tid) (\<lambda>ev.
     case ev of
       None \<Rightarrow> raise (Exc ''ValueError'' [str_int tid])
     | Some ev \<Rightarrow>
         bind (gets (\<lambda>s. case current_version s tid of None \<Rightarrow> [] | Some v \<Rightarrow> normalized_fields v)) (\<lambda>previous.
         bind (of_sum (fetch_details ev)) (\<lambda>(raw, p).
         bind (ingest_event_details env raw p cid) (\<lambda>r.
         compare_details env tid cid obs ev previous r))))"

definition flag_line :: "int \<Rightarrow> int \<Rightarrow> int \<Rightarrow> json \<Rightarrow> unit ingest_op" where
  "flag_line tid ce t k = bind (of_sum (int_column ''boqline_source_line_id'' k)) (\<lambda>i. store_boq_line_recalc_flag tid i ce t)"

text \<open>After the walk: the flags and the watch state.\<close>

definition check_finish :: "ingest_env \<Rightarrow> int \<Rightarrow> string \<Rightarrow> walk_task \<Rightarrow> parsed_line list \<Rightarrow> check_result ingest_op" where
  "check_finish env tid obs w new =
     bind (iso_op env obs) (\<lambda>t.
     bind (of_sum (diff_boq_lines (task_old_lines w) new)) (\<lambda>ids.
     then_db (for_each (flag_line tid (task_change_id w) t) ids) (
     then_db (upsert_watch_state tid t)
     (ret \<lparr>change_detected = True, detected_type = Some (task_type w), flagged_line_count = length ids\<rparr>))))"

definition check_tender_for_changes :: "ingest_env \<Rightarrow> nat \<Rightarrow> int \<Rightarrow> (int \<Rightarrow> api_error + (string \<times> jobject)) \<Rightarrow>
    (int \<Rightarrow> int \<Rightarrow> api_error + (string \<times> jobject)) \<Rightarrow> (int \<Rightarrow> api_error + unit) \<Rightarrow> string \<Rightarrow> string \<Rightarrow> ingest_db \<Rightarrow>
    ((api_error + check_result) \<times> ingest_db) option" where
  "check_tender_for_changes env fuel tid fetch_details fetch_page beat cid obs s =
     (case check_details env tid fetch_details cid obs s of
        (Inl e, t) \<Rightarrow> Some (Inl e, t)
      | (Inr (Inl r), t) \<Rightarrow> Some (Inr r, t)
      | (Inr (Inr w), t) \<Rightarrow>
          (case walk_pages env fetch_page beat (task_event_id w) cid fuel 1 [] t of
             None \<Rightarrow> None
           | Some (Inl e, u) \<Rightarrow> Some (Inl e, u)
           | Some (Inr ls, u) \<Rightarrow> Some (check_finish env tid obs w ls u)))"

section \<open>The worker\<close>

text \<open>
  The tender branch of \<open>_process_claimed_job\<close>, one transaction: the check and the checkpoint
  are kept together or not at all.
\<close>

definition run_change_check :: "ingest_env \<Rightarrow> nat \<Rightarrow> (int \<Rightarrow> api_error + (string \<times> jobject)) \<Rightarrow>
    (int \<Rightarrow> int \<Rightarrow> api_error + (string \<times> jobject)) \<Rightarrow> (int \<Rightarrow> api_error + unit) \<Rightarrow> string \<Rightarrow> int \<Rightarrow> string \<Rightarrow> ingest_db \<Rightarrow>
    ((api_error + check_result) \<times> ingest_db) option" where
  "run_change_check env fuel fetch_details fetch_page beat obs i w s =
     (case get_job (work s) i of
        None \<Rightarrow> Some (Inl (Exc ''AssertionError'' [str_int i]), s)
      | Some j \<Rightarrow>
          (case job_param (params j) ''tender_id'' of
             Inl e \<Rightarrow> Some (Inl e, s)
           | Inr tid \<Rightarrow>
               (case check_tender_for_changes env fuel tid fetch_details fetch_page beat (job_correlation_id j) obs s of
                  None \<Rightarrow> None
                | Some (Inl e, t) \<Rightarrow> Some (Inl e, s)
                | Some (Inr r, t) \<Rightarrow>
                    Some (case on_work (set_checkpoint i w [(''done'', JBool True)]) t of
                       (Inl e, u) \<Rightarrow> (Inl e, s)
                     | (Inr x, u) \<Rightarrow> (Inr r, u)))))"

definition TENDER_WATCH_POLL_INTERVAL_HOURS :: int where
  "TENDER_WATCH_POLL_INTERVAL_HOURS = 6"

definition check_job :: "int \<Rightarrow> job_identity" where
  "check_job tid =
     \<lparr>job_type = ''tender_change_check'', params = [(''tender_id'', JInt tid)], job_source = ''etender'', range_start = None,
      range_end = None, contract_version = ''etender.event_details'', job_correlation_id = ''tender-watch-'' @ str_int tid\<rparr>"

definition schedule_check :: "int \<Rightarrow> unit ingest_op" where
  "schedule_check tid =
     bind (on_work (enqueue_job (check_job tid))) (\<lambda>_.
     bind (gets clock) (\<lambda>t. upsert_watch_state tid t))"

definition enqueue_due_tender_checks :: "nat ingest_op" where
  "enqueue_due_tender_checks =
     transaction (
     bind (gets (\<lambda>s. list_tenders_with_active_bid_decision (decision_db.truncate s))) (\<lambda>tracked.
     bind (gets (\<lambda>s. list_tenders_due_for_check s tracked (clock s) TENDER_WATCH_POLL_INTERVAL_HOURS)) (\<lambda>due.
     then_db (for_each schedule_check due) (ret (length due)))))"

section \<open>The route\<close>

definition get_recalc_flags :: "string option \<Rightarrow> int \<Rightarrow> (int \<times> recalc_flag) list ingest_op" where
  "get_recalc_flags cookie tid =
     route_of ''decision.recalc_flags.read'' cookie (\<lambda>ident. gets (\<lambda>s. list_unresolved_recalc_flags s tid))"

end
