(* ===== verification/Changes_Theorems.thy ===== *)
theory Changes_Theorems
  imports Changes Ingestion_Theorems
begin

text \<open>
  What tracking after submission guarantees: a check ends when the source bounds its pages, it
  flags exactly the lines that changed and leaves the stored lines alone, and the scheduler
  does not enqueue a tender twice within one interval.
\<close>

section \<open>The walk over the pages\<close>

text \<open>The rows a walk leaves alone.\<close>

definition tracking_kept :: "ingest_db \<Rightarrow> ingest_db \<Rightarrow> bool" where
  "tracking_kept s t \<longleftrightarrow> boq_lines t = boq_lines s \<and> boq_imports t = boq_imports s \<and> change_events t = change_events s \<and>
     recalc_flags t = recalc_flags s \<and> watch_states t = watch_states s"

lemma tracking_kept_refl [simp]: "tracking_kept s s"
  by (simp add: tracking_kept_def)

lemma tracking_kept_trans: "tracking_kept s t \<Longrightarrow> tracking_kept t u \<Longrightarrow> tracking_kept s u"
  by (simp add: tracking_kept_def)

lemma same_lines_kept: "same_lines s t \<Longrightarrow> tracking_kept s t"
  by (simp add: same_lines_def tracking_kept_def)

lemma drift_seen_kept:
  assumes "drift_seen env cid d name snap s = (Inr (), t)"
  shows "tracking_kept s t"
proof -
  from assms obtain ex where "queue_drift env ''etender'' cid d name snap s = (Inr ex, t)"
    by (auto simp: drift_seen_def bind_Inr)
  from queue_drift_Inr[OF this] show ?thesis by (auto simp: tracking_kept_def)
qed

lemma walk_page_Inr:
  assumes "walk_page env fetch_page beat ev cid page s = (Inr (ls, stop), t)"
  shows "tracking_kept s t \<and>
    (\<exists>raw p. fetch_page ev page = Inr (raw, p) \<and> walk_stop page (jget p ''totalPages'') = Inr stop)"
proof -
  from assms obtain raw p r s1 where 1: "fetch_page ev page = Inr (raw, p)"
    "ingest_bom_lines_page env ev raw p cid s = (Inr r, s1)" "walk_stop page (jget p ''totalPages'') = Inr stop" and
    2: "(case r of
         Drifted d name snap \<Rightarrow> then_db (drift_seen env cid d name snap) (ret [])
       | Ingested v \<Rightarrow> of_sum (sum_bind (list_field p ''items'') (build_boq_lines env page))) s1 = (Inr ls, t)"
    by (auto simp: walk_page_def bind_Inr split: prod.splits)
  from 1(2) have "same_lines s s1" by (elim ingest_bom_Inr ingest_Inr)
  moreover have "tracking_kept s1 t"
    using 2 by (cases r) (auto simp: then_db_Inr dest: drift_seen_kept)
  ultimately show ?thesis using 1 same_lines_kept tracking_kept_trans by blast
qed

lemma walk_pages_kept:
  "walk_pages env fetch_page beat ev cid fuel page acc s = Some (Inr ls, t) \<Longrightarrow> tracking_kept s t"
proof (induction fuel arbitrary: page acc s)
  case (Suc fuel)
  then obtain ls1 stop s1 where 1: "walk_page env fetch_page beat ev cid page s = (Inr (ls1, stop), s1)"
    and 2: "(if stop then Some (Inr (acc @ ls1), s1) else walk_pages env fetch_page beat ev cid fuel (page + 1) (acc @ ls1) s1) =
      Some (Inr ls, t)"
    by (auto split: prod.splits sum.splits)
  from walk_page_Inr[OF 1] have k: "tracking_kept s s1" by blast
  show ?case
  proof (cases stop)
    case True
    with 2 k show ?thesis by simp
  next
    case False
    with 2 Suc.IH[of "page + 1" "acc @ ls1" s1] k tracking_kept_trans show ?thesis by simp
  qed
qed simp

definition total_at_most :: "int \<Rightarrow> json \<Rightarrow> bool" where
  "total_at_most n v \<longleftrightarrow>
     (case v of JInt k \<Rightarrow> k \<le> n | JFloat r \<Rightarrow> r \<le> of_int n | JBool b \<Rightarrow> 1 \<le> n | _ \<Rightarrow> True)"

lemma walk_stop_bounded:
  assumes "total_at_most n v" "n \<le> page"
  shows "walk_stop page v \<noteq> Inr False"
proof (cases v)
  case (JFloat r)
  from assms have "of_int n \<le> (of_int page :: rat)" by simp
  with assms JFloat have "r \<le> of_int page" by (simp add: total_at_most_def)
  with JFloat show ?thesis by (simp add: walk_stop_def page_done_def)
qed (use assms in \<open>auto simp: total_at_most_def walk_stop_def page_done_def\<close>)

lemma walk_pages_ends:
  assumes "\<And>page raw p. fetch_page ev page = Inr (raw, p) \<Longrightarrow> total_at_most n (jget p ''totalPages'')"
  shows "nat (n - page) < fuel \<Longrightarrow> \<exists>x. walk_pages env fetch_page beat ev cid fuel page acc s = Some x"
proof (induction fuel arbitrary: page acc s)
  case (Suc fuel)
  show ?case
  proof (cases "walk_page env fetch_page beat ev cid page s")
    case (Pair r t)
    show ?thesis
    proof (cases r)
      case (Inl e)
      with Pair show ?thesis by simp
    next
      case (Inr x)
      obtain ls stop where x: "x = (ls, stop)" by (cases x)
      show ?thesis
      proof (cases stop)
        case True
        with Pair Inr x show ?thesis by simp
      next
        case False
        with Pair Inr x have w: "walk_page env fetch_page beat ev cid page s = (Inr (ls, False), t)" by simp
        from walk_page_Inr[OF w] assms walk_stop_bounded[of n _ page] have "\<not> n \<le> page" by blast
        with Suc.prems have "nat (n - (page + 1)) < fuel" by linarith
        from Suc.IH[OF this] w show ?thesis by simp
      qed
    qed
  qed
qed simp

text \<open>
  C30. A check of a tender ends: if no page of the source announces more than \<open>n\<close> pages, \<open>max 1 n\<close>
  rounds of the loop are enough, whatever the pages contain, whether they drift, and whether
  the heartbeat or a fetch fails on the way.
\<close>

theorem change_check_terminates:
  assumes "\<And>ev page raw p. fetch_page ev page = Inr (raw, p) \<Longrightarrow> total_at_most n (jget p ''totalPages'')"
    and "nat (max 1 n) \<le> fuel"
  shows "\<exists>x. check_tender_for_changes env fuel tid fetch_details fetch_page beat cid obs s = Some x"
proof -
  have "nat (n - 1) < fuel" using assms(2) by linarith
  then have ends: "\<exists>x. walk_pages env fetch_page beat ev cid fuel 1 acc t = Some x" for ev acc t
    using assms(1) by (intro walk_pages_ends) auto
  obtain r t where rt: "check_details env tid fetch_details cid obs s = (r, t)" by (cases "check_details env tid fetch_details cid obs s")
  consider (err) e where "r = Inl e" | (over) x where "r = Inr (Inl x)" | (walk) w where "r = Inr (Inr w)"
    by (metis sum.exhaust)
  then show ?thesis
  proof cases
    case walk
    from ends[of "task_event_id w" "[]" t] obtain q u where "walk_pages env fetch_page beat (task_event_id w) cid fuel 1 [] t = Some (q, u)"
      by (metis prod.exhaust)
    with rt walk show ?thesis by (cases q) (simp_all add: check_tender_for_changes_def)
  qed (use rt in \<open>simp_all add: check_tender_for_changes_def\<close>)
qed

theorem change_check_terminates_witness:
  "\<exists>x. check_tender_for_changes sample_env 1 7 (\<lambda>ev. Inr (''raw'', sample_event)) two_lines (\<lambda>page. Inr ()) ''c'' ''t'' empty_ingest_db = Some x"
  by (rule change_check_terminates[where n = 1]) (auto simp: two_lines_def bom_page_def jget_def total_at_most_def)

text \<open>Without the bound the loop need not end: a source that always announces one page more.\<close>

definition growing :: "int \<Rightarrow> int \<Rightarrow> api_error + (string \<times> jobject)" where
  "growing ev page = Inr (''raw'', bom_page page (JInt (page + 1)) [])"

lemma bom_page_clean: "page_drift BOM_LINES_PAGE_CONTRACT (Some (BOM_LINE_ITEM_CONTRACT, ''items'')) (bom_page page (JInt n) []) =
    Inr (\<lparr>added_fields = [], removed_fields = [], type_changed_fields = []\<rparr>, sc_name BOM_LINE_ITEM_CONTRACT)"
proof -
  have "typed_by BOM_LINES_PAGE_CONTRACT (bom_page page (JInt n) [])"
    by (auto simp: typed_by_def BOM_LINES_PAGE_CONTRACT_def bom_page_def split: if_splits)
  then have "\<not> has_drift (detect_schema_drift BOM_LINES_PAGE_CONTRACT (bom_page page (JInt n) []))"
    by (simp add: drift_free_iff_typed)
  then show ?thesis
    by (simp add: page_drift_def list_field_def sum_bind_def detect_schema_drift_over_items_def union_drifts_def
        sorted_set_def bom_page_def)
qed

lemma walk_page_growing: "\<exists>t. walk_page sample_env growing (\<lambda>page. Inr ()) ev cid page s = (Inr ([], False), t)"
proof -
  define p where "p = bom_page page (JInt (page + 1)) []"
  have f: "field p ''currentPage'' = Inr (JInt page)" "jget p ''totalPages'' = JInt (page + 1)" "list_field p ''items'' = Inr []"
    by (simp_all add: p_def bom_page_def field_def jget_def list_field_def)
  have k: "\<exists>key. canonical_identity (env_str sample_env) BOM_LINES_PAGE_CONTRACT [(''event_id'', JInt ev), (''PageNumber'', JInt page)] = Some key"
    by (simp add: canonical_identity_def BOM_LINES_PAGE_CONTRACT_def)
  have nf: "\<exists>nf. normalize_bom_page ev p = Inr nf"
    by (simp add: normalize_bom_page_def p_def bom_page_def field_def list_field_def sum_bind_def)
  have "\<exists>v t. ingest_bom_lines_page sample_env ev ''raw'' p cid s = (Inr (Ingested v), t)"
  proof -
    from k nf obtain key nf where kn: "canonical_identity (env_str sample_env) BOM_LINES_PAGE_CONTRACT
        [(''event_id'', JInt ev), (''PageNumber'', JInt page)] = Some key" "normalize_bom_page ev p = Inr nf" by blast
    obtain snap s1 where s1: "save_raw_snapshot (env_sha sample_env) (env_parse sample_env) ''etender'' (sc_name BOM_LINES_PAGE_CONTRACT)
        key ''raw'' (sc_name BOM_LINES_PAGE_CONTRACT) cid s = (Inr snap, s1)" "snap \<in> fst ` set (raw_snapshots s1)"
      by (simp add: save_raw_snapshot_def sample_env_def db_simps)
    obtain tid s2 where s2: "get_or_create_tender ''etender'' key s1 = (Inr tid, s2)"
      by (cases "find (\<lambda>(i, r). tender_source r = ''etender'' \<and> identity_key r = key) (tenders s1)")
        (auto simp: get_or_create_tender_def db_simps)
    from get_or_create_tender_Inr[OF s2] s1(2) have m: "tid \<in> fst ` set (tenders s2)" "snap \<in> fst ` set (raw_snapshots s2)" by auto
    then obtain v s3 where "create_normalized_version tid snap PARSER_VERSION nf s2 = (Inr v, s3)"
      by (simp add: create_normalized_version_def db_simps Let_def)
    with kn s1 s2 f(1) show ?thesis
      by (simp add: ingest_bom_lines_page_def ingest_def bind_eq of_sum_def identity_op_def bom_page_clean[of page "page + 1", folded p_def]
          has_drift_def)
  qed
  then obtain v t where "ingest_bom_lines_page sample_env ev ''raw'' p cid s = (Inr (Ingested v), t)" by blast
  then show ?thesis
    using f by (simp add: walk_page_def growing_def p_def[symmetric] bind_eq of_sum_def sum_bind_def build_boq_lines_def
        walk_stop_def page_done_def)
qed

lemma growing_source_never_ends: "walk_pages sample_env growing (\<lambda>page. Inr ()) ev cid fuel page acc s = None"
proof (induction fuel arbitrary: page acc s)
  case (Suc fuel)
  obtain t where "walk_page sample_env growing (\<lambda>page. Inr ()) ev cid page s = (Inr ([], False), t)"
    using walk_page_growing by blast
  with Suc show ?case by simp
qed simp

section \<open>Changed lines\<close>

text \<open>The reference: the lines of a snapshot as a map from line ids to what is compared.\<close>

definition old_lines_map :: "boq_line list \<Rightarrow> int \<rightharpoonup> fingerprint" where
  "old_lines_map ls = map_of (rev (map (\<lambda>l. (source_line_id l, fingerprint_old l)) ls))"

definition new_lines_map :: "parsed_line list \<Rightarrow> int \<rightharpoonup> fingerprint" where
  "new_lines_map ls i = map_option fingerprint_new (line_at pl_id ls (JInt i))"

definition integer_ids :: "parsed_line list \<Rightarrow> bool" where
  "integer_ids ls \<longleftrightarrow> (\<forall>l \<in> set ls. \<exists>i. pl_id l = JInt i)"

lemma py_eq_JInt [simp]: "py_eq (JInt a) (JInt b) \<longleftrightarrow> a = b"
  by (simp add: py_eq_def)

lemma old_lines_map_line_at: "old_lines_map ls i = map_option fingerprint_old (line_at old_key ls (JInt i))"
proof -
  have "map_of (map (\<lambda>l. (source_line_id l, fingerprint_old l)) xs) i =
      map_option fingerprint_old (find (\<lambda>l. py_eq (old_key l) (JInt i)) xs)" for xs
    by (induction xs) (auto simp: old_key_def)
  from this[of "rev ls"] show ?thesis by (simp add: old_lines_map_def line_at_def rev_map)
qed

lemma line_changed_iff:
  "line_changed old new (JInt i) \<longleftrightarrow> old_lines_map old i \<noteq> new_lines_map new i \<or> old_lines_map old i = None \<or> new_lines_map new i = None"
  by (auto simp: line_changed_def old_lines_map_line_at new_lines_map_def split: option.splits)

lemma line_at_None: "line_at key ls k = None \<longleftrightarrow> (\<forall>l \<in> set ls. \<not> py_eq (key l) k)"
  by (auto simp: line_at_def find_None_iff)

lemma distinct_py_set: "distinct (py_set xs)"
  by (induction xs) auto

lemma set_py_set_JInt:
  assumes "\<forall>x \<in> set xs. \<exists>i. x = JInt i"
  shows "set (py_set xs) = set xs"
proof
  show "set (py_set xs) \<subseteq> set xs" by (rule py_set_subset)
  show "set xs \<subseteq> set (py_set xs)"
  proof
    fix x assume x: "x \<in> set xs"
    then obtain y where y: "y \<in> set (py_set xs)" "py_eq y x" using py_set_mem by blast
    with py_set_subset[of xs] assms x obtain i j where "y = JInt i" "x = JInt j" by blast
    with y show "x \<in> set (py_set xs)" by simp
  qed
qed

lemma sorted_JInt:
  assumes "set ks = JInt ` A" "distinct ks" "sorted (map number_value ks)"
  shows "\<exists>is. ks = map JInt is \<and> is = sorted_list_of_set A \<and> finite A"
proof -
  from assms(1) have fin: "finite A" by (metis List.finite_set finite_imageD inj_onI json.inject(2))
  from assms(1) have "\<forall>k \<in> set ks. \<exists>i. k = JInt i" by blast
  then obtain xs where xs: "ks = map JInt xs" by (metis ex_map_conv)
  with assms(1) have "set xs = A" by (auto simp: image_iff)
  moreover have "distinct xs" using assms(2) xs by (simp add: distinct_map)
  moreover have "sorted xs" using assms(3) xs by (simp add: number_value_def sorted_iff_nth_mono comp_def)
  ultimately have "xs = sorted_list_of_set A"
    by (metis sorted_list_of_set_unique[OF fin] distinct_card strict_sorted_iff)
  with xs fin show ?thesis by blast
qed

text \<open>The ids whose comparison differs, as the diff computes them.\<close>

lemma diff_boq_lines_meaning:
  assumes "integer_ids new" "diff_boq_lines old new = Inr ks"
  shows "finite {i. old_lines_map old i \<noteq> new_lines_map new i} \<and>
    ks = map JInt (sorted_list_of_set {i. old_lines_map old i \<noteq> new_lines_map new i})"
proof -
  define all where "all = map old_key old @ map pl_id new"
  have ints: "\<forall>x \<in> set all. \<exists>i. x = JInt i" using assms(1) by (auto simp: all_def old_key_def integer_ids_def)
  have dom: "JInt i \<in> set all \<longleftrightarrow> old_lines_map old i \<noteq> None \<or> new_lines_map new i \<noteq> None" for i
  proof -
    have "new_lines_map new i \<noteq> None \<longleftrightarrow> JInt i \<in> set (map pl_id new)"
      using assms(1) by (force simp: new_lines_map_def line_at_None integer_ids_def)
    moreover have "old_lines_map old i \<noteq> None \<longleftrightarrow> JInt i \<in> set (map old_key old)"
      by (auto simp: old_lines_map_line_at line_at_None old_key_def)
    ultimately show ?thesis by (auto simp: all_def)
  qed
  from assms(2) have ks: "ks = sort_key number_value (filter (line_changed old new) (py_set all))"
    by (auto simp: diff_boq_lines_def sorted_ids_def all_def split: if_splits)
  have "set ks = JInt ` {i. old_lines_map old i \<noteq> new_lines_map new i}"
  proof -
    have "set ks = {k \<in> set all. line_changed old new k}" using set_py_set_JInt[OF ints] by (auto simp: ks)
    also have "\<dots> = JInt ` {i. old_lines_map old i \<noteq> new_lines_map new i}"
    proof (rule set_eqI)
      fix k
      have c: "old_lines_map old i \<noteq> new_lines_map new i \<longleftrightarrow> JInt i \<in> set all \<and> line_changed old new (JInt i)" for i
        unfolding line_changed_iff using dom[of i] by metis
      show "k \<in> {k \<in> set all. line_changed old new k} \<longleftrightarrow> k \<in> JInt ` {i. old_lines_map old i \<noteq> new_lines_map new i}"
      proof (cases "\<exists>i. k = JInt i")
        case True
        then obtain i where "k = JInt i" ..
        then show ?thesis by (simp add: c image_iff)
      next
        case False
        then have "k \<notin> set all" "k \<notin> range JInt" using ints by blast+
        then show ?thesis by blast
      qed
    qed
    finally show ?thesis .
  qed
  moreover have "distinct ks" by (simp add: ks distinct_py_set)
  moreover have "sorted (map number_value ks)" by (simp add: ks)
  ultimately show ?thesis using sorted_JInt by blast
qed

section \<open>The effect of a check\<close>

definition open_flag :: "int \<Rightarrow> int \<Rightarrow> int \<Rightarrow> int \<Rightarrow> recalc_flag" where
  "open_flag tid ce t i = \<lparr>flag_tender_id = tid, flag_line_id = i, flag_event_id = ce, flagged_at = t, resolved_at = None\<rparr>"

lemma flag_line_Inr:
  "flag_line tid ce t (JInt i) s = (Inr (), u) \<Longrightarrow>
   u = s\<lparr>recalc_flags := recalc_flags s @ [(next_id (recalc_flags s), open_flag tid ce t i)]\<rparr>"
  by (auto simp: flag_line_def int_column_def of_sum_def store_boq_line_recalc_flag_def db_simps open_flag_def split: if_splits)

lemma flag_lines_Inr:
  "for_each (flag_line tid ce t) (map JInt is) s = (Inr (), u) \<Longrightarrow>
   \<exists>rows. u = s\<lparr>recalc_flags := recalc_flags s @ rows\<rparr> \<and> map snd rows = map (open_flag tid ce t) is"
proof (induction "is" arbitrary: s)
  case (Cons i "is")
  then obtain s1 where 1: "flag_line tid ce t (JInt i) s = (Inr (), s1)" "for_each (flag_line tid ce t) (map JInt is) s1 = (Inr (), u)"
    by (auto simp: then_db_Inr)
  from Cons.IH[OF 1(2)] obtain rows where "u = s1\<lparr>recalc_flags := recalc_flags s1 @ rows\<rparr>" "map snd rows = map (open_flag tid ce t) is"
    by blast
  with flag_line_Inr[OF 1(1)] show ?case
    by (intro exI[of _ "(next_id (recalc_flags s), open_flag tid ce t i) # rows"]) simp
qed (auto intro: exI[of _ "[]"])

lemma store_change_event_Inr:
  "store_tender_change_event tid ctype cs t snap s = (Inr ce, u) \<Longrightarrow>
   u = s\<lparr>change_events := change_events s @ [(ce,
     \<lparr>ce_tender_id = tid, change_type = ctype, changed_fields = map change_json cs, detected_at = t, ce_snapshot_id = snap\<rparr>)]\<rparr>"
  by (auto simp: store_tender_change_event_def db_simps Let_def split: if_splits)

lemma iso_op_Inr: "iso_op env x s = (Inr t, u) \<longleftrightarrow> env_iso env x = Some t \<and> u = s"
  by (auto simp: iso_op_def of_sum_def split: option.splits)

lemma compare_details_event:
  "compare_details env tid cid obs ev previous r s = (Inr (Inr w), u) \<Longrightarrow> task_event_id w = ev"
  by (auto simp: compare_details_def bind_Inr then_db_Inr Let_def split: ingested.splits prod.splits if_splits)

lemma check_details_Inr:
  assumes "check_details env tid fetch_details cid obs s = (Inr y, u)"
  obtains ev raw p r s1 where "fetch_details ev = Inr (raw, p)" "ingest_event_details env raw p cid s = (Inr r, s1)"
    "compare_details env tid cid obs ev (case current_version s tid of None \<Rightarrow> [] | Some v \<Rightarrow> normalized_fields v) r s1 = (Inr y, u)"
proof -
  have ev: "s0 = s" if "get_event_id_for_tender tid s = (Inr x, s0)" for x s0
    using that by (auto simp: get_event_id_for_tender_def db_simps split: option.splits json.splits)
  from assms obtain e s0 where "get_event_id_for_tender tid s = (Inr e, s0)" and
    c: "(case e of
       None \<Rightarrow> raise (Exc ''ValueError'' [str_int tid])
     | Some ev \<Rightarrow>
         bind (gets (\<lambda>s. case current_version s tid of None \<Rightarrow> [] | Some v \<Rightarrow> normalized_fields v)) (\<lambda>previous.
         bind (of_sum (fetch_details ev)) (\<lambda>(raw, p).
         bind (ingest_event_details env raw p cid) (\<lambda>r.
         compare_details env tid cid obs ev previous r)))) s0 = (Inr y, u)"
    unfolding check_details_def bind_Inr[of "get_event_id_for_tender tid"] by blast
  with ev have "s0 = s" by blast
  with c that show ?thesis by (cases e) (auto simp: bind_Inr of_sum_Inr)
qed

lemma check_details_walk:
  assumes "check_details env tid fetch_details cid obs s = (Inr (Inr w), u)"
  shows "boq_lines u = boq_lines s \<and> recalc_flags u = recalc_flags s \<and>
    task_old_lines w = list_boq_lines_by_event s ''etender'' (task_event_id w) \<and>
    (\<exists>raw p previous now_fields e. previous = (case current_version s tid of None \<Rightarrow> [] | Some v \<Rightarrow> normalized_fields v) \<and>
       fetch_details (task_event_id w) = Inr (raw, p) \<and> normalize_event_details p = Inr now_fields \<and>
       change_events u = change_events s @ [(task_change_id w, e)] \<and> ce_tender_id e = tid \<and>
       changed_fields e = map change_json (diff_normalized_fields previous now_fields) \<and>
       diff_normalized_fields previous now_fields \<noteq> [] \<and>
       change_type e = classify_change_type (diff_normalized_fields previous now_fields))"
proof -
  from assms obtain ev raw p r s1 where f: "fetch_details ev = Inr (raw, p)" and
    1: "ingest_event_details env raw p cid s = (Inr r, s1)" and
    2: "compare_details env tid cid obs ev (case current_version s tid of None \<Rightarrow> [] | Some v \<Rightarrow> normalized_fields v) r s1 = (Inr (Inr w), u)"
    by (rule check_details_Inr)
  from 1 obtain i where "ingest env EVENT_DETAILS_CONTRACT [(''id'', i)] raw p normalize_event_details cid None s = (Inr r, s1)"
    by (auto simp: ingest_event_details_def bind_Inr)
  then have k: "same_lines s s1" and nf: "\<And>ver v. r = Ingested (ver, v) \<Longrightarrow> normalize_event_details p = Inr (normalized_fields v)"
    by (rule ingest_Inr, simp)+
  note ev = compare_details_event[OF 2]
  from 2 obtain ver v t where r: "r = Ingested (ver, v)" and
    ce: "store_tender_change_event tid (task_type w)
      (diff_normalized_fields (case current_version s tid of None \<Rightarrow> [] | Some v \<Rightarrow> normalized_fields v) (normalized_fields v)) t
      (tv_raw_snapshot_id v) s1 = (Inr (task_change_id w), u)" and
    w: "task_type w = classify_change_type
      (diff_normalized_fields (case current_version s tid of None \<Rightarrow> [] | Some v \<Rightarrow> normalized_fields v) (normalized_fields v))"
    "task_old_lines w = list_boq_lines_by_event u ''etender'' (task_event_id w)"
    "diff_normalized_fields (case current_version s tid of None \<Rightarrow> [] | Some v \<Rightarrow> normalized_fields v) (normalized_fields v) \<noteq> []"
    by (auto simp: compare_details_def bind_Inr then_db_Inr iso_op_Inr Let_def split: ingested.splits prod.splits if_splits)
  note u = store_change_event_Inr[OF ce]
  have "list_boq_lines_by_event u ''etender'' x = list_boq_lines_by_event s ''etender'' x" for x
    using k by (simp add: u same_lines_def list_boq_lines_by_event_def)
  with k w show ?thesis using f[folded ev] nf[OF r] by (auto simp: u same_lines_def)
qed

lemma check_finish_Inr:
  assumes "check_finish env tid obs w new s = (Inr r, t)"
  obtains ks ts s1 where "env_iso env obs = Some ts" "diff_boq_lines (task_old_lines w) new = Inr ks"
    "for_each (flag_line tid (task_change_id w) ts) ks s = (Inr (), s1)"
    "t = s1\<lparr>watch_states := AList.update tid ts (watch_states s1)\<rparr>" "flagged_line_count r = length ks"
  using assms
  by (auto simp: check_finish_def bind_Inr then_db_Inr iso_op_Inr upsert_watch_state_def split: if_splits)

lemma flag_lines_keep:
  "for_each (flag_line tid ce t) ks s = (Inr (), u) \<Longrightarrow> boq_lines u = boq_lines s \<and> change_events u = change_events s"
proof (induction ks arbitrary: s)
  case (Cons k ks)
  then obtain s1 where 1: "flag_line tid ce t k s = (Inr (), s1)" "for_each (flag_line tid ce t) ks s1 = (Inr (), u)"
    by (auto simp: then_db_Inr)
  from 1(1) obtain i where "k = JInt i" by (auto simp: flag_line_def bind_Inr int_column_def split: json.splits)
  with 1(1) flag_line_Inr have "boq_lines s1 = boq_lines s \<and> change_events s1 = change_events s" by fastforce
  with Cons.IH[OF 1(2)] show ?case by simp
qed simp

lemma check_details_finished:
  assumes "check_details env tid fetch_details cid obs s = (Inr (Inl r), u)"
  shows "r = no_change"
proof -
  from assms obtain ev raw p q s1 where
    "compare_details env tid cid obs ev (case current_version s tid of None \<Rightarrow> [] | Some v \<Rightarrow> normalized_fields v) q s1 = (Inr (Inl r), u)"
    by (rule check_details_Inr)
  then show ?thesis
    by (cases q) (auto simp: compare_details_def bind_Inr then_db_Inr Let_def split: prod.splits if_splits)
qed

lemma check_walked:
  assumes "check_tender_for_changes env fuel tid fetch_details fetch_page beat cid obs s = Some (Inr r, t)" "change_detected r"
  obtains w u new v where "check_details env tid fetch_details cid obs s = (Inr (Inr w), u)"
    "walk_pages env fetch_page beat (task_event_id w) cid fuel 1 [] u = Some (Inr new, v)"
    "check_finish env tid obs w new v = (Inr r, t)"
proof -
  obtain x u where x: "check_details env tid fetch_details cid obs s = (x, u)"
    by (cases "check_details env tid fetch_details cid obs s")
  have "\<nexists>q. x = Inr (Inl q)"
  proof
    assume "\<exists>q. x = Inr (Inl q)"
    then obtain q where "x = Inr (Inl q)" ..
    with x check_details_finished[of env tid fetch_details cid obs s q u] have "q = no_change" by simp
    with \<open>x = Inr (Inl q)\<close> x assms show False by (auto simp: check_tender_for_changes_def no_change_def)
  qed
  with assms x obtain w where w: "x = Inr (Inr w)"
    by (auto simp: check_tender_for_changes_def split: sum.splits)
  with assms x obtain new v where "walk_pages env fetch_page beat (task_event_id w) cid fuel 1 [] u = Some (Inr new, v)"
    "check_finish env tid obs w new v = (Inr r, t)"
    by (auto simp: check_tender_for_changes_def split: option.splits sum.splits)
  with x w that show ?thesis by blast
qed

text \<open>The fields of a tender, its id apart, whose values Python does not find equal; a missing field is null.\<close>

definition differing_fields :: "jobject \<Rightarrow> jobject \<Rightarrow> string set" where
  "differing_fields old new = {k \<in> fst ` set old \<union> fst ` set new. k \<noteq> ''id'' \<and> \<not> py_eq (jget old k) (jget new k)}"

lemma diff_normalized_fields_eq:
  "map change_json (diff_normalized_fields old new) =
     map (\<lambda>k. [(''field'', JStr k), (''old_value'', jget old k), (''new_value'', jget new k)]) (sorted_list_of_set (differing_fields old new))"
proof -
  let ?ks = "filter (\<lambda>k. \<not> py_eq (jget old k) (jget new k)) (sorted_set (filter (\<lambda>k. k \<notin> set IGNORED_FIELDS) (map fst old @ map fst new)))"
  have "set ?ks = differing_fields old new" by (auto simp: differing_fields_def IGNORED_FIELDS_def image_iff)
  moreover have "sorted ?ks" "distinct ?ks" by (simp_all add: sorted_wrt_filter)
  ultimately have "?ks = sorted_list_of_set (differing_fields old new)" by (metis sorted_list_of_set.idem_if_sorted_distinct)
  then show ?thesis by (simp add: diff_normalized_fields_def change_json_def comp_def)
qed

lemma classify_change_type_eq:
  "classify_change_type (diff_normalized_fields old new) =
     (if differing_fields old new \<inter> {''end_date'', ''envelope_date'', ''start_date''} \<noteq> {} then ''deadline_shift'' else ''document_changed'')"
proof -
  have "list_ex (\<lambda>c. fch_field c \<in> set DEADLINE_FIELDS) (diff_normalized_fields old new) \<longleftrightarrow>
      (\<exists>k \<in> differing_fields old new. k \<in> set DEADLINE_FIELDS)"
    by (auto simp: list_ex_iff diff_normalized_fields_def differing_fields_def IGNORED_FIELDS_def)
  then show ?thesis by (auto simp: classify_change_type_def DEADLINE_FIELDS_def)
qed

text \<open>
  C29. A check that finds a change records one change event, with the differing fields of the
  tender (the last stored version against the details just fetched) in order, each with its old
  and its new value, as a shift of the deadline if one of its three dates differs; and it flags
  exactly the lines that differ, provided the ids of the fetched lines are integers: the lines of
  the tender stored before and those of the pages just fetched are compared as maps from line ids
  to description, unit, quantity, rate and amount; a line that was added, removed or altered gets
  one open flag, in the order of the ids, and no other line gets one. The stored lines stay as
  they were.
\<close>

theorem change_check_flags:
  assumes "check_tender_for_changes env fuel tid fetch_details fetch_page beat cid obs s = Some (Inr r, t)" "change_detected r"
  shows "\<exists>w u v new ts e. check_details env tid fetch_details cid obs s = (Inr (Inr w), u) \<and>
    walk_pages env fetch_page beat (task_event_id w) cid fuel 1 [] u = Some (Inr new, v) \<and>
    boq_lines t = boq_lines s \<and> change_events t = change_events s @ [(task_change_id w, e)] \<and> ce_tender_id e = tid \<and>
    (\<exists>raw p new_fields. fetch_details (task_event_id w) = Inr (raw, p) \<and> normalize_event_details p = Inr new_fields \<and>
       (let old_fields = (case current_version s tid of None \<Rightarrow> [] | Some v \<Rightarrow> normalized_fields v);
            ks = differing_fields old_fields new_fields in
        ks \<noteq> {} \<and>
        changed_fields e = map (\<lambda>k. [(''field'', JStr k), (''old_value'', jget old_fields k), (''new_value'', jget new_fields k)])
          (sorted_list_of_set ks) \<and>
        change_type e = (if ks \<inter> {''end_date'', ''envelope_date'', ''start_date''} \<noteq> {} then ''deadline_shift'' else ''document_changed''))) \<and>
    env_iso env obs = Some ts \<and> get_watch_state t tid = Some ts \<and>
    (integer_ids new \<longrightarrow>
       (let changed = {i. old_lines_map (list_boq_lines_by_event s ''etender'' (task_event_id w)) i \<noteq> new_lines_map new i} in
        finite changed \<and> flagged_line_count r = card changed \<and>
        (\<exists>rows. recalc_flags t = recalc_flags s @ rows \<and>
           map snd rows = map (open_flag tid (task_change_id w) ts) (sorted_list_of_set changed))))"
proof -
  from assms obtain w u new v where 1: "check_details env tid fetch_details cid obs s = (Inr (Inr w), u)"
    "walk_pages env fetch_page beat (task_event_id w) cid fuel 1 [] u = Some (Inr new, v)"
    "check_finish env tid obs w new v = (Inr r, t)"
    by (rule check_walked)
  note d = check_details_walk[OF 1(1)] and k = walk_pages_kept[OF 1(2)]
  from 1(3) obtain ks ts s1 where 2: "env_iso env obs = Some ts" "diff_boq_lines (task_old_lines w) new = Inr ks"
    "for_each (flag_line tid (task_change_id w) ts) ks v = (Inr (), s1)"
    "t = s1\<lparr>watch_states := AList.update tid ts (watch_states s1)\<rparr>" "flagged_line_count r = length ks"
    by (rule check_finish_Inr)
  from flag_lines_keep[OF 2(3)] 2(4) have t: "boq_lines t = boq_lines v" "change_events t = change_events v"
      "recalc_flags t = recalc_flags s1" "get_watch_state t tid = Some ts"
    by (simp_all add: get_watch_state_def update_conv')
  define changed where "changed = {i. old_lines_map (list_boq_lines_by_event s ''etender'' (task_event_id w)) i \<noteq> new_lines_map new i}"
  have f: "finite changed \<and> flagged_line_count r = card changed \<and> (\<exists>rows. recalc_flags t = recalc_flags s @ rows \<and>
      map snd rows = map (open_flag tid (task_change_id w) ts) (sorted_list_of_set changed))" if "integer_ids new"
  proof -
    from diff_boq_lines_meaning[OF that 2(2)] d have ks: "finite changed" "ks = map JInt (sorted_list_of_set changed)"
      by (simp_all add: changed_def)
    from flag_lines_Inr[OF 2(3)[unfolded ks(2)]] obtain rows where rows: "s1 = v\<lparr>recalc_flags := recalc_flags v @ rows\<rparr>"
      "map snd rows = map (open_flag tid (task_change_id w) ts) (sorted_list_of_set changed)" by blast
    have "recalc_flags t = recalc_flags s @ rows" using t(3) rows(1) d k by (simp add: tracking_kept_def)
    with rows(2) ks 2(5) show ?thesis by auto
  qed
  from d obtain raw p previous nf e where e: "change_events u = change_events s @ [(task_change_id w, e)]" "ce_tender_id e = tid"
      and p: "fetch_details (task_event_id w) = Inr (raw, p)" "normalize_event_details p = Inr nf"
      and pr: "previous = (case current_version s tid of None \<Rightarrow> [] | Some v \<Rightarrow> normalized_fields v)"
      and df: "changed_fields e = map change_json (diff_normalized_fields previous nf)" "diff_normalized_fields previous nf \<noteq> []"
        "change_type e = classify_change_type (diff_normalized_fields previous nf)"
    by blast
  from df(2) have "map change_json (diff_normalized_fields previous nf) \<noteq> []" by simp
  then have ne: "differing_fields previous nf \<noteq> {}" unfolding diff_normalized_fields_eq by auto
  show ?thesis
    unfolding Let_def changed_def[symmetric]
    by (intro exI[of _ w] exI[of _ u] exI[of _ v] exI[of _ new] exI[of _ ts] exI[of _ e] conjI exI[of _ raw] exI[of _ p] exI[of _ nf])
      (use 1 2(1) t k d e f p ne df(1,3) in \<open>simp_all add: pr[symmetric] diff_normalized_fields_eq classify_change_type_eq tracking_kept_def
        changed_def\<close>)
qed

definition tracked_db :: ingest_db where
  "tracked_db =
     snd (process_bom_lines_page sample_env sample_job two_lines
       (snd (ingest_event_details sample_env ''raw'' sample_event ''c'' empty_ingest_db)))"

definition later_details :: "int \<Rightarrow> api_error + (string \<times> jobject)" where
  "later_details ev = Inr (''later'', AList.update ''endDate'' (JInt 9) sample_event)"

definition later_page :: "int \<Rightarrow> int \<Rightarrow> api_error + (string \<times> jobject)" where
  "later_page ev page = Inr (''later'', bom_page 1 (JInt 1) [typed_item 10, typed_item 12])"

definition check_run :: "((api_error + check_result) \<times> ingest_db) option" where
  "check_run = check_tender_for_changes sample_env 1 1 later_details later_page (\<lambda>page. Inr ()) ''c'' ''t'' tracked_db"

lemma check_run_result:
  "map_option (\<lambda>(r, t). (r, map (flag_line_id \<circ> snd) (recalc_flags t))) check_run =
     Some (Inr \<lparr>change_detected = True, detected_type = Some ''deadline_shift'', flagged_line_count = 2\<rparr>, [11, 12])"
  by code_simp

theorem change_check_flags_witness:
  "\<exists>r t. check_run = Some (Inr r, t) \<and> boq_lines t = boq_lines tracked_db \<and> (\<exists>rows. change_events t = change_events tracked_db @ rows \<and> length rows = 1)"
proof -
  from check_run_result obtain r t where rt: "check_run = Some (Inr r, t)" "change_detected r" by auto
  from change_check_flags[OF rt(1)[unfolded check_run_def] rt(2)] have
    "boq_lines t = boq_lines tracked_db" "\<exists>rows. change_events t = change_events tracked_db @ rows \<and> length rows = 1" by auto
  with rt(1) show ?thesis by blast
qed

section \<open>The scheduler\<close>

text \<open>\<open>on_work\<close> of an enqueued job: the job is appended, everything else stays.\<close>

lemma schedule_check_Inr:
  assumes "schedule_check tid s = (Inr (), t)"
  shows "map snd (jobs (work t)) = map snd (jobs (work s)) @ [new_job (check_job tid) (clock s)]"
    "watch_states t = AList.update tid (clock s) (watch_states s)" "clock t = clock s"
  using assms
  by (auto simp: schedule_check_def on_work_def enqueue_job_def upsert_watch_state_def db_simps split: if_splits)

lemma schedule_checks_Inr:
  assumes "for_each schedule_check due s = (Inr (), t)"
  shows "map snd (jobs (work t)) = map snd (jobs (work s)) @ map (\<lambda>tid. new_job (check_job tid) (clock s)) due \<and> clock t = clock s \<and>
    (\<forall>tid. get_watch_state t tid = (if tid \<in> set due then Some (clock s) else get_watch_state s tid))"
  using assms
proof (induction due arbitrary: s)
  case (Cons i due)
  then obtain s1 where 1: "schedule_check i s = (Inr (), s1)" "for_each schedule_check due s1 = (Inr (), t)"
    by (auto simp: then_db_Inr)
  from Cons.IH[OF 1(2)] schedule_check_Inr[OF 1(1)] show ?case
    by (auto simp: get_watch_state_def update_conv')
qed simp

text \<open>
  One run of the scheduler enqueues exactly one check job for every tender whose latest
  decision is a bid or a conditional bid and whose last check is at least the interval ago (or
  never happened), in the order of the ids. As long as the same tenders are tracked, no later
  run within the interval enqueues any of them again.
\<close>

theorem checks_scheduled_once:
  assumes "enqueue_due_tender_checks s = (Inr n, t)"
  shows "\<exists>due. set due = {tid \<in> set (list_tenders_with_active_bid_decision (decision_db.truncate s)).
        case get_watch_state s tid of None \<Rightarrow> True | Some c \<Rightarrow> c \<le> clock s - TENDER_WATCH_POLL_INTERVAL_HOURS * 3600} \<and>
      distinct due \<and> n = length due \<and>
      map snd (jobs (work t)) = map snd (jobs (work s)) @ map (\<lambda>tid. new_job (check_job tid) (clock s)) due \<and>
      (\<forall>u m v. enqueue_due_tender_checks u = (Inr m, v) \<longrightarrow> watch_states u = watch_states t \<longrightarrow>
         clock u < clock s + TENDER_WATCH_POLL_INTERVAL_HOURS * 3600 \<longrightarrow>
         (\<forall>tid \<in> set due. \<exists>rest. map snd (jobs (work v)) = map snd (jobs (work u)) @ rest \<and>
            new_job (check_job tid) (clock u) \<notin> set rest))"
proof -
  define due where "due u = list_tenders_due_for_check u (list_tenders_with_active_bid_decision (decision_db.truncate u)) (clock u)
    TENDER_WATCH_POLL_INTERVAL_HOURS" for u
  have run: "m = length (due u) \<and> for_each schedule_check (due u) u = (Inr (), v)" if "enqueue_due_tender_checks u = (Inr m, v)" for u m v
    using that by (auto simp: enqueue_due_tender_checks_def bind_Inr then_db_Inr due_def)
  have set: "set (due u) = {tid \<in> set (list_tenders_with_active_bid_decision (decision_db.truncate u)).
      case get_watch_state u tid of None \<Rightarrow> True | Some c \<Rightarrow> c \<le> clock u - TENDER_WATCH_POLL_INTERVAL_HOURS * 3600}" for u
    by (simp add: due_def list_tenders_due_for_check_def)
  have dist: "distinct (due s)"
    by (simp add: due_def list_tenders_due_for_check_def list_tenders_with_active_bid_decision_def)
  note s1 = run[OF assms] and s2 = schedule_checks_Inr[OF conjunct2[OF run[OF assms]]]
  have "\<exists>rest. map snd (jobs (work v)) = map snd (jobs (work u)) @ rest \<and> new_job (check_job tid) (clock u) \<notin> set rest"
    if u: "enqueue_due_tender_checks u = (Inr m, v)" "watch_states u = watch_states t"
      "clock u < clock s + TENDER_WATCH_POLL_INTERVAL_HOURS * 3600" "tid \<in> set (due s)" for u m v tid
  proof -
    from u(4) s2 have "get_watch_state t tid = Some (clock s)" by simp
    with u(2) have "get_watch_state u tid = Some (clock s)" by (simp add: get_watch_state_def)
    with u(3) have "tid \<notin> set (due u)" by (simp add: set)
    moreover have "new_job (check_job i) c = new_job (check_job j) c \<Longrightarrow> i = j" for i j c
      by (simp add: new_job_def check_job_def job_identity.defs)
    ultimately show ?thesis using schedule_checks_Inr[OF conjunct2[OF run[OF u(1)]]] by auto
  qed
  with s1 s2 set dist show ?thesis by (intro exI[of _ "due s"]) blast
qed

definition bid_db :: ingest_db where
  "bid_db = tracked_db\<lparr>decisions := [(1, \<lparr>decision_tender_id = 1, decision_type = ''bid'', conditions = [],
     deadline = None, justification = [], decision_actor = ''ann'', decided_at = 0, go_no_go_inputs_id = None,
     bid_readiness_candidate_id = None\<rparr>)]\<rparr>"

theorem checks_scheduled_once_witness:
  "\<exists>due. set due = {1} \<and> map snd (jobs (work (snd (enqueue_due_tender_checks bid_db)))) = map snd (jobs (work bid_db)) @
     map (\<lambda>tid. new_job (check_job tid) 0) due"
proof -
  have "fst (enqueue_due_tender_checks bid_db) = Inr 1" by code_simp
  then have r: "enqueue_due_tender_checks bid_db = (Inr 1, snd (enqueue_due_tender_checks bid_db))" by (metis prod.collapse)
  have c: "clock bid_db = 0" by code_simp
  have d: "list_tenders_with_active_bid_decision (decision_db.truncate bid_db) = [1]" "get_watch_state bid_db 1 = None" by code_simp+
  have one: "P 1 \<Longrightarrow> {tid \<in> set [1 :: int]. P tid} = {1}" for P by auto
  show ?thesis
  proof (rule exE[OF checks_scheduled_once[OF r]], elim conjE)
    fix due
    assume due: "set due = {tid \<in> set (list_tenders_with_active_bid_decision (decision_db.truncate bid_db)).
        case get_watch_state bid_db tid of None \<Rightarrow> True | Some c \<Rightarrow> c \<le> clock bid_db - TENDER_WATCH_POLL_INTERVAL_HOURS * 3600}"
    have "set due = {1}" unfolding due d(1) by (rule one) (simp only: d(2) option.case)
    moreover assume "map snd (jobs (work (snd (enqueue_due_tender_checks bid_db)))) = map snd (jobs (work bid_db)) @
      map (\<lambda>tid. new_job (check_job tid) (clock bid_db)) due"
    ultimately show ?thesis unfolding c by (intro exI conjI)
  qed
qed

end
