(* ===== verification/Signals.thy ===== *)
theory Signals
  imports Ingestion
begin

text \<open>
  Signals and forecasts: the signal models (\<open>packages/tender/signal_model.py\<close>,
  \<open>procurement_plan_signal.py\<close>, \<open>design_tender_signal.py\<close>, \<open>az_region_identity.py\<close>), the
  connectors and page jobs that store them, \<open>signals_store.py\<close>, the composite trigger
  (\<open>object_intersection.py\<close>), forecast cards and their snapshots (\<open>forecast_card.py\<close>,
  \<open>forecast_snapshot_store.py\<close>) and the routes on them in \<open>apps/api_tender/routers/calibration.py\<close>.

  \<open>isof\<close> is \<open>isoformat\<close>. A signal is built as a \<open>draft\<close>, whose object fields may still be any JSON
  value; storing it applies the types of the columns.
\<close>

section \<open>Regions and keywords\<close>

definition KNOWN_REGIONS :: "(string \<times> string list) list" where
  "KNOWN_REGIONS =
     [(''Zaqatala'', [''ZAQATALA'']),
      ([CHR ''S'', CHR ''i'', CHR ''y'', CHR 0xC9, CHR 0x99, CHR ''z'', CHR 0xC9, CHR 0x99, CHR ''n''],
       [[CHR ''S'', CHR 0xC4, CHR 0xB0, CHR ''Y'', CHR 0xC6, CHR 0x8F, CHR ''Z'', CHR 0xC6, CHR 0x8F, CHR ''N'']]),
      (''Lerik'', [[CHR ''L'', CHR ''E'', CHR ''R'', CHR 0xC4, CHR 0xB0, CHR ''K'']]),
      ([CHR ''N'', CHR ''a'', CHR ''x'', CHR 0xC3, CHR 0xA7, CHR 0xC4, CHR 0xB1, CHR ''v'', CHR ''a'', CHR ''n''],
       [[CHR ''N'', CHR ''A'', CHR ''X'', CHR 0xC3, CHR 0x87, CHR ''I'', CHR ''V'', CHR ''A'', CHR ''N'']])]"

definition canonicalize_region :: "ingest_env \<Rightarrow> string \<Rightarrow> string option" where
  "canonicalize_region env t =
     (let up = env_upper env t
      in map_option fst (find (\<lambda>(c, tokens). list_ex (\<lambda>tok. contains tok up) tokens) KNOWN_REGIONS))"

definition DESIGN_TENDER_STEMS :: "string list" where
  "DESIGN_TENDER_STEMS =
     (let layih = ''layih'' @ [CHR 0xC9, CHR 0x99] in
      [layih @ ''-smeta'', layih @ '' smeta'', layih @ ''smeta'', layih @ ''l'' @ [CHR 0xC9, CHR 0x99] @ ''n'',
       layih @ ''l'' @ [CHR 0xC9, CHR 0x99] @ ''m''])"

definition classify_design_tender :: "ingest_env \<Rightarrow> string \<Rightarrow> bool" where
  "classify_design_tender env name = (let low = env_lower env name in list_ex (\<lambda>stem. contains stem low) DESIGN_TENDER_STEMS)"

section \<open>Building signals\<close>

record draft =
  dr_type :: string
  dr_source :: string
  dr_snapshot_id :: int
  dr_value :: jobject
  dr_observed_at :: string
  dr_ttl_class :: string
  dr_confidence :: string
  dr_customer :: json
  dr_region :: json
  dr_project_type :: json
  dr_correlation_id :: string

definition json_or :: "json \<Rightarrow> json \<Rightarrow> json" where
  "json_or a b = (if truthy a then a else b)"

text \<open>The name of the first theme; a first theme that is not an object has no \<open>get\<close>.\<close>

definition theme_name :: "jobject \<Rightarrow> api_error + json" where
  "theme_name d =
     (case jget d ''mjtheme_namecode'' of
        JArr (JObj t # _) \<Rightarrow> Inr (if truthy (jget t ''name'') then jget t ''name'' else JNull)
      | JArr (x # _) \<Rightarrow> Inl (Exc ''AttributeError'' [''get''])
      | JArr [] \<Rightarrow> Inr JNull
      | v \<Rightarrow> if truthy v then Inl (Exc ''TypeError'' []) else Inr JNull)"

definition first_country :: "jobject \<Rightarrow> api_error + json" where
  "first_country d =
     (case jget d ''countryname'' of
        JArr (c # _) \<Rightarrow> Inr c
      | v \<Rightarrow> if truthy v then Inl (Exc ''TypeError'' []) else Inr JNull)"

definition build_donor_pipeline_signal :: "jobject \<Rightarrow> int \<Rightarrow> string \<Rightarrow> string \<Rightarrow> api_error + draft" where
  "build_donor_pipeline_signal d snap obs cid =
     sum_bind (theme_name d) (\<lambda>theme.
     sum_bind (field d ''id'') (\<lambda>i.
     sum_bind (field d ''project_name'') (\<lambda>name.
     sum_bind (field d ''status'') (\<lambda>st.
     sum_bind (field d ''totalamt'') (\<lambda>amt.
     sum_bind (field d ''lendinginstr'') (\<lambda>instr.
     sum_bind (field d ''url'') (\<lambda>url.
     sum_bind (first_country d) (\<lambda>country.
     sum_bind (if truthy theme then Inr theme else field d ''mjthemecode'') (\<lambda>ptype.
     Inr \<lparr>dr_type = ''donor_pipeline_project'', dr_source = ''worldbank_projects_api'', dr_snapshot_id = snap,
          dr_value = [(''project_id'', i), (''project_name'', name), (''status'', st), (''total_amount_usd_text'', amt),
             (''board_approval_date'', jget d ''boardapprovaldate''), (''closing_date'', jget d ''closingdate''),
             (''lending_instrument'', instr), (''url'', url)],
          dr_observed_at = obs, dr_ttl_class = ''funding_decision'', dr_confidence = ''official_source'',
          dr_customer = json_or (jget d ''impagency'') (jget d ''borrower''), dr_region = country, dr_project_type = ptype,
          dr_correlation_id = cid\<rparr>)))))))))"

definition region_of :: "ingest_env \<Rightarrow> json \<Rightarrow> api_error + json" where
  "region_of env v =
     (case v of JStr t \<Rightarrow> Inr (json_opt (canonicalize_region env t)) | _ \<Rightarrow> Inl (Exc ''AttributeError'' [''upper'']))"

definition build_procurement_plan_signal :: "ingest_env \<Rightarrow> jobject \<Rightarrow> int \<Rightarrow> string \<Rightarrow> string \<Rightarrow> api_error + draft" where
  "build_procurement_plan_signal env d snap obs cid =
     sum_bind (field d ''id'') (\<lambda>i.
     sum_bind (field d ''organizationName'') (\<lambda>org.
     sum_bind (field d ''year'') (\<lambda>year.
     sum_bind (field d ''createDate'') (\<lambda>created.
     sum_bind (region_of env org) (\<lambda>region.
     Inr \<lparr>dr_type = ''procurement_plan'', dr_source = ''etender'', dr_snapshot_id = snap,
          dr_value = [(''app_id'', i), (''organization_name'', org), (''year'', year), (''create_date'', created)],
          dr_observed_at = obs, dr_ttl_class = ''procurement_plan'', dr_confidence = ''official_source'',
          dr_customer = org, dr_region = region, dr_project_type = JNull, dr_correlation_id = cid\<rparr>)))))"

definition build_design_tender_signal :: "ingest_env \<Rightarrow> jobject \<Rightarrow> int \<Rightarrow> string \<Rightarrow> string \<Rightarrow> api_error + draft" where
  "build_design_tender_signal env d snap obs cid =
     sum_bind (field d ''eventId'') (\<lambda>i.
     sum_bind (field d ''eventName'') (\<lambda>name.
     sum_bind (region_of env (case map_of d ''buyerOrganizationName'' of None \<Rightarrow> JStr [] | Some v \<Rightarrow> v)) (\<lambda>region.
     Inr \<lparr>dr_type = ''design_tender'', dr_source = ''etender'', dr_snapshot_id = snap,
          dr_value = [(''event_id'', i), (''event_name'', name), (''publish_date'', jget d ''publishDate''),
             (''is_awarded'', JBool (jget d ''awardedParticipantName'' \<noteq> JNull)),
             (''awarded_participant_name'', jget d ''awardedParticipantName'')],
          dr_observed_at = obs, dr_ttl_class = ''design_phase_tender'', dr_confidence = ''official_source'',
          dr_customer = jget d ''buyerOrganizationName'', dr_region = region, dr_project_type = JNull, dr_correlation_id = cid\<rparr>)))"

section \<open>Storing signals\<close>

definition store_signal :: "ingest_env \<Rightarrow> draft \<Rightarrow> int ingest_op" where
  "store_signal env d =
     bind (of_sum (case env_iso env (dr_observed_at d) of None \<Rightarrow> Inl (Exc ''ValueError'' [dr_observed_at d]) | Some t \<Rightarrow> Inr t)) (\<lambda>t.
     bind (of_sum (text_column (dr_customer d))) (\<lambda>cust.
     bind (of_sum (text_column (dr_region d))) (\<lambda>region.
     bind (of_sum (text_column (dr_project_type d))) (\<lambda>ptype.
     bind (gets id) (\<lambda>s.
     then_db (guard (dr_snapshot_id d \<in> fst ` set (raw_snapshots s)) (Exc ''IntegrityError'' [''signals_raw_snapshot_id_fkey''])) (
     let i = next_id (signals s) in
     then_db (modify (\<lambda>s. s\<lparr>signals := signals s @ [(i,
        \<lparr>signal_type = dr_type d, signal_source = dr_source d, signal_snapshot_id = dr_snapshot_id d, signal_value = dr_value d,
         observed_at = t, ttl_class = dr_ttl_class d, confidence = dr_confidence d, object_customer = cust,
         object_region = region, object_project_type = ptype, signal_correlation_id = dr_correlation_id d\<rparr>)]\<rparr>))
     (ret i)))))))"

definition list_signals :: "ingest_db \<Rightarrow> string \<Rightarrow> (int \<times> signal) list" where
  "list_signals s ty = sort_key fst (filter (\<lambda>(i, r). signal_type r = ty) (signals s))"

definition list_signals_by_object_region :: "ingest_db \<Rightarrow> string \<Rightarrow> (int \<times> signal) list" where
  "list_signals_by_object_region s region =
     sort_key (observed_at \<circ> snd) (filter (\<lambda>(i, r). object_region r = Some region) (signals s))"

text \<open>\<open>for item in items: ... signal_ids.append(await store_signal(conn, signal))\<close>\<close>

fun store_items :: "ingest_env \<Rightarrow> (json \<Rightarrow> api_error + draft option) \<Rightarrow> json list \<Rightarrow> int list ingest_op" where
  "store_items env build [] = ret []"
| "store_items env build (x # xs) =
     bind (of_sum (build x)) (\<lambda>d.
     case d of
       None \<Rightarrow> store_items env build xs
     | Some d \<Rightarrow>
         bind (store_signal env d) (\<lambda>i.
         bind (store_items env build xs) (\<lambda>is.
         ret (i # is))))"

definition on_object :: "(jobject \<Rightarrow> api_error + 'a) \<Rightarrow> json \<Rightarrow> api_error + 'a" where
  "on_object f v = (case v of JObj d \<Rightarrow> f d | _ \<Rightarrow> Inl (Exc ''TypeError'' []))"

definition design_draft :: "ingest_env \<Rightarrow> int \<Rightarrow> string \<Rightarrow> string \<Rightarrow> jobject \<Rightarrow> api_error + draft option" where
  "design_draft env snap obs cid d =
     sum_bind (field d ''eventName'') (\<lambda>v.
     case v of
       JStr name \<Rightarrow>
         if \<not> classify_design_tender env name then Inr None
         else sum_bind (build_design_tender_signal env d snap obs cid) (\<lambda>x. Inr (Some x))
     | _ \<Rightarrow> Inl (Exc ''AttributeError'' [''lower'']))"

definition ingest_design_tender_signals_page :: "ingest_env \<Rightarrow> string \<Rightarrow> jobject \<Rightarrow> jobject \<Rightarrow> string \<Rightarrow> string \<Rightarrow> int list ingested ingest_op" where
  "ingest_design_tender_signals_page env raw p query cid obs =
     bind (ingest_events_list_page env raw p query cid) (\<lambda>r.
     case r of
       Drifted d name snap \<Rightarrow> ret (Drifted d name snap)
     | Ingested (ver, v) \<Rightarrow>
         bind (of_sum (list_field p ''items'')) (\<lambda>items.
         bind (store_items env (on_object (design_draft env (tv_raw_snapshot_id v) obs cid)) items) (\<lambda>is.
         ret (Ingested is))))"

text \<open>The part \<open>ingest_procurement_plan_page\<close> and \<open>ingest_donor_pipeline_page\<close> share after the snapshot.\<close>

definition signals_or_drift :: "ingest_env \<Rightarrow> string \<Rightarrow> string \<Rightarrow> int \<Rightarrow> schema_drift \<times> string \<Rightarrow> (json \<Rightarrow> api_error + draft option) \<Rightarrow>
    json list \<Rightarrow> int list ingested ingest_op" where
  "signals_or_drift env key cid snap dn build items =
     (if has_drift (fst dn)
      then then_db (report_drift ''signal_source_contract'' (snd dn) key (fst dn) cid) (ret (Drifted (fst dn) (snd dn) snap))
      else bind (store_items env build items) (\<lambda>is. ret (Ingested is)))"

definition ingest_procurement_plan_page :: "ingest_env \<Rightarrow> string \<Rightarrow> jobject \<Rightarrow> int \<Rightarrow> int \<Rightarrow> string \<Rightarrow> string \<Rightarrow> string \<Rightarrow>
    int list ingested ingest_op" where
  "ingest_procurement_plan_page env raw p year page buyer cid obs =
     bind (identity_op env APP_LIST_PAGE_CONTRACT [(''Year'', JStr (str_int year)), (''PageNumber'', JStr (str_int page)),
        (''BuyerOrganizationName'', JStr buyer)]) (\<lambda>key.
     bind (save_raw_snapshot (env_sha env) (env_parse env) ''etender'' (sc_name APP_LIST_PAGE_CONTRACT) key raw
        (sc_name APP_LIST_PAGE_CONTRACT) cid) (\<lambda>snap.
     bind (of_sum (page_drift APP_LIST_PAGE_CONTRACT (Some (APP_ITEM_CONTRACT, ''items'')) p)) (\<lambda>dn.
     bind (of_sum (if has_drift (fst dn) then Inr [] else list_field p ''items'')) (\<lambda>items.
     signals_or_drift env key cid snap dn
       (on_object (\<lambda>d. sum_bind (build_procurement_plan_signal env d snap obs cid) (\<lambda>x. Inr (Some x)))) items))))"

text \<open>\<open>list(payload["projects"].values())\<close>, which the code reads before it looks for drift.\<close>

definition project_values :: "jobject \<Rightarrow> api_error + json list" where
  "project_values p =
     sum_bind (field p ''projects'') (\<lambda>v.
     case v of JObj d \<Rightarrow> Inr (map snd d) | _ \<Rightarrow> Inl (Exc ''AttributeError'' [''values'']))"

definition donor_drift :: "jobject \<Rightarrow> json list \<Rightarrow> api_error + (schema_drift \<times> string)" where
  "donor_drift p projects =
     (let d = detect_schema_drift DONOR_PIPELINE_PAGE_CONTRACT p in
      if has_drift d then Inr (d, sc_name DONOR_PIPELINE_PAGE_CONTRACT)
      else (case detect_schema_drift_over_items DONOR_PIPELINE_PROJECT_CONTRACT projects of
         None \<Rightarrow> Inl (Exc ''AttributeError'' [''keys''])
       | Some d' \<Rightarrow> Inr (d', sc_name DONOR_PIPELINE_PROJECT_CONTRACT)))"

definition ingest_donor_pipeline_page :: "ingest_env \<Rightarrow> string \<Rightarrow> jobject \<Rightarrow> int \<Rightarrow> string \<Rightarrow> string \<Rightarrow> int list ingested ingest_op" where
  "ingest_donor_pipeline_page env raw p os cid obs =
     bind (identity_op env DONOR_PIPELINE_PAGE_CONTRACT [(''countrycode_exact'', JStr ''AZ''), (''os'', JStr (str_int os))]) (\<lambda>key.
     bind (save_raw_snapshot (env_sha env) (env_parse env) ''worldbank_projects_api'' (sc_name DONOR_PIPELINE_PAGE_CONTRACT) key raw
        (sc_name DONOR_PIPELINE_PAGE_CONTRACT) cid) (\<lambda>snap.
     bind (of_sum (project_values p)) (\<lambda>projects.
     bind (of_sum (donor_drift p projects)) (\<lambda>dn.
     signals_or_drift env key cid snap dn
       (on_object (\<lambda>d. sum_bind (build_donor_pipeline_signal d snap obs cid) (\<lambda>x. Inr (Some x)))) projects))))"

section \<open>The page jobs\<close>

definition page_result :: "ingest_env \<Rightarrow> string \<Rightarrow> string \<Rightarrow> int list ingested \<Rightarrow> string \<Rightarrow> int \<Rightarrow> api_error + bool \<Rightarrow> jobject ingest_op" where
  "page_result env src cid r cursor next dn =
     (case r of
        Drifted d name snap \<Rightarrow>
          bind (queue_drift env src cid d name snap) (\<lambda>ex.
          bind (of_sum dn) (\<lambda>b.
          ret [(cursor, JInt next), (''done'', JBool b), (''signal_ids'', JArr []), (''exception_queue_id'', JInt ex)]))
      | Ingested is \<Rightarrow>
          bind (of_sum dn) (\<lambda>b.
          ret [(cursor, JInt next), (''done'', JBool b), (''signal_ids'', JArr (map JInt is))]))"

definition process_procurement_plan_page :: "ingest_env \<Rightarrow> job \<Rightarrow> (int \<Rightarrow> int \<Rightarrow> string \<Rightarrow> api_error + (string \<times> jobject)) \<Rightarrow> string \<Rightarrow>
    jobject ingest_op" where
  "process_procurement_plan_page env j fetch obs =
     bind (of_sum (job_param (params j) ''year'')) (\<lambda>year.
     bind (of_sum (case map_of (params j) ''buyer_organization_name'' of None \<Rightarrow> Inr [] | Some v \<Rightarrow> str_value v)) (\<lambda>buyer.
     bind (of_sum (checkpoint_int (checkpoint j) ''next_page'' 1)) (\<lambda>page.
     bind (of_sum (fetch year page buyer)) (\<lambda>(raw, p).
     bind (ingest_procurement_plan_page env raw p year page buyer (job_correlation_id j) obs) (\<lambda>r.
     page_result env ''etender'' (job_correlation_id j) r ''next_page'' (page + 1) (page_done page (jget p ''totalPages'')))))))"

definition process_design_tender_page :: "ingest_env \<Rightarrow> job \<Rightarrow> (jobject \<Rightarrow> int \<Rightarrow> api_error + (string \<times> jobject)) \<Rightarrow> string \<Rightarrow> jobject ingest_op" where
  "process_design_tender_page env j fetch obs =
     bind (of_sum (sum_bind (field (params j) ''query_params'') (on_object Inr))) (\<lambda>query.
     bind (of_sum (checkpoint_int (checkpoint j) ''next_page'' 1)) (\<lambda>page.
     bind (of_sum (fetch query page)) (\<lambda>(raw, p).
     bind (ingest_design_tender_signals_page env raw p query (job_correlation_id j) obs) (\<lambda>r.
     page_result env ''etender'' (job_correlation_id j) r ''next_page'' (page + 1) (page_done page (jget p ''totalPages''))))))"

text \<open>\<open>int(payload["total"])\<close>\<close>

definition total_of :: "jobject \<Rightarrow> api_error + int" where
  "total_of p =
     sum_bind (field p ''total'') (\<lambda>v.
     case v of
       JStr t \<Rightarrow> (case parse_int t of None \<Rightarrow> Inl (Exc ''ValueError'' [t]) | Some n \<Rightarrow> Inr n)
     | JInt n \<Rightarrow> Inr n
     | JFloat r \<Rightarrow> Inr (if 0 \<le> r then \<lfloor>r\<rfloor> else \<lceil>r\<rceil>)
     | JBool b \<Rightarrow> Inr (if b then 1 else 0)
     | _ \<Rightarrow> Inl (Exc ''TypeError'' []))"

definition process_worldbank_pipeline_page :: "ingest_env \<Rightarrow> job \<Rightarrow> (string \<Rightarrow> int \<Rightarrow> int \<Rightarrow> api_error + (string \<times> jobject)) \<Rightarrow> string \<Rightarrow>
    jobject ingest_op" where
  "process_worldbank_pipeline_page env j fetch obs =
     bind (of_sum (sum_bind (field (params j) ''countrycode_exact'') str_value)) (\<lambda>country.
     bind (of_sum (job_param (params j) ''rows'')) (\<lambda>rows.
     bind (of_sum (checkpoint_int (checkpoint j) ''next_os'' 0)) (\<lambda>os.
     bind (of_sum (fetch country rows os)) (\<lambda>(raw, p).
     bind (ingest_donor_pipeline_page env raw p os (job_correlation_id j) obs) (\<lambda>r.
     page_result env ''worldbank_projects_api'' (job_correlation_id j) r ''next_os'' (os + rows)
       (sum_bind (total_of p) (\<lambda>n. Inr (n \<le> os + rows))))))))"

section \<open>Freshness\<close>

definition KNOWN_SOURCES :: "string list" where
  "KNOWN_SOURCES = [''etender'', ''worldbank_projects_api'']"

text \<open>The sources the alert names; it fires when there is one.\<close>

definition source_never_succeeded :: "'t tender_db_scheme \<Rightarrow> string list" where
  "source_never_succeeded s = filter (\<lambda>src. last_fetched_at_by_source s src = None) KNOWN_SOURCES"

section \<open>Forecast cards\<close>

definition signal_types_of :: "(int \<times> signal) list \<Rightarrow> string list" where
  "signal_types_of rows = sorted_set (map (signal_type \<circ> snd) rows)"

definition is_composite :: "(int \<times> signal) list \<Rightarrow> bool" where
  "is_composite rows \<longleftrightarrow> 2 \<le> length (signal_types_of rows)"

record forecast_card =
  fc_region :: string
  fc_signal_types :: "string list"
  fc_budget :: "jobject option"
  fc_evidence :: "(int \<times> signal) list"

definition build_forecast_card :: "string \<Rightarrow> (int \<times> signal) list \<Rightarrow> forecast_card option" where
  "build_forecast_card region rows =
     (if \<not> is_composite rows then None
      else Some \<lparr>fc_region = region, fc_signal_types = signal_types_of rows,
        fc_budget = map_option (\<lambda>(i, r). jmerge [(''source'', JStr ''donor_pipeline_project'')] (signal_value r))
          (find (\<lambda>(i, r). signal_type r = ''donor_pipeline_project'') rows),
        fc_evidence = rows\<rparr>)"

definition detect_object_region_intersection :: "ingest_db \<Rightarrow> string \<Rightarrow> string list \<times> bool" where
  "detect_object_region_intersection s region =
     (let rows = list_signals_by_object_region s region in (signal_types_of rows, is_composite rows))"

definition build_object_region_forecast_card :: "ingest_db \<Rightarrow> string \<Rightarrow> forecast_card option" where
  "build_object_region_forecast_card s region = build_forecast_card region (list_signals_by_object_region s region)"

section \<open>Snapshots of forecast cards\<close>

definition evidence_entry :: "(int \<Rightarrow> string) \<Rightarrow> int \<times> signal \<Rightarrow> jobject" where
  "evidence_entry isof x =
     (case x of (i, r) \<Rightarrow>
        [(''signal_type'', JStr (signal_type r)), (''source'', JStr (signal_source r)), (''observed_at'', JStr (isof (observed_at r))),
         (''raw_snapshot_id'', JInt (signal_snapshot_id r)), (''value'', JObj (signal_value r))])"

definition earliest_observed_at :: "ingest_env \<Rightarrow> jobject list \<Rightarrow> int option" where
  "earliest_observed_at env chain =
     (let ts = List.map_filter (\<lambda>e. case jget e ''observed_at'' of JStr t \<Rightarrow> env_iso env t | _ \<Rightarrow> None) chain
      in if ts = [] then None else Some (Min (set ts)))"

definition store_forecast_card_snapshot :: "(int \<Rightarrow> string) \<Rightarrow> forecast_card \<Rightarrow> int \<Rightarrow> int ingest_op" where
  "store_forecast_card_snapshot isof c t =
     bind (gets (\<lambda>s. next_id (card_snapshots s))) (\<lambda>i.
     then_db (modify (\<lambda>s. s\<lparr>card_snapshots := card_snapshots s @ [(i,
        \<lparr>card_region = fc_region c, card_composite = True, card_signal_types = fc_signal_types c, card_budget = fc_budget c,
         card_evidence = map (evidence_entry isof) (fc_evidence c), card_computed_at = t\<rparr>)]\<rparr>))
     (ret i))"

definition load_forecast_card_snapshot :: "ingest_db \<Rightarrow> int \<Rightarrow> card_snapshot option" where
  "load_forecast_card_snapshot s i = map_of (card_snapshots s) i"

definition confirm_forecast_tender_link :: "int \<Rightarrow> int \<Rightarrow> string \<Rightarrow> string \<Rightarrow> int \<Rightarrow> int ingest_op" where
  "confirm_forecast_tender_link snap tid note who t =
     bind (gets id) (\<lambda>s.
     then_db (guard (snap \<in> fst ` set (card_snapshots s)) (Exc ''IntegrityError'' [''forecast_card_tender_links_snapshot_fkey''])) (
     then_db (guard (tid \<in> fst ` set (tenders s)) (Exc ''IntegrityError'' [''forecast_card_tender_links_tender_id_fkey''])) (
     then_db (guard (\<not> list_ex (\<lambda>(i, l). link_snapshot_id l = snap \<and> link_tender_id l = tid) (card_links s))
        (Exc ''IntegrityError'' [''forecast_card_tender_links_key''])) (
     let i = next_id (card_links s) in
     then_db (modify (\<lambda>s. s\<lparr>card_links := card_links s @ [(i,
        \<lparr>link_snapshot_id = snap, link_tender_id = tid, link_note = note, confirmed_by = who, confirmed_at = t\<rparr>)]\<rparr>))
     (ret i)))))"

definition list_links_by_snapshot :: "ingest_db \<Rightarrow> int \<Rightarrow> (int \<times> card_link) list" where
  "list_links_by_snapshot s snap = sort_key fst (filter (\<lambda>(i, l). link_snapshot_id l = snap) (card_links s))"

text \<open>\<open>(created_at - first).days\<close> rounds down; times are in seconds.\<close>

definition observed_lag_days :: "ingest_env \<Rightarrow> int \<Rightarrow> int \<Rightarrow> int option ingest_op" where
  "observed_lag_days env snap tid =
     bind (gets id) (\<lambda>s.
     case load_forecast_card_snapshot s snap of
       None \<Rightarrow> ret None
     | Some c \<Rightarrow>
         (case earliest_observed_at env (card_evidence c) of
            None \<Rightarrow> ret None
          | Some first \<Rightarrow>
              (case map_of (tenders s) tid of
                 None \<Rightarrow> raise (Exc ''NoResultFound'' [])
               | Some r \<Rightarrow> ret (Some ((tender_created_at r - first) div 86400)))))"

section \<open>The routes\<close>

definition post_forecast_snapshot :: "(int \<Rightarrow> string) \<Rightarrow> string option \<Rightarrow> string \<Rightarrow> (int \<times> card_snapshot) ingest_op" where
  "post_forecast_snapshot isof cookie region =
     route_of ''tender.forecast_snapshot.write'' cookie (\<lambda>ident.
     bind (gets (\<lambda>s. build_object_region_forecast_card s region)) (\<lambda>card.
     case card of
       None \<Rightarrow> raise (ApiError 409 ''no_forecast_card'' [region])
     | Some c \<Rightarrow>
         bind (gets clock) (\<lambda>t.
         bind (store_forecast_card_snapshot isof c t) (\<lambda>i.
         then_db (write_audit_log (subject ident) ''calibration.record_forecast_snapshot'' ''forecast_card_snapshot'' (str_int i) None None) (
         bind (gets (\<lambda>s. load_forecast_card_snapshot s i)) (\<lambda>row.
         case row of None \<Rightarrow> raise (Exc ''AssertionError'' []) | Some x \<Rightarrow> ret (i, x)))))))"

record link_response =
  lr_id :: int
  lr_link :: card_link
  lr_lag_days :: "int option"
  lr_first_observed_at :: "int option"

fun link_responses :: "ingest_env \<Rightarrow> int \<Rightarrow> int option \<Rightarrow> (int \<times> card_link) list \<Rightarrow> link_response list ingest_op" where
  "link_responses env snap first [] = ret []"
| "link_responses env snap first ((i, l) # ls) =
     bind (observed_lag_days env snap (link_tender_id l)) (\<lambda>lag.
     bind (link_responses env snap first ls) (\<lambda>rest.
     ret (\<lparr>lr_id = i, lr_link = l, lr_lag_days = lag, lr_first_observed_at = first\<rparr> # rest)))"

definition get_forecast_snapshot :: "ingest_env \<Rightarrow> string option \<Rightarrow> int \<Rightarrow> (card_snapshot \<times> link_response list) ingest_op" where
  "get_forecast_snapshot env cookie snap =
     route_of ''tender.forecast_snapshot.read'' cookie (\<lambda>ident.
     bind (gets id) (\<lambda>s.
     case load_forecast_card_snapshot s snap of
       None \<Rightarrow> raise (ApiError 404 ''forecast_snapshot_not_found'' [str_int snap])
     | Some c \<Rightarrow>
         bind (link_responses env snap (earliest_observed_at env (card_evidence c)) (list_links_by_snapshot s snap)) (\<lambda>ls.
         ret (c, ls))))"

definition post_forecast_tender_link :: "ingest_env \<Rightarrow> string option \<Rightarrow> int \<Rightarrow> int \<Rightarrow> string \<Rightarrow> link_response ingest_op" where
  "post_forecast_tender_link env cookie snap tid note =
     route_of ''tender.forecast_snapshot.write'' cookie (\<lambda>ident.
     bind (gets id) (\<lambda>s.
     case load_forecast_card_snapshot s snap of
       None \<Rightarrow> raise (ApiError 404 ''forecast_snapshot_not_found'' [str_int snap])
     | Some c \<Rightarrow>
         then_db (guard (\<not> list_ex (\<lambda>(i, l). link_tender_id l = tid) (list_links_by_snapshot s snap))
           (ApiError 409 ''tender_link_already_confirmed'' [str_int snap, str_int tid])) (
         bind (confirm_forecast_tender_link snap tid note (subject ident) (clock s)) (\<lambda>i.
         then_db (write_audit_log (subject ident) ''calibration.confirm_forecast_tender_link'' ''forecast_card_tender_link'' (str_int i) None None) (
         bind (gets (\<lambda>s. find (\<lambda>(k, l). k = i) (list_links_by_snapshot s snap))) (\<lambda>stored.
         case stored of
           None \<Rightarrow> raise (Exc ''StopIteration'' [])
         | Some (k, l) \<Rightarrow>
             bind (observed_lag_days env snap (link_tender_id l)) (\<lambda>lag.
             ret \<lparr>lr_id = k, lr_link = l, lr_lag_days = lag,
                  lr_first_observed_at = earliest_observed_at env (card_evidence c)\<rparr>)))))))"

end
