(* ===== verification/Signals_Theorems.thy ===== *)
theory Signals_Theorems
  imports Signals Ingestion_Theorems "HOL-Library.Multiset"
begin

text \<open>
  What signals and forecasts guarantee: a page of signals is stored in full or queued, and the
  snapshot of a forecast card is the evidence the store had.
\<close>

section \<open>Storing the signals of a page\<close>

lemma store_signal_Inr:
  assumes "store_signal env d s = (Inr i, t)"
  obtains x where "t = s\<lparr>signals := signals s @ [(i, x)]\<rparr>" "i = next_id (signals s)" "signal_type x = dr_type d"
    "signal_snapshot_id x = dr_snapshot_id d" "env_iso env (dr_observed_at d) = Some (observed_at x)" "signal_value x = dr_value d"
    "signal_snapshot_id x \<in> fst ` set (raw_snapshots s)"
proof -
  from assms obtain ts cust region ptype where 1: "env_iso env (dr_observed_at d) = Some ts"
    "dr_snapshot_id d \<in> fst ` set (raw_snapshots s)" "i = next_id (signals s)"
    "t = s\<lparr>signals := signals s @ [(i, \<lparr>signal_type = dr_type d, signal_source = dr_source d, signal_snapshot_id = dr_snapshot_id d,
         signal_value = dr_value d, observed_at = ts, ttl_class = dr_ttl_class d, confidence = dr_confidence d, object_customer = cust,
         object_region = region, object_project_type = ptype, signal_correlation_id = dr_correlation_id d\<rparr>)]\<rparr>"
    by (auto simp: store_signal_def bind_Inr then_db_Inr Let_def split: option.splits if_splits)
  show ?thesis by (rule that[OF 1(4,3)]) (use 1 in simp_all)
qed

text \<open>Every draft that is built becomes one row, in order; nothing else changes.\<close>

lemma store_items_Inr:
  assumes "store_items env build items s = (Inr is, t)"
  shows "\<exists>rows. t = s\<lparr>signals := signals s @ rows\<rparr> \<and> map fst rows = is \<and>
    (\<exists>ds. sum_map build items = Inr ds \<and>
       list_all2 (\<lambda>d (i, x). signal_type x = dr_type d \<and> signal_snapshot_id x = dr_snapshot_id d \<and> signal_value x = dr_value d)
         (List.map_filter (\<lambda>d. d) ds) rows)"
  using assms
proof (induction items arbitrary: s "is")
  case Nil
  then show ?case by (auto intro!: exI[of _ "[]"] simp: map_filter_simps)
next
  case (Cons a items)
  then obtain d where d: "build a = Inr d" by (cases "build a") (auto simp: bind_eq of_sum_def)
  show ?case
  proof (cases d)
    case None
    with Cons.prems d have "store_items env build items s = (Inr is, t)" by (simp add: bind_eq of_sum_def)
    from Cons.IH[OF this] obtain rows ds where "t = s\<lparr>signals := signals s @ rows\<rparr>" "map fst rows = is" "sum_map build items = Inr ds"
      "list_all2 (\<lambda>d (i, x). signal_type x = dr_type d \<and> signal_snapshot_id x = dr_snapshot_id d \<and> signal_value x = dr_value d)
         (List.map_filter (\<lambda>d. d) ds) rows" by blast
    with d None show ?thesis
      by (intro exI[of _ rows]) (auto simp: sum_bind_def map_filter_simps)
  next
    case (Some x)
    with Cons.prems d obtain i s1 is' where 1: "store_signal env x s = (Inr i, s1)" "store_items env build items s1 = (Inr is', t)" "is = i # is'"
      by (auto simp: bind_Inr)
    from 1(1) obtain y where y: "s1 = s\<lparr>signals := signals s @ [(i, y)]\<rparr>" "signal_type y = dr_type x"
        "signal_snapshot_id y = dr_snapshot_id x" "signal_value y = dr_value x" by (rule store_signal_Inr)
    from Cons.IH[OF 1(2)] obtain rows ds where r: "t = s1\<lparr>signals := signals s1 @ rows\<rparr>" "map fst rows = is'" "sum_map build items = Inr ds"
      "list_all2 (\<lambda>d (i, x). signal_type x = dr_type d \<and> signal_snapshot_id x = dr_snapshot_id d \<and> signal_value x = dr_value d)
         (List.map_filter (\<lambda>d. d) ds) rows" by blast
    show ?thesis
      by (intro exI[of _ "(i, y) # rows"]) (use y r d Some 1(3) in \<open>auto simp: sum_bind_def map_filter_simps\<close>)
  qed
qed

section \<open>Forecast cards\<close>

lemma earliest_of_entries:
  assumes "\<And>x. env_iso env (isof x) = Some x" "rows \<noteq> []"
  shows "earliest_observed_at env (map (evidence_entry isof) rows) = Some (Min (observed_at ` snd ` set rows))"
proof -
  have "List.map_filter (\<lambda>e. case jget e ''observed_at'' of JStr t \<Rightarrow> env_iso env t | _ \<Rightarrow> None) (map (evidence_entry isof) rows) =
      map (observed_at \<circ> snd) rows"
    by (induction rows) (auto simp: map_filter_simps evidence_entry_def jget_def assms(1))
  with assms(2) show ?thesis by (simp add: earliest_observed_at_def image_image comp_def)
qed

lemma composite_iff: "is_composite rows \<longleftrightarrow> \<not> (\<forall>a \<in> set rows. \<forall>b \<in> set rows. signal_type (snd a) = signal_type (snd b))"
proof -
  define T where "T = (signal_type \<circ> snd) ` set rows"
  have "is_composite rows \<longleftrightarrow> 2 \<le> card T"
    by (simp add: is_composite_def signal_types_of_def length_sorted_set T_def)
  also have "\<dots> \<longleftrightarrow> \<not> card T \<le> Suc 0" by auto
  also have "card T \<le> Suc 0 \<longleftrightarrow> (\<forall>x \<in> T. \<forall>y \<in> T. x = y)" by (rule card_le_Suc0_iff_eq) (simp add: T_def)
  finally show ?thesis by (simp add: T_def del: split_paired_All)
qed

text \<open>
  C31. A forecast snapshot is taken exactly when the region has signals of two different types,
  and it records what the store had: its evidence chain has one entry per signal of the region,
  ordered by the time of observation, each with the raw snapshot it came from; the time it is
  said to be first observed is the least of them; earlier snapshots stay as they are. With
  fewer types the request is refused with 409 and changes nothing.
\<close>

theorem forecast_snapshot_recorded:
  assumes iso: "\<And>x. env_iso env (isof x) = Some x"
    and auth: "fst (require_permission ''tender.forecast_snapshot.write'' cookie s) = Inr ident"
    and fresh: "next_id (card_snapshots s) \<notin> fst ` set (card_snapshots s)"
  shows "let rows = filter (\<lambda>(i, r). object_region r = Some region) (signals s) in
    (if \<exists>a \<in> set rows. \<exists>b \<in> set rows. signal_type (snd a) \<noteq> signal_type (snd b)
     then \<exists>i c t chain. post_forecast_snapshot isof cookie region s = (Inr (i, c), t) \<and>
       card_snapshots t = card_snapshots s @ [(i, c)] \<and> card_region c = region \<and>
       mset chain = mset rows \<and> sorted (map (observed_at \<circ> snd) chain) \<and>
       card_evidence c = map (evidence_entry isof) chain \<and>
       earliest_observed_at env (card_evidence c) = Some (Min (observed_at ` snd ` set rows)) \<and>
       set (card_signal_types c) = signal_type ` snd ` set rows
     else post_forecast_snapshot isof cookie region s = (Inl (ApiError 409 ''no_forecast_card'' [region]), s))"
proof -
  define rows where "rows = filter (\<lambda>(i, r). object_region r = Some region) (signals s)"
  define chain where "chain = list_signals_by_object_region s region"
  have chain: "mset chain = mset rows" "sorted (map (observed_at \<circ> snd) chain)"
    by (simp_all add: chain_def rows_def list_signals_by_object_region_def)
  then have set: "set chain = set rows" by (metis set_mset_mset)
  have a: "require_permission ''tender.forecast_snapshot.write'' cookie s = (Inr ident, s)"
    using auth by (auto simp: require_permission_def get_current_identity_def db_simps split: option.splits if_splits)
  have comp: "is_composite chain \<longleftrightarrow> (\<exists>a \<in> set rows. \<exists>b \<in> set rows. signal_type (snd a) \<noteq> signal_type (snd b))"
    unfolding composite_iff set by blast
  show ?thesis
  proof (cases "is_composite chain")
    case False
    then have no: "\<not> (\<exists>a \<in> set rows. \<exists>b \<in> set rows. signal_type (snd a) \<noteq> signal_type (snd b))" unfolding comp .
    from False have "post_forecast_snapshot isof cookie region s = (Inl (ApiError 409 ''no_forecast_card'' [region]), s)"
      by (simp add: post_forecast_snapshot_def route_of_def transaction_def bind_eq a build_object_region_forecast_card_def
          build_forecast_card_def chain_def)
    then show ?thesis unfolding Let_def rows_def[symmetric] if_not_P[OF no] .
  next
    case True
    then have yes: "\<exists>a \<in> set rows. \<exists>b \<in> set rows. signal_type (snd a) \<noteq> signal_type (snd b)" unfolding comp .
    have ne: "chain \<noteq> []" using True by (auto simp: composite_iff)
    define i where "i = next_id (card_snapshots s)"
    obtain b where b: "build_object_region_forecast_card s region =
        Some \<lparr>fc_region = region, fc_signal_types = signal_types_of chain, fc_budget = b, fc_evidence = chain\<rparr>"
      using True by (auto simp: build_object_region_forecast_card_def build_forecast_card_def chain_def)
    define c where "c = \<lparr>card_region = region, card_composite = True, card_signal_types = signal_types_of chain, card_budget = b,
      card_evidence = map (evidence_entry isof) chain, card_computed_at = clock s\<rparr>"
    have "map_of (card_snapshots s @ [(i, c)]) i = Some c"
      using fresh by (subst map_of_snoc) (auto simp: i_def)
    then obtain t where "post_forecast_snapshot isof cookie region s = (Inr (i, c), t)" "card_snapshots t = card_snapshots s @ [(i, c)]"
      by (simp add: post_forecast_snapshot_def route_of_def transaction_def bind_eq then_db_eq a b store_forecast_card_snapshot_def
          write_audit_log_def load_forecast_card_snapshot_def i_def[symmetric] c_def[symmetric])
    moreover have "earliest_observed_at env (card_evidence c) = Some (Min (observed_at ` snd ` set rows))"
      using earliest_of_entries[OF iso ne] by (simp add: c_def set)
    moreover have "set (card_signal_types c) = signal_type ` snd ` set rows"
      by (simp add: c_def signal_types_of_def set image_image comp_def)
    moreover have "card_region c = region" "card_evidence c = map (evidence_entry isof) chain" by (simp_all add: c_def)
    ultimately show ?thesis
      using chain unfolding Let_def rows_def[symmetric] if_P[OF yes] by blast
  qed
qed

definition unary :: "int \<Rightarrow> string" where
  "unary x = (if 0 \<le> x then replicate (nat x) CHR ''p'' else replicate (nat (- x)) CHR ''n'')"

definition of_unary :: "string \<Rightarrow> int" where
  "of_unary t = (if t = [] then 0 else if hd t = CHR ''p'' then int (length t) else - int (length t))"

lemma of_unary_unary: "of_unary (unary x) = x"
proof (cases "x = 0")
  case False
  then show ?thesis by (cases "0 \<le> x") (auto simp: of_unary_def unary_def)
qed (simp add: of_unary_def unary_def)

definition unary_env :: ingest_env where
  "unary_env = sample_env\<lparr>env_iso := (\<lambda>t. Some (of_unary t))\<rparr>"

definition region_signal :: "string \<Rightarrow> int \<Rightarrow> signal" where
  "region_signal ty t =
     \<lparr>signal_type = ty, signal_source = ''etender'', signal_snapshot_id = 1, signal_value = [], observed_at = t, ttl_class = ty,
      confidence = ''official_source'', object_customer = None, object_region = Some ''Lerik'', object_project_type = None,
      signal_correlation_id = ''c''\<rparr>"

definition forecast_db :: ingest_db where
  "forecast_db = empty_ingest_db\<lparr>roles := [(1, ''analyst'')], permissions := [(1, ''tender.forecast_snapshot.write'')],
     role_permissions := [(1, 1)],
     users := [(1, \<lparr>username = ''ann'', display_name = ''Ann'', role_id = 1, user_status = ''active'', user_version = 1,
        password_hash = None, failed_login_count = 0, locked_until = None\<rparr>)],
     sessions := [(''tok'', \<lparr>session_user = 1, expires_at = 100, revoked_at = None\<rparr>)],
     signals := [(1, region_signal ''procurement_plan'' 9), (2, region_signal ''design_tender'' 4)]\<rparr>"

theorem forecast_snapshot_recorded_witness:
  "\<exists>i c t. post_forecast_snapshot unary (Some ''tok'') ''Lerik'' forecast_db = (Inr (i, c), t) \<and>
     earliest_observed_at unary_env (card_evidence c) = Some 4"
proof -
  have iso: "env_iso unary_env (unary x) = Some x" for x by (simp add: unary_env_def of_unary_unary)
  have auth: "\<exists>ident. fst (require_permission ''tender.forecast_snapshot.write'' (Some ''tok'') forecast_db) = Inr ident"
    by (simp add: forecast_db_def empty_ingest_db_def require_permission_def get_current_identity_def resolve_session_def db_simps
        has_permission_def role_permission_names_def)
  have fresh: "next_id (card_snapshots forecast_db) \<notin> fst ` set (card_snapshots forecast_db)"
    by (simp add: forecast_db_def empty_ingest_db_def)
  have rows: "filter (\<lambda>(i, r). object_region r = Some ''Lerik'') (signals forecast_db) =
      [(1, region_signal ''procurement_plan'' 9), (2, region_signal ''design_tender'' 4)]"
    by (simp add: forecast_db_def region_signal_def)
  from auth obtain ident where a: "fst (require_permission ''tender.forecast_snapshot.write'' (Some ''tok'') forecast_db) = Inr ident" ..
  have yes: "\<exists>a \<in> set [(1 :: int, region_signal ''procurement_plan'' 9), (2, region_signal ''design_tender'' 4)].
      \<exists>b \<in> set [(1 :: int, region_signal ''procurement_plan'' 9), (2, region_signal ''design_tender'' 4)].
      signal_type (snd a) \<noteq> signal_type (snd b)"
    by (rule bexI[of _ "(1, region_signal ''procurement_plan'' 9)"], rule bexI[of _ "(2, region_signal ''design_tender'' 4)"])
      (simp_all add: region_signal_def)
  have least: "Min (observed_at ` snd ` set [(1 :: int, region_signal ''procurement_plan'' 9), (2, region_signal ''design_tender'' 4)]) = 4"
    by (simp add: region_signal_def)
  from forecast_snapshot_recorded[OF iso a fresh, of "''Lerik''", unfolded rows Let_def if_P[OF yes] least]
  show ?thesis by blast
qed

end
