(* ===== verification/Policy_Store_Spec.thy ===== *)
theory Policy_Store_Spec
  imports Policy_Store
begin

text \<open>
  What the policy store keeps (\<open>packages/algorithm/policy_store.py\<close>): the invariant of every
  reachable database, what each call does and refuses, and that the lifecycle of a version
  is exactly what its transition log records.
\<close>

section \<open>What a transition does\<close>

definition apply_transition :: "int \<Rightarrow> string \<Rightarrow> string \<Rightarrow> string \<Rightarrow> string option \<Rightarrow> policy_db \<Rightarrow> policy_db" where
  "apply_transition i st to who why s =
     (set_status i to s)\<lparr>policy_version_transitions := policy_version_transitions s @
       [\<lparr>pt_version_id = i, from_status = st, to_status = to, changed_by = who, reason = why\<rparr>]\<rparr>"

lemma set_status_simps [simp]:
  "policy_versions (set_status i st s) = update_row i (\<lambda>v. v\<lparr>pv_status := st\<rparr>) (policy_versions s)"
  "policy_version_transitions (set_status i st s) = policy_version_transitions s"
  "policy_nodes (set_status i st s) = policy_nodes s" "policy_edges (set_status i st s) = policy_edges s"
  "policy_graphs (set_status i st s) = policy_graphs s" "version_seq (set_status i st s) = version_seq s"
  "role_names (set_status i st s) = role_names s" "research_dossiers (set_status i st s) = research_dossiers s"
  "graph_seq (set_status i st s) = graph_seq s" "dossier_seq (set_status i st s) = dossier_seq s"
  by (simp_all add: set_status_def)

lemma apply_transition_simps [simp]:
  "policy_versions (apply_transition i st to who why s) =
     update_row i (\<lambda>v. v\<lparr>pv_status := to\<rparr>) (policy_versions s)"
  "policy_version_transitions (apply_transition i st to who why s) = policy_version_transitions s @
     [\<lparr>pt_version_id = i, from_status = st, to_status = to, changed_by = who, reason = why\<rparr>]"
  "policy_nodes (apply_transition i st to who why s) = policy_nodes s"
  "policy_edges (apply_transition i st to who why s) = policy_edges s"
  "policy_graphs (apply_transition i st to who why s) = policy_graphs s"
  "version_seq (apply_transition i st to who why s) = version_seq s"
  by (simp_all add: apply_transition_def)

lemma get_version_apply [simp]:
  "get_version (apply_transition i st to who why s) j =
     (if j = i then map_option (\<lambda>v. v\<lparr>pv_status := to\<rparr>) (get_version s i) else get_version s j)"
  by (simp add: get_version_def)

lemma get_version_status_eq:
  "get_version_status i s =
     (case get_version s i of None \<Rightarrow> (Inl (NoSuchVersion i), s) | Some v \<Rightarrow> (Inr (pv_status v), s))"
  by (simp add: get_version_status_def bind_eq split: option.splits)

lemma transition_eq:
  "transition_version_status i to who why s =
     (case get_version s i of
        None \<Rightarrow> (Inl (NoSuchVersion i), s)
      | Some v \<Rightarrow>
          if \<not> can_transition (pv_status v) to then (Inl (InvalidTransition (pv_status v) to), s)
          else if to = ''active'' \<and> other_active s i
            then (Inl (IntegrityError ''policy_versions_one_active_per_graph''), s)
          else (Inr (), apply_transition i (pv_status v) to who why s))"
  by (auto simp: transition_version_status_def bind_eq then_db_eq get_version_status_eq update_status_def
      apply_transition_def split: option.splits)

lemma transition_Inr:
  "transition_version_status i to who why s = (Inr u, t) \<longleftrightarrow>
     (\<exists>v. get_version s i = Some v \<and> can_transition (pv_status v) to \<and>
        \<not> (to = ''active'' \<and> other_active s i) \<and> t = apply_transition i (pv_status v) to who why s)"
  by (auto simp: transition_eq split: option.splits if_splits)

lemma snd_transition:
  obtains "snd (transition_version_status i to who why s) = s"
  | v where "get_version s i = Some v" "can_transition (pv_status v) to"
      "\<not> (to = ''active'' \<and> other_active s i)"
      "snd (transition_version_status i to who why s) = apply_transition i (pv_status v) to who why s"
  by (cases "get_version s i"; cases "can_transition (pv_status (the (get_version s i))) to";
      cases "to = ''active'' \<and> other_active s i") (auto simp: transition_eq)

section \<open>The invariant\<close>

definition ids_ok :: "policy_db \<Rightarrow> bool" where
  "ids_ok s \<longleftrightarrow> distinct (map fst (policy_versions s)) \<and> (\<forall>i \<in> fst ` set (policy_versions s). i < version_seq s)"

text \<open>The graph in which a version is active, and the key of a version's row.\<close>

definition active_in :: "policy_db \<Rightarrow> int \<Rightarrow> int option" where
  "active_in s i =
     (case get_version s i of None \<Rightarrow> None
      | Some v \<Rightarrow> if pv_status v = ''active'' then Some (pv_graph_id v) else None)"

definition version_key :: "policy_db \<Rightarrow> int \<Rightarrow> (int \<times> int) option" where
  "version_key s i = map_option (\<lambda>v. (pv_graph_id v, pv_version_number v)) (get_version s i)"

definition one_active :: "policy_db \<Rightarrow> bool" where
  "one_active s \<longleftrightarrow> (\<forall>i j g. active_in s i = Some g \<and> active_in s j = Some g \<longrightarrow> i = j)"

definition numbers_ok :: "policy_db \<Rightarrow> bool" where
  "numbers_ok s \<longleftrightarrow>
     (\<forall>i j k. version_key s i = Some k \<and> version_key s j = Some k \<longrightarrow> i = j) \<and>
     (\<forall>i g n. version_key s i = Some (g, n) \<longrightarrow> 1 \<le> n)"

definition log_ok :: "policy_db \<Rightarrow> bool" where
  "log_ok s \<longleftrightarrow>
     (\<forall>i v. get_version s i = Some v \<longrightarrow>
        (let log = list_transitions_by_version s i
         in lifecycle_path ''draft'' (map to_status log) (pv_status v) \<and>
            map from_status log @ [pv_status v] = ''draft'' # map to_status log)) \<and>
     (\<forall>t \<in> set (policy_version_transitions s). pt_version_id t \<in> fst ` set (policy_versions s))"

definition content_ok :: "policy_db \<Rightarrow> bool" where
  "content_ok s \<longleftrightarrow>
     distinct (map (\<lambda>n. (pn_version_id n, node_key n)) (policy_nodes s)) \<and>
     (\<forall>n \<in> set (policy_nodes s). pn_version_id n \<in> fst ` set (policy_versions s)) \<and>
     (\<forall>e \<in> set (policy_edges s). pe_version_id e \<in> fst ` set (policy_versions s))"

definition store_ok :: "policy_db \<Rightarrow> bool" where
  "store_ok s \<longleftrightarrow> ids_ok s \<and> one_active s \<and> numbers_ok s \<and> log_ok s \<and> content_ok s"

lemmas store_ok_defs = store_ok_def ids_ok_def one_active_def numbers_ok_def log_ok_def content_ok_def

lemma active_in_Some:
  "active_in s j = Some g \<longleftrightarrow>
     (\<exists>w. get_version s j = Some w \<and> pv_status w = ''active'' \<and> pv_graph_id w = g)"
  by (auto simp: active_in_def split: option.splits)

lemma other_active_iff:
  assumes "ids_ok s"
  shows "other_active s i \<longleftrightarrow>
     (\<exists>v j. get_version s i = Some v \<and> j \<noteq> i \<and> active_in s j = Some (pv_graph_id v))"
proof -
  have m: "(k, v) \<in> set (policy_versions s) \<longleftrightarrow> get_version s k = Some v" for k v
    using assms by (simp add: ids_ok_def get_version_def)
  have "other_active s i \<longleftrightarrow> (\<exists>j w. get_version s j = Some w \<and> j \<noteq> i \<and> pv_status w = ''active'' \<and>
      (\<exists>v. get_version s i = Some v \<and> pv_graph_id v = pv_graph_id w))"
    unfolding other_active_def by (simp add: Bex_def split_paired_Ex m)
  then show ?thesis unfolding active_in_Some by metis
qed

lemma ids_ok_apply [simp]: "ids_ok (apply_transition i st to who why s) \<longleftrightarrow> ids_ok s"
  by (simp only: ids_ok_def apply_transition_simps map_fst_update_row fst_set_update_row)

lemma active_in_apply:
  "active_in (apply_transition i st to who why s) j =
     (if j = i then (if to = ''active'' then map_option pv_graph_id (get_version s i) else None)
      else active_in s j)"
  by (simp add: active_in_def split: option.splits)

lemma version_key_apply [simp]: "version_key (apply_transition i st to who why s) j = version_key s j"
  by (cases "get_version s i") (auto simp: version_key_def)

lemma apply_transition_one_active:
  assumes "one_active s" "ids_ok s" "get_version s i = Some v" "\<not> (to = ''active'' \<and> other_active s i)"
  shows "one_active (apply_transition i st to who why s)"
  unfolding one_active_def
proof (intro allI impI, elim conjE)
  fix a b g
  assume h: "active_in (apply_transition i st to who why s) a = Some g"
    "active_in (apply_transition i st to who why s) b = Some g"
  have "c = i" if "to = ''active''" "active_in s c = Some (pv_graph_id v)" for c
    using that assms(2-4) by (auto simp: other_active_iff)
  with h assms(1,3) show "a = b"
    by (auto simp: active_in_apply one_active_def split: if_splits)
qed

lemma apply_transition_log:
  assumes "log_ok s" "get_version s i = Some v" "can_transition (pv_status v) to"
  shows "log_ok (apply_transition i (pv_status v) to who why s)"
proof -
  have "i \<in> fst ` set (policy_versions s)"
    using assms(2) by (simp add: get_version_def map_of_mem)
  with assms show ?thesis
    by (auto simp: log_ok_def Let_def list_transitions_by_version_def lifecycle_path_snoc can_transition_iff)
qed

lemma transition_keeps [store_inv]: "keeps store_ok (transition_version_status i to who why)"
proof (rule keepsI)
  fix s assume ok: "store_ok s"
  show "store_ok (snd (transition_version_status i to who why s))"
  proof (rule snd_transition[of i to who why s])
    assume "snd (transition_version_status i to who why s) = s"
    with ok show ?thesis by simp
  next
    fix v assume v: "get_version s i = Some v" "can_transition (pv_status v) to"
      "\<not> (to = ''active'' \<and> other_active s i)"
      and t: "snd (transition_version_status i to who why s) = apply_transition i (pv_status v) to who why s"
    have n: "numbers_ok (apply_transition i (pv_status v) to who why s)"
      using ok by (simp add: store_ok_def numbers_ok_def)
    have "ids_ok (apply_transition i (pv_status v) to who why s)"
      "content_ok (apply_transition i (pv_status v) to who why s)"
      using ok by (auto simp: store_ok_def ids_ok_def content_ok_def)
    then show ?thesis
      unfolding t using ok v n by (simp add: store_ok_def apply_transition_one_active apply_transition_log)
  qed
qed

section \<open>Inserting rows\<close>

definition add_version :: "policy_version \<Rightarrow> policy_db \<Rightarrow> policy_db" where
  "add_version v s = s\<lparr>policy_versions := policy_versions s @ [(version_seq s, v)], version_seq := version_seq s + 1\<rparr>"

definition key_free :: "policy_version \<Rightarrow> policy_db \<Rightarrow> bool" where
  "key_free v s \<longleftrightarrow> (\<forall>(j, w) \<in> set (policy_versions s).
     (pv_graph_id w, pv_version_number w) \<noteq> (pv_graph_id v, pv_version_number v))"

lemma add_version_simps [simp]:
  "policy_versions (add_version v s) = policy_versions s @ [(version_seq s, v)]"
  "version_seq (add_version v s) = version_seq s + 1"
  "policy_version_transitions (add_version v s) = policy_version_transitions s"
  "policy_nodes (add_version v s) = policy_nodes s" "policy_edges (add_version v s) = policy_edges s"
  "policy_graphs (add_version v s) = policy_graphs s"
  by (simp_all add: add_version_def)

lemma insert_version_eq:
  "insert_version v s =
     (if \<not> int4 (pv_version_number v) then (Inl DataError, s)
      else if pv_graph_id v \<notin> fst ` set (policy_graphs s) then (Inl (IntegrityError ''policy_graph_id''), s)
      else if \<not> key_free v s then (Inl (IntegrityError ''policy_graph_id, version_number''), s)
      else (Inr (version_seq s), add_version v s))"
  by (simp add: insert_version_def bind_eq then_db_eq add_version_def key_free_def)

lemma fresh_version_id: "ids_ok s \<Longrightarrow> version_seq s \<notin> fst ` set (policy_versions s)"
  by (auto simp: ids_ok_def)

lemma get_version_add:
  "ids_ok s \<Longrightarrow> get_version (add_version v s) j = (if j = version_seq s then Some v else get_version s j)"
  using map_of_snoc[OF fresh_version_id] by (simp add: get_version_def del: map_of_append)

lemma key_free_iff:
  assumes "ids_ok s"
  shows "key_free v s \<longleftrightarrow> (\<forall>j. version_key s j \<noteq> Some (pv_graph_id v, pv_version_number v))"
proof -
  have "(k, w) \<in> set (policy_versions s) \<longleftrightarrow> get_version s k = Some w" for k w
    using assms by (simp add: ids_ok_def get_version_def)
  then show ?thesis unfolding key_free_def version_key_def by fastforce
qed

lemma add_version_ok:
  assumes ok: "store_ok s" and v: "pv_status v = ''draft''" "1 \<le> pv_version_number v" "key_free v s"
  shows "store_ok (add_version v s)"
proof -
  have ids: "ids_ok s" using ok by (simp add: store_ok_def)
  have new: "get_version s (version_seq s) = None"
    using fresh_version_id[OF ids] by (simp add: get_version_def map_of_eq_None_iff)
  have "ids_ok (add_version v s)"
    using ids fresh_version_id[OF ids] by (auto simp: ids_ok_def)
  moreover have "active_in (add_version v s) j = active_in s j" for j
    using v(1) new by (simp add: active_in_def get_version_add[OF ids])
  then have "one_active (add_version v s)"
    using ok by (simp add: store_ok_def one_active_def)
  moreover have "version_key (add_version v s) j = (if j = version_seq s then
      Some (pv_graph_id v, pv_version_number v) else version_key s j)" for j
    by (simp add: version_key_def get_version_add[OF ids])
  then have "numbers_ok (add_version v s)"
    using ok v key_free_iff[OF ids, of v] by (auto simp: store_ok_def numbers_ok_def)
  moreover have "list_transitions_by_version s (version_seq s) = []"
    using ok fresh_version_id[OF ids] unfolding store_ok_def log_ok_def list_transitions_by_version_def filter_empty_conv
    by metis
  then have "log_ok (add_version v s)"
    using ok v(1) by (auto simp: store_ok_def log_ok_def list_transitions_by_version_def get_version_add[OF ids] Let_def)
  moreover have "content_ok (add_version v s)"
    using ok by (auto simp: store_ok_def content_ok_def)
  ultimately show ?thesis by (simp add: store_ok_def)
qed

lemma create_draft_version_eq:
  "create_draft_version g n who s =
     (if n < 1 then (Inl (ModelError VersionNumberBelowOne), s)
      else insert_version \<lparr>pv_graph_id = g, pv_version_number = n, pv_status = ''draft'',
        pv_created_by = who, pv_research_dossier_id = None\<rparr> s)"
  by (simp add: create_draft_version_def lift_model_def mk_policy_version_def bind_eq model_consts
      split: prod.splits sum.splits)

lemma create_draft_version_keeps [store_inv]: "keeps store_ok (create_draft_version g n who)"
  by (rule keepsI) (simp add: create_draft_version_eq insert_version_eq add_version_ok)

lemma store_ok_cong:
  assumes "policy_versions t = policy_versions s" "version_seq t = version_seq s"
    "policy_version_transitions t = policy_version_transitions s" "content_ok s \<Longrightarrow> content_ok t"
  shows "store_ok s \<Longrightarrow> store_ok t"
proof -
  have g: "get_version t i = get_version s i" "list_transitions_by_version t i = list_transitions_by_version s i" for i
    using assms by (simp_all add: get_version_def list_transitions_by_version_def)
  then have "active_in t i = active_in s i" "version_key t i = version_key s i" for i
    by (simp_all add: active_in_def version_key_def)
  then show "store_ok s \<Longrightarrow> store_ok t"
    using assms g by (simp add: store_ok_def ids_ok_def one_active_def numbers_ok_def log_ok_def)
qed

lemma create_policy_graph_keeps [store_inv]: "keeps store_ok (create_policy_graph g)"
  by (rule keepsI, erule store_ok_cong[rotated 4])
    (simp_all add: create_policy_graph_def bind_eq then_db_eq content_ok_def)

lemma insert_node_keeps [store_inv]: "keeps store_ok (insert_node n)"
  by (rule keepsI, erule store_ok_cong[rotated 4])
    (auto simp: insert_node_def bind_eq then_db_eq content_ok_def split: option.splits)

lemma insert_edge_keeps [store_inv]: "keeps store_ok (insert_edge e)"
  by (rule keepsI, erule store_ok_cong[rotated 4])
    (auto simp: insert_edge_def bind_eq then_db_eq content_ok_def)

lemma get_version_status_keeps [store_inv]: "keeps P (get_version_status i)"
  by (rule keepsI) (simp add: get_version_status_eq split: option.splits)

lemma assert_content_mutable_keeps [store_inv]: "keeps P (assert_content_mutable i)"
  unfolding assert_content_mutable_def by (intro store_inv)

lemma lift_model_keeps [store_inv]: "keeps P (lift_model r)"
  by (simp add: lift_model_def split: sum.splits)

lemma add_nodes_keeps [store_inv]: "keeps store_ok (add_nodes ns)"
  unfolding add_nodes_def by (intro store_inv)

lemma add_edges_keeps [store_inv]: "keeps store_ok (add_edges es)"
  unfolding add_edges_def by (intro store_inv)

lemma fork_keeps [store_inv]: "keeps store_ok (fork_new_draft_version i who)"
  unfolding fork_new_draft_version_def
  by (rule keeps_bind[OF keeps_gets]) (auto split: option.split intro!: store_inv)

lemma submit_keeps [store_inv]: "keeps store_ok (submit_for_approval i who why)"
  unfolding submit_for_approval_def Let_def
  by (rule keeps_bind[OF keeps_gets]) (auto split: sum.split intro!: store_inv)

lemma activate_keeps [store_inv]: "keeps store_ok (activate_version i who why)"
  unfolding activate_version_def
  by (rule keeps_bind[OF keeps_gets]) (auto split: option.split list.split intro!: store_inv)

lemma kill_switch_keeps [store_inv]: "keeps store_ok (kill_switch i who why)"
  unfolding kill_switch_def by (intro store_inv)

lemma parse_ts_keeps [store_inv]: "keeps P (parse_ts f v)"
  by (simp add: parse_ts_def split: option.split)

lemma store_dossier_keeps [store_inv]: "keeps store_ok (store_research_dossier f d)"
  unfolding store_research_dossier_def
  by (intro keeps_bind keeps_then parse_ts_keeps keeps_gets keeps_ret, rule keepsI, erule store_ok_cong[rotated 4])
    (simp_all add: content_ok_def)

lemma link_dossier_keeps [store_inv]: "keeps store_ok (link_dossier_to_version i d)"
proof (rule keepsI)
  fix s assume ok: "store_ok s"
  let ?t = "s\<lparr>policy_versions := update_row i (\<lambda>v. v\<lparr>pv_research_dossier_id := Some d\<rparr>) (policy_versions s)\<rparr>"
  have g: "get_version ?t j = (if j = i then map_option (\<lambda>v. v\<lparr>pv_research_dossier_id := Some d\<rparr>)
      (get_version s i) else get_version s j)" for j
    by (simp add: get_version_def)
  have "active_in ?t j = active_in s j" "version_key ?t j = version_key s j" for j
    by (cases "get_version s i"; simp add: active_in_def version_key_def g)+
  then have "one_active ?t" "numbers_ok ?t"
    using ok by (simp_all add: store_ok_def one_active_def numbers_ok_def)
  moreover have "log_ok ?t"
    using ok g by (auto simp: store_ok_def log_ok_def list_transitions_by_version_def Let_def split: if_splits)
  moreover have "ids_ok ?t" "content_ok ?t"
    using ok by (auto simp: store_ok_def ids_ok_def content_ok_def)
  ultimately have "store_ok ?t" by (simp add: store_ok_def)
  with ok show "store_ok (snd (link_dossier_to_version i d s))"
    by (simp add: link_dossier_to_version_def bind_eq then_db_eq)
qed

lemma exec_call_keeps: "keeps store_ok (exec_call c)"
proof (cases c)
  case (StoreDossier f d)
  then show ?thesis by (auto split: sum.split intro!: store_inv)
next
  case (RolesEdited rs)
  have "keeps store_ok (modify (\<lambda>s. s\<lparr>role_names := rs\<rparr>))"
    by (rule keepsI, erule store_ok_cong[rotated 4]) (simp_all add: content_ok_def)
  with RolesEdited show ?thesis by simp
qed (simp_all only: exec_call.simps, (intro store_inv)+)

interpretation policy: invariant_system policy_start policy_step store_ok
proof
  show "policy_start s \<Longrightarrow> store_ok s" for s
    by (simp add: policy_start_def empty_policy_db_def store_ok_def ids_ok_def one_active_def
        numbers_ok_def log_ok_def content_ok_def active_in_def version_key_def get_version_def)
  show "store_ok s \<Longrightarrow> policy_step s t \<Longrightarrow> store_ok t" for s t
    unfolding policy_step_def commit_def
    by (auto intro!: keepsD keeps_transaction exec_call_keeps)
qed

end
