(* ===== verification/Policy_Store_Calls.thy ===== *)
theory Policy_Store_Calls
  imports Policy_Store_Spec
begin

text \<open>
  What each call of \<open>packages/algorithm/policy_store.py\<close> does when it succeeds, when it
  refuses, and what the calls together can never undo.
\<close>

section \<open>Commits\<close>

lemma commit_cases:
  obtains "commit c s = s" | "exec_call c s = (Inr (), commit c s)"
  using transaction_cases[of "exec_call c" s] unfolding commit_def by (metis old.unit.exhaust snd_conv)

section \<open>The rows that a batch adds\<close>

lemma insert_node_Inr:
  "insert_node n s = (Inr (), t) \<Longrightarrow> t = s\<lparr>policy_nodes := policy_nodes s @ [n]\<rparr>"
  by (auto simp: insert_node_def bind_eq then_db_eq split: if_splits option.splits)

lemma insert_edge_Inr:
  "insert_edge e s = (Inr (), t) \<Longrightarrow> t = s\<lparr>policy_edges := policy_edges s @ [e]\<rparr>"
  by (auto simp: insert_edge_def bind_eq then_db_eq split: if_splits)

lemma insert_nodes_Inr:
  "for_each insert_node ns s = (Inr (), t) \<Longrightarrow> t = s\<lparr>policy_nodes := policy_nodes s @ ns\<rparr>"
  by (induction ns arbitrary: s) (fastforce simp: then_db_Inr dest!: insert_node_Inr)+

lemma insert_edges_Inr:
  "for_each insert_edge es s = (Inr (), t) \<Longrightarrow> t = s\<lparr>policy_edges := policy_edges s @ es\<rparr>"
  by (induction es arbitrary: s) (fastforce simp: then_db_Inr dest!: insert_edge_Inr)+

lemma assert_content_mutable_Inr:
  "assert_content_mutable i s = (Inr (), t) \<longleftrightarrow>
     t = s \<and> (\<exists>v. get_version s i = Some v \<and> pv_status v \<notin> set IMMUTABLE_STATUSES)"
  by (auto simp: assert_content_mutable_def bind_Inr get_version_status_eq split: option.splits if_splits)

lemma add_nodes_Inr:
  "add_nodes ns s = (Inr (), t) \<Longrightarrow>
     t = s\<lparr>policy_nodes := policy_nodes s @ ns\<rparr> \<and>
     (ns \<noteq> [] \<longrightarrow> (\<exists>v. get_version s (pn_version_id (hd ns)) = Some v \<and> pv_status v \<notin> set IMMUTABLE_STATUSES))"
  by (auto simp: add_nodes_def then_db_Inr assert_content_mutable_Inr split: if_splits dest!: insert_nodes_Inr)

lemma add_edges_Inr:
  "add_edges es s = (Inr (), t) \<Longrightarrow>
     t = s\<lparr>policy_edges := policy_edges s @ es\<rparr> \<and>
     (es \<noteq> [] \<longrightarrow> (\<exists>v. get_version s (pe_version_id (hd es)) = Some v \<and> pv_status v \<notin> set IMMUTABLE_STATUSES))"
  by (auto simp: add_edges_def then_db_Inr assert_content_mutable_Inr split: if_splits dest!: insert_edges_Inr)

lemma map_model_map:
  assumes "map_model (\<lambda>x. f (g x)) xs = Inr ys" and "\<And>x y. f x = Inr y \<Longrightarrow> y = x"
  shows "ys = map g xs"
  using assms(1) by (induction xs arbitrary: ys) (auto split: sum.splits dest: assms(2))

lemma mk_policy_node_Inr: "mk_policy_node n = Inr m \<Longrightarrow> m = n"
  by (auto simp: mk_policy_node_def split: if_splits)

lemma mk_policy_edge_Inr: "mk_policy_edge e = Inr f \<Longrightarrow> f = e"
  by (auto simp: mk_policy_edge_def split: if_splits)

lemma nodes_for_reconstruction_Inr:
  "nodes_for_reconstruction i ns = Inr ms \<Longrightarrow> ms = map (\<lambda>n. n\<lparr>pn_version_id := i\<rparr>) ns"
  unfolding nodes_for_reconstruction_def by (erule map_model_map) (rule mk_policy_node_Inr)

lemma edges_for_reconstruction_Inr:
  "edges_for_reconstruction i es = Inr fs \<Longrightarrow> fs = map (\<lambda>e. e\<lparr>pe_version_id := i\<rparr>) es"
  unfolding edges_for_reconstruction_def by (erule map_model_map) (rule mk_policy_edge_Inr)

lemma lift_model_Inr: "lift_model r s = (Inr x, t) \<longleftrightarrow> r = Inr x \<and> t = s"
  by (auto simp: lift_model_def split: sum.splits)

section \<open>Forking\<close>

lemma list_nodes_append [simp]:
  "list_nodes (s\<lparr>policy_nodes := policy_nodes s @ ns\<rparr>) i = list_nodes s i @ filter (\<lambda>n. pn_version_id n = i) ns"
  "list_nodes (s\<lparr>policy_edges := es\<rparr>) i = list_nodes s i"
  by (simp_all add: list_nodes_def)

lemma list_edges_append [simp]:
  "list_edges (s\<lparr>policy_edges := policy_edges s @ es\<rparr>) i = list_edges s i @ filter (\<lambda>e. pe_version_id e = i) es"
  "list_edges (s\<lparr>policy_nodes := ns\<rparr>) i = list_edges s i"
  by (simp_all add: list_edges_def)

lemma list_add_version [simp]:
  "list_nodes (add_version v s) i = list_nodes s i" "list_edges (add_version v s) i = list_edges s i"
  by (simp_all add: list_nodes_def list_edges_def)

definition fork_row :: "policy_version \<Rightarrow> string \<Rightarrow> policy_version" where
  "fork_row v who = \<lparr>pv_graph_id = pv_graph_id v, pv_version_number = pv_version_number v + 1,
     pv_status = ''draft'', pv_created_by = who, pv_research_dossier_id = None\<rparr>"

text \<open>The database after a fork of \<open>i\<close>: one version row, and a copy of every node and edge.\<close>

definition forked :: "int \<Rightarrow> policy_version \<Rightarrow> string \<Rightarrow> policy_db \<Rightarrow> policy_db" where
  "forked i v who s =
     (add_version (fork_row v who) s)
       \<lparr>policy_nodes := policy_nodes s @ map (\<lambda>n. n\<lparr>pn_version_id := version_seq s\<rparr>) (list_nodes s i),
        policy_edges := policy_edges s @ map (\<lambda>e. e\<lparr>pe_version_id := version_seq s\<rparr>) (list_edges s i)\<rparr>"

lemma fork_Inr:
  assumes "fork_new_draft_version i who s = (Inr k, t)"
  obtains v where "get_version s i = Some v" "k = version_seq s" "key_free (fork_row v who) s"
    "pv_graph_id v \<in> fst ` set (policy_graphs s)" "t = forked i v who s"
proof -
  from assms obtain v where v: "get_version s i = Some v"
    by (cases "get_version s i") (auto simp: fork_new_draft_version_def bind_eq)
  with assms obtain s1 s2 s3 where h:
    "create_draft_version (pv_graph_id v) (pv_version_number v + 1) who s = (Inr k, s1)"
    "(if list_nodes s1 i = [] then ret ()
      else bind (lift_model (nodes_for_reconstruction k (list_nodes s1 i))) add_nodes) s1 = (Inr (), s2)"
    "(if list_edges s2 i = [] then ret ()
      else bind (lift_model (edges_for_reconstruction k (list_edges s2 i))) add_edges) s2 = (Inr (), s3)"
    "t = s3"
    by (auto simp: fork_new_draft_version_def bind_Inr then_db_Inr)
  from h(1) have s1: "s1 = add_version (fork_row v who) s" "k = version_seq s" "key_free (fork_row v who) s"
    "pv_graph_id v \<in> fst ` set (policy_graphs s)"
    by (auto simp: create_draft_version_eq insert_version_eq fork_row_def split: if_splits)
  have s2: "s2 = s1\<lparr>policy_nodes := policy_nodes s1 @ map (\<lambda>n. n\<lparr>pn_version_id := k\<rparr>) (list_nodes s1 i)\<rparr>"
    using h(2) by (auto simp: bind_Inr lift_model_Inr split: if_splits
        dest!: nodes_for_reconstruction_Inr add_nodes_Inr)
  have s3: "s3 = s2\<lparr>policy_edges := policy_edges s2 @ map (\<lambda>e. e\<lparr>pe_version_id := k\<rparr>) (list_edges s2 i)\<rparr>"
    using h(3) by (auto simp: bind_Inr lift_model_Inr split: if_splits
        dest!: edges_for_reconstruction_Inr add_edges_Inr)
  have "t = forked i v who s"
    using h(4) s2 s3 s1(1,2) by (simp add: forked_def)
  with v s1 show thesis by (intro that)
qed

lemma fork_conflict:
  assumes "get_version s i = Some v" "1 \<le> pv_version_number v" "int4 (pv_version_number v + 1)"
    "pv_graph_id v \<in> fst ` set (policy_graphs s)" "\<not> key_free (fork_row v who) s"
  shows "fork_new_draft_version i who s = (Inl (IntegrityError ''policy_graph_id, version_number''), s)"
  using assms
  by (simp add: fork_new_draft_version_def bind_eq create_draft_version_eq insert_version_eq fork_row_def)

section \<open>Approval\<close>

lemma unknown_role_issues_iff:
  "unknown_role_issues s ns = [] \<longleftrightarrow>
   (\<forall>n \<in> set ns. \<forall>r. required_role n = Some r \<and> r \<noteq> [] \<longrightarrow> r \<in> set (role_names s))"
proof -
  have "r \<in> set (required_roles ns) \<longleftrightarrow> (\<exists>n \<in> set ns. required_role n = Some r \<and> r \<noteq> [])" for r
    by (force simp: required_roles_def split: option.splits if_splits)
  then show ?thesis by (auto simp: unknown_role_issues_def filter_empty_conv)
qed

definition approvable :: "policy_db \<Rightarrow> int \<Rightarrow> bool" where
  "approvable s i \<longleftrightarrow>
     sound_graph (list_nodes s i) (list_edges s i) \<and>
     (\<forall>n \<in> set (list_nodes s i). \<forall>r. required_role n = Some r \<and> r \<noteq> [] \<longrightarrow> r \<in> set (role_names s)) \<and>
     ((\<exists>n \<in> set (list_nodes s i). financial_impact n) \<longrightarrow> dossier_approved s i)"

lemma submit_eq:
  "submit_for_approval i who why s =
     (if approvable s i then transition_version_status i ''approved'' who why s
      else (case validate_graph (list_nodes s i) (list_edges s i) of
              Inl x \<Rightarrow> (Inl (Uncaught x), s)
            | Inr iss \<Rightarrow> (Inl (GraphInvalid (iss @ unknown_role_issues s (list_nodes s i) @
                missing_dossier_issues s i (list_nodes s i))), s)))"
proof -
  have m: "missing_dossier_issues s i ns = [] \<longleftrightarrow> ((\<exists>n \<in> set ns. financial_impact n) \<longrightarrow> dossier_approved s i)" for ns
    by (simp add: missing_dossier_issues_def list_ex_iff)
  show ?thesis
    by (cases "validate_graph (list_nodes s i) (list_edges s i)")
      (auto simp: submit_for_approval_def bind_eq then_db_eq Let_def approvable_def m
        unknown_role_issues_iff validate_graph_sound_iff[symmetric])
qed

section \<open>Activation\<close>

lemma active_ids_ok:
  assumes "store_ok s"
  shows "active_ids s g = (if \<exists>j. active_in s j = Some g then [THE j. active_in s j = Some g] else [])"
proof -
  have ids: "distinct (map fst (policy_versions s))"
    and one: "active_in s i = Some g \<Longrightarrow> active_in s j = Some g \<Longrightarrow> i = j" for i j
    using assms by (auto simp: store_ok_def ids_ok_def one_active_def)
  have d: "distinct (active_ids s g)"
    using ids by (simp add: active_ids_def distinct_map_filter)
  have "get_version s j = Some v \<longleftrightarrow> (j, v) \<in> set (policy_versions s)" for j v
    using ids by (simp add: get_version_def)
  then have m: "j \<in> set (active_ids s g) \<longleftrightarrow> active_in s j = Some g" for j
    by (force simp: active_ids_def active_in_Some)
  show ?thesis
  proof (cases "\<exists>j. active_in s j = Some g")
    case True
    then obtain j where j: "active_in s j = Some g" by blast
    then have "set (active_ids s g) = {j}" using m one by auto
    then have "active_ids s g = [j]"
      using d by (rule distinct_singleton[rotated])
    moreover have "(THE j. active_in s j = Some g) = j" using j one by (auto intro: the_equality)
    ultimately show ?thesis using True by simp
  next
    case False
    then have "active_ids s g = []" using m by (cases "active_ids s g") auto
    then show ?thesis using False by simp
  qed
qed

definition maker_is_checker :: "policy_db \<Rightarrow> int \<Rightarrow> policy_version \<Rightarrow> string \<Rightarrow> bool" where
  "maker_is_checker s i v who \<longleftrightarrow>
     (\<exists>n \<in> set (list_nodes s i). financial_impact n) \<and> who = pv_created_by v"

definition superseded :: "int \<Rightarrow> policy_version \<Rightarrow> string \<Rightarrow> policy_db \<Rightarrow> policy_db" where
  "superseded i v who s =
     (case active_ids s (pv_graph_id v) of
        [j] \<Rightarrow> if j \<noteq> i then apply_transition j ''active'' ''suspended'' who (Some (superseded_reason i)) s else s
      | _ \<Rightarrow> s)"

lemma superseded_props:
  assumes ok: "store_ok s" and v: "get_version s i = Some v"
  shows "get_version (superseded i v who s) i = Some v"
    and "\<not> other_active (superseded i v who s) i"
    and "j \<noteq> i \<Longrightarrow> get_version (superseded i v who s) j =
      (if active_in s j = Some (pv_graph_id v) then map_option (\<lambda>w. w\<lparr>pv_status := ''suspended''\<rparr>) (get_version s j)
       else get_version s j)"
    and "list_nodes (superseded i v who s) k = list_nodes s k"
    and "list_edges (superseded i v who s) k = list_edges s k"
proof -
  let ?g = "pv_graph_id v" and ?t = "superseded i v who s"
  have one: "active_in s a = Some ?g \<Longrightarrow> active_in s b = Some ?g \<Longrightarrow> a = b" for a b
    using ok by (auto simp: store_ok_def one_active_def)
  have t: "?t = (if \<exists>j. active_in s j = Some ?g \<and> j \<noteq> i then
      apply_transition (THE j. active_in s j = Some ?g) ''active'' ''suspended'' who (Some (superseded_reason i)) s
      else s)"
    using one by (auto simp: superseded_def active_ids_ok[OF ok] the_equality)
  have "get_version ?t i = Some v \<and> (\<forall>j. j \<noteq> i \<longrightarrow> get_version ?t j =
      (if active_in s j = Some ?g then map_option (\<lambda>w. w\<lparr>pv_status := ''suspended''\<rparr>) (get_version s j)
       else get_version s j))"
  proof (cases "\<exists>j. active_in s j = Some ?g \<and> j \<noteq> i")
    case True
    then obtain k where k: "active_in s k = Some ?g" "k \<noteq> i" by blast
    have tk: "?t = apply_transition k ''active'' ''suspended'' who (Some (superseded_reason i)) s"
      unfolding t if_P[OF True] by (simp only: the_equality[of "\<lambda>j. active_in s j = Some ?g", OF k(1) one[OF _ k(1)]])
    have "active_in s j = Some ?g \<longleftrightarrow> j = k" for j using one k(1) by blast
    then show ?thesis using v k(2) by (simp add: tk)
  next
    case False
    then have "?t = s" by (simp only: t if_False)
    with False v show ?thesis by simp
  qed
  then show g: "get_version ?t i = Some v" and o: "j \<noteq> i \<Longrightarrow> get_version ?t j =
      (if active_in s j = Some ?g then map_option (\<lambda>w. w\<lparr>pv_status := ''suspended''\<rparr>) (get_version s j)
       else get_version s j)" for j
    by blast+
  have "ids_ok ?t" using ok by (auto simp: t store_ok_def)
  moreover have "active_in ?t j \<noteq> Some ?g" if j: "j \<noteq> i" for j
  proof (cases "active_in s j = Some ?g")
    case True
    with o[OF j] show ?thesis by (auto simp: active_in_Some)
  next
    case False
    with o[OF j] have "get_version ?t j = get_version s j" by simp
    with False show ?thesis by (simp add: active_in_def)
  qed
  ultimately show "\<not> other_active ?t i"
    using g by (auto simp: other_active_iff)
  show "list_nodes ?t k = list_nodes s k" "list_edges ?t k = list_edges s k"
    by (simp_all add: t list_nodes_def list_edges_def)
qed

lemma activate_eq:
  assumes ok: "store_ok s" and v: "get_version s i = Some v"
  shows "activate_version i who why s =
     (if maker_is_checker s i v who then (Inl (MakerCheckerViolation who), s)
      else if pv_status v = ''approved'' \<or> pv_status v = ''suspended''
        then (Inr (), apply_transition i (pv_status v) ''active'' who why (superseded i v who s))
      else (Inl (InvalidTransition (pv_status v) ''active''), superseded i v who s))"
proof -
  have sup: "(case active_ids s (pv_graph_id v) of
              [] \<Rightarrow> ret ()
            | [j] \<Rightarrow> if j \<noteq> i
                then transition_version_status j ''suspended'' who (Some (superseded_reason i))
                else ret ()
            | _ \<Rightarrow> raise MultipleResultsFound) s = (Inr (), superseded i v who s)"
  proof -
    have "active_in s j = Some (pv_graph_id v) \<Longrightarrow>
      transition_version_status j ''suspended'' who (Some (superseded_reason i)) s =
      (Inr (), apply_transition j ''active'' ''suspended'' who (Some (superseded_reason i)) s)" for j
      by (auto simp: transition_eq active_in_Some can_transition_to_suspended)
    moreover have "(THE j. active_in s j = Some (pv_graph_id v)) = j" if "active_in s j = Some (pv_graph_id v)" for j
      using that ok by (auto simp: store_ok_def one_active_def intro!: the_equality)
    ultimately show ?thesis
      by (auto simp: superseded_def active_ids_ok[OF ok])
  qed
  show ?thesis
    using sup v superseded_props(1,2)[OF ok v, of who]
    by (auto simp: activate_version_def bind_eq then_db_eq maker_is_checker_def list_ex_iff transition_eq
        can_transition_to_active)
qed

section \<open>What the calls never undo\<close>

text \<open>
  Rows of the history and content tables are never changed or removed, and a version keeps
  its graph, its number and its author.
\<close>

definition version_kept :: "policy_db \<Rightarrow> policy_db \<Rightarrow> bool" where
  "version_kept s t \<longleftrightarrow>
     (\<forall>i v. get_version s i = Some v \<longrightarrow> (\<exists>w. get_version t i = Some w \<and> pv_graph_id w = pv_graph_id v \<and>
        pv_version_number w = pv_version_number v \<and> pv_created_by w = pv_created_by v))"

lemma version_kept_trans: "version_kept s t \<Longrightarrow> version_kept t u \<Longrightarrow> version_kept s u"
  unfolding version_kept_def by metis

definition grows :: "policy_db \<Rightarrow> policy_db \<Rightarrow> bool" where
  "grows s t \<longleftrightarrow>
     extends (policy_version_transitions s) (policy_version_transitions t) \<and>
     extends (policy_nodes s) (policy_nodes t) \<and> extends (policy_edges s) (policy_edges t) \<and>
     extends (policy_graphs s) (policy_graphs t) \<and> extends (research_dossiers s) (research_dossiers t) \<and>
     version_kept s t"

interpretation grows: preorder_rel grows
proof
  show "grows s s" for s by (simp add: grows_def version_kept_def)
  show "grows s t \<Longrightarrow> grows t u \<Longrightarrow> grows s u" for s t u
    unfolding grows_def by (meson extends_trans version_kept_trans)
qed

lemma map_of_append_left: "map_of xs i = Some v \<Longrightarrow> map_of (xs @ ys) i = Some v"
  by (simp add: map_add_Some_iff)

lemma grows_prims:
  "does grows (create_policy_graph g)" "does grows (insert_version v)" "does grows (insert_node n)"
  "does grows (insert_edge e)" "does grows (transition_version_status i to who why)"
  "does grows (link_dossier_to_version i d)" "does grows (modify (\<lambda>s. s\<lparr>role_names := rs\<rparr>))"
  by (auto simp: does_def grows_def version_kept_def get_version_def create_policy_graph_def insert_version_eq
      add_version_def insert_node_def insert_edge_def transition_eq apply_transition_def set_status_def
      link_dossier_to_version_def bind_eq then_db_eq map_add_Some_iff split: option.splits)

lemma grows_parts:
  "does grows (lift_model r)" "does grows (get_version_status i)" "does grows (assert_content_mutable i)"
  "does grows (parse_ts f x)"
proof -
  show l: "does grows (lift_model r)" and g: "does grows (get_version_status i)" and "does grows (parse_ts f x)"
    by (auto simp: lift_model_def get_version_status_def parse_ts_def intro!: grows.does_rules
        split: sum.splits option.splits)
  show "does grows (assert_content_mutable i)"
    unfolding assert_content_mutable_def by (intro grows.does_rules g)
qed

lemmas grows_rules = grows_prims grows_parts grows.does_rules

lemma grows_content:
  "does grows (create_draft_version g n who)" "does grows (add_nodes ns)" "does grows (add_edges es)"
  unfolding create_draft_version_def add_nodes_def add_edges_def
  by (auto intro!: grows_rules)

lemma grows_store_dossier: "does grows (store_research_dossier f d)"
proof -
  have m: "does grows (modify (\<lambda>s. s\<lparr>research_dossiers := research_dossiers s @ rs, dossier_seq := j\<rparr>))" for rs j
    by (simp add: does_def grows_def version_kept_def get_version_def)
  show ?thesis unfolding store_research_dossier_def by (intro grows_rules m)
qed

lemma grows_calls:
  "does grows (fork_new_draft_version i who)" "does grows (submit_for_approval i who why)"
  "does grows (activate_version i who why)" "does grows (kill_switch i who wy)"
  unfolding fork_new_draft_version_def submit_for_approval_def activate_version_def kill_switch_def Let_def
  by (auto intro!: grows_rules grows_content split: option.split sum.split list.split)

lemma exec_call_grows: "does grows (exec_call c)"
  by (cases c) (auto intro!: grows_rules grows_content grows_calls grows_store_dossier split: sum.split)

lemma commit_grows: "grows s (commit c s)"
  using grows.does_transaction[OF exec_call_grows] by (simp add: does_def commit_def)

lemma steps_version_kept: "policy_step\<^sup>*\<^sup>* s t \<Longrightarrow> version_kept s t"
proof (induction rule: rtranclp_induct)
  case base
  show ?case by (simp add: version_kept_def)
next
  case (step t u)
  have "version_kept t u"
    using step.hyps(2) commit_grows by (auto simp: policy_step_def grows_def)
  with step.IH show ?case by (rule version_kept_trans)
qed

interpretation log: append_only policy_step policy_version_transitions
  by unfold_locales (use commit_grows in \<open>auto simp: policy_step_def grows_def\<close>)

interpretation node_rows: append_only policy_step policy_nodes
  by unfold_locales (use commit_grows in \<open>auto simp: policy_step_def grows_def\<close>)

interpretation edge_rows: append_only policy_step policy_edges
  by unfold_locales (use commit_grows in \<open>auto simp: policy_step_def grows_def\<close>)

section \<open>Immutable content\<close>

text \<open>A batch for one version, as every caller of \<open>add_nodes\<close> and \<open>add_edges\<close> builds it.\<close>

fun uniform_batch :: "policy_call \<Rightarrow> bool" where
  "uniform_batch (AddNodes ns) = (\<forall>n \<in> set ns. pn_version_id n = pn_version_id (hd ns))"
| "uniform_batch (AddEdges es) = (\<forall>e \<in> set es. pe_version_id e = pe_version_id (hd es))"
| "uniform_batch _ = True"

definition content :: "policy_db \<Rightarrow> int \<Rightarrow> policy_node list \<times> policy_edge list" where
  "content s i = (list_nodes s i, list_edges s i)"

text \<open>The calls other than the three that add content leave every version's content alone.\<close>

definition same_content :: "policy_db \<Rightarrow> policy_db \<Rightarrow> bool" where
  "same_content s t \<longleftrightarrow> policy_nodes t = policy_nodes s \<and> policy_edges t = policy_edges s"

interpretation same_content: preorder_rel same_content
  by unfold_locales (auto simp: same_content_def)

lemma same_content_prims:
  "does same_content (create_policy_graph gr)" "does same_content (create_draft_version g n who)"
  "does same_content (transition_version_status i to who why)" "does same_content (get_version_status i)"
  "does same_content (link_dossier_to_version i d)" "does same_content (modify (\<lambda>s. s\<lparr>role_names := rs\<rparr>))"
  by (auto simp: does_def same_content_def create_policy_graph_def create_draft_version_eq insert_version_eq
      transition_eq get_version_status_eq link_dossier_to_version_def bind_eq then_db_eq split: option.splits)

lemma same_content_dossier: "does same_content (store_research_dossier f d)"
proof -
  have "does same_content (modify (\<lambda>s. s\<lparr>research_dossiers := research_dossiers s @ rs, dossier_seq := j\<rparr>))" for rs j
    by (simp add: does_def same_content_def)
  moreover have "does same_content (parse_ts f x)" for x
    by (auto simp: parse_ts_def intro!: same_content.does_rules split: option.split)
  ultimately show ?thesis unfolding store_research_dossier_def by (intro same_content.does_rules)
qed

lemma same_content_calls:
  "does same_content (submit_for_approval i who why)" "does same_content (activate_version i who why)"
  "does same_content (kill_switch i who wy)"
  unfolding submit_for_approval_def activate_version_def kill_switch_def Let_def
  by (auto intro!: same_content.does_rules same_content_prims split: option.split sum.split list.split)

lemma exec_call_same_content:
  assumes "\<nexists>ns. c = AddNodes ns" "\<nexists>es. c = AddEdges es" "\<nexists>i who. c = Fork i who"
  shows "does same_content (exec_call c)"
  using assms
  by (cases c) (auto intro!: same_content.does_rules same_content_prims same_content_calls same_content_dossier
      split: sum.split)

lemma same_content_eq: "same_content s t \<Longrightarrow> content t i = content s i"
  by (simp add: same_content_def content_def list_nodes_def list_edges_def)

lemma commit_content:
  assumes ok: "store_ok s" and v: "get_version s i = Some v" "pv_status v \<in> set IMMUTABLE_STATUSES"
    and u: "uniform_batch c"
  shows "content (commit c s) i = content s i"
proof (rule commit_cases[of c s])
  assume run: "exec_call c s = (Inr (), commit c s)"
  consider (nodes) ns where "c = AddNodes ns" | (edges) es where "c = AddEdges es"
    | (fork) j who where "c = Fork j who"
    | (other) "\<nexists>ns. c = AddNodes ns" "\<nexists>es. c = AddEdges es" "\<nexists>i who. c = Fork i who"
    by blast
  then show ?thesis
  proof cases
    case (nodes ns)
    with run obtain ms where ms: "map_model mk_policy_node ns = Inr ms" "add_nodes ms s = (Inr (), commit c s)"
      by (auto simp: bind_Inr lift_model_Inr)
    have "ms = ns" using map_model_map[of mk_policy_node "\<lambda>x. x", OF ms(1) mk_policy_node_Inr] by simp
    note r = add_nodes_Inr[OF ms(2), unfolded this]
    have "pn_version_id x \<noteq> i" if "x \<in> set ns" for x
    proof -
      from that have "ns \<noteq> []" by auto
      with r v have "pn_version_id (hd ns) \<noteq> i" by auto
      with u that nodes show ?thesis by simp
    qed
    then have "filter (\<lambda>x. pn_version_id x = i) ns = []" by (simp add: filter_empty_conv)
    then show ?thesis
      unfolding r[THEN conjunct1] content_def by (simp add: list_nodes_def list_edges_def)
  next
    case (edges es)
    with run obtain fs where fs: "map_model mk_policy_edge es = Inr fs" "add_edges fs s = (Inr (), commit c s)"
      by (auto simp: bind_Inr lift_model_Inr)
    have "fs = es" using map_model_map[of mk_policy_edge "\<lambda>x. x", OF fs(1) mk_policy_edge_Inr] by simp
    note r = add_edges_Inr[OF fs(2), unfolded this]
    have "pe_version_id x \<noteq> i" if "x \<in> set es" for x
    proof -
      from that have "es \<noteq> []" by auto
      with r v have "pe_version_id (hd es) \<noteq> i" by auto
      with u that edges show ?thesis by simp
    qed
    then have "filter (\<lambda>x. pe_version_id x = i) es = []" by (simp add: filter_empty_conv)
    then show ?thesis
      unfolding r[THEN conjunct1] content_def by (simp add: list_nodes_def list_edges_def)
  next
    case (fork j who)
    with run obtain k where "fork_new_draft_version j who s = (Inr k, commit c s)" by (auto simp: bind_Inr)
    then obtain w where w: "commit c s = forked j w who s" by (rule fork_Inr)
    have "i \<noteq> version_seq s"
      using v(1) fresh_version_id[of s] ok by (auto simp: store_ok_def get_version_def dest: map_of_mem)
    then show ?thesis
      by (simp add: w forked_def content_def list_nodes_def list_edges_def filter_empty_conv comp_def)
  next
    case other
    from exec_call_same_content[OF this] run have "same_content s (commit c s)"
      by (metis does_def snd_conv)
    then show ?thesis by (rule same_content_eq)
  qed
qed simp

end
