(* ===== verification/Policy_Theorems.thy ===== *)
theory Policy_Theorems
  imports Policy_Store_Calls
begin

text \<open>
  The properties of the policy graph's validator and store, each with a concrete run for its
  hypotheses. The runs start from the empty database and commit the calls of \<open>demo_calls\<close>.
\<close>

section \<open>Ways into \<open>approved\<close>\<close>

definition no_new_approval :: "policy_db \<Rightarrow> policy_db \<Rightarrow> bool" where
  "no_new_approval s t \<longleftrightarrow>
     (\<forall>i v. get_version s i = Some v \<longrightarrow>
        (\<exists>w. get_version t i = Some w \<and> (pv_status w = ''approved'' \<longrightarrow> pv_status v = ''approved'')))"

interpretation no_new_approval: preorder_rel no_new_approval
proof
  show "no_new_approval s s" for s by (simp add: no_new_approval_def)
  show "no_new_approval s t \<Longrightarrow> no_new_approval t u \<Longrightarrow> no_new_approval s u" for s t u
    unfolding no_new_approval_def by metis
qed

lemma no_new_approval_same: "policy_versions t = policy_versions s \<Longrightarrow> no_new_approval s t"
  by (simp add: no_new_approval_def get_version_def)

lemma no_new_approval_prims:
  "does no_new_approval (create_policy_graph gr)" "does no_new_approval (insert_node n)"
  "does no_new_approval (insert_edge e)" "does no_new_approval (get_version_status i)"
  "does no_new_approval (lift_model r)" "does no_new_approval (parse_ts f x)"
  "does no_new_approval (modify (\<lambda>s. s\<lparr>role_names := rs\<rparr>))"
  "does no_new_approval (modify (\<lambda>s. s\<lparr>research_dossiers := research_dossiers s @ ds, dossier_seq := j\<rparr>))"
  unfolding does_def
  by (auto simp: create_policy_graph_def insert_node_def insert_edge_def get_version_status_eq lift_model_def
      parse_ts_def bind_eq then_db_eq intro!: no_new_approval_same split: option.splits sum.splits)

lemma no_new_approval_version: "does no_new_approval (create_draft_version g n who)"
  by (auto simp: does_def no_new_approval_def create_draft_version_eq insert_version_eq get_version_def map_add_Some_iff)

lemma no_new_approval_link: "does no_new_approval (link_dossier_to_version i d)"
  by (auto simp: does_def no_new_approval_def get_version_def link_dossier_to_version_def bind_eq then_db_eq)

lemma no_new_approval_transition:
  "to \<noteq> ''approved'' \<Longrightarrow> does no_new_approval (transition_version_status i to who why)"
  by (auto simp: does_def no_new_approval_def transition_eq split: option.splits)

lemmas no_new_approval_rules = no_new_approval_prims no_new_approval_version no_new_approval_link
  no_new_approval_transition no_new_approval.does_rules

lemma no_new_approval_calls:
  "does no_new_approval (assert_content_mutable i)"
  "does no_new_approval (activate_version i who why)" "does no_new_approval (kill_switch i who wy)"
  "does no_new_approval (store_research_dossier f d)"
  unfolding assert_content_mutable_def activate_version_def kill_switch_def store_research_dossier_def
  by (auto intro!: no_new_approval_rules split: option.split list.split)

lemma no_new_approval_batches: "does no_new_approval (add_nodes ns)" "does no_new_approval (add_edges es)"
  unfolding add_nodes_def add_edges_def by (auto intro!: no_new_approval_rules no_new_approval_calls)

lemma no_new_approval_fork: "does no_new_approval (fork_new_draft_version i who)"
  unfolding fork_new_draft_version_def
  by (auto intro!: no_new_approval_rules no_new_approval_batches split: option.split)

lemma exec_call_no_new_approval:
  assumes "\<nexists>i who why. c = Submit i who why" "\<nexists>i who why. c = Transition i ''approved'' who why"
  shows "does no_new_approval (exec_call c)"
  using assms
  by (cases c) (auto intro!: no_new_approval_rules no_new_approval_calls no_new_approval_batches
      no_new_approval_fork split: sum.split)

lemma new_approval:
  assumes v: "get_version s i = Some v" "pv_status v \<noteq> ''approved''"
    and w: "get_version (commit c s) i = Some w" "pv_status w = ''approved''"
  shows "pv_status v = ''risk_review'' \<and>
    ((\<exists>who why. c = Submit i who why \<and> approvable s i) \<or> (\<exists>who why. c = Transition i ''approved'' who why))"
proof -
  from v w have ne: "commit c s \<noteq> s" by auto
  then have run: "exec_call c s = (Inr (), commit c s)" using commit_cases by metis
  have not: "\<not> does no_new_approval (exec_call c)"
  proof
    assume "does no_new_approval (exec_call c)"
    then have "no_new_approval s (snd (exec_call c s))" by (simp add: does_def)
    then obtain w' where "get_version (commit c s) i = Some w'"
      "pv_status w' = ''approved'' \<longrightarrow> pv_status v = ''approved''"
      using run v(1) unfolding no_new_approval_def by auto
    with v w show False by simp
  qed
  have "(\<exists>j who why. c = Submit j who why) \<or> (\<exists>j who why. c = Transition j ''approved'' who why)"
    using not exec_call_no_new_approval[of c] by argo
  then consider (submit) j who why where "c = Submit j who why"
    | (transition) j who why where "c = Transition j ''approved'' who why"
    by (elim disjE exE)
  then show ?thesis
  proof cases
    case submit
    with run have "approvable s j" and t: "transition_version_status j ''approved'' who why s = (Inr (), commit c s)"
      by (auto simp: submit_eq split: if_splits sum.splits)
    with submit v w show ?thesis
      by (auto simp: transition_Inr can_transition_to_approved split: if_splits)
  next
    case transition
    with run v w show ?thesis
      by (auto simp: transition_Inr can_transition_to_approved split: if_splits)
  qed
qed

section \<open>Concrete runs\<close>

definition demo_node :: "int \<Rightarrow> string \<Rightarrow> policy_node" where
  "demo_node i k = \<lparr>pn_version_id = i, node_key = k, node_type = ''human'', title = k, purpose = k,
     owner = ''risk'', execution_mode = ''manual'', input_contract = [], output_contract = [],
     preconditions = [], evidence_requirements = [], reason_codes = [], test_cases = [],
     monitoring_metrics = [], timeout_seconds = None, retry_policy = None, fallback_node_key = None,
     required_role = None, financial_impact = False, legal_impact = False,
     model_or_policy_dependency = None\<rparr>"

definition demo_calls :: "policy_call list" where
  "demo_calls =
     [CreateGraph \<lparr>pg_name = ''pricing'', pg_owner = ''ann'', pg_description = None\<rparr>,
      CreateDraft 1 1 ''ann'',
      AddNodes [demo_node 1 ''review''],
      Transition 1 ''simulation'' ''ann'' None,
      Transition 1 ''business_review'' ''ann'' None,
      Transition 1 ''risk_review'' ''ann'' None,
      Submit 1 ''ann'' None,
      Activate 1 ''bob'' None]"

definition demo_db :: "nat \<Rightarrow> policy_db" where
  "demo_db k = fold commit (take k demo_calls) empty_policy_db"

lemma reachable_fold:
  "reachable policy_start policy_step s \<Longrightarrow> reachable policy_start policy_step (fold commit cs s)"
proof (induction cs arbitrary: s)
  case (Cons c cs)
  have "policy_step s (commit c s)" by (auto simp: policy_step_def)
  with Cons.prems have "reachable policy_start policy_step (commit c s)"
    by (rule reachable.stepwise)
  with Cons.IH show ?case by simp
qed simp

lemma demo_reachable: "reachable policy_start policy_step (demo_db k)"
  unfolding demo_db_def
  by (rule reachable_fold) (auto intro: reachable.initially simp: policy_start_def)

lemma demo_versions:
  "policy_versions (demo_db 8) =
     [(1, \<lparr>pv_graph_id = 1, pv_version_number = 1, pv_status = ''active'', pv_created_by = ''ann'',
           pv_research_dossier_id = None\<rparr>)]"
  "policy_versions (demo_db 7) =
     [(1, \<lparr>pv_graph_id = 1, pv_version_number = 1, pv_status = ''approved'', pv_created_by = ''ann'',
           pv_research_dossier_id = None\<rparr>)]"
  by code_simp+

lemma demo_content:
  "list_nodes (demo_db 8) 1 = [demo_node 1 ''review'']" "list_edges (demo_db 8) 1 = []"
  "list_nodes (demo_db 7) 1 = [demo_node 1 ''review'']" "policy_graphs (demo_db 8) \<noteq> []"
  by code_simp+

lemma demo_ok: "store_ok (demo_db k)"
  using demo_reachable by (rule policy.reachable_inv)

lemma demo_get:
  "get_version (demo_db 8) 1 = Some \<lparr>pv_graph_id = 1, pv_version_number = 1, pv_status = ''active'',
     pv_created_by = ''ann'', pv_research_dossier_id = None\<rparr>"
  "get_version (demo_db 7) 1 = Some \<lparr>pv_graph_id = 1, pv_version_number = 1, pv_status = ''approved'',
     pv_created_by = ''ann'', pv_research_dossier_id = None\<rparr>"
  by (simp_all add: get_version_def demo_versions)

section \<open>The validator\<close>

text \<open>
  C1. \<open>validate_graph\<close> returns no issue exactly on the graphs (edges and fallbacks taken together) with
  these five properties. Every edge and every fallback leads to a node of the graph. There is at
  least one node; unless it is the only one, no node is isolated, every node is reached from a
  node without incoming edges, and some node has no outgoing edge (a graph of one node is exempt
  from these three conditions). Every cycle has in its strongly connected component a human node,
  or a node with a positive number of attempts whose fallback lies outside the component. Along
  every edge, a key in both the output contract of its source and the input contract of its
  target has the same type. Every rule node with an outgoing edge has at least one test case,
  labelled or not, its covered conditions are hashable (otherwise the call raises), and they
  include every non-empty label of its edges.
\<close>

theorem validate_graph_correct: "validate_graph nodes edges = Inr [] \<longleftrightarrow> sound_graph nodes edges"
  by (rule validate_graph_sound_iff)

text \<open>
  C2. \<open>_tarjan_sccs\<close> always returns, and its components are strongly connected components of
  the policy graph that together contain every node exactly once.
\<close>

theorem tarjan_components:
  "\<exists>comps. tarjan_sccs (node_keys nodes) (graph_out nodes edges) = Some comps \<and>
     list_all (\<lambda>c. is_scc (graph_rel nodes edges) (set c)) comps \<and>
     distinct (concat comps) \<and> set (concat comps) = set (node_keys nodes)"
proof -
  obtain comps where "tarjan_sccs (node_keys nodes) (graph_out nodes edges) = Some comps"
    "\<forall>c \<in> set comps. is_scc (edge_rel (graph_out nodes edges)) (set c)" "distinct (concat comps)"
    "set (node_keys nodes) \<subseteq> set (concat comps)"
    "set (concat comps) \<subseteq> set (node_keys nodes) \<union> adj_targets (graph_out nodes edges)"
    by (rule tarjan_sccs_correct)
  then show ?thesis
    using graph_out_targets[of nodes edges] by (auto simp: list_all_iff edge_rel_graph_out)
qed

text \<open>
  The validator raises (an uncaught \<open>TypeError\<close>) exactly when a rule node with outgoing
  edges has a test case whose \<open>covers_condition\<close> is a JSON array or object; on every other
  input it returns a list of issues.
\<close>

theorem validate_graph_raises_iff:
  "(\<exists>x. validate_graph nodes edges = Inl x) \<longleftrightarrow>
   list_ex (\<lambda>n. node_type n = ''rule'' \<and> outgoing_edges edges (node_key n) \<noteq> [] \<and>
      \<not> list_all hashable (covers_conditions (test_cases n))) nodes"
  by (simp add: validate_graph_error list_ex_iff)

section \<open>The store\<close>

text \<open>C3. In every reachable database a policy graph has at most one active version.\<close>

theorem one_active_version:
  assumes "reachable policy_start policy_step s"
    and "get_version s i = Some v" "pv_status v = ''active''"
    and "get_version s j = Some w" "pv_status w = ''active''"
    and "pv_graph_id v = pv_graph_id w"
  shows "i = j"
proof -
  have "one_active s" using policy.reachable_inv[OF assms(1)] by (simp add: store_ok_def)
  moreover have "active_in s i = Some (pv_graph_id v)" "active_in s j = Some (pv_graph_id v)"
    using assms by (auto simp: active_in_Some)
  ultimately show ?thesis unfolding one_active_def by blast
qed

theorem one_active_version_witness:
  "reachable policy_start policy_step (demo_db 8) \<and> (1::int) = 1"
  using one_active_version[OF demo_reachable demo_get(1) _ demo_get(1)] demo_reachable by simp

text \<open>
  C4. The transition log of a version replays its life: in every reachable database the logged
  statuses form a path of the lifecycle table from \<open>draft\<close> to the version's current status, and
  every entry's \<open>from_status\<close> is the status the entry before it led to.
\<close>

theorem log_replays_lifecycle:
  assumes "reachable policy_start policy_step s" "get_version s i = Some v"
  shows "lifecycle_path ''draft'' (map to_status (list_transitions_by_version s i)) (pv_status v) \<and>
    map from_status (list_transitions_by_version s i) @ [pv_status v] =
    ''draft'' # map to_status (list_transitions_by_version s i)"
  using policy.reachable_inv[OF assms(1)] assms(2) by (simp add: store_ok_def log_ok_def Let_def)

theorem log_replays_lifecycle_witness:
  "lifecycle_path ''draft'' (map to_status (list_transitions_by_version (demo_db 8) 1)) ''active''"
  using log_replays_lifecycle[OF demo_reachable demo_get(1)] by simp

text \<open>
  No shortcut to an activation: the log of a version that is approved, active, suspended or
  retired starts with the three reviews in their order and the approval.
\<close>

theorem no_approval_shortcut:
  assumes "reachable policy_start policy_step s" "get_version s i = Some v"
    and "pv_status v \<in> {''approved'', ''active'', ''suspended'', ''retired''}"
  shows "\<exists>rest. map to_status (list_transitions_by_version s i) =
    [''simulation'', ''business_review'', ''risk_review'', ''approved''] @ rest"
proof -
  have "lifecycle_path ''draft'' (map to_status (list_transitions_by_version s i)) (pv_status v)"
    using policy.reachable_inv[OF assms(1)] assms(2) by (simp add: store_ok_def log_ok_def Let_def)
  then show ?thesis using assms(3) by (rule approved_from_draft)
qed

theorem no_approval_shortcut_witness:
  "\<exists>rest. map to_status (list_transitions_by_version (demo_db 8) 1) =
    [''simulation'', ''business_review'', ''risk_review'', ''approved''] @ rest"
  by (rule no_approval_shortcut[OF demo_reachable demo_get(1)]) simp

text \<open>
  \<open>submit_for_approval\<close> succeeds exactly when the version is in \<open>risk_review\<close> and passes the
  whole gate (a sound graph, known roles, an approved dossier if a node has financial
  impact); the only effect is then the status and one log entry. In every other case
  nothing is written, before any rollback.
\<close>

theorem submit_gate:
  "submit_for_approval i who why s =
     (if \<not> approvable s i
      then (Inl (case validate_graph (list_nodes s i) (list_edges s i) of
              Inl x \<Rightarrow> Uncaught x
            | Inr iss \<Rightarrow> GraphInvalid (iss @ unknown_role_issues s (list_nodes s i) @
                missing_dossier_issues s i (list_nodes s i))), s)
      else case get_version s i of
        None \<Rightarrow> (Inl (NoSuchVersion i), s)
      | Some v \<Rightarrow>
          if pv_status v = ''risk_review''
          then (Inr (), apply_transition i ''risk_review'' ''approved'' who why s)
          else (Inl (InvalidTransition (pv_status v) ''approved''), s))"
  by (auto simp: submit_eq transition_eq can_transition_to_approved split: sum.splits option.splits)

text \<open>
  C5. The only calls that move a version into \<open>approved\<close> are \<open>submit_for_approval\<close> on a version
  that passes the gate, and a direct \<open>transition_version_status\<close> to \<open>approved\<close>; both need
  the version to be in \<open>risk_review\<close>.
\<close>

theorem ways_into_approved:
  assumes "get_version s i = Some v" "pv_status v \<noteq> ''approved''"
    and "get_version (commit c s) i = Some w" "pv_status w = ''approved''"
  shows "pv_status v = ''risk_review'' \<and>
    ((\<exists>who why. c = Submit i who why \<and> approvable s i) \<or>
     (\<exists>who why. c = Transition i ''approved'' who why))"
  using assms by (rule new_approval)

lemma demo_commit_7: "commit (Submit 1 ''ann'' None) (demo_db 6) = demo_db 7"
  by (simp add: demo_db_def demo_calls_def)

lemma demo_get_6:
  "get_version (demo_db 6) 1 = Some \<lparr>pv_graph_id = 1, pv_version_number = 1, pv_status = ''risk_review'',
     pv_created_by = ''ann'', pv_research_dossier_id = None\<rparr>"
  by code_simp

theorem ways_into_approved_witness: "approvable (demo_db 6) 1"
  using ways_into_approved[OF demo_get_6, of "Submit 1 ''ann'' None"] demo_get(2)
  by (simp add: demo_commit_7)

text \<open>
  Activation: on a database that satisfies the store's invariant, \<open>activate_version\<close> of an
  existing version succeeds exactly when the version is approved or suspended and, if one of
  its nodes has financial impact, the activator is not the author. It then makes the version
  active, suspends the version of the same graph that was active, and leaves every other
  version as it was; the partial unique index is never hit.
\<close>

theorem activation_effect:
  assumes "reachable policy_start policy_step s" "get_version s i = Some v"
  shows "fst (activate_version i who why s) =
      (if maker_is_checker s i v who then Inl (MakerCheckerViolation who)
       else if pv_status v \<in> {''approved'', ''suspended''} then Inr ()
       else Inl (InvalidTransition (pv_status v) ''active'')) \<and>
    (activate_version i who why s = (Inr (), t) \<longrightarrow>
       (\<forall>j. get_version t j =
          (if j = i then Some (v\<lparr>pv_status := ''active''\<rparr>)
           else if active_in s j = Some (pv_graph_id v)
             then map_option (\<lambda>w. w\<lparr>pv_status := ''suspended''\<rparr>) (get_version s j)
           else get_version s j)))"
proof -
  have ok: "store_ok s" using assms(1) by (rule policy.reachable_inv)
  note p = superseded_props[OF ok assms(2), where who = who]
  show ?thesis
    using p(1,3) by (auto simp: activate_eq[OF ok assms(2)])
qed

theorem activation_effect_witness:
  "get_version (demo_db 8) 1 = Some \<lparr>pv_graph_id = 1, pv_version_number = 1, pv_status = ''active'',
     pv_created_by = ''ann'', pv_research_dossier_id = None\<rparr> \<and>
   fst (activate_version 1 ''bob'' None (demo_db 7)) = Inr ()"
  using activation_effect[OF demo_reachable demo_get(2), of "''bob''" None] demo_get(1)
  by (simp add: maker_is_checker_def demo_content demo_node_def)

text \<open>
  C6. Maker/checker: whoever created a version with a financial-impact node cannot activate
  it, and the attempt changes nothing.
\<close>

theorem maker_checker:
  assumes "get_version s i = Some v" "n \<in> set (list_nodes s i)" "financial_impact n"
  shows "activate_version i (pv_created_by v) why s = (Inl (MakerCheckerViolation (pv_created_by v)), s)"
  using assms by (auto simp: activate_version_def bind_eq then_db_eq list_ex_iff)

definition demo_fin :: policy_db where
  "demo_fin = fold commit [CreateGraph \<lparr>pg_name = ''pricing'', pg_owner = ''ann'', pg_description = None\<rparr>,
      CreateDraft 1 1 ''ann'', AddNodes [(demo_node 1 ''price'')\<lparr>financial_impact := True\<rparr>]] empty_policy_db"

lemma demo_fin_facts:
  "get_version demo_fin 1 = Some \<lparr>pv_graph_id = 1, pv_version_number = 1, pv_status = ''draft'',
     pv_created_by = ''ann'', pv_research_dossier_id = None\<rparr>"
  "list_nodes demo_fin 1 = [(demo_node 1 ''price'')\<lparr>financial_impact := True\<rparr>]"
  by code_simp+

theorem maker_checker_witness:
  "activate_version 1 ''ann'' None demo_fin = (Inl (MakerCheckerViolation ''ann''), demo_fin)"
  using maker_checker[OF demo_fin_facts(1), of "(demo_node 1 ''price'')\<lparr>financial_impact := True\<rparr>" None]
  by (simp add: demo_fin_facts(2))

text \<open>
  C7. The nodes and edges of an approved or active version do not change: not by any call of
  the store whose batch of nodes or edges is for one version, whichever version that is.
\<close>

theorem approved_content_immutable:
  assumes "reachable policy_start policy_step s" "get_version s i = Some v"
    and "pv_status v \<in> set IMMUTABLE_STATUSES" and "uniform_batch c"
  shows "list_nodes (commit c s) i = list_nodes s i \<and> list_edges (commit c s) i = list_edges s i"
  using commit_content[OF policy.reachable_inv[OF assms(1)] assms(2-4)] by (simp add: content_def)

theorem approved_content_immutable_witness:
  "list_nodes (commit (AddNodes [demo_node 1 ''late'']) (demo_db 8)) 1 = [demo_node 1 ''review'']"
  using approved_content_immutable[OF demo_reachable demo_get(1), of "AddNodes [demo_node 1 ''late'']"]
  by (simp add: demo_content IMMUTABLE_STATUSES_def)

text \<open>
  A successful fork creates one draft version of the same graph with the next number and
  no dossier, whose nodes and edges are those of the source with only the version id
  replaced; the source and every other version keep their rows and their content.
\<close>

theorem fork_copies:
  assumes "reachable policy_start policy_step s" "fork_new_draft_version i who s = (Inr k, t)"
  shows "\<exists>v. get_version s i = Some v \<and> get_version s k = None \<and>
    get_version t k = Some \<lparr>pv_graph_id = pv_graph_id v, pv_version_number = pv_version_number v + 1,
      pv_status = ''draft'', pv_created_by = who, pv_research_dossier_id = None\<rparr> \<and>
    list_nodes t k = map (\<lambda>n. n\<lparr>pn_version_id := k\<rparr>) (list_nodes s i) \<and>
    list_edges t k = map (\<lambda>e. e\<lparr>pe_version_id := k\<rparr>) (list_edges s i) \<and>
    (\<forall>j. j \<noteq> k \<longrightarrow> get_version t j = get_version s j \<and> list_nodes t j = list_nodes s j \<and>
       list_edges t j = list_edges s j)"
proof -
  obtain v where v: "get_version s i = Some v" "k = version_seq s" "t = forked i v who s"
    using fork_Inr[OF assms(2)] by metis
  have ok: "store_ok s" using assms(1) by (rule policy.reachable_inv)
  then have ids: "ids_ok s" by (simp add: store_ok_def)
  have g: "get_version t j = get_version (add_version (fork_row v who) s) j" for j
    by (simp add: v(3) forked_def get_version_def)
  have "get_version s k = None"
    using fresh_version_id[OF ids] by (simp add: v(2) get_version_def map_of_eq_None_iff)
  moreover have "list_nodes s k = []" "list_edges s k = []"
    using ok fresh_version_id[OF ids] unfolding v(2) store_ok_def content_ok_def list_nodes_def list_edges_def
      filter_empty_conv by metis+
  ultimately show ?thesis
    using v g by (auto simp: get_version_add[OF ids] fork_row_def forked_def list_nodes_def list_edges_def
        filter_empty_conv comp_def)
qed

lemma demo_fork: "fst (fork_new_draft_version 1 ''cat'' (demo_db 8)) = Inr 2"
  by code_simp

theorem fork_copies_witness:
  "list_nodes (snd (fork_new_draft_version 1 ''cat'' (demo_db 8))) 2 = [demo_node 2 ''review'']"
proof -
  have "fork_new_draft_version 1 ''cat'' (demo_db 8) = (Inr 2, snd (fork_new_draft_version 1 ''cat'' (demo_db 8)))"
    using demo_fork by (simp add: prod_eq_iff)
  from fork_copies[OF demo_reachable this] show ?thesis
    by (elim exE conjE) (simp add: demo_content demo_node_def)
qed

text \<open>
  Nothing recorded is lost: across any number of calls every log entry, node row and edge
  row stays, the log only grows at its end, and a version keeps its graph, number and author.
\<close>

theorem history_append_only:
  assumes "policy_step\<^sup>*\<^sup>* s t"
  shows "extends (list_transitions_by_version s i) (list_transitions_by_version t i) \<and>
    extends (list_nodes s i) (list_nodes t i) \<and> extends (list_edges s i) (list_edges t i) \<and> version_kept s t"
  using steps_version_kept[OF assms] log.steps_extend[OF assms] node_rows.steps_extend[OF assms]
    edge_rows.steps_extend[OF assms]
  by (simp add: list_transitions_by_version_def list_nodes_def list_edges_def extends_filter)

theorem history_append_only_witness:
  "extends (list_transitions_by_version (demo_db 7) 1)
     (list_transitions_by_version (commit (Activate 1 ''bob'' None) (demo_db 7)) 1)"
proof -
  have "policy_step (demo_db 7) (commit (Activate 1 ''bob'' None) (demo_db 7))"
    by (auto simp: policy_step_def)
  then have "policy_step\<^sup>*\<^sup>* (demo_db 7) (commit (Activate 1 ''bob'' None) (demo_db 7))" by blast
  then show ?thesis using history_append_only by blast
qed

end
