(* ===== verification/Policy_Api.thy ===== *)
theory Policy_Api
  imports Policy_Theorems Simulation_Store Platform
begin

text \<open>
  The routes of \<open>apps/api_tender/routers/algoritm.py\<close> over the policy store, the simulation
  store and the sessions of the platform. One database: the policy tables and the simulation
  runs are parts of the state, and the columns their statements read from other tables (the
  names of the roles, the ids of the versions, the clock) are taken from there.

  \<open>created_at\<close> is left out of the answers, as it is of the tables. \<open>Decimal(text)\<close>,
  \<open>fromisoformat\<close> and \<open>str\<close> of a JSON value are arguments.
\<close>

record policy_api_db = platform_db +
  policies :: policy_db
  simulations :: simulation_db

type_synonym 'a api_op = "(policy_api_db, api_error, 'a) db"

definition READ :: string where
  "READ = ''algorithm.policy.read''"

definition WRITE :: string where
  "WRITE = ''algorithm.policy.write''"

definition APPROVE :: string where
  "APPROVE = ''algorithm.policy.approve''"

definition ACTIVATE :: string where
  "ACTIVATE = ''algorithm.policy.activate''"

definition SIM_READ :: string where
  "SIM_READ = ''algorithm.simulation.read''"

definition SIM_WRITE :: string where
  "SIM_WRITE = ''algorithm.simulation.write''"

section \<open>Errors of the store\<close>

definition issue_detail :: "issue \<Rightarrow> string list" where
  "issue_detail i = [code i] @ message i @ (case issue_node i of None \<Rightarrow> [] | Some k \<Rightarrow> [k])"

text \<open>The values an exception's message interpolates, and its class when no route catches it.\<close>

fun error_args :: "store_error \<Rightarrow> string list" where
  "error_args (NoSuchVersion i) = [str_int i]"
| "error_args (ImmutableVersion i st) = [str_int i, st]"
| "error_args (InvalidTransition a b) = [a, b]"
| "error_args (GraphInvalid is) = map code is"
| "error_args (MakerCheckerViolation who) = [who]"
| "error_args EmptyReason = []"
| "error_args (NotActive i st) = [str_int i, st]"
| "error_args (ModelError (UnknownLifecycleStatus st)) = [st]"
| "error_args (ModelError (UnknownNodeType t)) = [t]"
| "error_args (ModelError (NodeTypeNotActivatable t)) = [t]"
| "error_args (ModelError _) = []"
| "error_args (DossierError f) = [f]"
| "error_args (IntegrityError c) = [c]"
| "error_args (Uncaught (KeyError k)) = [k]"
| "error_args _ = []"

fun error_class :: "store_error \<Rightarrow> string" where
  "error_class (ImmutableVersion _ _) = ''ImmutableVersionError''"
| "error_class (InvalidTransition _ _) = ''InvalidTransitionError''"
| "error_class (GraphInvalid _) = ''GraphInvalidError''"
| "error_class (MakerCheckerViolation _) = ''MakerCheckerViolation''"
| "error_class (IntegrityError _) = ''IntegrityError''"
| "error_class DataError = ''DBAPIError''"
| "error_class MultipleResultsFound = ''MultipleResultsFound''"
| "error_class (Uncaught (KeyError _)) = ''KeyError''"
| "error_class (Uncaught TypeError) = ''TypeError''"
| "error_class _ = ''ValueError''"

text \<open>The classes that derive from \<open>ValueError\<close>.\<close>

definition VALUE_ERRORS :: "string set" where
  "VALUE_ERRORS =
     {''ValueError'', ''ImmutableVersionError'', ''InvalidTransitionError'', ''GraphInvalidError'', ''MakerCheckerViolation''}"

fun domain_error :: "store_error \<Rightarrow> api_error" where
  "domain_error (GraphInvalid is) = ApiError 422 ''graph_invalid'' (concat (map issue_detail is))"
| "domain_error (MakerCheckerViolation who) = ApiError 409 ''maker_checker_violation'' [who]"
| "domain_error (ImmutableVersion i st) = ApiError 409 ''version_immutable'' [str_int i, st]"
| "domain_error (InvalidTransition a b) = ApiError 409 ''invalid_transition'' [a, b]"
| "domain_error e = ApiError 422 ''invalid_request'' (error_args e)"

text \<open>\<open>try: await policy_store... except <classes> as exc: raise _domain_error(exc)\<close>\<close>

definition synced_policies :: "policy_api_db \<Rightarrow> policy_db" where
  "synced_policies s = (policies s)\<lparr>role_names := map snd (roles s)\<rparr>"

definition on_policies :: "string set \<Rightarrow> 'a policy_op \<Rightarrow> 'a api_op" where
  "on_policies caught op = (\<lambda>s.
     case op (synced_policies s) of
       (Inl e, p) \<Rightarrow> (Inl (if error_class e \<in> caught then domain_error e else Exc (error_class e) (error_args e)), s\<lparr>policies := p\<rparr>)
     | (Inr x, p) \<Rightarrow> (Inr x, s\<lparr>policies := p\<rparr>))"

definition on_simulations :: "(simulation_db, store_error, 'a) db \<Rightarrow> 'a api_op" where
  "on_simulations op = (\<lambda>s.
     case op ((simulations s)\<lparr>version_ids := map fst (policy_versions (policies s)), simulation_db.clock := platform_db.clock s\<rparr>) of
       (Inl e, p) \<Rightarrow> (Inl (Exc (error_class e) (error_args e)), s\<lparr>simulations := p\<rparr>)
     | (Inr x, p) \<Rightarrow> (Inr x, s\<lparr>simulations := p\<rparr>))"

definition checked :: "store_error + 'a \<Rightarrow> 'a api_op" where
  "checked r = (case r of Inl e \<Rightarrow> raise (domain_error e) | Inr x \<Rightarrow> ret x)"

definition model_checked :: "model_error + 'a \<Rightarrow> 'a api_op" where
  "model_checked r = (case r of Inl e \<Rightarrow> raise (domain_error (ModelError e)) | Inr x \<Rightarrow> ret x)"

definition get_version_or_404 :: "int \<Rightarrow> policy_version api_op" where
  "get_version_or_404 i =
     bind (gets (\<lambda>s. get_version (policies s) i)) (\<lambda>r.
     case r of None \<Rightarrow> raise (ApiError 404 ''policy_version_not_found'' [str_int i]) | Some v \<Rightarrow> ret v)"

definition version_response :: "int \<Rightarrow> (int \<times> policy_version) api_op" where
  "version_response i = bind (get_version_or_404 i) (\<lambda>v. ret (i, v))"

section \<open>Graphs and versions\<close>

definition post_policy_graph :: "string option \<Rightarrow> policy_graph \<Rightarrow> (int \<times> policy_graph) api_op" where
  "post_policy_graph cookie g =
     route_of WRITE cookie (\<lambda>ident.
     bind (on_policies {} (create_policy_graph g)) (\<lambda>i.
     ret (i, g)))"

definition post_draft_version :: "string option \<Rightarrow> int \<Rightarrow> int \<Rightarrow> (int \<times> policy_version) api_op" where
  "post_draft_version cookie graph_id version_number =
     route_of WRITE cookie (\<lambda>ident.
     bind (on_policies {} (create_draft_version graph_id version_number (subject ident))) version_response)"

definition get_versions :: "string option \<Rightarrow> int \<Rightarrow> (int \<times> policy_version) list api_op" where
  "get_versions cookie graph_id =
     route_of READ cookie (\<lambda>ident. gets (\<lambda>s. list_versions_by_graph (policies s) graph_id))"

definition post_fork :: "string option \<Rightarrow> int \<Rightarrow> (int \<times> policy_version) api_op" where
  "post_fork cookie i =
     route_of WRITE cookie (\<lambda>ident.
     bind (on_policies {} (fork_new_draft_version i (subject ident))) version_response)"

section \<open>Nodes and edges\<close>

record policy_node_request =
  nr_node_key :: string
  nr_node_type :: string
  nr_title :: string
  nr_purpose :: string
  nr_owner :: string
  nr_execution_mode :: string
  nr_input_contract :: "(string \<times> string) list"
  nr_output_contract :: "(string \<times> string) list"
  nr_preconditions :: "string list"
  nr_evidence_requirements :: "string list"
  nr_reason_codes :: "string list"
  nr_test_cases :: "jobject list"
  nr_monitoring_metrics :: "string list"
  nr_timeout_seconds :: "int option"
  nr_retry_policy :: "jobject option"
  nr_fallback_node_key :: "string option"
  nr_required_role :: "string option"
  nr_financial_impact :: bool
  nr_legal_impact :: bool
  nr_model_or_policy_dependency :: "string option"

definition node_of_request :: "int \<Rightarrow> policy_node_request \<Rightarrow> policy_node" where
  "node_of_request i p =
     \<lparr>pn_version_id = i, node_key = nr_node_key p, node_type = nr_node_type p, title = nr_title p, purpose = nr_purpose p,
      owner = nr_owner p, execution_mode = nr_execution_mode p, input_contract = nr_input_contract p,
      output_contract = nr_output_contract p, preconditions = nr_preconditions p,
      evidence_requirements = nr_evidence_requirements p, reason_codes = nr_reason_codes p,
      test_cases = map JObj (nr_test_cases p), monitoring_metrics = nr_monitoring_metrics p,
      timeout_seconds = nr_timeout_seconds p, retry_policy = nr_retry_policy p, fallback_node_key = nr_fallback_node_key p,
      required_role = nr_required_role p, financial_impact = nr_financial_impact p, legal_impact = nr_legal_impact p,
      model_or_policy_dependency = nr_model_or_policy_dependency p\<rparr>"

record policy_edge_request =
  er_from_node_key :: string
  er_to_node_key :: string
  er_condition_label :: "string option"

definition edge_of_request :: "int \<Rightarrow> policy_edge_request \<Rightarrow> policy_edge" where
  "edge_of_request i p =
     \<lparr>pe_version_id = i, from_node_key = er_from_node_key p, to_node_key = er_to_node_key p, condition_label = er_condition_label p\<rparr>"

type_synonym version_content = "(int \<times> policy_version) \<times> policy_node list \<times> policy_edge list"

text \<open>The body of the route, which \<open>post_nodes\<close> and \<open>post_edges\<close> call as a function.\<close>

definition version_content :: "int \<Rightarrow> version_content api_op" where
  "version_content i =
     bind (get_version_or_404 i) (\<lambda>v.
     gets (\<lambda>s. ((i, v), list_nodes (policies s) i, list_edges (policies s) i)))"

definition get_version_content :: "string option \<Rightarrow> int \<Rightarrow> version_content api_op" where
  "get_version_content cookie i = route_of READ cookie (\<lambda>ident. version_content i)"

definition post_nodes :: "string option \<Rightarrow> int \<Rightarrow> policy_node_request list \<Rightarrow> version_content api_op" where
  "post_nodes cookie i ps =
     route_of WRITE cookie (\<lambda>ident.
     bind (get_version_or_404 i) (\<lambda>_.
     bind (model_checked (map_model mk_policy_node (map (node_of_request i) ps))) (\<lambda>ns.
     then_db (on_policies {''ImmutableVersionError''} (add_nodes ns))
     (version_content i))))"

definition post_edges :: "string option \<Rightarrow> int \<Rightarrow> policy_edge_request list \<Rightarrow> version_content api_op" where
  "post_edges cookie i ps =
     route_of WRITE cookie (\<lambda>ident.
     bind (get_version_or_404 i) (\<lambda>_.
     bind (model_checked (map_model mk_policy_edge (map (edge_of_request i) ps))) (\<lambda>es.
     then_db (on_policies {''ImmutableVersionError''} (add_edges es))
     (version_content i))))"

section \<open>Validation and lifecycle\<close>

definition post_validate :: "string option \<Rightarrow> int \<Rightarrow> issue list api_op" where
  "post_validate cookie i =
     route_of READ cookie (\<lambda>ident.
     bind (get_version_or_404 i) (\<lambda>_.
     bind (gets (\<lambda>s. validate_graph (list_nodes (policies s) i) (list_edges (policies s) i))) (\<lambda>r.
     case r of
       Inl x \<Rightarrow> raise (Exc (error_class (Uncaught x)) (error_args (Uncaught x)))
     | Inr issues \<Rightarrow> ret issues)))"

definition post_transition :: "string option \<Rightarrow> int \<Rightarrow> string \<Rightarrow> string option \<Rightarrow> (int \<times> policy_version) api_op" where
  "post_transition cookie i to why =
     route_of WRITE cookie (\<lambda>ident.
     then_db (on_policies {''InvalidTransitionError''} (transition_version_status i to (subject ident) why))
     (version_response i))"

definition post_submit_for_approval :: "string option \<Rightarrow> int \<Rightarrow> string option \<Rightarrow> (int \<times> policy_version) api_op" where
  "post_submit_for_approval cookie i why =
     route_of APPROVE cookie (\<lambda>ident.
     then_db (on_policies {''GraphInvalidError'', ''InvalidTransitionError''} (submit_for_approval i (subject ident) why))
     (version_response i))"

definition post_activate :: "string option \<Rightarrow> int \<Rightarrow> string option \<Rightarrow> (int \<times> policy_version) api_op" where
  "post_activate cookie i why =
     route_of ACTIVATE cookie (\<lambda>ident.
     then_db (on_policies {''MakerCheckerViolation'', ''InvalidTransitionError''} (activate_version i (subject ident) why))
     (version_response i))"

definition post_kill_switch :: "string option \<Rightarrow> int \<Rightarrow> string \<Rightarrow> (int \<times> policy_version) api_op" where
  "post_kill_switch cookie i why =
     route_of ACTIVATE cookie (\<lambda>ident.
     then_db (on_policies VALUE_ERRORS (kill_switch i (subject ident) why))
     (version_response i))"

definition get_transitions :: "string option \<Rightarrow> int \<Rightarrow> policy_version_transition list api_op" where
  "get_transitions cookie i =
     route_of READ cookie (\<lambda>ident. gets (\<lambda>s. list_transitions_by_version (policies s) i))"

section \<open>Simulation\<close>

record simulation_case_request =
  cr_case_id :: string
  cr_inputs :: jobject
  cr_human_overrides :: "(string \<times> string) list"
  cr_monetary_amount :: "string option"
  cr_monetary_currency :: "string option"
  cr_actual_outcome_label :: "string option"

text \<open>\<open>dec_of\<close> is \<open>Decimal\<close> on a string: a finite decimal, or \<open>None\<close> for \<open>InvalidOperation\<close>.\<close>

definition parse_amount :: "(string \<Rightarrow> dec option) \<Rightarrow> string option \<Rightarrow> api_error + dec option" where
  "parse_amount dec_of v =
     (case v of
        None \<Rightarrow> Inr None
      | Some t \<Rightarrow>
          (case dec_of t of
             None \<Rightarrow> Inl (ApiError 422 ''invalid_monetary_amount'' [t])
           | Some d \<Rightarrow> Inr (Some d)))"

definition case_of_request :: "(string \<Rightarrow> dec option) \<Rightarrow> simulation_case_request \<Rightarrow> api_error + simulation_case" where
  "case_of_request dec_of c =
     sum_bind (parse_amount dec_of (cr_monetary_amount c)) (\<lambda>a.
     Inr \<lparr>case_id = cr_case_id c, inputs = cr_inputs c, human_overrides = cr_human_overrides c, case_amount = a,
          case_currency = cr_monetary_currency c, case_outcome = cr_actual_outcome_label c\<rparr>)"

text \<open>The routes catch only \<open>ValueError\<close>; a \<open>KeyError\<close> or a \<open>TypeError\<close> of the engine escapes.\<close>

definition simulation_error :: "sim_error \<Rightarrow> api_error" where
  "simulation_error e =
     (case e of
        StartNodes n \<Rightarrow> ApiError 422 ''invalid_request'' [str_int (int n)]
      | UnknownNode k \<Rightarrow> Exc ''KeyError'' [k]
      | UnhashableCondition \<Rightarrow> Exc ''TypeError'' [])"

definition simulated :: "sim_error + 'a \<Rightarrow> 'a api_op" where
  "simulated r = (case r of Inl e \<Rightarrow> raise (simulation_error e) | Inr x \<Rightarrow> ret x)"

definition run_response :: "int \<Rightarrow> (int \<times> simulation_run) api_op" where
  "run_response i =
     bind (gets (\<lambda>s. get_simulation_run (simulations s) i)) (\<lambda>r.
     case r of None \<Rightarrow> raise (Exc ''AssertionError'' []) | Some x \<Rightarrow> ret (i, x))"

definition post_simulate :: "(json \<Rightarrow> string) \<Rightarrow> (string \<Rightarrow> dec option) \<Rightarrow> string option \<Rightarrow> int \<Rightarrow> string \<Rightarrow> string \<Rightarrow>
    simulation_case_request list \<Rightarrow> (int \<times> simulation_run) api_op" where
  "post_simulate py_str dec_of cookie i label source requests =
     route_of SIM_WRITE cookie (\<lambda>ident.
     bind (get_version_or_404 i) (\<lambda>_.
     bind (gets (\<lambda>s. (list_nodes (policies s) i, list_edges (policies s) i))) (\<lambda>(nodes, edges).
     bind (of_sum (sum_map (case_of_request dec_of) requests)) (\<lambda>cases.
     bind (simulated (run_simulation nodes edges cases)) (\<lambda>traces.
     bind (on_simulations (record_simulation_run py_str i label source traces (subject ident) (Some cases) None None)) run_response)))))"

definition get_run :: "string option \<Rightarrow> int \<Rightarrow> (int \<times> simulation_run) api_op" where
  "get_run cookie i =
     route_of SIM_READ cookie (\<lambda>ident.
     bind (gets (\<lambda>s. get_simulation_run (simulations s) i)) (\<lambda>r.
     case r of None \<Rightarrow> raise (ApiError 404 ''simulation_run_not_found'' [str_int i]) | Some x \<Rightarrow> ret (i, x)))"

definition get_case_traces :: "string option \<Rightarrow> int \<Rightarrow> jobject list api_op" where
  "get_case_traces cookie i = route_of SIM_READ cookie (\<lambda>ident. gets (\<lambda>s. list_case_traces (simulations s) i))"

definition get_runs_for_version :: "string option \<Rightarrow> int \<Rightarrow> (int \<times> simulation_run) list api_op" where
  "get_runs_for_version cookie i =
     route_of SIM_READ cookie (\<lambda>ident. gets (\<lambda>s. list_simulation_runs_by_version (simulations s) i))"

definition plain_case :: "simulation_case_request \<Rightarrow> simulation_case" where
  "plain_case c =
     \<lparr>case_id = cr_case_id c, inputs = cr_inputs c, human_overrides = cr_human_overrides c, case_amount = None,
      case_currency = None, case_outcome = None\<rparr>"

definition post_compare :: "string option \<Rightarrow> int \<Rightarrow> int \<Rightarrow> string \<Rightarrow> simulation_case_request list \<Rightarrow> (int \<times> simulation_run) api_op" where
  "post_compare cookie i j label requests =
     route_of SIM_WRITE cookie (\<lambda>ident.
     bind (get_version_or_404 i) (\<lambda>_.
     bind (get_version_or_404 j) (\<lambda>_.
     bind (gets policies) (\<lambda>p.
     bind (simulated (compare_versions (list_nodes p i) (list_edges p i) (list_nodes p j) (list_edges p j) (map plain_case requests))) (\<lambda>cs.
     bind (on_simulations (record_comparison_run i j label cs (subject ident) None)) run_response)))))"

section \<open>Research dossiers\<close>

record dossier_request =
  rq_decision_statement :: string
  rq_owners :: "string list"
  rq_approvers :: "string list"
  rq_source_register :: "jobject list"
  rq_assumptions :: "string list"
  rq_data_dictionary :: "(string \<times> string) list"
  rq_formula_or_decision_table :: jobject
  rq_coefficients_and_rationale :: jobject
  rq_validation_design :: jobject
  rq_test_dataset_manifest :: jobject
  rq_results_and_limitations :: jobject
  rq_security_privacy_analysis :: jobject
  rq_monitoring_criteria :: jobject
  rq_retirement_criteria :: jobject
  rq_fairness_analysis :: "jobject option"
  rq_approved_at :: "string option"
  rq_effective_from :: "string option"

definition dossier_of_request :: "string \<Rightarrow> dossier_request \<Rightarrow> research_dossier" where
  "dossier_of_request who p =
     \<lparr>decision_statement = rq_decision_statement p, owners = rq_owners p, approvers = rq_approvers p,
      source_register = rq_source_register p, assumptions = rq_assumptions p, data_dictionary = rq_data_dictionary p,
      formula_or_decision_table = rq_formula_or_decision_table p, coefficients_and_rationale = rq_coefficients_and_rationale p,
      validation_design = rq_validation_design p, test_dataset_manifest = rq_test_dataset_manifest p,
      results_and_limitations = rq_results_and_limitations p, security_privacy_analysis = rq_security_privacy_analysis p,
      monitoring_criteria = rq_monitoring_criteria p, retirement_criteria = rq_retirement_criteria p, rd_created_by = who,
      fairness_analysis = rq_fairness_analysis p, approved_at = rq_approved_at p, effective_from = rq_effective_from p\<rparr>"

definition post_research_dossier :: "(string \<Rightarrow> int option) \<Rightarrow> string option \<Rightarrow> dossier_request \<Rightarrow> (int \<times> research_dossier) api_op" where
  "post_research_dossier fromiso cookie p =
     route_of WRITE cookie (\<lambda>ident.
     bind (checked (mk_research_dossier (dossier_of_request (subject ident) p))) (\<lambda>d.
     bind (on_policies {} (store_research_dossier fromiso d)) (\<lambda>i.
     ret (i, d))))"

definition get_research_dossier_route :: "string option \<Rightarrow> int \<Rightarrow> dossier_row api_op" where
  "get_research_dossier_route cookie i =
     route_of READ cookie (\<lambda>ident.
     bind (gets (\<lambda>s. get_research_dossier (policies s) i)) (\<lambda>r.
     case r of None \<Rightarrow> raise (ApiError 404 ''research_dossier_not_found'' [str_int i]) | Some d \<Rightarrow> ret d))"

definition post_link_dossier :: "string option \<Rightarrow> int \<Rightarrow> int \<Rightarrow> (int \<times> policy_version) api_op" where
  "post_link_dossier cookie i d =
     route_of WRITE cookie (\<lambda>ident.
     bind (get_version_or_404 i) (\<lambda>_.
     then_db (on_policies {} (link_dossier_to_version i d))
     (version_response i)))"

end
