(* ===== verification/Registers.thy ===== *)
theory Registers
  imports Policy_Api
begin

text \<open>
  Small tables beside the policies: the register of official sources
  (\<open>packages/algorithm/official_source_registry_*.py\<close>), the queue of pilot feedback
  (\<open>packages/platform/pilot_feedback.py\<close> and its router), deployment authorisations
  (\<open>deployment_authorization.py\<close> and \<open>scripts/authorize_deployment.py\<close>), the checks of a live
  database (\<open>invariant_checks.py\<close>) and the address of the client behind a proxy (\<open>proxy.py\<close>).

  The output of \<open>gh api\<close>, the release manifest, the schema version of the target, \<open>isoformat\<close> and
  \<open>fromisoformat\<close> are arguments.
\<close>

record official_source =
  os_type :: string
  os_name :: string
  os_citation :: string
  os_value :: string
  os_effective_from :: string
  os_entered_by :: string
  os_entered_at :: string
  os_effective_to :: "string option"

record official_source_row =
  osr_source :: official_source
  osr_from :: int
  osr_to :: "int option"
  osr_entered_at :: int

record pilot_feedback =
  submitted_by :: string
  category :: string
  feedback_message :: string
  feedback_status :: string
  resolution_note :: "string option"
  resolved_by :: "string option"
  feedback_correlation_id :: string
  submitted_at :: int
  resolved_at :: "int option"

record deployment_authorization =
  da_commit_sha :: string
  image_digests :: json
  initiator :: string
  approver :: string
  schema_version_at_authorization :: int
  authorized_at :: int
  da_notes :: "string option"

record registers_db = policy_api_db +
  official_sources :: "(int \<times> official_source_row) list"
  feedback :: "(int \<times> pilot_feedback) list"
  deployment_authorizations :: "(int \<times> deployment_authorization) list"

type_synonym 'a reg_op = "(registers_db, api_error, 'a) db"

section \<open>Official sources\<close>

definition SOURCE_TYPES :: "string list" where
  "SOURCE_TYPES = [''law'', ''fx_rate'', ''vat_rate'', ''price_index'']"

definition mk_official_source :: "official_source \<Rightarrow> api_error + official_source" where
  "mk_official_source x =
     (if os_type x \<notin> set SOURCE_TYPES then Inl (Exc ''ValueError'' [os_type x])
      else if blank (os_citation x) then Inl (Exc ''ValueError'' [''citation''])
      else if blank (os_value x) then Inl (Exc ''ValueError'' [''value''])
      else Inr x)"

text \<open>An empty \<open>effective_to\<close> is stored as null, like a missing one.\<close>

definition store_official_source :: "(string \<Rightarrow> int option) \<Rightarrow> official_source \<Rightarrow> int reg_op" where
  "store_official_source fromiso x =
     bind (of_sum (read_iso fromiso (os_effective_from x))) (\<lambda>f.
     bind (of_sum (case os_effective_to x of None \<Rightarrow> Inr None
         | Some t \<Rightarrow> if t = [] then Inr None else sum_bind (read_iso fromiso t) (\<lambda>y. Inr (Some y)))) (\<lambda>u.
     bind (of_sum (read_iso fromiso (os_entered_at x))) (\<lambda>e.
     then_db (guard (os_type x \<in> set SOURCE_TYPES) (Exc ''IntegrityError'' [''official_sources_source_type_check''])) (
     bind (gets (\<lambda>s. next_id (official_sources s))) (\<lambda>i.
     then_db (modify (\<lambda>s. s\<lparr>official_sources := official_sources s @
         [(i, \<lparr>osr_source = x, osr_from = f, osr_to = u, osr_entered_at = e\<rparr>)]\<rparr>))
     (ret i))))))"

definition in_effect :: "int \<Rightarrow> official_source_row \<Rightarrow> bool" where
  "in_effect t r \<longleftrightarrow> osr_from r \<le> t \<and> (case osr_to r of None \<Rightarrow> True | Some u \<Rightarrow> t < u)"

text \<open>\<open>ORDER BY effective_from DESC LIMIT 1\<close>; of rows with equal times the database may return any, here the first.\<close>

definition get_effective_source :: "(string \<Rightarrow> int option) \<Rightarrow> string \<Rightarrow> string \<Rightarrow> string \<Rightarrow> (int \<times> official_source_row) option reg_op" where
  "get_effective_source fromiso ty name as_of =
     bind (of_sum (read_iso fromiso as_of)) (\<lambda>t.
     gets (\<lambda>s.
       case sort_key (\<lambda>(i, r). - osr_from r)
           (filter (\<lambda>(i, r). os_type (osr_source r) = ty \<and> os_name (osr_source r) = name \<and> in_effect t r) (official_sources s)) of
         [] \<Rightarrow> None | x # _ \<Rightarrow> Some x))"

definition list_sources_by_type :: "registers_db \<Rightarrow> string \<Rightarrow> (int \<times> official_source_row) list" where
  "list_sources_by_type s ty =
     sort_key (\<lambda>(i, r). os_name (osr_source r)) (sort_key (\<lambda>(i, r). osr_from r)
       (filter (\<lambda>(i, r). os_type (osr_source r) = ty) (official_sources s)))"

section \<open>Pilot feedback\<close>

definition CATEGORIES :: "string list" where
  "CATEGORIES = [''bug'', ''question'', ''feature_request'', ''other'']"

definition submit_feedback :: "string \<Rightarrow> string \<Rightarrow> string \<Rightarrow> string \<Rightarrow> (int \<times> pilot_feedback) reg_op" where
  "submit_feedback who cat msg cid =
     then_db (guard (cat \<in> set CATEGORIES) (Exc ''IntegrityError'' [''pilot_feedback_category_check''])) (
     bind (gets (\<lambda>s. (next_id (feedback s),
        \<lparr>submitted_by = who, category = cat, feedback_message = msg, feedback_status = ''open'', resolution_note = None,
         resolved_by = None, feedback_correlation_id = cid, submitted_at = platform_db.clock s, resolved_at = None\<rparr>))) (\<lambda>x.
     then_db (modify (\<lambda>s. s\<lparr>feedback := feedback s @ [x]\<rparr>))
     (ret x)))"

text \<open>\<open>ORDER BY submitted_at DESC, id DESC\<close>\<close>

definition list_feedback :: "registers_db \<Rightarrow> string option \<Rightarrow> (int \<times> pilot_feedback) list" where
  "list_feedback s st =
     sort_key (\<lambda>(i, f). - submitted_at f) (sort_key (\<lambda>(i, f). - i)
       (filter (\<lambda>(i, f). case st of None \<Rightarrow> True | Some x \<Rightarrow> feedback_status f = x) (feedback s)))"

definition resolve_feedback :: "int \<Rightarrow> string \<Rightarrow> string \<Rightarrow> (int \<times> pilot_feedback) reg_op" where
  "resolve_feedback i who why =
     then_db (modify (\<lambda>s. s\<lparr>feedback := update_row i
        (\<lambda>f. f\<lparr>feedback_status := ''resolved'', resolved_by := Some who, resolution_note := Some why,
               resolved_at := Some (platform_db.clock s)\<rparr>) (feedback s)\<rparr>)) (
     bind (gets (\<lambda>s. map_of (feedback s) i)) (\<lambda>row.
     case row of None \<Rightarrow> raise (Exc ''FeedbackNotFound'' [str_int i]) | Some f \<Rightarrow> ret (i, f)))"

definition feedback_response :: "(int \<Rightarrow> string) \<Rightarrow> int \<times> pilot_feedback \<Rightarrow> jobject" where
  "feedback_response isof x =
     (case x of (i, f) \<Rightarrow>
        [(''id'', JInt i), (''submitted_by'', JStr (submitted_by f)), (''category'', JStr (category f)),
         (''message'', JStr (feedback_message f)), (''status'', JStr (feedback_status f)),
         (''resolution_note'', json_opt (resolution_note f)), (''resolved_by'', json_opt (resolved_by f)),
         (''submitted_at'', JStr (isof (submitted_at f))), (''resolved_at'', json_opt (map_option isof (resolved_at f)))])"

definition submit_feedback_route :: "(jobject \<Rightarrow> string) \<Rightarrow> (int \<Rightarrow> string) \<Rightarrow> string option \<Rightarrow> string \<Rightarrow> string \<Rightarrow> string \<Rightarrow> jobject reg_op" where
  "submit_feedback_route fp isof cookie key cat msg =
     route_of ''platform.feedback.submit'' cookie (\<lambda>ident.
     then_db (guard (cat \<in> set CATEGORIES) (ApiError 422 ''invalid_category'' [])) (
     idempotent key ''POST /pilot-feedback'' (fp [(''category'', JStr cat), (''message'', JStr msg)]) (
     bind (gets correlation_id_var) (\<lambda>cid.
     case cid of
       None \<Rightarrow> raise (Exc ''RuntimeError'' [])
     | Some c \<Rightarrow> bind (submit_feedback (subject ident) cat msg c) (\<lambda>x. ret (feedback_response isof x))))))"

definition list_feedback_route :: "(int \<Rightarrow> string) \<Rightarrow> string option \<Rightarrow> string option \<Rightarrow> jobject list reg_op" where
  "list_feedback_route isof cookie st =
     route_of ''platform.feedback.triage'' cookie (\<lambda>ident. gets (\<lambda>s. map (feedback_response isof) (list_feedback s st)))"

definition resolve_feedback_route :: "(int \<Rightarrow> string) \<Rightarrow> string option \<Rightarrow> int \<Rightarrow> string \<Rightarrow> jobject reg_op" where
  "resolve_feedback_route isof cookie i why =
     route_of ''platform.feedback.triage'' cookie (\<lambda>ident.
     bind (catch (resolve_feedback i (subject ident) why) (except_class ''FeedbackNotFound'' (ApiError 404 ''not_found''))) (\<lambda>x.
     ret (feedback_response isof x)))"

section \<open>Deployment authorisations\<close>

definition verify_distinct_approver :: "string \<Rightarrow> string \<Rightarrow> bool" where
  "verify_distinct_approver ini app \<longleftrightarrow> ini \<noteq> app"

definition verify_digest_match :: "jobject \<Rightarrow> string \<Rightarrow> bool" where
  "verify_digest_match manifest sha \<longleftrightarrow> jget manifest ''commit_sha'' = JStr sha"

definition record_authorization :: "string \<Rightarrow> json \<Rightarrow> string \<Rightarrow> string \<Rightarrow> int \<Rightarrow> string option \<Rightarrow> int reg_op" where
  "record_authorization sha digests ini app ver why =
     bind (gets (\<lambda>s. next_id (deployment_authorizations s))) (\<lambda>i.
     then_db (modify (\<lambda>s. s\<lparr>deployment_authorizations := deployment_authorizations s @ [(i,
        \<lparr>da_commit_sha = sha, image_digests = digests, initiator = ini, approver = app, schema_version_at_authorization = ver,
         authorized_at = platform_db.clock s, da_notes = why\<rparr>)]\<rparr>))
     (ret i))"

definition get_authorization :: "registers_db \<Rightarrow> int \<Rightarrow> deployment_authorization option" where
  "get_authorization s i = map_of (deployment_authorizations s) i"

definition latest_authorization_for_commit :: "registers_db \<Rightarrow> string \<Rightarrow> (int \<times> deployment_authorization) option" where
  "latest_authorization_for_commit s sha =
     (case sort_key (\<lambda>(i, a). - authorized_at a) (sort_key (\<lambda>(i, a). - i)
         (filter (\<lambda>(i, a). da_commit_sha a = sha) (deployment_authorizations s))) of
        [] \<Rightarrow> None | x # _ \<Rightarrow> Some x)"

text \<open>
  \<open>authorize\<close>: the initiator and head commit come from the pull request, the manifest from a
  file that may be missing, the version from the ledger of the target database.
\<close>

definition authorize :: "string \<times> string \<Rightarrow> string \<Rightarrow> jobject option \<Rightarrow> int option \<Rightarrow> int \<Rightarrow> string option \<Rightarrow> int reg_op" where
  "authorize pr_info app manifest current expected why =
     (case pr_info of (ini, sha) \<Rightarrow>
        then_db (guard (verify_distinct_approver ini app) (Exc ''AuthorizationRefused'' [app, ini])) (
        case manifest of
          None \<Rightarrow> raise (Exc ''AuthorizationRefused'' [''manifest''])
        | Some m \<Rightarrow>
            then_db (guard (verify_digest_match m sha) (Exc ''AuthorizationRefused'' [sha])) (
            case current of
              None \<Rightarrow> raise (Exc ''AuthorizationRefused'' [''None'', str_int expected])
            | Some v \<Rightarrow>
                then_db (guard (v = expected) (Exc ''AuthorizationRefused'' [str_int v, str_int expected]))
                (transaction (record_authorization sha
                   (case map_of m ''images'' of None \<Rightarrow> JObj [] | Some v \<Rightarrow> v) ini app v why)))))"

section \<open>Checks of a live database\<close>

record invariant_result =
  ir_name :: string
  ir_passed :: bool
  ir_detail :: "string list"

text \<open>No migration creates \<open>notifications\<close>, so the table is an argument: \<open>None\<close> while it does not exist.\<close>

definition no_orphaned_notifications :: "(int \<times> int) list option \<Rightarrow> 'a platform_db_scheme \<Rightarrow> invariant_result" where
  "no_orphaned_notifications notifications s =
     (case notifications of
        None \<Rightarrow> \<lparr>ir_name = ''no_orphaned_notifications'', ir_passed = True, ir_detail = []\<rparr>
      | Some ns \<Rightarrow>
          (let orphans = sort_key fst (filter (\<lambda>(i, u). u \<notin> fst ` set (users s)) ns) in
           \<lparr>ir_name = ''no_orphaned_notifications'', ir_passed = (orphans = []), ir_detail = map (str_int \<circ> fst) (take 10 orphans)\<rparr>))"

definition active_counts :: "policy_db \<Rightarrow> (int \<times> nat) list" where
  "active_counts p =
     sort_key fst (filter (\<lambda>(g, n). 1 < n) (count_dict (map (pv_graph_id \<circ> snd) (filter (\<lambda>(i, v). pv_status v = ''active'') (policy_versions p)))))"

definition policy_versions_one_active_per_graph :: "policy_db \<Rightarrow> invariant_result" where
  "policy_versions_one_active_per_graph p =
     \<lparr>ir_name = ''policy_versions_one_active_per_graph'', ir_passed = (active_counts p = []),
      ir_detail = concat (map (\<lambda>(g, n). [str_int g, str_int (int n)]) (active_counts p))\<rparr>"

definition no_orphaned_user_roles :: "'a platform_db_scheme \<Rightarrow> invariant_result" where
  "no_orphaned_user_roles s =
     (let orphans = sort_key fst (filter (\<lambda>(i, u). role_id u \<notin> fst ` set (roles s)) (users s)) in
      \<lparr>ir_name = ''no_orphaned_user_roles'', ir_passed = (orphans = []),
       ir_detail = concat (map (\<lambda>(i, u). [str_int i, username u]) (take 10 orphans))\<rparr>)"

definition all_checks :: "(int \<times> int) list option \<Rightarrow> registers_db \<Rightarrow> invariant_result list" where
  "all_checks notifications s =
     [no_orphaned_notifications notifications s, policy_versions_one_active_per_graph (policies s), no_orphaned_user_roles s]"

section \<open>The client behind a proxy\<close>

text \<open>\<open>ipaddress.ip_address\<close> and \<open>ipaddress.ip_network\<close> are arguments; a network is the predicate \<open>in\<close> it.\<close>

definition resolve_verified_peer_ip :: "(string \<Rightarrow> 'ip option) \<Rightarrow> (string \<Rightarrow> ('ip \<Rightarrow> bool) option) \<Rightarrow> string \<Rightarrow> string option \<Rightarrow> string list \<Rightarrow>
    api_error + string" where
  "resolve_verified_peer_ip ip_address ip_network peer forwarded cidrs =
     sum_bind (sum_map (\<lambda>c. case ip_network c of None \<Rightarrow> Inl (Exc ''ValueError'' [c]) | Some n \<Rightarrow> Inr n) cidrs) (\<lambda>networks.
     sum_bind (case ip_address peer of None \<Rightarrow> Inl (Exc ''ValueError'' [peer]) | Some a \<Rightarrow> Inr a) (\<lambda>addr.
     case forwarded of
       None \<Rightarrow> Inr peer
     | Some f \<Rightarrow>
         if \<not> list_ex (\<lambda>n. n addr) networks \<or> f = [] then Inr peer
         else (let candidate = py_strip (rev (takeWhile (\<lambda>c. c \<noteq> CHR '','') (rev f))) in
               case ip_address candidate of None \<Rightarrow> Inr peer | Some a \<Rightarrow> Inr candidate)))"

end
