(* ===== verification/Policy_Api_Theorems.thy ===== *)
theory Policy_Api_Theorems
  imports Policy_Api Accounts_Spec
begin

text \<open>
  The policy API is the policy store behind sessions: a request that is answered is one call of
  the store in the name of the session's user, who holds the permission of the request, and a
  request that is refused changes nothing. So every state the API can reach is, in its policy
  tables, a state the store can reach.
\<close>

section \<open>Requests\<close>

datatype policy_request =
    PostGraph policy_graph
  | PostDraft int int
  | PostFork int
  | PostNodes int "policy_node_request list"
  | PostEdges int "policy_edge_request list"
  | PostTransition int string "string option"
  | PostSubmit int "string option"
  | PostActivate int "string option"
  | PostKill int string
  | PostDossier "string \<Rightarrow> int option" dossier_request
  | PostLink int int

fun answer :: "string option \<Rightarrow> policy_request \<Rightarrow> unit api_op" where
  "answer c (PostGraph g) = bind (post_policy_graph c g) (\<lambda>_. ret ())"
| "answer c (PostDraft g n) = bind (post_draft_version c g n) (\<lambda>_. ret ())"
| "answer c (PostFork i) = bind (post_fork c i) (\<lambda>_. ret ())"
| "answer c (PostNodes i ps) = bind (post_nodes c i ps) (\<lambda>_. ret ())"
| "answer c (PostEdges i ps) = bind (post_edges c i ps) (\<lambda>_. ret ())"
| "answer c (PostTransition i to why) = bind (post_transition c i to why) (\<lambda>_. ret ())"
| "answer c (PostSubmit i why) = bind (post_submit_for_approval c i why) (\<lambda>_. ret ())"
| "answer c (PostActivate i why) = bind (post_activate c i why) (\<lambda>_. ret ())"
| "answer c (PostKill i why) = bind (post_kill_switch c i why) (\<lambda>_. ret ())"
| "answer c (PostDossier fromiso p) = bind (post_research_dossier fromiso c p) (\<lambda>_. ret ())"
| "answer c (PostLink i d) = bind (post_link_dossier c i d) (\<lambda>_. ret ())"

fun permission_of :: "policy_request \<Rightarrow> string" where
  "permission_of (PostSubmit _ _) = APPROVE"
| "permission_of (PostActivate _ _) = ACTIVATE"
| "permission_of (PostKill _ _) = ACTIVATE"
| "permission_of _ = WRITE"

text \<open>The call of the store a request stands for, in the name of \<open>who\<close>.\<close>

fun store_call :: "string \<Rightarrow> policy_request \<Rightarrow> policy_call" where
  "store_call who (PostGraph g) = CreateGraph g"
| "store_call who (PostDraft g n) = CreateDraft g n who"
| "store_call who (PostFork i) = Fork i who"
| "store_call who (PostNodes i ps) = AddNodes (map (node_of_request i) ps)"
| "store_call who (PostEdges i ps) = AddEdges (map (edge_of_request i) ps)"
| "store_call who (PostTransition i to why) = Transition i to who why"
| "store_call who (PostSubmit i why) = Submit i who why"
| "store_call who (PostActivate i why) = Activate i who why"
| "store_call who (PostKill i why) = Kill i who why"
| "store_call who (PostDossier fromiso p) = StoreDossier fromiso (dossier_of_request who p)"
| "store_call who (PostLink i d) = LinkDossier i d"

text \<open>The routes on content and dossiers look the version up first.\<close>

fun version_looked_up :: "policy_request \<Rightarrow> int option" where
  "version_looked_up (PostNodes i _) = Some i"
| "version_looked_up (PostEdges i _) = Some i"
| "version_looked_up (PostLink i _) = Some i"
| "version_looked_up _ = None"

definition version_found :: "policy_db \<Rightarrow> policy_request \<Rightarrow> bool" where
  "version_found p q = (case version_looked_up q of None \<Rightarrow> True | Some i \<Rightarrow> get_version p i \<noteq> None)"

section \<open>The parts of a route\<close>

lemma on_policies_Inr:
  "on_policies caught op s = (Inr x, t) \<longleftrightarrow> (\<exists>p. op (synced_policies s) = (Inr x, p) \<and> t = s\<lparr>policies := p\<rparr>)"
  by (auto simp: on_policies_def split: prod.splits sum.splits)

lemma get_version_synced [simp]: "get_version (synced_policies s) i = get_version (policies s) i"
  by (simp add: synced_policies_def get_version_def)

lemma get_version_or_404_Inr: "get_version_or_404 i s = (Inr v, t) \<longleftrightarrow> get_version (policies s) i = Some v \<and> t = s"
  by (auto simp: get_version_or_404_def bind_eq split: option.splits)

lemma version_response_Inr: "version_response i s = (Inr r, t) \<longleftrightarrow> (\<exists>v. get_version (policies s) i = Some v \<and> r = (i, v)) \<and> t = s"
  by (auto simp: version_response_def bind_Inr get_version_or_404_Inr)

lemma version_content_Inr:
  "version_content i s = (Inr r, t) \<longleftrightarrow>
     (\<exists>v. get_version (policies s) i = Some v \<and> r = ((i, v), list_nodes (policies s) i, list_edges (policies s) i)) \<and> t = s"
  by (auto simp: version_content_def bind_Inr get_version_or_404_Inr)

lemma model_checked_Inr: "model_checked r s = (Inr x, t) \<longleftrightarrow> r = Inr x \<and> t = s"
  by (cases r) (auto simp: model_checked_def)

lemma checked_Inr: "checked r s = (Inr x, t) \<longleftrightarrow> r = Inr x \<and> t = s"
  by (cases r) (auto simp: checked_def)

lemmas route_parts = route_of_Inr bind_Inr then_db_Inr on_policies_Inr get_version_or_404_Inr version_response_Inr version_content_Inr
  model_checked_Inr checked_Inr lift_model_Inr

section \<open>A version stays\<close>

lemma exec_commit: "exec_call c p = (Inr (), q) \<Longrightarrow> commit c p = q"
  by (simp add: commit_def transaction_def)

lemma exec_version_kept:
  assumes "exec_call c p = (Inr (), q)" "get_version p i = Some v"
  shows "\<exists>w. get_version q i = Some w"
proof -
  have "policy_step p q" using exec_commit[OF assms(1)] by (auto simp: policy_step_def)
  then have "version_kept p q" by (blast intro: steps_version_kept)
  then show ?thesis using assms(2) by (auto simp: version_kept_def)
qed

lemma transition_found: "transition_version_status i to who why p = (Inr u, q) \<Longrightarrow> \<exists>v. get_version p i = Some v"
  by (auto simp: transition_version_status_def get_version_status_def bind_Inr split: option.splits)

lemma submit_found: "submit_for_approval i who why p = (Inr u, q) \<Longrightarrow> \<exists>v. get_version p i = Some v"
  by (auto simp: submit_for_approval_def bind_Inr then_db_Inr Let_def split: sum.splits if_splits dest: transition_found)

lemma activate_found: "activate_version i who why p = (Inr u, q) \<Longrightarrow> \<exists>v. get_version p i = Some v"
  by (auto simp: activate_version_def bind_Inr split: option.splits)

lemma kill_found: "kill_switch i who why p = (Inr u, q) \<Longrightarrow> \<exists>v. get_version p i = Some v"
  by (auto simp: kill_switch_def get_version_status_def bind_Inr then_db_Inr split: option.splits if_splits)

lemma insert_version_found: "insert_version v p = (Inr k, q) \<Longrightarrow> \<exists>w. get_version q k = Some w"
  by (auto simp: insert_version_def get_version_def bind_Inr then_db_Inr map_add_def split: option.splits)

lemma draft_found: "create_draft_version g n who p = (Inr k, q) \<Longrightarrow> \<exists>w. get_version q k = Some w"
  by (auto simp: create_draft_version_def bind_Inr dest: insert_version_found)


lemma for_each_keeps_versions:
  assumes "\<And>x p q. f x p = (Inr (), q) \<Longrightarrow> policy_versions q = policy_versions p"
  shows "for_each f xs p = (Inr (), q) \<Longrightarrow> policy_versions q = policy_versions p"
proof (induction xs arbitrary: p)
  case (Cons x xs)
  then obtain p1 where "f x p = (Inr (), p1)" "for_each f xs p1 = (Inr (), q)" by (auto simp: then_db_Inr)
  with Cons.IH assms show ?case by metis
qed simp

lemma insert_node_versions: "insert_node n p = (Inr (), q) \<Longrightarrow> policy_versions q = policy_versions p"
  by (auto simp: insert_node_def bind_Inr then_db_Inr split: if_splits)

lemma insert_edge_versions: "insert_edge e p = (Inr (), q) \<Longrightarrow> policy_versions q = policy_versions p"
  by (auto simp: insert_edge_def bind_Inr then_db_Inr split: if_splits)

lemma assert_mutable_same: "assert_content_mutable i p = (Inr (), q) \<Longrightarrow> q = p"
  by (auto simp: assert_content_mutable_def get_version_status_def bind_Inr split: option.splits if_splits)

lemma each_node_versions: "for_each insert_node ns p = (Inr (), q) \<Longrightarrow> policy_versions q = policy_versions p"
  by (rule for_each_keeps_versions[OF insert_node_versions])

lemma each_edge_versions: "for_each insert_edge es p = (Inr (), q) \<Longrightarrow> policy_versions q = policy_versions p"
  by (rule for_each_keeps_versions[OF insert_edge_versions])

lemma add_nodes_versions: "add_nodes ns p = (Inr (), q) \<Longrightarrow> policy_versions q = policy_versions p"
  by (auto simp: add_nodes_def then_db_Inr split: if_splits dest!: assert_mutable_same dest: each_node_versions)

lemma add_edges_versions: "add_edges es p = (Inr (), q) \<Longrightarrow> policy_versions q = policy_versions p"
  by (auto simp: add_edges_def then_db_Inr split: if_splits dest!: assert_mutable_same dest: each_edge_versions)

lemma fork_found:
  assumes "fork_new_draft_version i who p = (Inr k, q)"
  shows "\<exists>w. get_version q k = Some w"
proof -
  from assms obtain v where v: "get_version p i = Some v"
    by (auto simp: fork_new_draft_version_def bind_Inr split: option.splits)
  with assms obtain p1 p2 where 1: "create_draft_version (pv_graph_id v) (pv_version_number v + 1) who p = (Inr k, p1)"
    "(if list_nodes p1 i = [] then ret () else bind (lift_model (nodes_for_reconstruction k (list_nodes p1 i))) add_nodes) p1 = (Inr (), p2)"
    "(if list_edges p2 i = [] then ret () else bind (lift_model (edges_for_reconstruction k (list_edges p2 i))) add_edges) p2 = (Inr (), q)"
    by (auto simp: fork_new_draft_version_def bind_Inr then_db_Inr)
  have "policy_versions p2 = policy_versions p1"
    using 1(2) by (auto simp: bind_Inr lift_model_Inr split: if_splits dest: add_nodes_versions)
  moreover have "policy_versions q = policy_versions p2"
    using 1(3) by (auto simp: bind_Inr lift_model_Inr split: if_splits dest: add_edges_versions)
  ultimately show ?thesis using draft_found[OF 1(1)] by (simp add: get_version_def)
qed

section \<open>A request is a call\<close>

lemma answer_done:
  assumes "answer c q s = (Inr u, t)"
  shows "\<exists>ident. authorized s c (permission_of q) ident \<and> version_found (policies s) q \<and>
    exec_call (store_call (subject ident) q) (synced_policies s) = (Inr (), policies t) \<and> t = s\<lparr>policies := policies t\<rparr>"
proof (cases q)
  case (PostDossier fromiso p)
  with assms show ?thesis
    by (auto simp: post_research_dossier_def route_parts version_found_def)
next
  case (PostNodes i ps)
  with assms show ?thesis by (auto simp: post_nodes_def route_parts version_found_def)
next
  case (PostEdges i ps)
  with assms show ?thesis by (auto simp: post_edges_def route_parts version_found_def)
qed (use assms in \<open>auto simp: post_policy_graph_def post_draft_version_def post_fork_def post_transition_def
  post_submit_for_approval_def post_activate_def post_kill_switch_def post_link_dossier_def route_parts version_found_def\<close>)

lemma route_done: "authorized s c p i \<Longrightarrow> f i s = (Inr x, t) \<Longrightarrow> bind (route_of p c f) (\<lambda>_. ret ()) s = (Inr (), t)"
  by (simp add: bind_eq route_of_authorized transaction_def)

lemma changed_version:
  assumes "op (synced_policies s) = (Inr (), p)" "get_version p i = Some w"
  shows "then_db (on_policies caught op) (version_response i) s = (Inr (i, w), s\<lparr>policies := p\<rparr>)"
  using assms by (simp add: route_parts)

lemma created_version:
  assumes "op (synced_policies s) = (Inr k, p)" "get_version p k = Some w"
  shows "bind (on_policies caught op) version_response s = (Inr (k, w), s\<lparr>policies := p\<rparr>)"
  using assms by (simp add: route_parts)

lemma looked_up:
  "get_version (policies s) i = Some v \<Longrightarrow> bind (get_version_or_404 i) k s = k v s"
  by (simp add: bind_eq get_version_or_404_def)

lemma content_changed:
  assumes "map_model f xs = Inr ys" "op ys (synced_policies s) = (Inr (), p)" "get_version p i = Some w"
  shows "bind (model_checked (map_model f xs)) (\<lambda>ys. then_db (on_policies caught (op ys)) (version_content i)) s =
    (Inr ((i, w), list_nodes p i, list_edges p i), s\<lparr>policies := p\<rparr>)"
  using assms by (simp add: route_parts)

lemma answer_possible:
  assumes a: "authorized s c (permission_of q) ident" and found: "version_found (policies s) q"
    and e: "exec_call (store_call (subject ident) q) (synced_policies s) = (Inr (), p)"
  shows "answer c q s = (Inr (), s\<lparr>policies := p\<rparr>)"
proof -
  have kept: "\<exists>w. get_version p i = Some w" if "get_version (policies s) i = Some v" for i v
    using exec_version_kept[OF e, of i v] that by simp
  show ?thesis
  proof (cases q)
    case (PostGraph g)
    with e obtain k where "create_policy_graph g (synced_policies s) = (Inr k, p)" by (auto simp: bind_Inr)
    then have "bind (on_policies {} (create_policy_graph g)) (\<lambda>i. ret (i, g)) s = (Inr (k, g), s\<lparr>policies := p\<rparr>)"
      by (simp add: route_parts)
    with a PostGraph show ?thesis by (simp add: post_policy_graph_def route_done)
  next
    case (PostDraft g n)
    with e obtain k where k: "create_draft_version g n (subject ident) (synced_policies s) = (Inr k, p)" by (auto simp: bind_Inr)
    from created_version[where op = "create_draft_version g n (subject ident)", OF k] draft_found[OF k] a PostDraft show ?thesis by (auto simp: post_draft_version_def intro: route_done)
  next
    case (PostFork i)
    with e obtain k where k: "fork_new_draft_version i (subject ident) (synced_policies s) = (Inr k, p)" by (auto simp: bind_Inr)
    from created_version[where op = "fork_new_draft_version i (subject ident)", OF k] fork_found[OF k] a PostFork show ?thesis by (auto simp: post_fork_def intro: route_done)
  next
    case (PostNodes i ps)
    with e obtain ns where ns: "map_model mk_policy_node (map (node_of_request i) ps) = Inr ns" "add_nodes ns (synced_policies s) = (Inr (), p)"
      by (auto simp: bind_Inr lift_model_Inr)
    from found PostNodes obtain v where v: "get_version (policies s) i = Some v" by (auto simp: version_found_def)
    obtain w where w: "get_version p i = Some w" using kept[OF v] ..
    show ?thesis using a PostNodes
      by (simp add: post_nodes_def, intro route_done) (auto simp: looked_up[OF v] content_changed[where op = add_nodes, OF ns w])
  next
    case (PostEdges i ps)
    with e obtain es where es: "map_model mk_policy_edge (map (edge_of_request i) ps) = Inr es" "add_edges es (synced_policies s) = (Inr (), p)"
      by (auto simp: bind_Inr lift_model_Inr)
    from found PostEdges obtain v where v: "get_version (policies s) i = Some v" by (auto simp: version_found_def)
    obtain w where w: "get_version p i = Some w" using kept[OF v] ..
    show ?thesis using a PostEdges
      by (simp add: post_edges_def, intro route_done) (auto simp: looked_up[OF v] content_changed[where op = add_edges, OF es w])
  next
    case (PostTransition i to why)
    with e have k: "transition_version_status i to (subject ident) why (synced_policies s) = (Inr (), p)" by simp
    obtain w where "get_version p i = Some w" using transition_found[OF k] kept by auto
    from changed_version[where op = "transition_version_status i to (subject ident) why", OF k this] a PostTransition show ?thesis by (auto simp: post_transition_def intro: route_done)
  next
    case (PostSubmit i why)
    with e have k: "submit_for_approval i (subject ident) why (synced_policies s) = (Inr (), p)" by simp
    obtain w where "get_version p i = Some w" using submit_found[OF k] kept by auto
    from changed_version[where op = "submit_for_approval i (subject ident) why", OF k this] a PostSubmit show ?thesis by (auto simp: post_submit_for_approval_def intro: route_done)
  next
    case (PostActivate i why)
    with e have k: "activate_version i (subject ident) why (synced_policies s) = (Inr (), p)" by simp
    obtain w where "get_version p i = Some w" using activate_found[OF k] kept by auto
    from changed_version[where op = "activate_version i (subject ident) why", OF k this] a PostActivate show ?thesis by (auto simp: post_activate_def intro: route_done)
  next
    case (PostKill i why)
    with e have k: "kill_switch i (subject ident) why (synced_policies s) = (Inr (), p)" by simp
    obtain w where "get_version p i = Some w" using kill_found[OF k] kept by auto
    from changed_version[where op = "kill_switch i (subject ident) why", OF k this] a PostKill show ?thesis by (auto simp: post_kill_switch_def intro: route_done)
  next
    case (PostDossier fromiso d)
    with e obtain d' k where "mk_research_dossier (dossier_of_request (subject ident) d) = Inr d'"
      "store_research_dossier fromiso d' (synced_policies s) = (Inr k, p)" by (auto simp: bind_Inr split: sum.splits)
    then have "bind (checked (mk_research_dossier (dossier_of_request (subject ident) d)))
        (\<lambda>d. bind (on_policies {} (store_research_dossier fromiso d)) (\<lambda>i. ret (i, d))) s = (Inr (k, d'), s\<lparr>policies := p\<rparr>)"
      by (simp add: route_parts)
    with a PostDossier show ?thesis by (simp add: post_research_dossier_def route_done)
  next
    case (PostLink i d)
    from found PostLink obtain v where v: "get_version (policies s) i = Some v" by (auto simp: version_found_def)
    obtain w where w: "get_version p i = Some w" using kept[OF v] ..
    from e PostLink have k: "link_dossier_to_version i d (synced_policies s) = (Inr (), p)" by simp
    show ?thesis using a PostLink
      by (simp add: post_link_dossier_def, intro route_done) (auto simp: looked_up[OF v] changed_version[where op = "link_dossier_to_version i d", OF k w])
  qed
qed

lemma request_denied:
  assumes "\<And>i. \<not> authorized s c p i"
  shows "\<exists>e. bind (route_of p c f) (\<lambda>_. ret ()) s = (Inl e, s) \<and> e \<in> {ApiError 401 ''unauthenticated'' [], ApiError 403 ''forbidden'' [p]}"
  using route_of_denied[OF assms, of f] by (auto simp: bind_eq)

lemma answer_denied:
  assumes "\<And>ident. \<not> authorized s c (permission_of q) ident"
  shows "\<exists>e. answer c q s = (Inl e, s) \<and> e \<in> {ApiError 401 ''unauthenticated'' [], ApiError 403 ''forbidden'' [permission_of q]}"
  by (cases q; use assms in \<open>simp only: answer.simps permission_of.simps post_policy_graph_def post_draft_version_def post_fork_def
    post_nodes_def post_edges_def post_transition_def post_submit_for_approval_def post_activate_def post_kill_switch_def
    post_research_dossier_def post_link_dossier_def\<close>; rule request_denied; blast)

lemma answer_failed: "answer c q s = (Inl e, t) \<Longrightarrow> t = s"
  by (cases q; simp only: answer.simps post_policy_graph_def post_draft_version_def post_fork_def
    post_nodes_def post_edges_def post_transition_def post_submit_for_approval_def post_activate_def post_kill_switch_def
    post_research_dossier_def post_link_dossier_def route_of_def)
    (auto simp: bind_eq transaction_def split: prod.splits sum.splits)

lemma authorized_unique: "authorized s c p i \<Longrightarrow> authorized s c p j \<Longrightarrow> i = j"
  by (auto simp: authorized_def split: option.splits)

text \<open>
  A holder of the write permission takes a version along every edge of the lifecycle by
  \<open>post_transition\<close>, also into approved and active.
\<close>

lemma writer_transitions_anywhere:
  assumes "authorized s c WRITE ident" "get_version (policies s) i = Some v" "can_transition (pv_status v) to"
    and "\<not> (to = ''active'' \<and> other_active (synced_policies s) i)"
  shows "\<exists>t w. answer c (PostTransition i to why) s = (Inr (), t) \<and> get_version (policies t) i = Some w \<and> pv_status w = to"
proof -
  let ?p = "apply_transition i (pv_status v) to (subject ident) why (synced_policies s)"
  have "answer c (PostTransition i to why) s = (Inr (), s\<lparr>policies := ?p\<rparr>)"
  proof (rule answer_possible[of _ _ _ ident])
    show "exec_call (store_call (subject ident) (PostTransition i to why)) (synced_policies s) = (Inr (), ?p)"
      using assms(2-4) by (simp add: transition_eq)
  qed (use assms in \<open>simp_all add: version_found_def split: option.split\<close>)
  with assms(2) show ?thesis by simp
qed

text \<open>
  C33. A request to change policies is one call of the policy store. With a session whose user
  holds the permission of the request, it is answered exactly when the version its path names
  exists and the store accepts the call in that user's name, and its effect is then the effect of
  the call and nothing else; a request that is refused, by the store or by the route, changes
  nothing. Without such a session the answer is 401 or 403. This holds for every target status of
  \<open>post_transition\<close>, which asks for the write permission alone: its docstring leaves the step into
  approved and the one into active to other routes, but the code does not refuse them (lemma
  \<open>writer_transitions_anywhere\<close>).
\<close>

theorem policy_request_is_store_call:
  "(\<forall>ident. authorized s c (permission_of q) ident \<longrightarrow>
      (if version_found (policies s) q \<and> fst (exec_call (store_call (subject ident) q) (synced_policies s)) = Inr ()
       then answer c q s = (Inr (), s\<lparr>policies := commit (store_call (subject ident) q) (synced_policies s)\<rparr>)
       else \<exists>e. answer c q s = (Inl e, s))) \<and>
   ((\<forall>ident. \<not> authorized s c (permission_of q) ident) \<longrightarrow>
      answer c q s = (Inl (ApiError 401 ''unauthenticated'' []), s) \<or> answer c q s = (Inl (ApiError 403 ''forbidden'' [permission_of q]), s))"
proof (intro conjI allI impI)
  fix ident assume a: "authorized s c (permission_of q) ident"
  show "if version_found (policies s) q \<and> fst (exec_call (store_call (subject ident) q) (synced_policies s)) = Inr ()
       then answer c q s = (Inr (), s\<lparr>policies := commit (store_call (subject ident) q) (synced_policies s)\<rparr>)
       else \<exists>e. answer c q s = (Inl e, s)"
  proof (cases "version_found (policies s) q \<and> fst (exec_call (store_call (subject ident) q) (synced_policies s)) = Inr ()")
    case True
    then have e: "exec_call (store_call (subject ident) q) (synced_policies s) =
        (Inr (), commit (store_call (subject ident) q) (synced_policies s))"
      by (cases "exec_call (store_call (subject ident) q) (synced_policies s)") (simp add: exec_commit)
    from True answer_possible[OF a _ e] show ?thesis by simp
  next
    case False
    obtain r t where r: "answer c q s = (r, t)" by (cases "answer c q s")
    show ?thesis
    proof (cases r)
      case (Inl e)
      with r answer_failed[of c q s e t] False show ?thesis by auto
    next
      case (Inr u)
      from answer_done[OF r[unfolded Inr]] obtain j where "authorized s c (permission_of q) j" "version_found (policies s) q"
        "exec_call (store_call (subject j) q) (synced_policies s) = (Inr (), policies t)" by blast
      with a False authorized_unique[of s c "permission_of q" ident j] show ?thesis by simp
    qed
  qed
next
  assume "\<forall>ident. \<not> authorized s c (permission_of q) ident"
  then show "answer c q s = (Inl (ApiError 401 ''unauthenticated'' []), s) \<or> answer c q s = (Inl (ApiError 403 ''forbidden'' [permission_of q]), s)"
    using answer_denied[of s c q] by auto
qed

section \<open>Any sequence of requests\<close>

text \<open>
  Simulations and comparisons leave the policies alone, and so does every route of the other
  components, whatever it does with its own tables.
\<close>

inductive api_step :: "policy_api_db \<Rightarrow> policy_api_db \<Rightarrow> bool" where
  request: "api_step s (snd (answer c q s))"
| simulate: "api_step s (snd (post_simulate py_str dec_of c i label source cases s))"
| compare: "api_step s (snd (post_compare c i j label cases s))"
| elsewhere: "policies t = policies s \<Longrightarrow> api_step s t"

definition api_start :: "policy_api_db \<Rightarrow> bool" where
  "api_start s \<longleftrightarrow> policies s = empty_policy_db"

lemma on_simulations_policies: "policies (snd (on_simulations op s)) = policies s"
  by (auto simp: on_simulations_def split: prod.splits sum.splits)

lemma keeps_on_simulations: "keeps (\<lambda>s. policies s = p) (on_simulations op)"
  by (rule keepsI) (simp add: on_simulations_policies)

lemma keeps_require: "keeps P (require_permission p c)"
  by (rule keepsI) (auto simp: require_permission_eq split: option.splits)

lemma keeps_or_404: "keeps P (get_version_or_404 i)" and keeps_simulated: "keeps P (simulated r)"
  and keeps_of_sum: "keeps P (of_sum x)" and keeps_run_response: "keeps P (run_response i)"
  by (auto intro!: keepsI simp: get_version_or_404_def simulated_def of_sum_def run_response_def bind_eq split: option.splits sum.splits)

lemmas keeps_parts = store_inv keeps_on_simulations keeps_require keeps_or_404 keeps_simulated keeps_of_sum keeps_run_response

lemma simulate_keeps: "keeps (\<lambda>s. policies s = p) (post_simulate py_str dec_of c i label source cases)"
  unfolding post_simulate_def route_of_def split_def by (intro keeps_parts)

lemma compare_keeps: "keeps (\<lambda>s. policies s = p) (post_compare c i j label cases)"
  unfolding post_compare_def route_of_def by (intro keeps_parts)

lemma synced_step: "policy_step (policies s) (synced_policies s)"
  unfolding policy_step_def
  by (intro exI[of _ "RolesEdited (map snd (roles s))"]) (simp add: commit_def transaction_def synced_policies_def)

interpretation api: invariant_system api_start api_step "\<lambda>s. reachable policy_start policy_step (policies s)"
proof unfold_locales
  show "reachable policy_start policy_step (policies s)" if "api_start s" for s
    using that by (auto simp: api_start_def policy_start_def intro: reachable.initially)
next
  fix s t assume r: "reachable policy_start policy_step (policies s)" and "api_step s t"
  from this(2) show "reachable policy_start policy_step (policies t)"
  proof cases
    case (request c q)
    show ?thesis
    proof (cases "answer c q s")
      case (Pair x u)
      then have u: "u = t" using request by simp
      show ?thesis
      proof (cases x)
        case (Inl e)
        then have "t = s" using Pair u answer_failed[of c q s e u] by simp
        with r show ?thesis by simp
      next
        case (Inr y)
        from answer_done[OF Pair[unfolded Inr u]] obtain j :: identity where
          "exec_call (store_call (subject j) q) (synced_policies s) = (Inr (), policies t)" by (elim exE conjE)
        then have "policies t = commit (store_call (subject j) q) (synced_policies s)" by (rule exec_commit[symmetric])
        then have "policy_step (synced_policies s) (policies t)" unfolding policy_step_def ..
        with r synced_step show ?thesis by (blast intro: reachable.stepwise)
      qed
    qed
  next
    case (simulate py_str dec_of c i label source cases)
    with keepsD[OF simulate_keeps refl] r show ?thesis by simp
  next
    case (compare c i j label cases)
    with keepsD[OF compare_keeps refl] r show ?thesis by simp
  qed (use r in simp)
qed

text \<open>
  C32. The policy API refines the policy store: in every state that requests, simulations,
  comparisons and the routes of other components can reach, the policy tables are ones the store
  alone could have reached, so the store's invariants hold there; in particular a graph never has
  two active versions.
\<close>

theorem policy_api_refines_store:
  assumes "reachable api_start api_step s"
  shows "reachable policy_start policy_step (policies s) \<and>
    (\<forall>i v j w. get_version (policies s) i = Some v \<and> get_version (policies s) j = Some w \<and> pv_graph_id v = pv_graph_id w \<and>
       pv_status v = ''active'' \<and> pv_status w = ''active'' \<longrightarrow> i = j)"
proof -
  have r: "reachable policy_start policy_step (policies s)" by (rule api.reachable_inv[OF assms])
  have one: "one_active (policies s)" using policy.reachable_inv[OF r] by (simp add: store_ok_def)
  show ?thesis
  proof (intro conjI allI impI r, elim conjE)
    fix i v j w
    assume "get_version (policies s) i = Some v" "get_version (policies s) j = Some w" "pv_graph_id v = pv_graph_id w"
      "pv_status v = ''active''" "pv_status w = ''active''"
    then have "active_in (policies s) i = Some (pv_graph_id v)" "active_in (policies s) j = Some (pv_graph_id v)"
      by (simp_all add: active_in_Some)
    with one show "i = j" unfolding one_active_def by blast
  qed
qed

section \<open>A session and its requests\<close>

definition editor_db :: policy_api_db where
  "editor_db = \<lparr>roles = [(1, ''editor'')], permissions = [(1, ''algorithm.policy.write'')], role_permissions = [(1, 1)],
     users = [(1, \<lparr>username = ''ann'', display_name = ''Ann'', role_id = 1, user_status = ''active'', user_version = 1,
        password_hash = None, failed_login_count = 0, locked_until = None\<rparr>)], user_seq = 2,
     sessions = [(''tok'', \<lparr>session_user = 1, expires_at = 100, revoked_at = None\<rparr>)], idempotency_keys = [], audit_log = [],
     platform_db.clock = 0, correlation_id_var = None, policies = empty_policy_db,
     simulations = \<lparr>version_ids = [], simulation_runs = [], run_seq = 1, simulation_db.clock = 0\<rparr>\<rparr>"

definition pricing :: policy_graph where
  "pricing = \<lparr>pg_name = ''pricing'', pg_owner = ''ann'', pg_description = None\<rparr>"

definition editor_identity :: identity where
  "editor_identity = \<lparr>subject = ''ann'', role = ''editor'', granted = {''algorithm.policy.write''}\<rparr>"

lemma editor_authorized: "authorized editor_db (Some ''tok'') WRITE editor_identity"
  by (auto simp: authorized_def editor_db_def resolve_session_def has_permission_def role_permission_names_def editor_identity_def
      WRITE_def)

theorem policy_request_is_store_call_witness:
  "fst (answer (Some ''tok'') (PostGraph pricing) editor_db) = Inr () \<and>
   policy_graphs (policies (snd (answer (Some ''tok'') (PostGraph pricing) editor_db))) = [(1, pricing)] \<and>
   fst (answer None (PostGraph pricing) editor_db) = Inl (ApiError 401 ''unauthenticated'' [])"
proof -
  have p: "permission_of (PostGraph pricing) = WRITE" by simp
  have e: "exec_call (CreateGraph pricing) (synced_policies editor_db) =
      (Inr (), (synced_policies editor_db)\<lparr>policy_graphs := [(1, pricing)], graph_seq := 2\<rparr>)"
    by (simp add: synced_policies_def editor_db_def empty_policy_db_def create_policy_graph_def bind_eq then_db_eq)
  have "answer (Some ''tok'') (PostGraph pricing) editor_db =
      (Inr (), editor_db\<lparr>policies := commit (CreateGraph pricing) (synced_policies editor_db)\<rparr>)"
    using conjunct1[OF policy_request_is_store_call, THEN spec, THEN mp, of editor_db "Some ''tok''" "PostGraph pricing" editor_identity]
      editor_authorized e by (simp add: version_found_def del: exec_call.simps answer.simps)
  moreover have "policy_graphs (commit (CreateGraph pricing) (synced_policies editor_db)) = [(1, pricing)]"
    by (simp only: exec_commit[OF e]) simp
  moreover have "\<forall>i. \<not> authorized editor_db None (permission_of (PostGraph pricing)) i" by (simp add: authorized_def)
  then have "fst (answer None (PostGraph pricing) editor_db) = Inl (ApiError 401 ''unauthenticated'' [])"
    by (simp add: post_policy_graph_def route_of_def require_permission_eq transaction_def bind_eq)
  ultimately show ?thesis by simp
qed

theorem policy_api_refines_store_witness:
  "reachable policy_start policy_step (policies (snd (answer (Some ''tok'') (PostGraph pricing) editor_db)))"
proof -
  have "reachable api_start api_step editor_db"
    by (rule reachable.initially) (simp add: api_start_def editor_db_def)
  then have "reachable api_start api_step (snd (answer (Some ''tok'') (PostGraph pricing) editor_db))"
    by (rule reachable.stepwise) (rule api_step.request)
  then show ?thesis using policy_api_refines_store by blast
qed

text \<open>
  The transition route catches only \<open>InvalidTransitionError\<close>: a version that does not exist is a
  bare \<open>ValueError\<close>, which the error handler answers with status 500.
\<close>

lemma transition_of_unknown_version:
  assumes "authorized s c WRITE ident" "get_version (policies s) i = None"
  shows "post_transition c i to why s = (Inl (Exc ''ValueError'' [str_int i]), s)"
  using assms by (simp add: post_transition_def route_of_authorized transaction_def then_db_eq on_policies_def
      transition_version_status_def get_version_status_def bind_eq)

end
