(* ===== verification/Registers_Theorems.thy ===== *)
theory Registers_Theorems
  imports Registers Policy_Api_Theorems
begin

text \<open>
  What the registers guarantee: a deployment has two people, a submitted message is never edited,
  the source in effect is the latest one, and the live check of the policies finds exactly the
  violations there are.
\<close>

section \<open>Official sources\<close>

lemma sorted_head_least:
  assumes "sort_key f xs = x # ys"
  shows "x \<in> set xs \<and> (\<forall>y \<in> set xs. f x \<le> f y)"
proof -
  have "set (x # ys) = set xs" using set_sort[of f xs] unfolding assms .
  moreover have "sorted (map f (x # ys))" using sorted_sort_key[of f xs] unfolding assms .
  ultimately show ?thesis by auto
qed

lemma effective_source_latest:
  assumes "get_effective_source fromiso ty name as_of s = (Inr (Some (i, r)), t)"
  shows "(i, r) \<in> set (official_sources s) \<and> os_type (osr_source r) = ty \<and> os_name (osr_source r) = name \<and>
    (\<exists>now. fromiso as_of = Some now \<and> in_effect now r \<and>
      (\<forall>(j, x) \<in> set (official_sources s). os_type (osr_source x) = ty \<and> os_name (osr_source x) = name \<and> in_effect now x \<longrightarrow>
         osr_from x \<le> osr_from r))"
proof -
  from assms obtain now ys where n: "fromiso as_of = Some now" and
    h: "sort_key (\<lambda>(i, r). - osr_from r)
      (filter (\<lambda>(i, r). os_type (osr_source r) = ty \<and> os_name (osr_source r) = name \<and> in_effect now r) (official_sources s)) = (i, r) # ys"
    by (auto simp: get_effective_source_def read_iso_def bind_Inr split: option.splits list.splits)
  from sorted_head_least[OF h] n show ?thesis by auto
qed

section \<open>Feedback\<close>

definition submitted :: "registers_db \<Rightarrow> (int \<times> string \<times> string \<times> string \<times> int) list" where
  "submitted s = map (\<lambda>(i, f). (i, submitted_by f, category f, feedback_message f, submitted_at f)) (feedback s)"

lemma map_update_row: "(\<And>v. g (i, f v) = g (i, v)) \<Longrightarrow> map g (update_row i f xs) = map g xs"
  by (induction xs) (auto simp: update_row_def)

inductive feedback_step :: "registers_db \<Rightarrow> registers_db \<Rightarrow> bool" where
  submit: "feedback_step s (snd (submit_feedback_route fp isof c key cat msg s))"
| resolve: "feedback_step s (snd (resolve_feedback_route isof c i why s))"
| elsewhere: "feedback t = feedback s \<Longrightarrow> feedback_step s t"

definition messages_kept :: "registers_db \<Rightarrow> registers_db \<Rightarrow> bool" where
  "messages_kept s t \<longleftrightarrow> extends (submitted s) (submitted t)"

interpretation messages: preorder_rel messages_kept
  by unfold_locales (auto simp: messages_kept_def intro: extends_trans)

lemma same_feedback: "feedback t = feedback s \<Longrightarrow> messages_kept s t"
  by (simp add: messages_kept_def submitted_def)

lemma does_reserve: "does messages_kept (reserve key rt fp)" and does_store_response: "does messages_kept (store_response key rt st b)"
  by (auto simp: does_def reserve_def store_response_def bind_eq then_db_eq intro!: same_feedback split: option.splits)

lemma does_idempotent: "does messages_kept m \<Longrightarrow> does messages_kept (idempotent key rt fp m)"
  unfolding idempotent_def
  by (intro messages.does_bind does_catch does_reserve)
    (auto split: option.split intro!: messages.does_bind messages.does_then messages.does_ret does_store_response)

lemma does_submit: "does messages_kept (submit_feedback who cat msg cid)"
  by (auto simp: does_def submit_feedback_def bind_eq then_db_eq messages_kept_def submitted_def extends_def)

lemma does_resolve: "does messages_kept (resolve_feedback i who why)"
proof -
  have "submitted (s\<lparr>feedback := update_row i (\<lambda>f. f\<lparr>feedback_status := ''resolved'', resolved_by := Some who, resolution_note := Some why,
        resolved_at := Some k\<rparr>) (feedback s)\<rparr>) = submitted s" for s k
    by (auto simp: submitted_def intro!: map_update_row)
  then show ?thesis
    by (auto simp: does_def resolve_feedback_def bind_eq then_db_eq messages_kept_def split: option.splits)
qed

lemma submit_route_kept: "does messages_kept (submit_feedback_route fp isof c key cat msg)"
  unfolding submit_feedback_route_def route_of_def
  by (intro messages.does_transaction messages.does_bind messages.does_then does_idempotent does_require_permission[OF messages.preorder_rel_axioms])
    (auto split: option.split intro!: messages.does_guard messages.does_gets messages.does_bind messages.does_ret messages.does_raise does_submit)

lemma resolve_route_kept: "does messages_kept (resolve_feedback_route isof c i why)"
  unfolding resolve_feedback_route_def route_of_def
  by (intro messages.does_transaction messages.does_bind does_catch does_resolve does_require_permission[OF messages.preorder_rel_axioms] messages.does_ret)

interpretation feedback_log: append_only feedback_step submitted
proof unfold_locales
  show "extends (submitted s) (submitted t)" if "feedback_step s t" for s t
    using that submit_route_kept resolve_route_kept
    by cases (auto simp: does_def messages_kept_def submitted_def)
qed

text \<open>
  A resolution replaces an earlier one: the route looks only for the id.
\<close>

lemma resolution_overwritten:
  assumes "map_of (feedback s) i = Some f"
  shows "\<exists>g t. resolve_feedback i who why s = (Inr (i, g), t) \<and> resolved_by g = Some who \<and> resolution_note g = Some why"
  using assms by (simp add: resolve_feedback_def then_db_eq bind_eq)

section \<open>Deployments\<close>

inductive deploy_step :: "registers_db \<Rightarrow> registers_db \<Rightarrow> bool" where
  authorize: "deploy_step s (snd (authorize pr app manifest current expected why s))"
| elsewhere: "deployment_authorizations t = deployment_authorizations s \<Longrightarrow> deploy_step s t"

definition deploy_start :: "registers_db \<Rightarrow> bool" where
  "deploy_start s \<longleftrightarrow> deployment_authorizations s = []"

lemma authorize_effect:
  "authorize (ini, sha) app manifest current expected why s = (r, t) \<Longrightarrow>
     t = s \<or> (\<exists>i m. ini \<noteq> app \<and> manifest = Some m \<and> jget m ''commit_sha'' = JStr sha \<and> current = Some expected \<and> r = Inr i \<and>
       (\<exists>a. deployment_authorizations t = deployment_authorizations s @ [(i, a)] \<and> initiator a = ini \<and> approver a = app \<and>
          da_commit_sha a = sha \<and> schema_version_at_authorization a = expected))"
  by (auto simp: authorize_def then_db_eq bind_eq transaction_def record_authorization_def verify_distinct_approver_def
      verify_digest_match_def split: option.splits if_splits)

interpretation deployments: invariant_system deploy_start deploy_step
  "\<lambda>s. \<forall>(i, a) \<in> set (deployment_authorizations s). initiator a \<noteq> approver a"
proof unfold_locales
  fix s t assume inv: "\<forall>(i, a) \<in> set (deployment_authorizations s). initiator a \<noteq> approver a" and "deploy_step s t"
  from this(2) show "\<forall>(i, a) \<in> set (deployment_authorizations t). initiator a \<noteq> approver a"
  proof cases
    case (authorize pr app manifest current expected why)
    obtain ini sha where pr: "pr = (ini, sha)" by (cases pr)
    obtain r where "Registers.authorize (ini, sha) app manifest current expected why s = (r, t)"
      using authorize unfolding pr by (metis prod.collapse)
    from authorize_effect[OF this] inv show ?thesis by auto
  qed (use inv in simp)
qed (simp add: deploy_start_def)

text \<open>
  C34. A deployment has two people: however often the authorisation script runs, with whatever
  pull requests, approvers, manifests and schema versions, every authorisation on record was
  approved by somebody else than its initiator; and a run leaves a record only if the manifest
  was built from the pull request's head commit and the target database has the expected schema.
\<close>

theorem deployment_needs_second_person:
  assumes "reachable deploy_start deploy_step s"
  shows "(\<forall>(i, a) \<in> set (deployment_authorizations s). initiator a \<noteq> approver a) \<and>
    (\<forall>i t. authorize (ini, sha) app manifest current expected why s = (Inr i, t) \<longrightarrow>
       ini \<noteq> app \<and> current = Some expected \<and> (\<exists>m. manifest = Some m \<and> jget m ''commit_sha'' = JStr sha))"
proof (intro conjI allI impI)
  show "\<forall>(i, a) \<in> set (deployment_authorizations s). initiator a \<noteq> approver a" by (rule deployments.reachable_inv[OF assms])
next
  fix i t assume "authorize (ini, sha) app manifest current expected why s = (Inr i, t)"
  then have "ini \<noteq> app \<and> current = Some expected \<and> (\<exists>m. manifest = Some m \<and> jget m ''commit_sha'' = JStr sha)"
    by (auto simp: authorize_def then_db_eq verify_distinct_approver_def verify_digest_match_def split: option.splits if_splits)
  then show "ini \<noteq> app" "current = Some expected" "\<exists>m. manifest = Some m \<and> jget m ''commit_sha'' = JStr sha" by simp_all
qed

definition empty_registers :: registers_db where
  "empty_registers = \<lparr>roles = [], permissions = [], role_permissions = [], users = [], user_seq = 1, sessions = [], idempotency_keys = [],
     audit_log = [], platform_db.clock = 0, correlation_id_var = None, policies = empty_policy_db,
     simulations = \<lparr>version_ids = [], simulation_runs = [], run_seq = 1, simulation_db.clock = 0\<rparr>,
     official_sources = [], feedback = [], deployment_authorizations = []\<rparr>"

theorem deployment_needs_second_person_witness:
  "fst (authorize (''ann'', ''abc'') ''bob'' (Some [(''commit_sha'', JStr ''abc'')]) (Some 24) 24 None empty_registers) = Inr 1 \<and>
   \<not> (\<exists>i t. authorize (''ann'', ''abc'') ''ann'' (Some [(''commit_sha'', JStr ''abc'')]) (Some 24) 24 None empty_registers = (Inr i, t))"
proof -
  have r: "reachable deploy_start deploy_step empty_registers"
    by (rule reachable.initially) (simp add: deploy_start_def empty_registers_def)
  have "fst (authorize (''ann'', ''abc'') ''bob'' (Some [(''commit_sha'', JStr ''abc'')]) (Some 24) 24 None empty_registers) = Inr 1"
    by (simp add: authorize_def empty_registers_def then_db_eq bind_eq transaction_def record_authorization_def next_id_def
        verify_distinct_approver_def verify_digest_match_def jget_def)
  then show ?thesis using deployment_needs_second_person[OF r, of "''ann''" "''abc''" "''ann''"] by blast
qed

section \<open>The live check of the policies\<close>

lemma count_active:
  "count_list (map (pv_graph_id \<circ> snd) (filter (\<lambda>(i, v). pv_status v = ''active'') vs)) g =
     length (filter (\<lambda>(i, v). pv_status v = ''active'' \<and> pv_graph_id v = g) vs)"
  by (induction vs) auto

lemma at_most_one:
  assumes "distinct xs"
  shows "length (filter P xs) \<le> 1 \<longleftrightarrow> (\<forall>x \<in> set xs. \<forall>y \<in> set xs. P x \<and> P y \<longrightarrow> x = y)"
proof -
  have "length (filter P xs) = card (set (filter P xs))" using distinct_card[of "filter P xs"] assms by simp
  then have "length (filter P xs) \<le> 1 \<longleftrightarrow> card (set (filter P xs)) \<le> Suc 0" by simp
  also have "\<dots> \<longleftrightarrow> (\<forall>x \<in> set (filter P xs). \<forall>y \<in> set (filter P xs). x = y)" by (rule card_le_Suc0_iff_eq) simp
  finally show ?thesis by auto
qed

lemma no_active_counts:
  "active_counts p = [] \<longleftrightarrow>
     (\<forall>g. length (filter (\<lambda>(i, v). pv_status v = ''active'' \<and> pv_graph_id v = g) (policy_versions p)) \<le> 1)"
proof -
  define xs where "xs = map (pv_graph_id \<circ> snd) (filter (\<lambda>(i, v). pv_status v = ''active'') (policy_versions p))"
  have "active_counts p = [] \<longleftrightarrow> filter (\<lambda>(g, n). 1 < n) (count_dict xs) = []"
    unfolding active_counts_def xs_def[symmetric] by (metis set_empty set_sort)
  also have "\<dots> \<longleftrightarrow> (\<forall>g. count_list xs g \<le> 1)"
  proof
    assume e: "filter (\<lambda>(g, n). 1 < n) (count_dict xs) = []"
    show "\<forall>g. count_list xs g \<le> 1"
    proof
      fix g show "count_list xs g \<le> 1"
      proof (cases "g \<in> set xs")
        case True
        then have "(g, count_list xs g) \<in> set (count_dict xs)" by (simp add: set_count_dict)
        with e show ?thesis by (auto simp: filter_empty_conv not_less)
      qed (simp add: count_notin)
    qed
  next
    assume "\<forall>g. count_list xs g \<le> 1"
    then have "\<not> 1 < count_list xs g" for g by (simp add: not_less)
    then show "filter (\<lambda>(g, n). 1 < n) (count_dict xs) = []" by (auto simp: filter_empty_conv set_count_dict)
  qed
  finally show ?thesis unfolding xs_def count_active .
qed

lemma check_exact:
  assumes "distinct (map fst (policy_versions p))"
  shows "ir_passed (policy_versions_one_active_per_graph p) \<longleftrightarrow> one_active p"
proof -
  have d: "distinct (policy_versions p)" using assms by (simp add: distinct_map)
  have mem: "(i, v) \<in> set (policy_versions p) \<longleftrightarrow> get_version p i = Some v" for i v
    unfolding get_version_def by (rule mem_map_of[OF assms])
  have "ir_passed (policy_versions_one_active_per_graph p) \<longleftrightarrow>
    (\<forall>g. \<forall>x \<in> set (policy_versions p). \<forall>y \<in> set (policy_versions p).
       (case x of (i, v) \<Rightarrow> pv_status v = ''active'' \<and> pv_graph_id v = g) \<and> (case y of (i, v) \<Rightarrow> pv_status v = ''active'' \<and> pv_graph_id v = g) \<longrightarrow> x = y)"
    by (simp only: policy_versions_one_active_per_graph_def invariant_result.simps no_active_counts at_most_one[OF d])
  also have "(\<forall>g. \<forall>x \<in> set (policy_versions p). \<forall>y \<in> set (policy_versions p).
       (case x of (i, v) \<Rightarrow> pv_status v = ''active'' \<and> pv_graph_id v = g) \<and> (case y of (i, v) \<Rightarrow> pv_status v = ''active'' \<and> pv_graph_id v = g) \<longrightarrow> x = y)
     \<longleftrightarrow> one_active p" (is "?each \<longleftrightarrow> _")
  proof
    assume h: ?each
    show "one_active p"
      unfolding one_active_def active_in_Some
    proof (intro allI impI, elim conjE exE)
      fix i j g v w
      assume "get_version p i = Some v" "pv_status v = ''active''" "pv_graph_id v = g"
        "get_version p j = Some w" "pv_status w = ''active''" "pv_graph_id w = g"
      then have "(i, v) = (j, w)"
        using h[rule_format, of "(i, v)" "(j, w)" g] by (simp add: mem)
      then show "i = j" by simp
    qed
  next
    assume one: "one_active p"
    show ?each
    proof (intro allI ballI impI)
      fix g x y
      assume xy: "x \<in> set (policy_versions p)" "y \<in> set (policy_versions p)"
        "(case x of (i, v) \<Rightarrow> pv_status v = ''active'' \<and> pv_graph_id v = g) \<and> (case y of (i, v) \<Rightarrow> pv_status v = ''active'' \<and> pv_graph_id v = g)"
      obtain i v j w where e: "x = (i, v)" "y = (j, w)" by (cases x, cases y)
      from xy have "active_in p i = Some g" "active_in p j = Some g" by (simp_all add: e mem active_in_Some)
      with one have "i = j" unfolding one_active_def by blast
      with xy show "x = y" by (simp add: e mem)
    qed
  qed
  finally show ?thesis .
qed

lemma one_active_rows:
  "one_active p \<longleftrightarrow>
     (\<forall>i v j w. get_version p i = Some v \<and> get_version p j = Some w \<and> pv_graph_id v = pv_graph_id w \<and>
        pv_status v = ''active'' \<and> pv_status w = ''active'' \<longrightarrow> i = j)"
  unfolding one_active_def active_in_Some by blast

text \<open>
  The live check is exact: on policy tables with distinct version ids it passes exactly when
  no two active versions belong to one graph, and on every database that the API can reach it
  passes.
\<close>

theorem live_check_exact:
  "(distinct (map fst (policy_versions p)) \<longrightarrow>
      (ir_passed (policy_versions_one_active_per_graph p) \<longleftrightarrow>
         (\<forall>i v j w. get_version p i = Some v \<and> get_version p j = Some w \<and> pv_graph_id v = pv_graph_id w \<and>
            pv_status v = ''active'' \<and> pv_status w = ''active'' \<longrightarrow> i = j))) \<and>
   (reachable api_start api_step s \<longrightarrow> ir_passed (policy_versions_one_active_per_graph (policies s)))"
proof (intro conjI impI)
  assume "distinct (map fst (policy_versions p))"
  from check_exact[OF this]
  show "ir_passed (policy_versions_one_active_per_graph p) \<longleftrightarrow>
         (\<forall>i v j w. get_version p i = Some v \<and> get_version p j = Some w \<and> pv_graph_id v = pv_graph_id w \<and>
            pv_status v = ''active'' \<and> pv_status w = ''active'' \<longrightarrow> i = j)"
    by (simp add: one_active_rows)
next
  assume "reachable api_start api_step s"
  from policy.reachable_inv[OF api.reachable_inv[OF this]]
  show "ir_passed (policy_versions_one_active_per_graph (policies s))"
    by (simp add: store_ok_def ids_ok_def check_exact)
qed

definition two_active :: policy_db where
  "two_active = empty_policy_db\<lparr>policy_versions :=
     [(1, \<lparr>pv_graph_id = 1, pv_version_number = 1, pv_status = ''active'', pv_created_by = ''ann'', pv_research_dossier_id = None\<rparr>),
      (2, \<lparr>pv_graph_id = 1, pv_version_number = 2, pv_status = ''active'', pv_created_by = ''ann'', pv_research_dossier_id = None\<rparr>)]\<rparr>"

theorem live_check_exact_witness:
  "\<not> ir_passed (policy_versions_one_active_per_graph two_active) \<and>
   ir_passed (policy_versions_one_active_per_graph (policies editor_db))"
proof -
  have d: "distinct (map fst (policy_versions two_active))" by (simp add: two_active_def)
  have "reachable api_start api_step editor_db" by (rule reachable.initially) (simp add: api_start_def editor_db_def)
  moreover have "\<not> (\<forall>i v j w. get_version two_active i = Some v \<and> get_version two_active j = Some w \<and> pv_graph_id v = pv_graph_id w \<and>
            pv_status v = ''active'' \<and> pv_status w = ''active'' \<longrightarrow> i = j)"
  proof
    assume h: "\<forall>i v j w. get_version two_active i = Some v \<and> get_version two_active j = Some w \<and> pv_graph_id v = pv_graph_id w \<and>
            pv_status v = ''active'' \<and> pv_status w = ''active'' \<longrightarrow> i = j"
    obtain v w where "get_version two_active 1 = Some v" "get_version two_active 2 = Some w" "pv_graph_id v = 1" "pv_graph_id w = 1"
      "pv_status v = ''active''" "pv_status w = ''active''" by (simp add: two_active_def get_version_def)
    then have "(1 :: int) = 2" using h by metis
    then show False by simp
  qed
  ultimately show ?thesis using live_check_exact[of two_active editor_db] d by simp
qed

end
