(* ===== verification/Vendors.thy ===== *)
theory Vendors
  imports Listing Numbered
begin

text \<open>
  The vendor service: its data classes and tables (\<open>packages/vendor/vendor_model.py\<close>,
  \<open>availability_model.py\<close>, \<open>reputation_model.py\<close>, \<open>vendor_store.py\<close>, \<open>reputation_store.py\<close>,
  \<open>napkin_evidence.py\<close>), its routes (\<open>apps/api_vendor\<close>) and the client that the tender service
  calls them with (\<open>packages/contracts/vendor_api.py\<close>).

  The numbers of an offer are floats that the code only copies; their type is the parameter
  \<open>'f\<close>. A field of a data class is not checked by Python: those that a provider takes from a
  document are arbitrary decoded values (\<open>json\<close>), and the statement that stores them fails for
  anything but text. \<open>isoformat\<close>, \<open>fromisoformat\<close>, the random API key, SHA-256, the HTTP client and
  the framework's reading and writing of messages are arguments.
\<close>

section \<open>Vendors, offers and reputation facts\<close>

record vendor =
  v_data_realm :: string
  v_watermark :: string
  v_name :: json
  provider_type :: string
  v_seed :: "int option"

record 'f offer =
  o_vendor_name :: json
  o_data_realm :: string
  o_watermark :: string
  o_material :: json
  o_price :: 'f
  o_currency :: json
  o_vat_rate :: 'f
  o_uom :: json
  o_uom_canonical_qty :: 'f
  o_moq :: 'f
  o_capacity :: 'f
  o_inventory :: 'f
  o_valid_from :: json
  o_valid_until :: json
  o_evidence_source :: string
  o_observed_at :: string
  o_adverse_case :: "string option"
  o_executable_status :: string

definition EXECUTABLE_STATUS_TIERS :: "string list" where
  "EXECUTABLE_STATUS_TIERS = [''reserved'', ''confirmed'', ''reported'', ''unknown'']"

definition is_valid_executable_status :: "string \<Rightarrow> api_error + bool" where
  "is_valid_executable_status st =
     (if st \<in> set EXECUTABLE_STATUS_TIERS then Inr True else Inl (Exc ''ValueError'' [st]))"

fun index_of :: "'x \<Rightarrow> 'x list \<Rightarrow> nat" where
  "index_of x [] = 0"
| "index_of x (y # ys) = (if y = x then 0 else Suc (index_of x ys))"

definition effective_executable_status :: "string \<Rightarrow> bool \<Rightarrow> api_error + string" where
  "effective_executable_status raw neg =
     sum_bind (is_valid_executable_status raw) (\<lambda>_.
     if \<not> neg then Inr raw
     else (let i = index_of raw EXECUTABLE_STATUS_TIERS;
               j = min (i + 1) (length EXECUTABLE_STATUS_TIERS - 1) in
           Inr (EXECUTABLE_STATUS_TIERS ! j)))"

definition POSITIVE_EVENT_TYPES :: "string list" where
  "POSITIVE_EVENT_TYPES = [''price_held_after_win'', ''delivered_on_time'', ''certification_verified'']"

definition NEGATIVE_EVENT_TYPES :: "string list" where
  "NEGATIVE_EVENT_TYPES =
     [''price_broken_after_win'', ''missed_deadline'', ''quality_complaint'', ''financial_discipline_breach'',
      ''resold_reserved_stock_under_pressure'']"

definition REPUTATION_EVENT_TYPES :: "string list" where
  "REPUTATION_EVENT_TYPES = POSITIVE_EVENT_TYPES @ NEGATIVE_EVENT_TYPES"

definition is_negative_event :: "string \<Rightarrow> api_error + bool" where
  "is_negative_event ev =
     (if ev \<in> set NEGATIVE_EVENT_TYPES then Inr True
      else if ev \<in> set POSITIVE_EVENT_TYPES then Inr False
      else Inl (Exc ''ValueError'' [ev]))"

record reputation_fact =
  rf_data_realm :: string
  rf_watermark :: string
  rf_vendor_name :: string
  event_type :: string
  project_ref :: "string option"
  source_ref :: string
  rf_observed_at :: string
  ttl_days :: int

definition mk_reputation_fact :: "reputation_fact \<Rightarrow> api_error + reputation_fact" where
  "mk_reputation_fact f = sum_bind (is_negative_event (event_type f)) (\<lambda>_. Inr f)"

section \<open>Tables\<close>

record vendor_row =
  vr_data_realm :: string
  vr_watermark :: string
  vr_name :: string
  vr_provider_type :: string
  vr_seed :: "int option"
  api_key :: string

record 'f offer_columns =
  r_vendor_id :: int
  r_data_realm :: string
  r_watermark :: string
  r_material :: string
  r_price :: 'f
  r_currency :: string
  r_vat_rate :: 'f
  r_uom :: string
  r_uom_canonical_qty :: 'f
  r_moq :: 'f
  r_capacity :: 'f
  r_inventory :: 'f
  r_valid_from :: int
  r_valid_until :: int
  r_evidence_source :: string
  r_observed_at :: int
  r_adverse_case :: "string option"

record 'f offer_row = "'f offer_columns" +
  r_executable_status :: string

record reputation_row =
  rr_vendor_id :: int
  rr_data_realm :: string
  rr_watermark :: string
  rr_event_type :: string
  rr_project_ref :: "string option"
  rr_source_ref :: string
  rr_observed_at :: int
  rr_ttl_days :: int

record vendor_napkin_evidence =
  vn_capture_kind :: string
  vn_mime_type :: string
  vn_checksum :: string
  vn_raw_bytes :: string
  vn_correlation_id :: string

record 'f vendor_db =
  vendors :: "(int \<times> vendor_row) list"
  vendor_offers :: "(int \<times> 'f offer_row) list"
  vendor_reputation_facts :: "(int \<times> reputation_row) list"
  napkin_evidence_table :: "(int \<times> vendor_napkin_evidence) list"

type_synonym ('f, 'a) vendor_op = "('f vendor_db, api_error, 'a) db"

text \<open>
  The \<open>CHECK\<close> on realm and watermark (migration 0009), and the binding of a parameter: text for a
  \<open>TEXT NOT NULL\<close> column, an ISO string for a time.
\<close>

definition realm_pair :: "string \<Rightarrow> string \<Rightarrow> bool" where
  "realm_pair realm mark \<longleftrightarrow>
     realm = ''vendor-sandbox'' \<and> mark = ''SYNTHETIC'' \<or> realm = ''vendor-production'' \<and> mark = ''REAL''"

definition text_param :: "json \<Rightarrow> api_error + string" where
  "text_param v = (case v of JStr x \<Rightarrow> Inr x | JNull \<Rightarrow> Inl (Exc ''IntegrityError'' [''not null'']) | _ \<Rightarrow> Inl (Exc ''DBAPIError'' []))"

definition iso_param :: "(string \<Rightarrow> int option) \<Rightarrow> json \<Rightarrow> api_error + int" where
  "iso_param fromiso v = (case v of JStr x \<Rightarrow> read_iso fromiso x | _ \<Rightarrow> Inl (Exc ''TypeError'' []))"

definition store_vendor :: "string \<Rightarrow> vendor \<Rightarrow> ('f, int \<times> string) vendor_op" where
  "store_vendor key v =
     bind (of_sum (text_param (v_name v))) (\<lambda>name.
     then_db (guard (realm_pair (v_data_realm v) (v_watermark v)) (Exc ''IntegrityError'' [''vendors_check''])) (
     bind (gets (\<lambda>s. list_ex (\<lambda>(i, r). api_key r = key) (vendors s))) (\<lambda>used.
     then_db (guard (\<not> used) (Exc ''IntegrityError'' [''vendors_api_key_key''])) (
     bind (gets (\<lambda>s. next_id (vendors s))) (\<lambda>i.
     then_db (modify (\<lambda>s. s\<lparr>vendors := vendors s @ [(i,
        \<lparr>vr_data_realm = v_data_realm v, vr_watermark = v_watermark v, vr_name = name, vr_provider_type = provider_type v,
         vr_seed = v_seed v, api_key = key\<rparr>)]\<rparr>))
     (ret (i, key)))))))"

definition offer_row_of :: "(string \<Rightarrow> int option) \<Rightarrow> int \<Rightarrow> 'f offer \<Rightarrow> api_error + 'f offer_row" where
  "offer_row_of fromiso vid x =
     sum_bind (iso_param fromiso (o_valid_from x)) (\<lambda>vf.
     sum_bind (iso_param fromiso (o_valid_until x)) (\<lambda>vu.
     sum_bind (read_iso fromiso (o_observed_at x)) (\<lambda>ob.
     sum_bind (text_param (o_material x)) (\<lambda>m.
     sum_bind (text_param (o_currency x)) (\<lambda>c.
     sum_bind (text_param (o_uom x)) (\<lambda>u.
     Inr \<lparr>r_vendor_id = vid, r_data_realm = o_data_realm x, r_watermark = o_watermark x, r_material = m, r_price = o_price x,
       r_currency = c, r_vat_rate = o_vat_rate x, r_uom = u, r_uom_canonical_qty = o_uom_canonical_qty x, r_moq = o_moq x,
       r_capacity = o_capacity x, r_inventory = o_inventory x, r_valid_from = vf, r_valid_until = vu,
       r_evidence_source = o_evidence_source x, r_observed_at = ob, r_adverse_case = o_adverse_case x,
       r_executable_status = o_executable_status x\<rparr>))))))"

definition store_offer :: "(string \<Rightarrow> int option) \<Rightarrow> int \<Rightarrow> 'f offer \<Rightarrow> ('f, int) vendor_op" where
  "store_offer fromiso vid x =
     bind (of_sum (offer_row_of fromiso vid x)) (\<lambda>r.
     then_db (guard (realm_pair (o_data_realm x) (o_watermark x)) (Exc ''IntegrityError'' [''vendor_offers_check''])) (
     then_db (guard (o_executable_status x \<in> set EXECUTABLE_STATUS_TIERS)
        (Exc ''IntegrityError'' [''vendor_offers_executable_status_check''])) (
     bind (gets (\<lambda>s. vid \<in> fst ` set (vendors s))) (\<lambda>known.
     then_db (guard known (Exc ''IntegrityError'' [''vendor_offers_vendor_id_fkey''])) (
     bind (gets (\<lambda>s. next_id (vendor_offers s))) (\<lambda>i.
     then_db (modify (\<lambda>s. s\<lparr>vendor_offers := vendor_offers s @ [(i, r)]\<rparr>))
     (ret i)))))))"

definition list_offers_by_data_realm :: "'f vendor_db \<Rightarrow> string \<Rightarrow> (int \<times> 'f offer_row) list" where
  "list_offers_by_data_realm s realm = sort_key fst (filter (\<lambda>(i, r). r_data_realm r = realm) (vendor_offers s))"

definition get_vendor_id_by_api_key :: "'f vendor_db \<Rightarrow> string \<Rightarrow> int option" where
  "get_vendor_id_by_api_key s key = map_option fst (find (\<lambda>(i, r). api_key r = key) (vendors s))"

definition list_offers_by_vendor :: "'f vendor_db \<Rightarrow> int \<Rightarrow> (int \<times> 'f offer_row) list" where
  "list_offers_by_vendor s vid = sort_key fst (filter (\<lambda>(i, r). r_vendor_id r = vid) (vendor_offers s))"

text \<open>The join with \<open>vendors\<close> drops a row whose vendor is missing.\<close>

definition named_offers :: "'f vendor_db \<Rightarrow> string \<Rightarrow> int \<Rightarrow> (int \<times> string \<times> 'f offer_row) list" where
  "named_offers s realm after =
     List.map_filter (\<lambda>(i, r). map_option (\<lambda>v. (i, vr_name v, r)) (map_of (vendors s) (r_vendor_id r)))
       (filter (\<lambda>(i, r). after < i) (list_offers_by_data_realm s realm))"

definition list_offers_with_vendor_name_by_data_realm :: "'f vendor_db \<Rightarrow> string \<Rightarrow> int \<Rightarrow> int \<Rightarrow>
    api_error + (int \<times> string \<times> 'f offer_row) list" where
  "list_offers_with_vendor_name_by_data_realm s realm after limit = limit_rows (limit + 1) (named_offers s realm after)"

definition store_reputation_fact :: "(string \<Rightarrow> int option) \<Rightarrow> int \<Rightarrow> reputation_fact \<Rightarrow> ('f, int) vendor_op" where
  "store_reputation_fact fromiso vid f =
     bind (of_sum (read_iso fromiso (rf_observed_at f))) (\<lambda>ob.
     then_db (guard (realm_pair (rf_data_realm f) (rf_watermark f)) (Exc ''IntegrityError'' [''vendor_reputation_facts_check''])) (
     bind (gets (\<lambda>s. vid \<in> fst ` set (vendors s))) (\<lambda>known.
     then_db (guard known (Exc ''IntegrityError'' [''vendor_reputation_facts_vendor_id_fkey''])) (
     bind (gets (\<lambda>s. next_id (vendor_reputation_facts s))) (\<lambda>i.
     then_db (modify (\<lambda>s. s\<lparr>vendor_reputation_facts := vendor_reputation_facts s @ [(i,
        \<lparr>rr_vendor_id = vid, rr_data_realm = rf_data_realm f, rr_watermark = rf_watermark f, rr_event_type = event_type f,
         rr_project_ref = project_ref f, rr_source_ref = source_ref f, rr_observed_at = ob, rr_ttl_days = ttl_days f\<rparr>)]\<rparr>))
     (ret i))))))"

definition fact_active :: "int \<Rightarrow> reputation_row \<Rightarrow> bool" where
  "fact_active t r \<longleftrightarrow> t < rr_observed_at r + rr_ttl_days r * 86400"

definition list_active_reputation_facts :: "(string \<Rightarrow> int option) \<Rightarrow> 'f vendor_db \<Rightarrow> int \<Rightarrow> string \<Rightarrow>
    api_error + (int \<times> reputation_row) list" where
  "list_active_reputation_facts fromiso s vid as_of =
     sum_bind (read_iso fromiso as_of) (\<lambda>t.
     Inr (sort_key fst (filter (\<lambda>(i, r). rr_vendor_id r = vid \<and> fact_active t r) (vendor_reputation_facts s))))"

definition save_napkin_evidence :: "(string \<Rightarrow> string) \<Rightarrow> string \<Rightarrow> string \<Rightarrow> string \<Rightarrow> string \<Rightarrow> ('f, int) vendor_op" where
  "save_napkin_evidence sha kind raw mime cid =
     then_db (guard (kind \<in> {''photo'', ''voice''}) (Exc ''IntegrityError'' [''vendor_napkin_evidence_capture_kind_check''])) (
     bind (gets (\<lambda>s. next_id (napkin_evidence_table s))) (\<lambda>i.
     then_db (modify (\<lambda>s. s\<lparr>napkin_evidence_table := napkin_evidence_table s @ [(i,
        \<lparr>vn_capture_kind = kind, vn_mime_type = mime, vn_checksum = sha raw, vn_raw_bytes = raw, vn_correlation_id = cid\<rparr>)]\<rparr>))
     (ret i)))"

definition get_napkin_evidence :: "int \<Rightarrow> ('f, vendor_napkin_evidence) vendor_op" where
  "get_napkin_evidence i =
     bind (gets (\<lambda>s. map_of (napkin_evidence_table s) i)) (\<lambda>row.
     case row of None \<Rightarrow> raise (Exc ''NoResultFound'' []) | Some x \<Rightarrow> ret x)"

section \<open>Routes\<close>

definition get_current_vendor_id :: "string option \<Rightarrow> 'f vendor_db \<Rightarrow> api_error + int" where
  "get_current_vendor_id header s =
     (case header of
        None \<Rightarrow> Inl (ApiError 401 ''unauthenticated'' [])
      | Some key \<Rightarrow>
          (case get_vendor_id_by_api_key s key of
             None \<Rightarrow> Inl (ApiError 401 ''unauthenticated'' [])
           | Some vid \<Rightarrow> Inr vid))"

definition list_my_offers :: "string option \<Rightarrow> ('f, (int \<times> 'f offer_columns) list) vendor_op" where
  "list_my_offers header =
     transaction (
     bind (gets (get_current_vendor_id header)) (\<lambda>who.
     bind (of_sum who) (\<lambda>vid.
     gets (\<lambda>s. map (\<lambda>(i, r). (i, offer_columns.truncate r)) (list_offers_by_vendor s vid)))))"

record 'f internal_offer = "'f offer_row" +
  io_id :: int
  io_vendor_name :: string
  io_effective_status :: string
  io_positive :: bool
  io_negative :: bool

definition internal_offer_of :: "int \<Rightarrow> string \<Rightarrow> 'f offer_row \<Rightarrow> string \<Rightarrow> bool \<Rightarrow> bool \<Rightarrow> 'f internal_offer" where
  "internal_offer_of i name r eff pos neg = offer_row.extend r (internal_offer.fields i name eff pos neg)"

definition reputation_flags :: "(string \<Rightarrow> int option) \<Rightarrow> string \<Rightarrow> 'f vendor_db \<Rightarrow> int \<Rightarrow> api_error + bool \<times> bool" where
  "reputation_flags fromiso as_of s vid =
     sum_bind (list_active_reputation_facts fromiso s vid as_of) (\<lambda>facts.
     let event_types = remdups (map (\<lambda>(i, r). rr_event_type r) facts) in
     Inr (list_ex (\<lambda>t. t \<in> set POSITIVE_EVENT_TYPES) event_types, list_ex (\<lambda>t. t \<in> set NEGATIVE_EVENT_TYPES) event_types))"

text \<open>The loop over the page, with \<open>reputation_cache\<close> from one row to the next.\<close>

fun offer_items :: "(string \<Rightarrow> int option) \<Rightarrow> string \<Rightarrow> 'f vendor_db \<Rightarrow> (int \<rightharpoonup> bool \<times> bool) \<Rightarrow> (int \<times> string \<times> 'f offer_row) list \<Rightarrow>
    api_error + 'f internal_offer list" where
  "offer_items fromiso as_of s cache [] = Inr []"
| "offer_items fromiso as_of s cache ((i, name, r) # rows) =
     sum_bind (case cache (r_vendor_id r) of
         None \<Rightarrow> sum_bind (reputation_flags fromiso as_of s (r_vendor_id r)) (\<lambda>flags. Inr (cache(r_vendor_id r \<mapsto> flags), flags))
       | Some flags \<Rightarrow> Inr (cache, flags)) (\<lambda>(cache', pos, neg).
     sum_bind (effective_executable_status (r_executable_status r) neg) (\<lambda>eff.
     sum_bind (offer_items fromiso as_of s cache' rows) (\<lambda>items.
     Inr (internal_offer_of i name r eff pos neg # items))))"

definition list_internal_offers :: "(string \<Rightarrow> int option) \<Rightarrow> (int \<Rightarrow> string) \<Rightarrow> string \<Rightarrow> int \<Rightarrow> string option \<Rightarrow> int \<Rightarrow>
    ('f, 'f internal_offer list \<times> string option) vendor_op" where
  "list_internal_offers fromiso isof realm as_of cursor limit =
     transaction (
     bind (of_sum (after_cursor cursor)) (\<lambda>after.
     bind (gets (\<lambda>s. list_offers_with_vendor_name_by_data_realm s realm after limit)) (\<lambda>found.
     bind (of_sum found) (\<lambda>rows.
     bind (of_sum (page_of fst limit rows)) (\<lambda>(page, next).
     bind (gets (\<lambda>s. offer_items fromiso (isof as_of) s Map.empty page)) (\<lambda>built.
     bind (of_sum built) (\<lambda>items.
     ret (items, next))))))))"

record reputation_request =
  rq_vendor_id :: int
  rq_event_type :: string
  rq_project_ref :: string
  rq_source_ref :: string
  rq_observed_at :: string
  rq_ttl_days :: int

definition report_reputation_fact :: "(string \<Rightarrow> int option) \<Rightarrow> reputation_request \<Rightarrow> ('f, int) vendor_op" where
  "report_reputation_fact fromiso b =
     transaction (
     then_db (guard (rq_event_type b \<in> set REPUTATION_EVENT_TYPES) (ApiError 422 ''unknown_event_type'' [rq_event_type b])) (
     bind (of_sum (mk_reputation_fact
        \<lparr>rf_data_realm = ''vendor-sandbox'', rf_watermark = ''SYNTHETIC'', rf_vendor_name = [], event_type = rq_event_type b,
         project_ref = Some (rq_project_ref b), source_ref = rq_source_ref b, rf_observed_at = rq_observed_at b,
         ttl_days = rq_ttl_days b\<rparr>)) (\<lambda>f.
     store_reputation_fact fromiso (rq_vendor_id b) f)))"

record 'b http_response =
  status_code :: nat
  content :: 'b

type_synonym 'b http_get = "string \<Rightarrow> (string \<times> string) list \<Rightarrow> (string \<times> string) list \<Rightarrow> 'b http_response option"

text \<open>
  The application as the HTTP client sees it: \<open>fromiso\<close> also reads the query parameter \<open>as_of\<close>,
  \<open>render\<close> writes the body of an answer and \<open>failure\<close> that of an error.
\<close>

definition offer_service :: "(string \<Rightarrow> int option) \<Rightarrow> (int \<Rightarrow> string) \<Rightarrow> ('f internal_offer list \<times> string option \<Rightarrow> 'b) \<Rightarrow> 'b \<Rightarrow> string \<Rightarrow>
    'f vendor_db \<Rightarrow> 'b http_get" where
  "offer_service fromiso isof render failure base s url params headers =
     Some (if url \<noteq> base @ ''/internal/offers'' then \<lparr>status_code = 404, content = failure\<rparr>
      else case (map_of params ''data_realm'', map_option fromiso (map_of params ''as_of'')) of
        (Some realm, Some (Some t)) \<Rightarrow>
          (case fst (list_internal_offers fromiso isof realm t (map_of params ''cursor'') 100 s) of
             Inl (ApiError st code args) \<Rightarrow> \<lparr>status_code = st, content = failure\<rparr>
           | Inl (Exc cls args) \<Rightarrow> \<lparr>status_code = 500, content = failure\<rparr>
           | Inr page \<Rightarrow> \<lparr>status_code = 200, content = render page\<rparr>)
      | _ \<Rightarrow> \<lparr>status_code = 422, content = failure\<rparr>)"

section \<open>The client of the tender service\<close>

text \<open>
  \<open>get url params headers\<close> and \<open>post url body headers\<close> are the HTTP client (\<open>None\<close> is an
  \<open>httpx.HTTPError\<close>), \<open>decode\<close> is \<open>response.json()\<close> and \<open>validate\<close> is \<open>model_validate\<close> (\<open>None\<close> when they raise).
\<close>

definition call_headers :: "string option \<Rightarrow> string option \<Rightarrow> (string \<times> string) list" where
  "call_headers cid ambient =
     (case (if cid = None \<or> cid = Some [] then ambient else cid) of
        None \<Rightarrow> []
      | Some c \<Rightarrow> if c = [] then [] else [(''X-Correlation-Id'', c)])"

definition read_response :: "('b \<Rightarrow> 'j option) \<Rightarrow> ('j \<Rightarrow> 'p option) \<Rightarrow> 'b http_response option \<Rightarrow> api_error + 'p" where
  "read_response decode validate response =
     (case response of
        None \<Rightarrow> Inl (Exc ''VendorApiError'' [''unreachable''])
      | Some r \<Rightarrow>
          if status_code r \<noteq> 200 then Inl (Exc ''VendorApiError'' [''status'', str_int (int (status_code r))])
          else (case decode (content r) of
             None \<Rightarrow> Inl (Exc ''VendorApiError'' [''non-JSON''])
           | Some j \<Rightarrow> (case validate j of None \<Rightarrow> Inl (Exc ''VendorApiError'' [''contract'']) | Some p \<Rightarrow> Inr p)))"

definition ping_vendor_service :: "'b http_get \<Rightarrow> ('b \<Rightarrow> 'j option) \<Rightarrow> ('j \<Rightarrow> (string \<times> string) option) \<Rightarrow> string \<Rightarrow>
    string option \<Rightarrow> string option \<Rightarrow> api_error + string \<times> string" where
  "ping_vendor_service get decode validate base cid ambient =
     read_response decode validate (get (base @ ''/internal/ping'') [] (call_headers cid ambient))"

definition fetch_offers_page :: "'b http_get \<Rightarrow> ('b \<Rightarrow> 'j option) \<Rightarrow> ('j \<Rightarrow> ('x list \<times> string option) option) \<Rightarrow> string \<Rightarrow>
    string \<Rightarrow> string \<Rightarrow> (string \<times> string) list \<Rightarrow> string option \<Rightarrow> api_error + 'x list \<times> string option" where
  "fetch_offers_page get decode validate base realm as_of headers cursor =
     (let params = [(''data_realm'', realm), (''as_of'', as_of)] @ (case cursor of None \<Rightarrow> [] | Some c \<Rightarrow> [(''cursor'', c)]) in
      read_response decode validate (get (base @ ''/internal/offers'') params headers))"

text \<open>The \<open>while True\<close> loop; a service that always names a next page keeps it running (\<open>None\<close>).\<close>

partial_function (option) collect_offers :: "(string option \<Rightarrow> api_error + 'x list \<times> string option) \<Rightarrow> 'x list \<Rightarrow> string option \<Rightarrow>
    (api_error + 'x list) option" where
  "collect_offers fetch items cursor =
     (case fetch cursor of
        Inl e \<Rightarrow> Some (Inl e)
      | Inr page \<Rightarrow>
          (case snd page of
             None \<Rightarrow> Some (Inr (items @ fst page))
           | Some c \<Rightarrow> collect_offers fetch (items @ fst page) (Some c)))"

definition list_vendor_offers :: "'b http_get \<Rightarrow> ('b \<Rightarrow> 'j option) \<Rightarrow> ('j \<Rightarrow> ('x list \<times> string option) option) \<Rightarrow> string \<Rightarrow>
    string \<Rightarrow> string \<Rightarrow> string option \<Rightarrow> string option \<Rightarrow> (api_error + 'x list) option" where
  "list_vendor_offers get decode validate base realm as_of cid ambient =
     collect_offers (fetch_offers_page get decode validate base realm as_of (call_headers cid ambient)) [] None"

definition send_reputation_fact :: "(string \<Rightarrow> reputation_request \<Rightarrow> (string \<times> string) list \<Rightarrow> 'b http_response option) \<Rightarrow> string \<Rightarrow>
    reputation_request \<Rightarrow> string option \<Rightarrow> string option \<Rightarrow> api_error + unit" where
  "send_reputation_fact post base b cid ambient =
     (case post (base @ ''/internal/reputation-facts'') b (call_headers cid ambient) of
        None \<Rightarrow> Inl (Exc ''VendorApiError'' [''unreachable''])
      | Some r \<Rightarrow>
          if status_code r \<in> {200, 201} then Inr ()
          else Inl (Exc ''VendorApiError'' [''status'', str_int (int (status_code r))]))"

end
