(* ===== verification/Vendors_Theorems.thy ===== *)
theory Vendors_Theorems
  imports Vendors
begin

text \<open>
  The vendor service as a system of statements, what its tables always satisfy, and the two
  promises to its callers: a vendor reads its own offers and no others, and the client of the
  tender service collects every offer of a realm exactly once.
\<close>

section \<open>The service as a system\<close>

datatype 'f vendor_event =
    StoreVendor string vendor
  | StoreOffer "string \<Rightarrow> int option" int "'f offer"
  | StoreFact "string \<Rightarrow> int option" int reputation_fact
  | Report "string \<Rightarrow> int option" reputation_request
  | SaveNapkin "string \<Rightarrow> string" string string string string
  | ReadMine "string option"
  | ReadRealm "string \<Rightarrow> int option" "int \<Rightarrow> string" string int "string option" int

fun vendor_exec :: "'f vendor_event \<Rightarrow> ('f, unit) vendor_op" where
  "vendor_exec (StoreVendor key v) = bind (store_vendor key v) (\<lambda>_. ret ())"
| "vendor_exec (StoreOffer fromiso i x) = bind (store_offer fromiso i x) (\<lambda>_. ret ())"
| "vendor_exec (StoreFact fromiso i f) = bind (of_sum (mk_reputation_fact f)) (\<lambda>f. bind (store_reputation_fact fromiso i f) (\<lambda>_. ret ()))"
| "vendor_exec (Report fromiso b) = bind (report_reputation_fact fromiso b) (\<lambda>_. ret ())"
| "vendor_exec (SaveNapkin sha k raw m c) = bind (save_napkin_evidence sha k raw m c) (\<lambda>_. ret ())"
| "vendor_exec (ReadMine h) = bind (list_my_offers h) (\<lambda>_. ret ())"
| "vendor_exec (ReadRealm fromiso isof realm t c n) = bind (list_internal_offers fromiso isof realm t c n) (\<lambda>_. ret ())"

definition vendor_next :: "'f vendor_event \<Rightarrow> 'f vendor_db \<Rightarrow> 'f vendor_db" where
  "vendor_next e s = snd (transaction (vendor_exec e) s)"

inductive vendor_step :: "'f vendor_db \<Rightarrow> 'f vendor_db \<Rightarrow> bool" where
  "vendor_step s (vendor_next e s)"

definition vendor_start :: "'f vendor_db \<Rightarrow> bool" where
  "vendor_start s \<longleftrightarrow> vendors s = [] \<and> vendor_offers s = [] \<and> vendor_reputation_facts s = [] \<and> napkin_evidence_table s = []"

definition vendor_known :: "'f vendor_db \<Rightarrow> int \<Rightarrow> bool" where
  "vendor_known s i \<longleftrightarrow> i \<in> fst ` set (vendors s)"

definition offer_ok :: "'f vendor_db \<Rightarrow> 'f offer_row \<Rightarrow> bool" where
  "offer_ok s r \<longleftrightarrow> vendor_known s (r_vendor_id r) \<and> r_executable_status r \<in> set EXECUTABLE_STATUS_TIERS \<and>
     realm_pair (r_data_realm r) (r_watermark r)"

definition reputation_ok :: "'f vendor_db \<Rightarrow> reputation_row \<Rightarrow> bool" where
  "reputation_ok s f \<longleftrightarrow> vendor_known s (rr_vendor_id f) \<and> rr_event_type f \<in> set REPUTATION_EVENT_TYPES \<and>
     realm_pair (rr_data_realm f) (rr_watermark f)"

definition vendor_ok :: "'f vendor_db \<Rightarrow> bool" where
  "vendor_ok s \<longleftrightarrow> numbered (vendors s) \<and> numbered (vendor_offers s) \<and> numbered (vendor_reputation_facts s) \<and>
     numbered (napkin_evidence_table s) \<and> distinct (map (api_key \<circ> snd) (vendors s)) \<and>
     (\<forall>x \<in> set (vendor_offers s). offer_ok s (snd x)) \<and> (\<forall>x \<in> set (vendor_reputation_facts s). reputation_ok s (snd x))"

lemma mk_reputation_fact_Inr: "mk_reputation_fact f = Inr g \<longleftrightarrow> g = f \<and> event_type f \<in> set REPUTATION_EVENT_TYPES"
  by (auto simp: mk_reputation_fact_def sum_bind_Inr is_negative_event_def REPUTATION_EVENT_TYPES_def)

lemma offer_row_of_columns:
  assumes "offer_row_of fromiso vid x = Inr r"
  shows "r_vendor_id r = vid" "r_data_realm r = o_data_realm x" "r_watermark r = o_watermark x"
    "r_executable_status r = o_executable_status x"
  using assms by (auto simp: offer_row_of_def sum_bind_Inr)

lemma ok_other_table [simp]:
  "offer_ok (s\<lparr>vendor_offers := xs\<rparr>) r = offer_ok s r" "reputation_ok (s\<lparr>vendor_offers := xs\<rparr>) f = reputation_ok s f"
  "offer_ok (s\<lparr>vendor_reputation_facts := ys\<rparr>) r = offer_ok s r" "reputation_ok (s\<lparr>vendor_reputation_facts := ys\<rparr>) f = reputation_ok s f"
  "offer_ok (s\<lparr>napkin_evidence_table := zs\<rparr>) r = offer_ok s r" "reputation_ok (s\<lparr>napkin_evidence_table := zs\<rparr>) f = reputation_ok s f"
  by (simp_all add: offer_ok_def reputation_ok_def vendor_known_def)

lemma ok_more_vendors [simp]: "offer_ok s r \<Longrightarrow> offer_ok (s\<lparr>vendors := vendors s @ vs\<rparr>) r"
  "reputation_ok s f \<Longrightarrow> reputation_ok (s\<lparr>vendors := vendors s @ vs\<rparr>) f"
  by (auto simp: offer_ok_def reputation_ok_def vendor_known_def)

lemma store_vendor_Inr:
  assumes "store_vendor key v s = (Inr x, t)"
  obtains r where "t = s\<lparr>vendors := vendors s @ [(next_id (vendors s), r)]\<rparr>" "api_key r = key" "x = (next_id (vendors s), key)"
    "key \<notin> set (map (api_key \<circ> snd) (vendors s))"
  using assms by (force simp: store_vendor_def bind_Inr then_db_Inr list_ex_iff split: if_splits)

lemma store_offer_Inr:
  assumes "store_offer fromiso i x s = (Inr k, t)"
  obtains r where "t = s\<lparr>vendor_offers := vendor_offers s @ [(next_id (vendor_offers s), r)]\<rparr>" "offer_ok s r"
    "offer_row_of fromiso i x = Inr r"
proof -
  from assms obtain r where r: "offer_row_of fromiso i x = Inr r" and g: "realm_pair (o_data_realm x) (o_watermark x)"
    "o_executable_status x \<in> set EXECUTABLE_STATUS_TIERS" "vendor_known s i"
    "t = s\<lparr>vendor_offers := vendor_offers s @ [(next_id (vendor_offers s), r)]\<rparr>"
    unfolding vendor_known_def by (simp add: store_offer_def bind_Inr then_db_Inr) (metis old.sum.distinct(1) old.prod.inject)
  then have "offer_ok s r" by (simp add: offer_ok_def offer_row_of_columns[OF r])
  with r g show thesis by (intro that)
qed

lemma store_reputation_fact_Inr:
  assumes "store_reputation_fact fromiso i f s = (Inr k, t)" "event_type f \<in> set REPUTATION_EVENT_TYPES"
  obtains r where "t = s\<lparr>vendor_reputation_facts := vendor_reputation_facts s @ [(next_id (vendor_reputation_facts s), r)]\<rparr>"
    "reputation_ok s r"
proof -
  from assms obtain ob r where g: "realm_pair (rf_data_realm f) (rf_watermark f)" "vendor_known s i"
    "t = s\<lparr>vendor_reputation_facts := vendor_reputation_facts s @ [(next_id (vendor_reputation_facts s), r)]\<rparr>"
    and r: "r = \<lparr>rr_vendor_id = i, rr_data_realm = rf_data_realm f, rr_watermark = rf_watermark f, rr_event_type = event_type f,
      rr_project_ref = project_ref f, rr_source_ref = source_ref f, rr_observed_at = ob, rr_ttl_days = ttl_days f\<rparr>"
    unfolding vendor_known_def
    by (simp add: store_reputation_fact_def bind_Inr then_db_Inr) (metis old.sum.distinct(1) old.prod.inject)
  show thesis by (rule that[OF g(3)]) (use assms(2) g r in \<open>simp add: reputation_ok_def\<close>)
qed

lemma vendor_ok_rows:
  "vendor_ok s \<Longrightarrow> api_key v \<notin> set (map (api_key \<circ> snd) (vendors s)) \<Longrightarrow> vendor_ok (s\<lparr>vendors := vendors s @ [(next_id (vendors s), v)]\<rparr>)"
  "vendor_ok s \<Longrightarrow> offer_ok s r \<Longrightarrow> vendor_ok (s\<lparr>vendor_offers := vendor_offers s @ [(next_id (vendor_offers s), r)]\<rparr>)"
  "vendor_ok s \<Longrightarrow> reputation_ok s f \<Longrightarrow>
     vendor_ok (s\<lparr>vendor_reputation_facts := vendor_reputation_facts s @ [(next_id (vendor_reputation_facts s), f)]\<rparr>)"
  "vendor_ok s \<Longrightarrow> vendor_ok (s\<lparr>napkin_evidence_table := napkin_evidence_table s @ [(next_id (napkin_evidence_table s), n)]\<rparr>)"
  by (simp_all add: vendor_ok_def)

lemma save_napkin_evidence_ok: "vendor_ok s \<Longrightarrow> save_napkin_evidence sha k raw m c s = (Inr i, t) \<Longrightarrow> vendor_ok t"
  by (auto simp: save_napkin_evidence_def bind_Inr then_db_Inr split: if_splits intro: vendor_ok_rows(4))

lemma vendor_reads:
  "list_my_offers h s = (Inr x, t) \<Longrightarrow> t = s"
  "list_internal_offers fromiso isof realm as_of c n s = (Inr y, t) \<Longrightarrow> t = s"
  by (auto simp: list_my_offers_def list_internal_offers_def bind_Inr split: prod.splits)

lemma store_fact_ok:
  "vendor_ok s \<Longrightarrow> mk_reputation_fact f = Inr g \<Longrightarrow> store_reputation_fact fromiso i g s = (Inr k, t) \<Longrightarrow> vendor_ok t"
  by (auto simp: mk_reputation_fact_Inr elim!: store_reputation_fact_Inr intro: vendor_ok_rows(3))

lemma vendor_exec_ok:
  assumes "vendor_ok s" "vendor_exec e s = (Inr x, t)"
  shows "vendor_ok t"
proof (cases e)
  case (StoreVendor key v)
  with assms show ?thesis by (auto simp: bind_Inr elim!: store_vendor_Inr intro: vendor_ok_rows(1))
next
  case (StoreOffer fromiso i x)
  with assms show ?thesis by (auto simp: bind_Inr elim!: store_offer_Inr intro: vendor_ok_rows(2))
next
  case (StoreFact fromiso i f)
  with assms show ?thesis by (auto simp: bind_Inr intro: store_fact_ok)
next
  case (Report fromiso b)
  with assms obtain k where "report_reputation_fact fromiso b s = (Inr k, t)" by (auto simp: bind_Inr)
  then obtain f g where "mk_reputation_fact f = Inr g" "store_reputation_fact fromiso (rq_vendor_id b) g s = (Inr k, t)"
    unfolding report_reputation_fact_def transaction_Inr then_db_Inr bind_Inr guard_Inr of_sum_Inr by blast
  then show ?thesis by (rule store_fact_ok[OF assms(1)])
next
  case (SaveNapkin sha k raw m c)
  with assms show ?thesis by (auto simp: bind_Inr intro: save_napkin_evidence_ok)
qed (use assms in \<open>auto simp: bind_Inr dest: vendor_reads\<close>)

interpretation vendor_tables: invariant_system vendor_start vendor_step vendor_ok
proof
  show "vendor_start s \<Longrightarrow> vendor_ok s" for s :: "'f vendor_db" by (simp add: vendor_start_def vendor_ok_def)
  show "vendor_ok t" if "vendor_ok s" "vendor_step s t" for s t :: "'f vendor_db"
    using that(2)
  proof cases
    case (1 e)
    show ?thesis unfolding 1 vendor_next_def by (rule after_transaction[where P = vendor_ok, OF that(1)]) (rule vendor_exec_ok[OF that(1)])
  qed
qed

section \<open>A vendor and its offers\<close>

lemma key_owner:
  assumes "vendor_ok s"
  shows "get_vendor_id_by_api_key s key = Some i \<longleftrightarrow> (\<exists>r. (i, r) \<in> set (vendors s) \<and> api_key r = key)"
proof
  assume "get_vendor_id_by_api_key s key = Some i"
  then show "\<exists>r. (i, r) \<in> set (vendors s) \<and> api_key r = key"
    by (auto simp: get_vendor_id_by_api_key_def dest!: find_SomeD)
next
  assume "\<exists>r. (i, r) \<in> set (vendors s) \<and> api_key r = key"
  then obtain r where r: "(i, r) \<in> set (vendors s)" "api_key r = key" by auto
  then obtain x where x: "find (\<lambda>(i, r). api_key r = key) (vendors s) = Some x"
    by (cases "find (\<lambda>(i, r). api_key r = key) (vendors s)") (auto simp: find_None_iff)
  have "inj_on (api_key \<circ> snd) (set (vendors s))" using assms by (simp add: vendor_ok_def distinct_map)
  from inj_onD[OF this, of x "(i, r)"] find_SomeD[OF x] r have "x = (i, r)" by (cases x) auto
  with x show "get_vendor_id_by_api_key s key = Some i" by (simp add: get_vendor_id_by_api_key_def)
qed

lemma list_my_offers_Inr:
  assumes "vendor_ok s"
  shows "list_my_offers (Some key) s = (Inr items, t) \<longleftrightarrow> t = s \<and> (\<exists>i r. (i, r) \<in> set (vendors s) \<and> api_key r = key \<and>
    items = map (\<lambda>(j, x). (j, offer_columns.truncate x)) (list_offers_by_vendor s i))"
proof -
  have "list_my_offers (Some key) s = (Inr items, t) \<longleftrightarrow> t = s \<and> (\<exists>i. get_vendor_id_by_api_key s key = Some i \<and>
    items = map (\<lambda>(j, x). (j, offer_columns.truncate x)) (list_offers_by_vendor s i))"
    by (auto simp: list_my_offers_def bind_Inr get_current_vendor_id_def split: option.splits)
  then show ?thesis unfolding key_owner[OF assms] by blast
qed

lemma vendor_offers_unique: "vendor_ok s \<Longrightarrow> (j, x) \<in> set (vendor_offers s) \<Longrightarrow> (j, y) \<in> set (vendor_offers s) \<Longrightarrow> x = y"
  by (auto simp: vendor_ok_def dest!: numbered_distinct intro: eq_key_imp_eq_value)

lemma sorted_offers:
  assumes "vendor_ok s"
  shows "sorted_wrt (<) (map fst (sort_key fst (filter p (vendor_offers s))))"
proof -
  have "distinct (map fst (vendor_offers s))" using assms by (simp add: vendor_ok_def numbered_distinct)
  then show ?thesis by (intro sorted_ids distinct_map_filter)
qed

text \<open>
  C36. A vendor reads its own offers: when the route answers, the header is the API key of a stored
  vendor and the answer holds exactly the offers of that vendor, by increasing id. Two different
  keys never read the same offer.
\<close>

theorem vendor_reads_own_offers:
  assumes "reachable vendor_start vendor_step s" "list_my_offers (Some key) s = (Inr items, t)"
  shows "t = s \<and> (\<exists>i r. (i, r) \<in> set (vendors s) \<and> api_key r = key \<and>
      set items = {(j, offer_columns.truncate x) | j x. (j, x) \<in> set (vendor_offers s) \<and> r_vendor_id x = i} \<and>
      sorted_wrt (<) (map fst items)) \<and>
    (\<forall>key' items' u. key' \<noteq> key \<longrightarrow> list_my_offers (Some key') s = (Inr items', u) \<longrightarrow> fst ` set items \<inter> fst ` set items' = {})"
proof -
  have ok: "vendor_ok s" by (rule vendor_tables.reachable_inv[OF assms(1)])
  note mine = list_my_offers_Inr[OF ok]
  from assms(2) obtain i r where i: "t = s" "(i, r) \<in> set (vendors s)" "api_key r = key"
    and items: "items = map (\<lambda>(j, x). (j, offer_columns.truncate x)) (list_offers_by_vendor s i)" unfolding mine by blast
  have mem: "set items = {(j, offer_columns.truncate x) | j x. (j, x) \<in> set (vendor_offers s) \<and> r_vendor_id x = i}"
    by (auto simp: items list_offers_by_vendor_def image_iff)
  have "map fst items = map fst (list_offers_by_vendor s i)" by (auto simp: items)
  then have srt: "sorted_wrt (<) (map fst items)" using sorted_offers[OF ok] by (simp add: list_offers_by_vendor_def)
  have "fst ` set items \<inter> fst ` set items' = {}" if "key' \<noteq> key" "list_my_offers (Some key') s = (Inr items', u)" for key' items' u
  proof -
    from that(2) obtain k q where k: "(k, q) \<in> set (vendors s)" "api_key q = key'"
      "items' = map (\<lambda>(j, x). (j, offer_columns.truncate x)) (list_offers_by_vendor s k)" unfolding mine by blast
    have "numbered (vendors s)" using ok by (simp add: vendor_ok_def)
    then have ne: "i \<noteq> k" using i(2,3) k(1,2) that(1) eq_key_imp_eq_value[OF numbered_distinct] by metis
    have owner: "r_vendor_id x = v" if "(j, x) \<in> set (vendor_offers s)" "j \<in> fst ` set (list_offers_by_vendor s v)" for j x v
    proof -
      from that(2) obtain y where "(j, y) \<in> set (vendor_offers s)" "r_vendor_id y = v" by (auto simp: list_offers_by_vendor_def)
      with vendor_offers_unique[OF ok that(1)] show ?thesis by blast
    qed
    have sub: "fst ` set (list_offers_by_vendor s v) \<subseteq> fst ` set (vendor_offers s)" for v by (auto simp: list_offers_by_vendor_def)
    have "fst ` set (list_offers_by_vendor s i) \<inter> fst ` set (list_offers_by_vendor s k) = {}"
    proof (rule equals0I, elim IntE)
      fix j assume j: "j \<in> fst ` set (list_offers_by_vendor s i)" "j \<in> fst ` set (list_offers_by_vendor s k)"
      with sub[of i] obtain x where "(j, x) \<in> set (vendor_offers s)" by fastforce
      from owner[OF this j(1)] owner[OF this j(2)] ne show False by simp
    qed
    moreover have "fst ` set (map (\<lambda>(j, x). (j, offer_columns.truncate x)) ys) = fst ` set ys" for ys :: "(int \<times> 'a offer_row) list"
      by force
    ultimately show ?thesis unfolding k(3) items by simp
  qed
  with i mem srt show ?thesis by blast
qed

section \<open>The offers of a realm\<close>

text \<open>What an item of the internal listing says, without the cache.\<close>

definition has_fact :: "'f vendor_db \<Rightarrow> int \<Rightarrow> int \<Rightarrow> string list \<Rightarrow> bool" where
  "has_fact s t vid types \<longleftrightarrow>
     list_ex (\<lambda>(j, f). rr_vendor_id f = vid \<and> fact_active t f \<and> rr_event_type f \<in> set types) (vendor_reputation_facts s)"

definition weaker :: "string \<Rightarrow> string" where
  "weaker st = (if st = ''reserved'' then ''confirmed'' else if st = ''confirmed'' then ''reported'' else ''unknown'')"

definition vendor_name_of :: "'f vendor_db \<Rightarrow> int \<Rightarrow> string" where
  "vendor_name_of s vid = (case map_of (vendors s) vid of None \<Rightarrow> [] | Some v \<Rightarrow> vr_name v)"

definition offer_view :: "'f vendor_db \<Rightarrow> int \<Rightarrow> int \<times> 'f offer_row \<Rightarrow> 'f internal_offer" where
  "offer_view s t x =
     (let r = snd x; neg = has_fact s t (r_vendor_id r) NEGATIVE_EVENT_TYPES in
      internal_offer_of (fst x) (vendor_name_of s (r_vendor_id r)) r
        (if neg then weaker (r_executable_status r) else r_executable_status r)
        (has_fact s t (r_vendor_id r) POSITIVE_EVENT_TYPES) neg)"

lemma internal_offer_id [simp]: "io_id (internal_offer_of i n r e p q) = i"
  by (simp add: internal_offer_of_def offer_row.defs internal_offer.defs)

lemma offer_view_id [simp]: "io_id (offer_view s t x) = fst x"
  by (simp add: offer_view_def Let_def)

lemma effective_status:
  "st \<in> set EXECUTABLE_STATUS_TIERS \<Longrightarrow> effective_executable_status st neg = Inr (if neg then weaker st else st)"
  by (auto simp: effective_executable_status_def is_valid_executable_status_def sum_bind_def EXECUTABLE_STATUS_TIERS_def weaker_def)

lemma reputation_flags_eq:
  "fromiso as_of = Some t \<Longrightarrow> reputation_flags fromiso as_of s vid =
     Inr (has_fact s t vid POSITIVE_EVENT_TYPES, has_fact s t vid NEGATIVE_EVENT_TYPES)"
  by (auto simp: reputation_flags_def list_active_reputation_facts_def read_iso_def sum_bind_def Let_def has_fact_def list_ex_iff
      split: prod.splits)

lemma offer_items_view:
  assumes t: "fromiso as_of = Some t"
    and "\<And>v f. cache v = Some f \<Longrightarrow> f = (has_fact s t v POSITIVE_EVENT_TYPES, has_fact s t v NEGATIVE_EVENT_TYPES)"
    and "\<And>x. x \<in> set xs \<Longrightarrow> r_executable_status (snd x) \<in> set EXECUTABLE_STATUS_TIERS"
  shows "offer_items fromiso as_of s cache (map (\<lambda>x. (fst x, vendor_name_of s (r_vendor_id (snd x)), snd x)) xs) =
    Inr (map (offer_view s t) xs)"
  using assms(2,3)
proof (induction xs arbitrary: cache)
  case (Cons x xs)
  let ?v = "r_vendor_id (snd x)"
  let ?f = "(has_fact s t ?v POSITIVE_EVENT_TYPES, has_fact s t ?v NEGATIVE_EVENT_TYPES)"
  obtain cache' where c: "(case cache ?v of
      None \<Rightarrow> sum_bind (reputation_flags fromiso as_of s ?v) (\<lambda>flags. Inr (cache(?v \<mapsto> flags), flags))
    | Some flags \<Rightarrow> Inr (cache, flags)) = Inr (cache', ?f)"
    and ok: "\<And>v f. cache' v = Some f \<Longrightarrow> f = (has_fact s t v POSITIVE_EVENT_TYPES, has_fact s t v NEGATIVE_EVENT_TYPES)"
  proof (cases "cache ?v")
    case None
    then show thesis using Cons.prems(1)
      by (intro that[of "cache(?v \<mapsto> ?f)"]) (auto simp: reputation_flags_eq[of fromiso, OF t] sum_bind_def split: if_splits)
  next
    case (Some f)
    with Cons.prems(1) show thesis by (intro that[of cache]) auto
  qed
  have "offer_items fromiso as_of s cache' (map (\<lambda>x. (fst x, vendor_name_of s (r_vendor_id (snd x)), snd x)) xs) =
    Inr (map (offer_view s t) xs)" using Cons.prems(2) by (intro Cons.IH ok) auto
  with Cons.prems(2)[of x] c show ?case
    by (simp add: sum_bind_def effective_status offer_view_def Let_def)
qed simp

lemma named_offers_eq:
  assumes "vendor_ok s"
  shows "named_offers s realm a =
    map (\<lambda>x. (fst x, vendor_name_of s (r_vendor_id (snd x)), snd x)) (filter (\<lambda>x. a < fst x) (list_offers_by_data_realm s realm))"
proof -
  have known: "map_of (vendors s) (r_vendor_id r) \<noteq> None" if "(i, r) \<in> set (vendor_offers s)" for i r
  proof -
    have "offer_ok s r" using that assms by (auto simp: vendor_ok_def)
    then show ?thesis unfolding offer_ok_def vendor_known_def map_of_eq_None_iff by simp
  qed
  have "List.map_filter (\<lambda>(i, r). map_option (\<lambda>v. (i, vr_name v, r)) (map_of (vendors s) (r_vendor_id r))) xs =
      map (\<lambda>x. (fst x, vendor_name_of s (r_vendor_id (snd x)), snd x)) xs" if "set xs \<subseteq> set (vendor_offers s)" for xs
    using that by (induction xs) (auto simp: List.map_filter_simps vendor_name_of_def split: option.split dest: known)
  then show ?thesis by (auto simp: named_offers_def list_offers_by_data_realm_def case_prod_unfold)
qed

lemma cursor_page_map: "cursor_page key n (map f xs) = map_prod (map f) id (cursor_page (key \<circ> f) n xs)" if "0 < n"
proof -
  have "take n xs \<noteq> []" if "\<not> length xs \<le> n" using that \<open>0 < n\<close> by auto
  then show ?thesis by (auto simp: cursor_page_def take_map last_map)
qed

lemma cursor_page_subset: "set (fst (cursor_page key n xs)) \<subseteq> set xs"
  by (auto simp: cursor_page_def dest: in_set_takeD)

lemma list_internal_offers_page:
  assumes ok: "vendor_ok s" and t: "fromiso (isof t) = Some t" and limit: "1 \<le> limit" and cur: "points_at cur a"
  shows "fst (list_internal_offers fromiso isof realm t cur limit s) =
    Inr (cursor_page io_id (nat limit) (filter (\<lambda>r. a < io_id r) (map (offer_view s t) (list_offers_by_data_realm s realm))))"
proof -
  let ?xs = "filter (\<lambda>x. a < fst x) (list_offers_by_data_realm s realm)"
  let ?n = "\<lambda>x. (fst x, vendor_name_of s (r_vendor_id (snd x)), snd x)"
  obtain page nx where p: "cursor_page fst (nat limit) ?xs = (page, nx)" by fastforce
  have n: "cursor_page fst (nat limit) (map ?n ?xs) = (map ?n page, nx)"
    using limit p by (simp add: cursor_page_map comp_def)
  obtain rows where rows: "limit_rows (limit + 1) (map ?n ?xs) = Inr rows" "page_of fst limit rows = Inr (map ?n page, nx)"
    using limited_page[OF limit, of "map ?n ?xs" fst] n by (auto simp: sum_bind_Inr)
  have "r_executable_status (snd x) \<in> set EXECUTABLE_STATUS_TIERS" if "x \<in> set page" for x
  proof -
    have "x \<in> set (vendor_offers s)"
      using cursor_page_subset[of fst "nat limit" ?xs] p that by (auto simp: list_offers_by_data_realm_def)
    with ok show ?thesis by (auto simp: vendor_ok_def offer_ok_def)
  qed
  then have items: "offer_items fromiso (isof t) s Map.empty (map ?n page) = Inr (map (offer_view s t) page)"
    by (intro offer_items_view[where fromiso = fromiso, OF t]) auto
  have "filter (\<lambda>r. a < io_id r) (map (offer_view s t) (list_offers_by_data_realm s realm)) = map (offer_view s t) ?xs"
    by (simp add: filter_map comp_def)
  moreover have "cursor_page io_id (nat limit) (map (offer_view s t) ?xs) = (map (offer_view s t) page, nx)"
    using limit p by (simp add: cursor_page_map comp_def)
  moreover have "fst (list_internal_offers fromiso isof realm t cur limit s) = Inr (map (offer_view s t) page, nx)"
    using rows items by (simp add: list_internal_offers_def list_offers_with_vendor_name_by_data_realm_def transaction_def bind_eq
        of_sum_def after_cursor_points[OF cur] named_offers_eq[OF ok])
  ultimately show ?thesis by simp
qed

interpretation offer_listing: cursor_listing
  "\<lambda>(s, fromiso, isof, realm, t, limit). vendor_ok s \<and> fromiso (isof t) = Some t \<and> 1 \<le> limit"
  "\<lambda>(s, fromiso, isof, realm, t, limit). map (offer_view s t) (list_offers_by_data_realm s realm)"
  io_id
  "\<lambda>(s, fromiso, isof, realm, t, limit). nat limit"
  "\<lambda>(s, fromiso, isof, realm, t, limit) cur. fst (list_internal_offers fromiso isof realm t cur limit s)"
proof (unfold_locales, goal_cases)
  case (1 x)
  then show ?case by (auto simp: list_offers_by_data_realm_def comp_def sorted_offers)
next
  case (2 x r)
  have "0 < i" if "vendor_ok s" "(i, q) \<in> set (vendor_offers s)" for i q and s :: "'f vendor_db"
  proof -
    have "i \<in> fst ` set (vendor_offers s)" using that(2) by force
    with that(1) show ?thesis by (simp add: vendor_ok_def numbered_ids)
  qed
  with 2 show ?case by (auto simp: list_offers_by_data_realm_def)
next
  case (4 x cur a)
  then show ?case by (cases x) (simp add: list_internal_offers_page)
qed auto

section \<open>The client\<close>

lemma follow_cursors_mono:
  assumes "\<And>cur p. fetch cur = Inr p \<Longrightarrow> fetch' cur = Inr p"
  shows "follow_cursors fetch n cur = Some rows \<Longrightarrow> follow_cursors fetch' n cur = Some rows"
  by (induction n arbitrary: cur rows) (auto simp: assms split: sum.splits prod.splits option.splits)

lemma collect_follows:
  "follow_cursors fetch n cur = Some rows \<Longrightarrow> collect_offers fetch acc cur = Some (Inr (acc @ rows))"
proof (induction n arbitrary: cur rows acc)
  case (Suc n)
  then show ?case
    by (subst collect_offers.simps) (auto split: sum.splits prod.splits option.splits)
qed simp

text \<open>
  C35. The client of the tender service returns, and what it returns is the whole realm: for every
  reachable state of the vendor service, following the cursors of the internal listing gives each
  offer of the realm exactly once, by id, with the name of its vendor, its reputation flags from
  the facts that are active at the time asked for, and its status lowered by one tier when a
  negative fact is among them. The service is fixed while the client reads; the framework is
  assumed to read back the times and bodies it wrote.
\<close>

theorem vendor_client_gets_all_offers:
  assumes "reachable vendor_start vendor_step s"
    and "fromiso as_of = Some t" "fromiso (isof t) = Some t"
    and "\<And>p. \<exists>j. decode (render p) = Some j \<and> validate j = Some p"
  shows "list_vendor_offers (offer_service fromiso isof render failure base s) decode validate base realm as_of cid ambient =
    Some (Inr (map (offer_view s t) (list_offers_by_data_realm s realm)))"
proof -
  have ok: "vendor_ok s" by (rule vendor_tables.reachable_inv[OF assms(1)])
  let ?fetch = "fetch_offers_page (offer_service fromiso isof render failure base s) decode validate base realm as_of (call_headers cid ambient)"
  let ?rows = "map (offer_view s t) (list_offers_by_data_realm s realm)"
  have "?fetch cur = Inr p" if p: "fst (list_internal_offers fromiso isof realm t cur 100 s) = Inr p" for cur p
  proof -
    obtain j where "decode (render p) = Some j" "validate j = Some p" using assms(4) by blast
    with p assms(2) show ?thesis
      by (cases cur) (simp_all add: fetch_offers_page_def read_response_def offer_service_def Let_def)
  qed
  moreover have "follow_cursors (\<lambda>cur. fst (list_internal_offers fromiso isof realm t cur 100 s)) (Suc (length ?rows)) None = Some ?rows"
    using offer_listing.follow_all[of "(s, fromiso, isof, realm, t, 100)"] ok assms(3) by (simp del: follow_cursors.simps)
  ultimately have "follow_cursors ?fetch (Suc (length ?rows)) None = Some ?rows" by (rule follow_cursors_mono)
  from collect_follows[OF this, of "[]"] show ?thesis by (simp add: list_vendor_offers_def)
qed

section \<open>An example\<close>

definition empty_vendors :: "'f vendor_db" where
  "empty_vendors = \<lparr>vendors = [], vendor_offers = [], vendor_reputation_facts = [], napkin_evidence_table = []\<rparr>"

definition vendors_after :: "'f vendor_event list \<Rightarrow> 'f vendor_db" where
  "vendors_after es = foldl (\<lambda>s e. vendor_next e s) empty_vendors es"

lemma vendors_after_reachable: "reachable vendor_start vendor_step (vendors_after es)"
proof (induction es rule: rev_induct)
  case Nil
  show ?case by (rule reachable.initially) (simp add: vendors_after_def empty_vendors_def vendor_start_def)
next
  case (snoc e es)
  have "vendors_after (es @ [e]) = vendor_next e (vendors_after es)" by (simp add: vendors_after_def)
  with reachable.stepwise[OF snoc vendor_step.intros] show ?case by metis
qed

definition demo_iso :: "string \<Rightarrow> int option" where
  "demo_iso x = (if x = ''day1'' then Some 86400 else if x = ''day2'' then Some 172800 else None)"

definition demo_isof :: "int \<Rightarrow> string" where
  "demo_isof t = (if t = 86400 then ''day1'' else ''day2'')"

definition demo_vendor :: "string \<Rightarrow> vendor" where
  "demo_vendor n = \<lparr>v_data_realm = ''vendor-sandbox'', v_watermark = ''SYNTHETIC'', v_name = JStr n, provider_type = ''csv'', v_seed = None\<rparr>"

definition demo_offer :: "string \<Rightarrow> int offer" where
  "demo_offer m = \<lparr>o_vendor_name = JNull, o_data_realm = ''vendor-sandbox'', o_watermark = ''SYNTHETIC'', o_material = JStr m,
     o_price = 850, o_currency = JStr ''AZN'', o_vat_rate = 18, o_uom = JStr ''ton'', o_uom_canonical_qty = 1, o_moq = 5,
     o_capacity = 200, o_inventory = 150, o_valid_from = JStr ''day1'', o_valid_until = JStr ''day2'', o_evidence_source = ''csv-upload'',
     o_observed_at = ''day1'', o_adverse_case = None, o_executable_status = ''reserved''\<rparr>"

definition demo_vendors :: "int vendor_db" where
  "demo_vendors = vendors_after
     [StoreVendor ''k1'' (demo_vendor ''Rebar''), StoreVendor ''k2'' (demo_vendor ''Cement''),
      StoreOffer demo_iso 1 (demo_offer ''rebar''), StoreOffer demo_iso 2 (demo_offer ''cement''),
      Report demo_iso \<lparr>rq_vendor_id = 1, rq_event_type = ''missed_deadline'', rq_project_ref = ''p'', rq_source_ref = ''s'',
        rq_observed_at = ''day1'', rq_ttl_days = 30\<rparr>]"

theorem vendor_client_gets_all_offers_witness:
  "list_vendor_offers (offer_service demo_iso demo_isof id ([], None) ''http://v'' demo_vendors) Some Some ''http://v''
      ''vendor-sandbox'' ''day2'' None None =
     Some (Inr (map (offer_view demo_vendors 172800) (list_offers_by_data_realm demo_vendors ''vendor-sandbox''))) \<and>
   map (\<lambda>x. (io_vendor_name x, r_executable_status x, io_effective_status x))
       (map (offer_view demo_vendors 172800) (list_offers_by_data_realm demo_vendors ''vendor-sandbox'')) =
     [(''Rebar'', ''reserved'', ''confirmed''), (''Cement'', ''reserved'', ''reserved'')]"
proof
  have "reachable vendor_start vendor_step demo_vendors" unfolding demo_vendors_def by (rule vendors_after_reachable)
  then show "list_vendor_offers (offer_service demo_iso demo_isof id ([], None) ''http://v'' demo_vendors) Some Some ''http://v''
      ''vendor-sandbox'' ''day2'' None None =
     Some (Inr (map (offer_view demo_vendors 172800) (list_offers_by_data_realm demo_vendors ''vendor-sandbox'')))"
    by (rule vendor_client_gets_all_offers) (simp_all add: demo_iso_def demo_isof_def)
  show "map (\<lambda>x. (io_vendor_name x, r_executable_status x, io_effective_status x))
       (map (offer_view demo_vendors 172800) (list_offers_by_data_realm demo_vendors ''vendor-sandbox'')) =
     [(''Rebar'', ''reserved'', ''confirmed''), (''Cement'', ''reserved'', ''reserved'')]"
    by code_simp
qed

theorem vendor_reads_own_offers_witness:
  "\<exists>items. list_my_offers (Some ''k1'') demo_vendors = (Inr items, demo_vendors) \<and> map fst items = [1] \<and>
     (\<exists>i r. (i, r) \<in> set (vendors demo_vendors) \<and> api_key r = ''k1'' \<and>
      set items = {(j, offer_columns.truncate x) | j x. (j, x) \<in> set (vendor_offers demo_vendors) \<and> r_vendor_id x = i})"
proof -
  have r: "reachable vendor_start vendor_step demo_vendors" unfolding demo_vendors_def by (rule vendors_after_reachable)
  obtain x t where x: "list_my_offers (Some ''k1'') demo_vendors = (x, t)" by (rule prod.exhaust)
  have "(case list_my_offers (Some ''k1'') demo_vendors of (Inr items, t) \<Rightarrow> map fst items = [1] | _ \<Rightarrow> False)" by code_simp
  then obtain items where i: "x = Inr items" "map fst items = [1]" unfolding x by (cases x) simp_all
  note mine = vendor_reads_own_offers[OF r x[unfolded i(1)]]
  have l: "list_my_offers (Some ''k1'') demo_vendors = (Inr items, demo_vendors)" unfolding x i(1) conjunct1[OF mine] ..
  from conjunct1[OF conjunct2[OF mine]] obtain v r where v: "(v, r) \<in> set (vendors demo_vendors)" "api_key r = ''k1''"
    "set items = {(j, offer_columns.truncate x) | j x. (j, x) \<in> set (vendor_offers demo_vendors) \<and> r_vendor_id x = v}"
    by (elim exE conjE)
  show ?thesis by (intro exI[of _ items] exI[of _ v] exI[of _ r] conjI l i(2) v)
qed

end
