(* ===== verification/Vendor_Providers.thy ===== *)
theory Vendor_Providers
  imports Vendors_Theorems
begin

text \<open>
  The providers of offers: a CSV price list (\<open>packages/vendor/csv_provider.py\<close>), a photographed
  one read by an OCR engine (\<open>napkin_provider.py\<close>) and the synthetic generators
  (\<open>synthetic_provider.py\<close>, \<open>synthetic_reputation.py\<close>).

  Arguments are the records that \<open>csv.reader\<close> yields (an \<open>Inl\<close> where it raises), the OCR engine, the
  JSON reader, \<open>float\<close> of a value with the exception it may raise, \<open>str\<close> of a value, ISO dates and
  the random generator as an explicit state \<open>'g\<close>.
\<close>

definition sum_catch :: "string list \<Rightarrow> (string list \<Rightarrow> api_error) \<Rightarrow> api_error + 'a \<Rightarrow> api_error + 'a" where
  "sum_catch classes h r =
     (case r of Inl (Exc c args) \<Rightarrow> if c \<in> set classes then Inl (h args) else r | _ \<Rightarrow> r)"

section \<open>CSV\<close>

definition REQUIRED_COLUMNS :: "string list" where
  "REQUIRED_COLUMNS =
     [''vendor_name'', ''material'', ''price'', ''currency'', ''vat_rate'', ''uom'', ''uom_canonical_qty'', ''moq'', ''capacity'',
      ''inventory'', ''valid_from'', ''valid_until'']"

text \<open>
  A row of \<open>csv.DictReader\<close>: the columns zipped with the values; a column the record is too short
  for is \<open>None\<close> (here \<open>JNull\<close>). Surplus values are under the key \<open>None\<close>, which nothing reads.
\<close>

definition dict_row :: "string list \<Rightarrow> string list \<Rightarrow> string \<Rightarrow> json" where
  "dict_row cols vals =
     (\<lambda>k. case dict_of (zip cols (map JStr vals) @ map (\<lambda>f. (f, JNull)) (drop (length vals) cols)) k of
        None \<Rightarrow> JNull | Some v \<Rightarrow> v)"

definition csv_offer :: "(json \<Rightarrow> api_error + 'f) \<Rightarrow> string \<Rightarrow> (string \<Rightarrow> json) \<Rightarrow> api_error + 'f offer" where
  "csv_offer to_float as_of row =
     sum_bind (to_float (row ''price'')) (\<lambda>p.
     sum_bind (to_float (row ''vat_rate'')) (\<lambda>vat.
     sum_bind (to_float (row ''uom_canonical_qty'')) (\<lambda>q.
     sum_bind (to_float (row ''moq'')) (\<lambda>m.
     sum_bind (to_float (row ''capacity'')) (\<lambda>c.
     sum_bind (to_float (row ''inventory'')) (\<lambda>i.
     Inr \<lparr>o_vendor_name = row ''vendor_name'', o_data_realm = ''vendor-sandbox'', o_watermark = ''SYNTHETIC'',
       o_material = row ''material'', o_price = p, o_currency = row ''currency'', o_vat_rate = vat, o_uom = row ''uom'',
       o_uom_canonical_qty = q, o_moq = m, o_capacity = c, o_inventory = i, o_valid_from = row ''valid_from'',
       o_valid_until = row ''valid_until'', o_evidence_source = ''csv-upload'', o_observed_at = as_of, o_adverse_case = None,
       o_executable_status = ''reported''\<rparr>))))))"

definition csv_vendor :: "(string \<Rightarrow> json) \<Rightarrow> vendor" where
  "csv_vendor row =
     \<lparr>v_data_realm = ''vendor-sandbox'', v_watermark = ''SYNTHETIC'', v_name = row ''vendor_name'', provider_type = ''csv'', v_seed = None\<rparr>"

fun csv_rows :: "(json \<Rightarrow> api_error + 'f) \<Rightarrow> string \<Rightarrow> string list \<Rightarrow> (api_error + string list) list \<Rightarrow> api_error + vendor list \<times> 'f offer list" where
  "csv_rows to_float as_of cols [] = Inr ([], [])"
| "csv_rows to_float as_of cols (Inl e # rest) = Inl e"
| "csv_rows to_float as_of cols (Inr vals # rest) =
     (if vals = [] then csv_rows to_float as_of cols rest
      else let row = dict_row cols vals in
        sum_bind (sum_catch [''ValueError''] (\<lambda>why. Exc ''CsvParseError'' why) (csv_offer to_float as_of row)) (\<lambda>x.
        sum_bind (csv_rows to_float as_of cols rest) (\<lambda>(vs, xs). Inr (csv_vendor row # vs, x # xs))))"

definition csv_generate :: "(json \<Rightarrow> api_error + 'f) \<Rightarrow> (api_error + string list) list \<Rightarrow> string \<Rightarrow> api_error + vendor list \<times> 'f offer list" where
  "csv_generate to_float records as_of =
     (case records of
        [] \<Rightarrow> Inr ([], [])
      | Inl e # _ \<Rightarrow> Inl e
      | Inr cols # rest \<Rightarrow>
          (let missing = filter (\<lambda>c. c \<notin> set cols) REQUIRED_COLUMNS in
           if missing \<noteq> [] then Inl (Exc ''CsvParseError'' missing)
           else csv_rows to_float as_of cols rest))"

section \<open>A photographed price list\<close>

definition REQUIRED_ITEM_FIELDS :: "string list" where
  "REQUIRED_ITEM_FIELDS =
     [''material'', ''price'', ''currency'', ''vat_rate'', ''uom'', ''uom_canonical_qty'', ''moq'', ''capacity'', ''inventory'',
      ''valid_from'', ''valid_until'']"

record napkin_provider =
  np_mime_type :: string
  np_image :: string
  np_evidence_id :: int
  np_data_realm :: string
  np_watermark :: string

definition mk_napkin_provider :: "napkin_provider \<Rightarrow> api_error + napkin_provider" where
  "mk_napkin_provider p =
     (if (np_data_realm p, np_watermark p) \<notin> {(''vendor-sandbox'', ''SYNTHETIC''), (''vendor-production'', ''REAL'')}
      then Inl (Exc ''ValueError'' [np_data_realm p, np_watermark p]) else Inr p)"

definition napkin_values :: "(json \<Rightarrow> api_error + 'f) \<Rightarrow> (json \<Rightarrow> string) \<Rightarrow> napkin_provider \<Rightarrow> string \<Rightarrow> json \<Rightarrow> jobject \<Rightarrow> api_error + 'f offer" where
  "napkin_values to_float str_of p as_of name d =
     sum_bind (to_float (jget d ''price'')) (\<lambda>pr.
     sum_bind (to_float (jget d ''vat_rate'')) (\<lambda>vat.
     sum_bind (to_float (jget d ''uom_canonical_qty'')) (\<lambda>q.
     sum_bind (to_float (jget d ''moq'')) (\<lambda>m.
     sum_bind (to_float (jget d ''capacity'')) (\<lambda>c.
     sum_bind (to_float (jget d ''inventory'')) (\<lambda>i.
     Inr \<lparr>o_vendor_name = name, o_data_realm = np_data_realm p, o_watermark = np_watermark p,
       o_material = JStr (str_of (jget d ''material'')), o_price = pr, o_currency = JStr (str_of (jget d ''currency'')), o_vat_rate = vat,
       o_uom = JStr (str_of (jget d ''uom'')), o_uom_canonical_qty = q, o_moq = m, o_capacity = c, o_inventory = i,
       o_valid_from = JStr (str_of (jget d ''valid_from'')), o_valid_until = JStr (str_of (jget d ''valid_until'')),
       o_evidence_source = ''napkin-ocr:'' @ str_int (np_evidence_id p), o_observed_at = as_of, o_adverse_case = None,
       o_executable_status = ''reported''\<rparr>))))))"

definition napkin_item :: "(json \<Rightarrow> api_error + 'f) \<Rightarrow> (json \<Rightarrow> string) \<Rightarrow> napkin_provider \<Rightarrow> string \<Rightarrow> json \<Rightarrow> json \<Rightarrow> api_error + 'f offer" where
  "napkin_item to_float str_of p as_of name item =
     (case item of
        JObj d \<Rightarrow>
          (let missing = filter (\<lambda>f. jget d f = JNull) REQUIRED_ITEM_FIELDS in
           if missing \<noteq> [] then Inl (Exc ''NapkinParseError'' missing)
           else sum_catch [''TypeError'', ''ValueError''] (\<lambda>why. Exc ''NapkinParseError'' why)
                  (napkin_values to_float str_of p as_of name d))
      | _ \<Rightarrow> Inl (Exc ''NapkinParseError'' [''item'']))"

definition napkin_generate :: "(string \<Rightarrow> string \<Rightarrow> api_error + string) \<Rightarrow> (string \<Rightarrow> json option) \<Rightarrow> (json \<Rightarrow> api_error + 'f) \<Rightarrow> (json \<Rightarrow> string) \<Rightarrow>
    napkin_provider \<Rightarrow> string \<Rightarrow> api_error + vendor list \<times> 'f offer list" where
  "napkin_generate ocr loads to_float str_of p as_of =
     sum_bind (ocr (np_image p) (np_mime_type p)) (\<lambda>raw.
     case loads raw of
       None \<Rightarrow> Inl (Exc ''NapkinParseError'' [''JSON''])
     | Some (JObj d) \<Rightarrow>
         let name = jget d ''vendor_name'' in
         if \<not> truthy name then Inl (Exc ''NapkinParseError'' [''vendor_name'', raw])
         else (case jget d ''items'' of
            JArr items \<Rightarrow>
              sum_bind (sum_map (napkin_item to_float str_of p as_of name) items) (\<lambda>xs.
              Inr ([\<lparr>v_data_realm = np_data_realm p, v_watermark = np_watermark p, v_name = name, provider_type = ''napkin-ocr'',
                     v_seed = None\<rparr>], xs))
          | _ \<Rightarrow> Inl (Exc ''NapkinParseError'' [''items'', raw]))
     | Some _ \<Rightarrow> Inl (Exc ''NapkinParseError'' [''vendor_name'', raw]))"

section \<open>Synthetic vendors\<close>

text \<open>
  \<open>uniform lo hi n\<close> is \<open>round(rng.uniform(lo, hi), n)\<close> with the next state, \<open>lit\<close> a float literal;
  the bounds are rationals. \<open>days n\<close> is the time \<open>n\<close> days after \<open>as_of\<close>.
\<close>

record synthetic_case =
  sc_vendor :: string
  sc_material :: string
  sc_lo :: rat
  sc_hi :: rat
  sc_digits :: nat
  sc_currency :: string
  sc_vat :: rat
  sc_uom :: string
  sc_qty :: rat
  sc_moq :: rat
  sc_capacity :: rat
  sc_inventory :: rat
  sc_from :: int
  sc_until :: int
  sc_observed :: "int option"
  sc_adverse :: "string option"
  sc_status :: string

definition synthetic_case_of :: "string \<Rightarrow> string \<Rightarrow> rat \<times> rat \<times> nat \<Rightarrow> string \<times> rat \<Rightarrow> string \<times> rat \<Rightarrow> rat \<times> rat \<times> rat \<Rightarrow> int \<times> int \<times> int option \<Rightarrow>
    string option \<Rightarrow> string \<Rightarrow> synthetic_case" where
  "synthetic_case_of v m pr cv uq mci tms adv st =
     (case (pr, cv, uq, mci, tms) of ((lo, hi, n), (cur, vat), (u, q), (mn, cap, inven), (f, t, ob)) \<Rightarrow>
        \<lparr>sc_vendor = v, sc_material = m, sc_lo = lo, sc_hi = hi, sc_digits = n, sc_currency = cur, sc_vat = vat, sc_uom = u, sc_qty = q,
         sc_moq = mn, sc_capacity = cap, sc_inventory = inven, sc_from = f, sc_until = t, sc_observed = ob, sc_adverse = adv, sc_status = st\<rparr>)"

definition synthetic_cases :: "synthetic_case list" where
  "synthetic_cases =
     [synthetic_case_of ''Synthetic Rebar Supplier'' ''rebar-12mm'' (800, 900, 2) (''AZN'', 18) (''ton'', 1) (5, 200, 150) (0, 30, None)
        None ''confirmed'',
      synthetic_case_of ''Synthetic Cement Supplier (stale)'' ''cement-42.5'' (150, 200, 2) (''AZN'', 18) (''ton'', 1) (2, 500, 300) (- 60, - 5, None)
        (Some ''stale_offer'') ''reported'',
      synthetic_case_of ''Synthetic Aggregate Supplier (moq conflict)'' ''gravel-20mm'' (30, 50, 2) (''AZN'', 18) (''m3'', 1) (500, 100, 40) (0, 30, None)
        (Some ''moq_conflict'') ''reserved'',
      synthetic_case_of ''Synthetic Rebar Supplier (mixed uom)'' ''rebar-12mm'' (8/10, 9/10, 4) (''AZN'', 18) (''kg'', 1/1000) (5000, 200000, 150000) (0, 30, None)
        (Some ''mixed_uom'') ''unknown'',
      synthetic_case_of ''Synthetic Import Cement Supplier (currency/VAT mismatch)'' ''cement-imported-52.5'' (60, 80, 2) (''USD'', 0) (''ton'', 1) (10, 1000, 600) (0, 30, None)
        (Some ''currency_vat_mismatch'') ''confirmed'',
      synthetic_case_of ''Synthetic Steel Supplier (capacity shortfall)'' ''steel-beam-ipe200'' (900, 1000, 2) (''AZN'', 18) (''ton'', 1) (10, 50, 120) (0, 30, None)
        (Some ''capacity_shortfall'') ''reported'',
      synthetic_case_of ''Synthetic Timber Supplier (expiring evidence)'' ''timber-formwork-18mm'' (15, 25, 2) (''AZN'', 18) (''m2'', 1) (50, 2000, 1200) (- 45, 10, Some (- 25))
        (Some ''expiring_evidence'') ''reserved'',
      synthetic_case_of ''Synthetic Pipe Supplier (partial fulfillment)'' ''hdpe-pipe-110mm'' (20, 30, 2) (''AZN'', 18) (''m'', 1) (100, 300, 80) (0, 30, None)
        (Some ''partial_fulfillment'') ''unknown'']"

definition synthetic_vendor :: "int \<Rightarrow> synthetic_case \<Rightarrow> vendor" where
  "synthetic_vendor seed c =
     \<lparr>v_data_realm = ''vendor-sandbox'', v_watermark = ''SYNTHETIC'', v_name = JStr (sc_vendor c), provider_type = ''synthetic'', v_seed = Some seed\<rparr>"

definition synthetic_offer :: "(rat \<Rightarrow> 'f) \<Rightarrow> (int \<Rightarrow> string) \<Rightarrow> string \<Rightarrow> int \<Rightarrow> 'f \<Rightarrow> synthetic_case \<Rightarrow> 'f offer" where
  "synthetic_offer lit isof as_of t pr c =
     (let days = (\<lambda>n. isof (t + n * 86400)) in
      \<lparr>o_vendor_name = JStr (sc_vendor c), o_data_realm = ''vendor-sandbox'', o_watermark = ''SYNTHETIC'', o_material = JStr (sc_material c),
       o_price = pr, o_currency = JStr (sc_currency c), o_vat_rate = lit (sc_vat c), o_uom = JStr (sc_uom c),
       o_uom_canonical_qty = lit (sc_qty c), o_moq = lit (sc_moq c), o_capacity = lit (sc_capacity c), o_inventory = lit (sc_inventory c),
       o_valid_from = JStr (days (sc_from c)), o_valid_until = JStr (days (sc_until c)), o_evidence_source = ''synthetic-generator'',
       o_observed_at = (case sc_observed c of None \<Rightarrow> as_of | Some n \<Rightarrow> days n), o_adverse_case = sc_adverse c,
       o_executable_status = sc_status c\<rparr>)"

fun synthetic_offers :: "(rat \<Rightarrow> rat \<Rightarrow> nat \<Rightarrow> 'g \<Rightarrow> 'f \<times> 'g) \<Rightarrow> (rat \<Rightarrow> 'f) \<Rightarrow> (int \<Rightarrow> string) \<Rightarrow> string \<Rightarrow> int \<Rightarrow> 'g \<Rightarrow> synthetic_case list \<Rightarrow> 'f offer list" where
  "synthetic_offers uniform lit isof as_of t g [] = []"
| "synthetic_offers uniform lit isof as_of t g (c # cs) =
     (case uniform (sc_lo c) (sc_hi c) (sc_digits c) g of (pr, g') \<Rightarrow>
        synthetic_offer lit isof as_of t pr c # synthetic_offers uniform lit isof as_of t g' cs)"

definition synthetic_generate :: "(int \<Rightarrow> 'g) \<Rightarrow> (rat \<Rightarrow> rat \<Rightarrow> nat \<Rightarrow> 'g \<Rightarrow> 'f \<times> 'g) \<Rightarrow> (rat \<Rightarrow> 'f) \<Rightarrow> (string \<Rightarrow> int option) \<Rightarrow> (int \<Rightarrow> string) \<Rightarrow>
    int \<Rightarrow> string \<Rightarrow> api_error + vendor list \<times> 'f offer list" where
  "synthetic_generate random uniform lit fromiso isof seed as_of =
     sum_bind (read_iso fromiso as_of) (\<lambda>t.
     Inr (map (synthetic_vendor seed) synthetic_cases, synthetic_offers uniform lit isof as_of t (random seed) synthetic_cases))"

text \<open>\<open>choice n\<close> draws a position below \<open>n\<close>.\<close>

fun synthetic_facts :: "(nat \<Rightarrow> 'g \<Rightarrow> nat \<times> 'g) \<Rightarrow> string list \<Rightarrow> string \<Rightarrow> string \<Rightarrow> nat \<Rightarrow> 'g \<Rightarrow> reputation_fact list \<times> 'g" where
  "synthetic_facts choice pool name as_of 0 g = ([], g)"
| "synthetic_facts choice pool name as_of (Suc n) g =
     (let (i, g1) = choice (length pool) g;
          (j, g2) = choice 3 g1;
          (rest, g3) = synthetic_facts choice pool name as_of n g2 in
      (\<lparr>rf_data_realm = ''vendor-sandbox'', rf_watermark = ''SYNTHETIC'', rf_vendor_name = name, event_type = pool ! i,
        project_ref = None, source_ref = ''synthetic-reputation-generator'', rf_observed_at = as_of, ttl_days = [30, 90, 180] ! j\<rparr> # rest, g3))"

fun reputation_from :: "(nat \<Rightarrow> nat \<Rightarrow> 'g \<Rightarrow> nat \<times> 'g) \<Rightarrow> (nat \<Rightarrow> 'g \<Rightarrow> nat \<times> 'g) \<Rightarrow> string \<Rightarrow> nat \<Rightarrow> string list \<Rightarrow> 'g \<Rightarrow> reputation_fact list" where
  "reputation_from randint choice as_of index [] g = []"
| "reputation_from randint choice as_of index (name # names) g =
     (let pool = (if index mod 3 \<noteq> 0 then POSITIVE_EVENT_TYPES else NEGATIVE_EVENT_TYPES);
          (n, g1) = randint 1 3 g;
          (facts, g2) = synthetic_facts choice pool name as_of n g1 in
      facts @ reputation_from randint choice as_of (index + 1) names g2)"

definition generate_reputation_facts :: "(int \<Rightarrow> 'g) \<Rightarrow> (nat \<Rightarrow> nat \<Rightarrow> 'g \<Rightarrow> nat \<times> 'g) \<Rightarrow> (nat \<Rightarrow> 'g \<Rightarrow> nat \<times> 'g) \<Rightarrow> string list \<Rightarrow> int \<Rightarrow> string \<Rightarrow>
    reputation_fact list" where
  "generate_reputation_facts random randint choice names seed as_of = reputation_from randint choice as_of 0 names (random seed)"

section \<open>What the providers promise\<close>

lemma sum_catch_Inr: "sum_catch cs h r = Inr x \<longleftrightarrow> r = Inr x"
  by (auto simp: sum_catch_def split: sum.splits api_error.splits)

lemma napkin_values_Inl:
  "napkin_values to_float str_of p as_of name d = Inl e \<Longrightarrow> \<exists>v. to_float v = Inl e"
  by (auto simp: napkin_values_def sum_bind_def split: sum.splits)

text \<open>
  The offer that stands for an item: each text is \<open>str\<close> and each number \<open>float\<close> of the item's field of
  the same name, and the rest comes from the capture.
\<close>

definition napkin_offer_of :: "(json \<Rightarrow> api_error + 'f) \<Rightarrow> (json \<Rightarrow> string) \<Rightarrow> napkin_provider \<Rightarrow> string \<Rightarrow> json \<Rightarrow> json \<Rightarrow> 'f offer \<Rightarrow> bool" where
  "napkin_offer_of to_float str_of p as_of name item x \<longleftrightarrow>
     (\<exists>d. item = JObj d \<and> (\<forall>f \<in> set REQUIRED_ITEM_FIELDS. jget d f \<noteq> JNull) \<and>
        o_material x = JStr (str_of (jget d ''material'')) \<and> o_currency x = JStr (str_of (jget d ''currency'')) \<and>
        o_uom x = JStr (str_of (jget d ''uom'')) \<and> o_valid_from x = JStr (str_of (jget d ''valid_from'')) \<and>
        o_valid_until x = JStr (str_of (jget d ''valid_until'')) \<and>
        to_float (jget d ''price'') = Inr (o_price x) \<and> to_float (jget d ''vat_rate'') = Inr (o_vat_rate x) \<and>
        to_float (jget d ''uom_canonical_qty'') = Inr (o_uom_canonical_qty x) \<and> to_float (jget d ''moq'') = Inr (o_moq x) \<and>
        to_float (jget d ''capacity'') = Inr (o_capacity x) \<and> to_float (jget d ''inventory'') = Inr (o_inventory x)) \<and>
     o_vendor_name x = name \<and> o_data_realm x = np_data_realm p \<and> o_watermark x = np_watermark p \<and>
     o_evidence_source x = ''napkin-ocr:'' @ str_int (np_evidence_id p) \<and> o_observed_at x = as_of \<and> o_adverse_case x = None \<and>
     o_executable_status x = ''reported''"

lemma napkin_item_Inr: "napkin_item to_float str_of p as_of name item = Inr x \<Longrightarrow> napkin_offer_of to_float str_of p as_of name item x"
  by (auto simp: napkin_item_def napkin_offer_of_def Let_def sum_catch_Inr napkin_values_def sum_bind_Inr filter_empty_conv
      split: json.splits if_splits)

lemma napkin_item_Inl:
  assumes "napkin_item to_float str_of p as_of name item = Inl e"
  shows "(\<exists>why. e = Exc ''NapkinParseError'' why) \<or> (\<exists>v. to_float v = Inl e) \<and> \<not> (\<exists>c why. e = Exc c why \<and> c \<in> {''TypeError'', ''ValueError''})"
proof (cases item)
  case (JObj d)
  show ?thesis
  proof (cases "filter (\<lambda>f. jget d f = JNull) REQUIRED_ITEM_FIELDS = []")
    case True
    with assms JObj have "sum_catch [''TypeError'', ''ValueError''] (\<lambda>why. Exc ''NapkinParseError'' why) (napkin_values to_float str_of p as_of name d) = Inl e"
      by (simp add: napkin_item_def)
    then show ?thesis using napkin_values_Inl[of to_float str_of p as_of name d]
      by (cases "napkin_values to_float str_of p as_of name d") (auto simp: sum_catch_def split: api_error.splits if_splits)
  qed (use assms JObj in \<open>auto simp: napkin_item_def Let_def\<close>)
qed (use assms in \<open>auto simp: napkin_item_def\<close>)

lemma sum_map_Inl: "sum_map f xs = Inl e \<Longrightarrow> \<exists>x \<in> set xs. f x = Inl e"
  by (induction xs) (auto simp: sum_bind_def split: sum.splits)

text \<open>
  C37. A photographed price list is read completely or not at all: when the provider returns, it
  returns one vendor and one offer per item of the list, in their order; each item is an object
  with every required field, and its offer has \<open>str\<close> of the item's material, currency, unit and
  validity and \<open>float\<close> of its price, VAT rate, quantity, minimum order, capacity and inventory, in the
  realm of the capture, citing its evidence and no stronger than \<open>reported\<close>; otherwise it raises the parse error, or what the OCR engine raised, or what
  \<open>float\<close> raised if that is neither a type nor a value error.
\<close>

theorem napkin_all_or_nothing:
  assumes "mk_napkin_provider q = Inr p"
  shows "case napkin_generate ocr loads to_float str_of p as_of of
      Inr (vs, xs) \<Rightarrow> (\<exists>raw d items v. ocr (np_image p) (np_mime_type p) = Inr raw \<and> loads raw = Some (JObj d) \<and> jget d ''items'' = JArr items \<and>
        vs = [v] \<and> v_name v = jget d ''vendor_name'' \<and> truthy (v_name v) \<and> realm_pair (v_data_realm v) (v_watermark v) \<and>
        list_all2 (napkin_offer_of to_float str_of p as_of (v_name v)) items xs)
    | Inl e \<Rightarrow> (\<exists>why. e = Exc ''NapkinParseError'' why) \<or> ocr (np_image p) (np_mime_type p) = Inl e \<or>
        (\<exists>v. to_float v = Inl e) \<and> \<not> (\<exists>c why. e = Exc c why \<and> c \<in> {''TypeError'', ''ValueError''})"
proof (cases "napkin_generate ocr loads to_float str_of p as_of")
  case (Inl e)
  then show ?thesis
    by (auto simp: napkin_generate_def sum_bind_def Let_def split: sum.splits option.splits json.splits if_splits
        dest!: sum_map_Inl napkin_item_Inl)
next
  case (Inr r)
  obtain vs xs where r: "r = (vs, xs)" by (rule prod.exhaust)
  note g = Inr[unfolded r]
  from g obtain raw where raw: "ocr (np_image p) (np_mime_type p) = Inr raw"
    by (auto simp: napkin_generate_def sum_bind_Inr)
  with g obtain d where d: "loads raw = Some (JObj d)"
    by (auto simp: napkin_generate_def sum_bind_def split: option.splits json.splits)
  with g raw obtain items where items: "truthy (jget d ''vendor_name'')" "jget d ''items'' = JArr items"
    by (auto simp: napkin_generate_def sum_bind_def Let_def split: json.splits if_splits)
  with g raw d have x: "sum_map (napkin_item to_float str_of p as_of (jget d ''vendor_name'')) items = Inr xs"
    "vs = [\<lparr>v_data_realm = np_data_realm p, v_watermark = np_watermark p, v_name = jget d ''vendor_name'', provider_type = ''napkin-ocr'', v_seed = None\<rparr>]"
    by (simp_all add: napkin_generate_def sum_bind_def Let_def split: sum.splits)
  have "list_all2 (napkin_offer_of to_float str_of p as_of (jget d ''vendor_name'')) items xs"
    using x(1) unfolding sum_map_Inr by (rule list_all2_mono) (rule napkin_item_Inr)
  moreover have "realm_pair (np_data_realm p) (np_watermark p)"
    using assms by (auto simp: mk_napkin_provider_def realm_pair_def split: if_splits)
  ultimately show ?thesis using raw d items x(2) by (simp add: Inr r)
qed

definition demo_price_list :: napkin_provider where
  "demo_price_list = \<lparr>np_mime_type = ''image/png'', np_image = ''bytes'', np_evidence_id = 7, np_data_realm = ''vendor-production'', np_watermark = ''REAL''\<rparr>"

definition demo_item :: "json \<Rightarrow> json" where
  "demo_item pr = JObj (map (\<lambda>f. (f, if f = ''price'' then pr else JInt 1)) REQUIRED_ITEM_FIELDS)"

definition demo_float :: "json \<Rightarrow> api_error + int" where
  "demo_float v = (case v of JInt i \<Rightarrow> Inr i | JStr x \<Rightarrow> Inl (Exc ''ValueError'' [x]) | _ \<Rightarrow> Inl (Exc ''TypeError'' []))"

definition demo_reading :: "json \<Rightarrow> string \<Rightarrow> json option" where
  "demo_reading pr raw = Some (JObj [(''vendor_name'', JStr ''Ann''), (''items'', JArr [demo_item (JInt 5), demo_item pr])])"

definition demo_capture :: "json \<Rightarrow> api_error + vendor list \<times> int offer list" where
  "demo_capture pr = napkin_generate (\<lambda>b m. Inr b) (demo_reading pr) demo_float (\<lambda>v. ''x'') demo_price_list ''day1''"

theorem napkin_all_or_nothing_witness:
  "(\<exists>vs xs. demo_capture (JInt 6) = Inr (vs, xs) \<and> map o_price xs = [5, 6] \<and>
      (\<exists>items v. vs = [v] \<and> v_data_realm v = ''vendor-production'' \<and> list_all2 (napkin_offer_of demo_float (\<lambda>v. ''x'') demo_price_list ''day1'' (v_name v)) items xs)) \<and>
   demo_capture (JStr ''cheap'') = Inl (Exc ''NapkinParseError'' [''cheap''])"
proof
  obtain r where r: "demo_capture (JInt 6) = Inr r" "map o_price (snd r) = [5, 6]" "map v_data_realm (fst r) = [''vendor-production'']"
  proof (cases "demo_capture (JInt 6)")
    case (Inl e)
    have "\<not> isl (demo_capture (JInt 6))" by code_simp
    with Inl show thesis by simp
  next
    case (Inr r)
    have "(case demo_capture (JInt 6) of Inr r \<Rightarrow> map o_price (snd r) = [5, 6] \<and> map v_data_realm (fst r) = [''vendor-production''] | Inl _ \<Rightarrow> False)"
      by code_simp
    with Inr show thesis by (intro that[of r]) simp_all
  qed
  obtain vs xs where vx: "r = (vs, xs)" by (rule prod.exhaust)
  have "mk_napkin_provider demo_price_list = Inr demo_price_list" by (simp add: mk_napkin_provider_def demo_price_list_def)
  note p = napkin_all_or_nothing[OF this, where ocr = "\<lambda>b m. Inr b" and loads = "demo_reading (JInt 6)" and to_float = demo_float
      and str_of = "\<lambda>v. ''x''" and as_of = "''day1''",
      folded demo_capture_def, unfolded r(1) vx, simplified]
  then obtain items v where "vs = [v]" "list_all2 (napkin_offer_of demo_float (\<lambda>v. ''x'') demo_price_list ''day1'' (v_name v)) items xs" by blast
  with r vx show "\<exists>vs xs. demo_capture (JInt 6) = Inr (vs, xs) \<and> map o_price xs = [5, 6] \<and>
      (\<exists>items v. vs = [v] \<and> v_data_realm v = ''vendor-production'' \<and> list_all2 (napkin_offer_of demo_float (\<lambda>v. ''x'') demo_price_list ''day1'' (v_name v)) items xs)"
    by (intro exI[of _ vs] exI[of _ xs]) auto
  show "demo_capture (JStr ''cheap'') = Inl (Exc ''NapkinParseError'' [''cheap''])" by code_simp
qed

text \<open>A record that is too short for a number column: \<open>float(None)\<close> is a \<open>TypeError\<close>, which the row handler does not name.\<close>

lemma csv_short_row_leaks:
  assumes "to_float JNull = Inl (Exc ''TypeError'' why)" "\<And>x. \<exists>y. to_float (JStr x) = Inr y" "set REQUIRED_COLUMNS \<subseteq> set cols"
    "vals \<noteq> []" "dict_row cols vals ''price'' = JNull"
  shows "csv_generate to_float (Inr cols # Inr vals # rest) as_of = Inl (Exc ''TypeError'' why)"
proof -
  have "filter (\<lambda>c. c \<notin> set cols) REQUIRED_COLUMNS = []" using assms(3) by (auto simp: filter_empty_conv)
  then show ?thesis using assms(1,4,5)
    by (simp add: csv_generate_def csv_offer_def sum_bind_def sum_catch_def Let_def)
qed

text \<open>Every synthetic offer is accepted by the table, for any vendor, and the seven adverse cases are what they are called.\<close>

lemma synthetic_offers_from:
  "x \<in> set (synthetic_offers uniform lit isof as_of t g cs) \<Longrightarrow> \<exists>c \<in> set cs. \<exists>pr. x = synthetic_offer lit isof as_of t pr c"
  by (induction cs arbitrary: g) (auto split: prod.splits)

lemma synthetic_statuses: "list_all (\<lambda>c. sc_status c \<in> set EXECUTABLE_STATUS_TIERS) synthetic_cases"
  by code_simp

lemma synthetic_offer_stored:
  assumes "synthetic_generate random uniform lit fromiso isof seed as_of = Inr (vs, xs)" "x \<in> set xs"
    "\<And>u. fromiso (isof u) = Some u" "vendor_known s i"
  shows "\<exists>r. store_offer fromiso i x s = (Inr (next_id (vendor_offers s)), s\<lparr>vendor_offers := vendor_offers s @ [(next_id (vendor_offers s), r)]\<rparr>)"
proof -
  from assms(1) obtain t where t: "fromiso as_of = Some t" "xs = synthetic_offers uniform lit isof as_of t (random seed) synthetic_cases"
    by (auto simp: synthetic_generate_def sum_bind_Inr read_iso_def split: option.splits)
  from assms(2) obtain pr c where c: "c \<in> set synthetic_cases" "x = synthetic_offer lit isof as_of t pr c"
    unfolding t(2) by (auto dest: synthetic_offers_from)
  then have "sc_status c \<in> set EXECUTABLE_STATUS_TIERS" using synthetic_statuses by (auto simp: list_all_iff)
  then show ?thesis using t(1) assms(3,4)
    by (simp add: c(2) synthetic_offer_def store_offer_def bind_eq then_db_eq of_sum_def offer_row_of_def sum_bind_def iso_param_def
        read_iso_def text_param_def realm_pair_def vendor_known_def Let_def split: option.split) blast
qed

definition adverse_holds :: "synthetic_case \<Rightarrow> bool" where
  "adverse_holds c = (case sc_adverse c of
      None \<Rightarrow> sc_moq c \<le> sc_capacity c \<and> 0 \<le> sc_until c
    | Some a \<Rightarrow>
       if a = ''stale_offer'' then sc_until c < 0
       else if a = ''moq_conflict'' then sc_capacity c < sc_moq c
       else if a = ''mixed_uom'' then sc_qty c \<noteq> 1
       else if a = ''currency_vat_mismatch'' then sc_currency c \<noteq> ''AZN'' \<and> sc_vat c \<noteq> 18
       else if a = ''capacity_shortfall'' then sc_capacity c < sc_inventory c
       else if a = ''expiring_evidence'' then 0 < sc_until c \<and> (case sc_observed c of None \<Rightarrow> False | Some d \<Rightarrow> d < - 20)
       else a = ''partial_fulfillment'' \<and> 2 * sc_inventory c < sc_capacity c)"

lemma synthetic_cases_hold: "list_all adverse_holds synthetic_cases \<and>
    list_all (\<lambda>st. 2 \<le> count_list (map sc_status synthetic_cases) st) EXECUTABLE_STATUS_TIERS \<and>
    length (List.map_filter sc_adverse synthetic_cases) = 7 \<and> distinct (List.map_filter sc_adverse synthetic_cases)"
  by code_simp

end
