(* ===== verification/Migrations.thy ===== *)
theory Migrations
  imports Platform
begin

text \<open>
  The migration ledger, \<open>packages/platform/migrations_runner.py\<close>. The database is the ledger and
  a schema \<open>'d\<close>; running the text of a migration on a schema (\<open>exec\<close>), SHA-256 and the hooks are
  arguments. A migration does not write the ledger, which only the runner does. The files of the
  directory are pairs of a stem and a text.
\<close>

record migration =
  version :: int
  mig_description :: string
  mig_checksum :: string
  mig_sql :: string

record ledger_row =
  led_description :: string
  led_checksum :: string
  led_applied_at :: int
  led_applied_by :: string
  preflight_status :: string
  postflight_status :: string

record 'd schema_db =
  ledger :: "(int \<times> ledger_row) list"
  schema :: 'd
  wall_clock :: int

type_synonym ('d, 'a) mig_op = "('d schema_db, api_error, 'a) db"

definition migration_of :: "(string \<Rightarrow> string) \<Rightarrow> string \<times> string \<Rightarrow> api_error + migration" where
  "migration_of sha file =
     (case file of (stem, sql) \<Rightarrow>
        let v = takeWhile (\<lambda>c. c \<noteq> CHR ''_'') stem in
        case parse_int v of
          None \<Rightarrow> Inl (Exc ''ValueError'' [v])
        | Some n \<Rightarrow> Inr \<lparr>version = n, mig_description = drop 1 (dropWhile (\<lambda>c. c \<noteq> CHR ''_'') stem), mig_checksum = sha sql, mig_sql = sql\<rparr>)"

definition discover :: "(string \<Rightarrow> string) \<Rightarrow> (string \<times> string) list \<Rightarrow> api_error + migration list" where
  "discover sha files = sum_map (migration_of sha) (sort_key (\<lambda>(stem, sql). stem @ ''.sql'') files)"

text \<open>The bootstrap script: an existing row for version 0 stays.\<close>

definition ensure_ledger :: "('d, unit) mig_op" where
  "ensure_ledger = modify (\<lambda>s.
     if 0 \<in> fst ` set (ledger s) then s
     else s\<lparr>ledger := ledger s @ [(0, \<lparr>led_description = ''ledger bootstrap'', led_checksum = ''n/a'', led_applied_at = wall_clock s,
       led_applied_by = ''bootstrap'', preflight_status = ''skipped'', postflight_status = ''skipped''\<rparr>)]\<rparr>)"

definition max_version :: "int list \<Rightarrow> int option" where
  "max_version vs = (if vs = [] then None else Some (foldl max (hd vs) (tl vs)))"

definition current_version :: "('d, int option) mig_op" where
  "current_version =
     then_db ensure_ledger
     (gets (\<lambda>s. max_version (map fst (filter (\<lambda>(v, r). preflight_status r \<noteq> ''failed'' \<and> postflight_status r \<noteq> ''failed'') (ledger s)))))"

definition applied_checksums :: "(int \<times> ledger_row) list \<Rightarrow> int \<rightharpoonup> string" where
  "applied_checksums rows = dict_of (map (\<lambda>(v, r). (v, led_checksum r)) (filter (\<lambda>(v, r). preflight_status r \<noteq> ''failed'') rows))"

fun unapplied :: "(int \<rightharpoonup> string) \<Rightarrow> migration list \<Rightarrow> api_error + migration list" where
  "unapplied applied [] = Inr []"
| "unapplied applied (m # ms) =
     (case applied (version m) of
        Some c \<Rightarrow> if c \<noteq> mig_checksum m then Inl (Exc ''MigrationChecksumMismatch'' [str_int (version m)]) else unapplied applied ms
      | None \<Rightarrow> sum_bind (unapplied applied ms) (\<lambda>r. Inr (m # r)))"

definition pending :: "(string \<Rightarrow> string) \<Rightarrow> (string \<times> string) list \<Rightarrow> ('d, migration list) mig_op" where
  "pending sha files =
     bind (of_sum (discover sha files)) (\<lambda>found.
     then_db ensure_ledger (
     bind (gets (\<lambda>s. unapplied (applied_checksums (ledger s)) (filter (\<lambda>m. version m \<noteq> 0) found))) (\<lambda>r.
     of_sum r)))"

definition upsert_ledger :: "string \<Rightarrow> string \<Rightarrow> string \<Rightarrow> migration \<Rightarrow> ('d, unit) mig_op" where
  "upsert_ledger by pre post m = modify (\<lambda>s.
     let row = \<lparr>led_description = mig_description m, led_checksum = mig_checksum m, led_applied_at = wall_clock s, led_applied_by = by,
                preflight_status = pre, postflight_status = post\<rparr> in
     if version m \<in> fst ` set (ledger s) then s\<lparr>ledger := update_row (version m) (\<lambda>_. row) (ledger s)\<rparr>
     else s\<lparr>ledger := ledger s @ [(version m, row)]\<rparr>)"

type_synonym 'd hook = "('d \<Rightarrow> migration \<Rightarrow> bool) option"

definition hook_fails :: "'d hook \<Rightarrow> 'd \<Rightarrow> migration \<Rightarrow> bool" where
  "hook_fails h d m = (case h of None \<Rightarrow> False | Some f \<Rightarrow> \<not> f d m)"

definition run_migration :: "(string \<Rightarrow> 'd \<Rightarrow> api_error + 'd) \<Rightarrow> 'd hook \<Rightarrow> string \<Rightarrow> migration \<Rightarrow> ('d, string) mig_op" where
  "run_migration exec postflight by m =
     transaction (
     bind (gets (\<lambda>s. exec (mig_sql m) (schema s))) (\<lambda>r.
     bind (of_sum r) (\<lambda>d.
     then_db (modify (\<lambda>s. s\<lparr>schema := d\<rparr>)) (
     let st = (if hook_fails postflight d m then ''failed'' else ''passed'') in
     then_db (upsert_ledger by ''passed'' st m) (ret st)))))"

fun apply_each :: "(string \<Rightarrow> 'd \<Rightarrow> api_error + 'd) \<Rightarrow> 'd hook \<Rightarrow> 'd hook \<Rightarrow> string \<Rightarrow> migration list \<Rightarrow> ('d, (int \<times> string) list) mig_op" where
  "apply_each exec preflight postflight by [] = ret []"
| "apply_each exec preflight postflight by (m # ms) =
     bind (gets (\<lambda>s. hook_fails preflight (schema s) m)) (\<lambda>refused.
     if refused then
       then_db (transaction (upsert_ledger by ''failed'' ''skipped'' m)) (raise (Exc ''PreflightFailed'' [str_int (version m)]))
     else
       bind (run_migration exec postflight by m) (\<lambda>st.
       if st = ''failed'' then raise (Exc ''PostflightFailed'' [str_int (version m)])
       else bind (apply_each exec preflight postflight by ms) (\<lambda>rest. ret ((version m, mig_description m) # rest))))"

definition apply_all :: "(string \<Rightarrow> string) \<Rightarrow> (string \<Rightarrow> 'd \<Rightarrow> api_error + 'd) \<Rightarrow> (string \<times> string) list \<Rightarrow> 'd hook \<Rightarrow> 'd hook \<Rightarrow> string \<Rightarrow>
    ('d, (int \<times> string) list) mig_op" where
  "apply_all sha exec files preflight postflight by =
     bind (pending sha files) (apply_each exec preflight postflight by)"

definition assert_schema_up_to_date :: "int \<Rightarrow> ('d, int option) mig_op" where
  "assert_schema_up_to_date expected =
     bind current_version (\<lambda>actual.
     if actual \<noteq> Some expected then
       raise (Exc ''SchemaVersionMismatch'' [str_int expected, case actual of None \<Rightarrow> ''None'' | Some v \<Rightarrow> str_int v])
     else ret actual)"

section \<open>What a row of the ledger says\<close>

text \<open>\<open>done s v\<close> is the checksum under which the runner takes version \<open>v\<close> for applied.\<close>

definition keyed :: "'d schema_db \<Rightarrow> bool" where
  "keyed s \<longleftrightarrow> distinct (map fst (ledger s))"

definition done_with :: "'d schema_db \<Rightarrow> int \<Rightarrow> string option" where
  "done_with s v = (case map_of (ledger s) v of None \<Rightarrow> None | Some r \<Rightarrow> if preflight_status r = ''failed'' then None else Some (led_checksum r))"

lemma map_of_map_filter:
  "distinct (map fst rows) \<Longrightarrow> map_of (map (\<lambda>(v, r). (v, f r)) (filter (\<lambda>(v, r). p r) rows)) v =
     (case map_of rows v of None \<Rightarrow> None | Some r \<Rightarrow> if p r then Some (f r) else None)"
proof (induction rows)
  case (Cons x rows)
  obtain w r where x: "x = (w, r)" by (rule prod.exhaust)
  show ?case
  proof (cases "v = w")
    case True
    with Cons.prems x have "map_of rows v = None" by (simp add: map_of_eq_None_iff)
    with Cons True x show ?thesis by simp
  next
    case False
    with Cons x show ?thesis by simp
  qed
qed simp

lemma applied_checksums_eq: "distinct (map fst rows) \<Longrightarrow>
    applied_checksums rows v = (case map_of rows v of None \<Rightarrow> None | Some r \<Rightarrow> if preflight_status r = ''failed'' then None else Some (led_checksum r))"
proof -
  assume d: "distinct (map fst rows)"
  let ?f = "filter (\<lambda>(v, r). preflight_status r \<noteq> ''failed'') rows"
  have "distinct (map fst (map (\<lambda>(v, r). (v, led_checksum r)) ?f))"
    using distinct_map_filter[OF d, of "\<lambda>(v, r). preflight_status r \<noteq> ''failed''"] by (simp add: comp_def case_prod_unfold)
  then have "applied_checksums rows v = map_of (map (\<lambda>(v, r). (v, led_checksum r)) ?f) v"
    by (simp add: applied_checksums_def dict_of_distinct)
  also have "\<dots> = (case map_of rows v of None \<Rightarrow> None | Some r \<Rightarrow> if preflight_status r = ''failed'' then None else Some (led_checksum r))"
    using map_of_map_filter[OF d, of led_checksum "\<lambda>r. preflight_status r \<noteq> ''failed''" v] by (simp split: option.splits)
  finally show ?thesis .
qed

lemma applied_checksums_done: "keyed s \<Longrightarrow> applied_checksums (ledger s) = done_with s"
  by (rule ext) (simp add: keyed_def applied_checksums_eq done_with_def)

lemma ensure_ledger_effect:
  assumes "keyed s"
  shows "ensure_ledger s = (Inr (), snd (ensure_ledger s))" "keyed (snd (ensure_ledger s))" "schema (snd (ensure_ledger s)) = schema s"
    "v \<noteq> 0 \<Longrightarrow> done_with (snd (ensure_ledger s)) v = done_with s v"
  using assms by (auto simp: ensure_ledger_def keyed_def done_with_def map_of_snoc simp del: map_of_append)

lemma upsert_effect:
  assumes "keyed s" "upsert_ledger by pre post m s = (Inr u, t)"
  shows "keyed t" "schema t = schema s" "done_with t = (if pre = ''failed'' then (done_with s)(version m := None) else (done_with s)(version m \<mapsto> mig_checksum m))"
proof -
  have "keyed t \<and> schema t = schema s \<and> (\<exists>r. led_checksum r = mig_checksum m \<and> preflight_status r = pre \<and> map_of (ledger t) = (map_of (ledger s))(version m \<mapsto> r))"
  proof (cases "version m \<in> fst ` set (ledger s)")
    case True
    then obtain r where "map_of (ledger s) (version m) = Some r" by (metis domD dom_map_of_conv_image_fst)
    with True assms show ?thesis by (auto simp: upsert_ledger_def keyed_def Let_def fun_eq_iff)
  next
    case False
    with assms show ?thesis by (auto simp: upsert_ledger_def keyed_def Let_def fun_eq_iff map_of_snoc simp del: map_of_append)
  qed
  then show "keyed t" "schema t = schema s" "done_with t = (if pre = ''failed'' then (done_with s)(version m := None) else (done_with s)(version m \<mapsto> mig_checksum m))"
    by (auto simp: done_with_def fun_eq_iff)
qed

end
