(* ===== verification/Migrations_Theorems.thy ===== *)
theory Migrations_Theorems
  imports Migrations
begin

text \<open>
  What a run of the migrations leaves behind: after a run that returns nothing is pending, and
  after one that raises the next run resumes at a place that depends on what was raised.
\<close>

fun mark :: "migration list \<Rightarrow> (int \<rightharpoonup> string) \<Rightarrow> int \<rightharpoonup> string" where
  "mark [] f = f"
| "mark (m # ms) f = mark ms (f(version m \<mapsto> mig_checksum m))"

fun run_all :: "(string \<Rightarrow> 'd \<Rightarrow> api_error + 'd) \<Rightarrow> migration list \<Rightarrow> 'd \<Rightarrow> api_error + 'd" where
  "run_all exec [] d = Inr d"
| "run_all exec (m # ms) d = sum_bind (exec (mig_sql m) d) (run_all exec ms)"

lemma mark_other: "v \<notin> version ` set ms \<Longrightarrow> mark ms f v = f v"
  by (induction ms arbitrary: f) auto

lemma mark_own: "distinct (map version ms) \<Longrightarrow> m \<in> set ms \<Longrightarrow> mark ms f (version m) = Some (mig_checksum m)"
  by (induction ms arbitrary: f) (auto simp: mark_other)

section \<open>Pending migrations\<close>

lemma unapplied_Inr:
  "unapplied ap ms = Inr rest \<longleftrightarrow>
     rest = filter (\<lambda>m. ap (version m) = None) ms \<and> (\<forall>m \<in> set ms. ap (version m) \<noteq> None \<longrightarrow> ap (version m) = Some (mig_checksum m))"
proof (induction ms arbitrary: rest)
  case (Cons m ms)
  show ?case
  proof (cases "ap (version m)")
    case None
    with Cons.IH show ?thesis by (auto simp: sum_bind_Inr)
  next
    case (Some c)
    with Cons.IH show ?thesis by auto
  qed
qed auto

lemma unapplied_cong: "(\<And>m. m \<in> set ms \<Longrightarrow> ap (version m) = ap' (version m)) \<Longrightarrow> unapplied ap ms = unapplied ap' ms"
  by (induction ms) (auto split: option.splits)

lemma pending_eq:
  assumes "keyed s" "discover sha files = Inr found"
  shows "pending sha files s = (unapplied (done_with s) (filter (\<lambda>m. version m \<noteq> 0) found), snd (ensure_ledger s))"
proof -
  note e = ensure_ledger_effect[OF assms(1)]
  have "unapplied (applied_checksums (ledger (snd (ensure_ledger s)))) (filter (\<lambda>m. version m \<noteq> 0) found) =
      unapplied (done_with s) (filter (\<lambda>m. version m \<noteq> 0) found)"
    unfolding applied_checksums_done[OF e(2)] by (rule unapplied_cong) (simp add: e(4))
  moreover obtain s1 where s1: "ensure_ledger s = (Inr (), s1)" using e(1) by blast
  ultimately show ?thesis using assms(2)
    by (cases "unapplied (done_with s) (filter (\<lambda>m. version m \<noteq> 0) found)") (simp_all add: pending_def bind_eq then_db_eq of_sum_def)
qed

section \<open>One run\<close>

lemma run_migration_cases:
  assumes "keyed s"
  shows "case exec (mig_sql m) (schema s) of
      Inl e \<Rightarrow> run_migration exec postflight who m s = (Inl e, s)
    | Inr d \<Rightarrow> \<exists>t. run_migration exec postflight who m s = (Inr (if hook_fails postflight d m then ''failed'' else ''passed''), t) \<and>
        keyed t \<and> schema t = d \<and> done_with t = (done_with s)(version m \<mapsto> mig_checksum m)"
proof (cases "exec (mig_sql m) (schema s)")
  case (Inl e)
  then show ?thesis by (simp add: run_migration_def transaction_def bind_eq of_sum_def)
next
  case (Inr d)
  let ?st = "if hook_fails postflight d m then ''failed'' else ''passed''"
  obtain t where t: "upsert_ledger who ''passed'' ?st m (s\<lparr>schema := d\<rparr>) = (Inr (), t)"
    by (simp add: upsert_ledger_def)
  have k: "keyed (s\<lparr>schema := d\<rparr>)" "done_with (s\<lparr>schema := d\<rparr>) = done_with s" using assms by (auto simp: keyed_def done_with_def fun_eq_iff)
  note u = upsert_effect[OF k(1) t]
  have "run_migration exec postflight who m s = (Inr ?st, t)"
    using Inr t by (simp add: run_migration_def transaction_def bind_eq then_db_eq of_sum_def Let_def)
  with u k(2) Inr show ?thesis by simp
qed

definition has_run :: "(string \<Rightarrow> 'd \<Rightarrow> api_error + 'd) \<Rightarrow> migration list \<Rightarrow> 'd schema_db \<Rightarrow> 'd schema_db \<Rightarrow> bool" where
  "has_run exec ms s t \<longleftrightarrow> keyed t \<and> run_all exec ms (schema s) = Inr (schema t) \<and> done_with t = mark ms (done_with s)"

text \<open>The three ways a run stops at a migration.\<close>

definition stopped_at :: "(string \<Rightarrow> 'd \<Rightarrow> api_error + 'd) \<Rightarrow> api_error \<Rightarrow> migration \<Rightarrow> 'd schema_db \<Rightarrow> 'd schema_db \<Rightarrow> bool" where
  "stopped_at exec e m s t \<longleftrightarrow>
     e = Exc ''PreflightFailed'' [str_int (version m)] \<and> schema t = schema s \<and> done_with t = (done_with s)(version m := None) \<or>
     exec (mig_sql m) (schema s) = Inl e \<and> t = s \<or>
     e = Exc ''PostflightFailed'' [str_int (version m)] \<and> exec (mig_sql m) (schema s) = Inr (schema t) \<and>
       done_with t = (done_with s)(version m \<mapsto> mig_checksum m)"

lemma apply_each_step:
  assumes "keyed s" "apply_each exec preflight postflight who (m # ms) s = (r, t)"
  obtains (stop) e where "r = Inl e" "keyed t" "stopped_at exec e m s t"
  | (go) u r' where "has_run exec [m] s u" "apply_each exec preflight postflight who ms u = (r', t)"
      "r = (case r' of Inl e \<Rightarrow> Inl e | Inr rest \<Rightarrow> Inr ((version m, mig_description m) # rest))"
proof (cases "hook_fails preflight (schema s) m")
  case True
  obtain u where u: "upsert_ledger who ''failed'' ''skipped'' m s = (Inr (), u)" by (simp add: upsert_ledger_def)
  with True assms(2) have "r = Inl (Exc ''PreflightFailed'' [str_int (version m)])" "t = u"
    by (auto simp: bind_eq then_db_eq transaction_def)
  then show thesis using upsert_effect[OF assms(1) u] by (intro stop) (auto simp: stopped_at_def)
next
  case False
  note c = run_migration_cases[OF assms(1), where exec = exec and m = m and postflight = postflight]
  show thesis
  proof (cases "exec (mig_sql m) (schema s)")
    case (Inl e)
    with c False assms have "r = Inl e" "t = s" by (auto simp: bind_eq)
    with Inl assms(1) show thesis by (intro stop) (auto simp: stopped_at_def)
  next
    case (Inr d)
    with c obtain u where u: "run_migration exec postflight who m s = (Inr (if hook_fails postflight d m then ''failed'' else ''passed''), u)"
      "keyed u" "schema u = d" "done_with u = (done_with s)(version m \<mapsto> mig_checksum m)" by auto
    show thesis
    proof (cases "hook_fails postflight d m")
      case True
      with u False assms(2) have "r = Inl (Exc ''PostflightFailed'' [str_int (version m)])" "t = u" by (auto simp: bind_eq)
      with u Inr show thesis by (intro stop) (auto simp: stopped_at_def)
    next
      case ok: False
      obtain r' v where v: "apply_each exec preflight postflight who ms u = (r', v)" by (rule prod.exhaust)
      with u ok False assms(2) have "t = v" "r = (case r' of Inl e \<Rightarrow> Inl e | Inr rest \<Rightarrow> Inr ((version m, mig_description m) # rest))"
        by (auto simp: bind_eq split: sum.splits)
      with u v Inr show thesis by (intro go[of u r']) (auto simp: has_run_def sum_bind_def)
    qed
  qed
qed

lemma has_run_Cons: "has_run exec [m] s u \<Longrightarrow> has_run exec ms u t \<Longrightarrow> has_run exec (m # ms) s t"
  by (auto simp: has_run_def sum_bind_def split: sum.splits)

lemma apply_each_outcome:
  assumes "keyed s" "apply_each exec preflight postflight who ms s = (r, t)"
  shows "case r of
      Inr rows \<Rightarrow> has_run exec ms s t \<and> rows = map (\<lambda>m. (version m, mig_description m)) ms
    | Inl e \<Rightarrow> \<exists>pre m post u. ms = pre @ m # post \<and> has_run exec pre s u \<and> keyed t \<and> stopped_at exec e m u t"
  using assms
proof (induction ms arbitrary: s r)
  case Nil
  then show ?case by (auto simp: has_run_def)
next
  case (Cons m ms)
  from Cons.prems show ?case
  proof (cases rule: apply_each_step)
    case (stop e)
    have "has_run exec [] s s" using Cons.prems(1) by (simp add: has_run_def)
    moreover have "m # ms = [] @ m # ms" by simp
    ultimately show ?thesis using stop(2,3) unfolding stop(1) sum.case by blast
  next
    case (go u r')
    then have "keyed u" by (simp add: has_run_def)
    note IH = Cons.IH[OF this go(2)]
    show ?thesis
    proof (cases r')
      case (Inl e)
      with IH obtain pre x post w where w: "ms = pre @ x # post" "has_run exec pre u w" "keyed t" "stopped_at exec e x w t" by auto
      then have "m # ms = (m # pre) @ x # post" "has_run exec (m # pre) s w" using has_run_Cons[OF go(1)] by auto
      with w(3,4) show ?thesis unfolding go(3) Inl sum.case by blast
    next
      case (Inr rest)
      with IH go show ?thesis by (auto intro: has_run_Cons)
    qed
  qed
qed

section \<open>The next run\<close>

lemma unapplied_after:
  assumes "unapplied f fs = Inr (did @ rest)"
    and "\<And>x. x \<in> set fs \<Longrightarrow> x \<notin> set (did @ rest) \<Longrightarrow> g (version x) = f (version x)"
    and "\<And>x. x \<in> set did \<Longrightarrow> g (version x) = Some (mig_checksum x)" "\<And>x. x \<in> set rest \<Longrightarrow> g (version x) = None"
  shows "unapplied g fs = Inr rest"
proof -
  from assms(1) have f: "did @ rest = filter (\<lambda>m. f (version m) = None) fs"
    "\<And>m. m \<in> set fs \<Longrightarrow> f (version m) \<noteq> None \<Longrightarrow> f (version m) = Some (mig_checksum m)" by (auto simp: unapplied_Inr)
  have keep: "g (version x) = f (version x)" if "x \<in> set fs" "f (version x) \<noteq> None" for x
    using assms(2)[OF that(1)] that(2) unfolding f(1) by simp
  have "filter (\<lambda>m. g (version m) = None) fs = filter (\<lambda>m. g (version m) = None) (did @ rest)"
    unfolding f(1) filter_filter by (rule filter_cong[OF refl]) (metis keep)
  also have "\<dots> = rest" using assms(3,4) by (simp add: filter_empty_conv filter_id_conv)
  finally have r: "filter (\<lambda>m. g (version m) = None) fs = rest" .
  have "g (version m) = Some (mig_checksum m)" if "m \<in> set fs" "g (version m) \<noteq> None" for m
  proof (cases "f (version m) = None")
    case True
    with that f(1) have "m \<in> set (did @ rest)" by simp
    with that(2) assms(3,4) show ?thesis by auto
  qed (use f(2) keep that in auto)
  with r show ?thesis by (simp add: unapplied_Inr)
qed

lemma pending_Inr_parts:
  assumes "unapplied f (filter (\<lambda>m. version m \<noteq> 0) found) = Inr ms" "distinct (map version found)"
  shows "distinct (map version ms)" "\<And>x y. x \<in> set found \<Longrightarrow> y \<in> set ms \<Longrightarrow> version x = version y \<Longrightarrow> x = y"
    "\<And>x. x \<in> set ms \<Longrightarrow> version x \<noteq> 0 \<and> f (version x) = None"
proof -
  from assms(1) have ms: "ms = filter (\<lambda>m. f (version m) = None) (filter (\<lambda>m. version m \<noteq> 0) found)" by (simp add: unapplied_Inr)
  then show "distinct (map version ms)" using assms(2) by (simp add: distinct_map_filter)
  show "\<And>x y. x \<in> set found \<Longrightarrow> y \<in> set ms \<Longrightarrow> version x = version y \<Longrightarrow> x = y"
    using assms(2) ms by (auto simp: distinct_map dest: inj_onD)
  show "\<And>x. x \<in> set ms \<Longrightarrow> version x \<noteq> 0 \<and> f (version x) = None" using ms by auto
qed

lemma pending_after:
  assumes s: "keyed s" "keyed t" and found: "discover sha files = Inr found" "distinct (map version found)"
    and pen: "unapplied (done_with s) (filter (\<lambda>m. version m \<noteq> 0) found) = Inr (did @ rest)"
    and same: "\<And>v. v \<noteq> 0 \<Longrightarrow> v \<notin> version ` set (did @ rest) \<Longrightarrow> done_with t v = done_with s v"
    and did: "\<And>x. x \<in> set did \<Longrightarrow> done_with t (version x) = Some (mig_checksum x)"
    and rest: "\<And>x. x \<in> set rest \<Longrightarrow> done_with t (version x) = None"
  shows "fst (pending sha files t) = Inr rest"
proof -
  note parts = pending_Inr_parts[OF pen found(2)]
  have "unapplied (done_with t) (filter (\<lambda>m. version m \<noteq> 0) found) = Inr rest"
  proof (rule unapplied_after[OF pen _ did rest])
    fix x assume "x \<in> set (filter (\<lambda>m. version m \<noteq> 0) found)" "x \<notin> set (did @ rest)"
    then show "done_with t (version x) = done_with s (version x)" using parts(2)[of x] by (intro same) auto
  qed
  then show ?thesis by (simp add: pending_eq[OF s(2) found(1)])
qed

text \<open>
  C38. What a run of the migrations leaves for the next one, for files that \<open>discover\<close> accepts with
  distinct versions, a ledger with one row per version, and recorded checksums that match the
  files (otherwise \<open>pending\<close> raises before anything is run). A run that returns has executed the
  pending migrations in order, and nothing is pending after it: running it again does nothing. A
  run that raises has stopped at one migration: when its preflight refused it or its text failed,
  it was not executed and is the first one pending; when its postflight refused it, its changes
  stay and the next run continues with the migration after it. The last point is the code's
  behaviour against its documentation, by which a failed postflight halts further migrations and
  the migration does not count as applied.
\<close>

theorem migration_run_resumes:
  assumes "keyed s" "discover sha files = Inr found" "distinct (map version found)"
    and "fst (pending sha files s) = Inr ms" "apply_all sha exec files preflight postflight who s = (r, t)"
  shows "case r of
      Inr rows \<Rightarrow> rows = map (\<lambda>m. (version m, mig_description m)) ms \<and> run_all exec ms (schema s) = Inr (schema t) \<and>
        fst (apply_all sha exec files preflight postflight who t) = Inr []
    | Inl e \<Rightarrow> \<exists>pre m post d. ms = pre @ m # post \<and> run_all exec pre (schema s) = Inr d \<and>
        ((e = Exc ''PreflightFailed'' [str_int (version m)] \<or> exec (mig_sql m) d = Inl e) \<and> schema t = d \<and>
           fst (pending sha files t) = Inr (m # post) \<or>
         e = Exc ''PostflightFailed'' [str_int (version m)] \<and> exec (mig_sql m) d = Inr (schema t) \<and>
           fst (pending sha files t) = Inr post)"
proof -
  define s1 where "s1 = snd (ensure_ledger s)"
  note e = ensure_ledger_effect[OF assms(1), folded s1_def]
  have pen: "unapplied (done_with s) (filter (\<lambda>m. version m \<noteq> 0) found) = Inr ms"
    using assms(4) by (simp add: pending_eq[OF assms(1,2)])
  have run: "apply_each exec preflight postflight who ms s1 = (r, t)"
    using assms(5) by (simp add: apply_all_def bind_eq pending_eq[OF assms(1,2)] pen s1_def)
  note parts = pending_Inr_parts[OF pen assms(3)] and out = apply_each_outcome[OF e(2) run]
  show ?thesis
  proof (cases r)
    case (Inr rows)
    with out have o: "has_run exec ms s1 t" "rows = map (\<lambda>m. (version m, mig_description m)) ms" by auto
    then have t: "keyed t" "run_all exec ms (schema s) = Inr (schema t)" "done_with t = mark ms (done_with s1)" by (simp_all add: has_run_def e(3))
    have "fst (pending sha files t) = Inr []"
      by (rule pending_after[OF assms(1) t(1) assms(2,3), where did = ms]) (use pen parts t(3) e(4) in \<open>auto simp: mark_other mark_own\<close>)
    then have "fst (apply_all sha exec files preflight postflight who t) = Inr []"
      by (cases "pending sha files t") (simp add: apply_all_def bind_eq)
    with o(2) t(2) Inr show ?thesis by simp
  next
    case (Inl x)
    with out obtain pre m post u where o: "ms = pre @ m # post" "has_run exec pre s1 u" "keyed t" "stopped_at exec x m u t" by auto
    then have u: "run_all exec pre (schema s) = Inr (schema u)" "done_with u = mark pre (done_with s1)" by (simp_all add: has_run_def e(3))
    have d: "distinct (map version (pre @ m # post))" using parts(1) o(1) by simp
    have before: "done_with u (version y) = Some (mig_checksum y)" if "y \<in> set pre" for y using that d by (simp add: u(2) mark_own)
    have after: "done_with u (version y) = None" if "y \<in> set (m # post)" for y
    proof -
      have "version y \<notin> version ` set pre" using that d by auto
      with that parts(3)[of y] o(1) show ?thesis by (auto simp: u(2) mark_other e(4))
    qed
    have same: "done_with u v = done_with s v" if "v \<noteq> 0" "v \<notin> version ` set ms" for v
    proof -
      have "v \<notin> version ` set pre" using that(2) o(1) by auto
      with that(1) show ?thesis by (simp add: u(2) mark_other e(4))
    qed
    have resume: "fst (pending sha files t) = Inr (m # post)" if "\<And>v. done_with t v = done_with u v"
      by (rule pending_after[OF assms(1) o(3) assms(2,3), where did = pre]) (use pen o(1) same before after that in auto)
    have skip: "fst (pending sha files t) = Inr post" if "done_with t = (done_with u)(version m \<mapsto> mig_checksum m)"
      by (rule pending_after[OF assms(1) o(3) assms(2,3), where did = "pre @ [m]"])
        (use pen o(1) d same before after that in \<open>auto simp: image_iff\<close>)
    have undone: "(done_with u)(version m := None) = done_with u" using after[of m] by (simp add: fun_upd_idem)
    from o(4) show ?thesis unfolding stopped_at_def Inl sum.case undone using o(1) u(1) resume skip by metis
  qed
qed

text \<open>Two migrations, the first refused by its postflight: the next run takes the second one only.\<close>

definition demo_files :: "(string \<times> string) list" where
  "demo_files = [(''0002_b'', ''B''), (''0001_a'', ''A''), (''0000_ledger'', ''L'')]"

definition demo_exec :: "string \<Rightarrow> string \<Rightarrow> api_error + string" where
  "demo_exec sql d = Inr (d @ sql)"

definition demo_schema :: "string schema_db" where
  "demo_schema = \<lparr>ledger = [], schema = [], wall_clock = 0\<rparr>"

definition demo_check :: "string hook" where
  "demo_check = Some (\<lambda>d m. version m \<noteq> 1)"

definition demo_migrations :: "migration list" where
  "demo_migrations =
     [\<lparr>version = 0, mig_description = ''ledger'', mig_checksum = ''L'', mig_sql = ''L''\<rparr>,
      \<lparr>version = 1, mig_description = ''a'', mig_checksum = ''A'', mig_sql = ''A''\<rparr>,
      \<lparr>version = 2, mig_description = ''b'', mig_checksum = ''B'', mig_sql = ''B''\<rparr>]"

definition demo_failed :: "string schema_db" where
  "demo_failed = snd (apply_all id demo_exec demo_files None demo_check ''me'' demo_schema)"

lemma demo_discover: "discover id demo_files = Inr demo_migrations"
  by code_simp

lemma demo_keyed: "keyed demo_schema"
  by (simp add: keyed_def demo_schema_def)

theorem migration_run_resumes_witness:
  "fst (apply_all id demo_exec demo_files None demo_check ''me'' demo_schema) = Inl (Exc ''PostflightFailed'' [''1'']) \<and>
   schema demo_failed = ''A'' \<and> map version (case fst (pending id demo_files demo_failed) of Inr ms \<Rightarrow> ms | Inl _ \<Rightarrow> []) = [2]"
proof -
  have p: "fst (pending id demo_files demo_schema) = Inr (tl demo_migrations)" by code_simp
  have d: "distinct (map version demo_migrations)" by code_simp
  have r: "fst (apply_all id demo_exec demo_files None demo_check ''me'' demo_schema) = Inl (Exc ''PostflightFailed'' [''1''])" by code_simp
  then have run: "apply_all id demo_exec demo_files None demo_check ''me'' demo_schema = (Inl (Exc ''PostflightFailed'' [''1'']), demo_failed)"
    unfolding demo_failed_def by (metis prod.collapse)
  from migration_run_resumes[OF demo_keyed demo_discover d p run, unfolded sum.case] obtain pre m post d where
    o: "tl demo_migrations = pre @ m # post" "run_all demo_exec pre (schema demo_schema) = Inr d"
      "Exc ''PostflightFailed'' [''1''] = Exc ''PostflightFailed'' [str_int (version m)]" "demo_exec (mig_sql m) d = Inr (schema demo_failed)"
      "fst (pending id demo_files demo_failed) = Inr post"
    by (auto simp: demo_exec_def)
  have one: "''1'' = str_int 1" by code_simp
  from o(3) have "version m = 1" unfolding one by simp
  with o(1) have "pre = []" "post = tl (tl demo_migrations)" "mig_sql m = ''A''"
    by (auto simp: demo_migrations_def Cons_eq_append_conv append_eq_Cons_conv)
  with o r show ?thesis by (simp add: demo_exec_def demo_schema_def demo_migrations_def)
qed

end
