(* ===== verification/Shadow.thy ===== *)
theory Shadow
  imports Platform
begin

text \<open>
  The comparison of an exported snapshot of the first version of the system with the records of
  this one, \<open>packages/tender/shadow_comparison.py\<close>. Records follow the contract of the module's
  documentation. \<open>fromiso\<close> is \<open>datetime.fromisoformat\<close>: the time and whether it carries an offset;
  Python refuses to order a time with an offset and one without. A reason is the list of the
  values its text interpolates, after a tag for the branch.
\<close>

record boq_state =
  boq_present :: bool
  completeness_status :: "string option"

record shadow_record =
  source_record_id :: string
  record_kind :: "string option"
  record_status :: "string option"
  key_details :: jobject
  captured_at :: "string option"
  record_boq :: "boq_state option"

record discrepancy =
  d_id :: string
  d_kind :: string
  d_field :: "string option"
  d_v1 :: json
  d_v2 :: json
  bucket :: "string option"
  reason :: "string list"

record shadow_report =
  v1_count :: nat
  v2_count :: nat
  matched_count :: nat
  duplicates_v1 :: "string list"
  duplicates_v2 :: "string list"
  discrepancies :: "discrepancy list"
  bucket_counts :: "(string \<times> nat) list"

definition BUCKETS :: "string list" where
  "BUCKETS = [''v1_loss'', ''v2_defect'', ''source_drift'', ''expected_semantic_difference'']"

text \<open>The loop of \<open>_index_by_id\<close>, over the index built so far.\<close>

fun index_from :: "(string \<times> shadow_record) list \<Rightarrow> string list \<Rightarrow> shadow_record list \<Rightarrow> (string \<times> shadow_record) list \<times> string list" where
  "index_from idx dups [] = (idx, dups)"
| "index_from idx dups (r # rs) =
     (let rid = source_record_id r in
      if rid \<in> fst ` set idx then index_from idx (dups @ [rid]) rs
      else index_from (idx @ [(rid, r)]) dups rs)"

definition index_by_id :: "shadow_record list \<Rightarrow> (string \<times> shadow_record) list \<times> string list" where
  "index_by_id rs = index_from [] [] rs"

definition parse_timestamp :: "(string \<Rightarrow> (int \<times> bool) option) \<Rightarrow> string option \<Rightarrow> (int \<times> bool) option" where
  "parse_timestamp fromiso v = (case v of None \<Rightarrow> None | Some x \<Rightarrow> fromiso x)"

definition drift_plausible :: "(string \<Rightarrow> (int \<times> bool) option) \<Rightarrow> shadow_record \<Rightarrow> shadow_record \<Rightarrow> api_error + bool" where
  "drift_plausible fromiso a b =
     (case (parse_timestamp fromiso (captured_at a), parse_timestamp fromiso (captured_at b)) of
        (Some (t1, z1), Some (t2, z2)) \<Rightarrow> if z1 \<noteq> z2 then Inl (Exc ''TypeError'' []) else Inr (t1 < t2)
      | _ \<Rightarrow> Inr False)"

definition classify_scoped_absence :: "string \<Rightarrow> string \<Rightarrow> string option \<Rightarrow> string list option \<Rightarrow> string \<Rightarrow> string \<Rightarrow> bool \<Rightarrow> bool \<Rightarrow> discrepancy" where
  "classify_scoped_absence rid kind rkind covers side defect v1 v2 =
     (let (b, why) =
        (case (covers, rkind) of
           (Some cs, Some k) \<Rightarrow>
             if k \<in> set cs then (Some defect, [''inside scope'', k, side])
             else (Some ''expected_semantic_difference'', [''outside scope'', k, side])
         | _ \<Rightarrow> (None, [''scope unknown'', side])) in
      \<lparr>d_id = rid, d_kind = kind, d_field = None, d_v1 = JBool v1, d_v2 = JBool v2, bucket = b, reason = why\<rparr>)"

definition classify_field_mismatch :: "(string \<Rightarrow> (int \<times> bool) option) \<Rightarrow> string \<Rightarrow> string \<Rightarrow> json \<Rightarrow> json \<Rightarrow> shadow_record \<Rightarrow> shadow_record \<Rightarrow>
    string list option \<Rightarrow> api_error + discrepancy" where
  "classify_field_mismatch fromiso rid field v1 v2 a b expected =
     sum_bind
       (if (case expected of None \<Rightarrow> False | Some fs \<Rightarrow> field \<in> set fs) then Inr (Some ''expected_semantic_difference'', [''expected field'', field])
        else sum_bind (drift_plausible fromiso a b) (\<lambda>drift.
          Inr (if drift then (Some ''source_drift'', [''drift'']) else (None, [''field differs'', field])))) (\<lambda>(bk, why).
     Inr \<lparr>d_id = rid, d_kind = ''field_mismatch'', d_field = Some field, d_v1 = v1, d_v2 = v2, bucket = bk, reason = why\<rparr>)"

definition classify_boq_completeness_mismatch :: "string \<Rightarrow> string option \<Rightarrow> string option \<Rightarrow> discrepancy" where
  "classify_boq_completeness_mismatch rid s1 s2 =
     (let (b, why) =
        (if s1 = None then (Some ''expected_semantic_difference'', [''v1 has no completeness''])
         else if s2 = None then (Some ''expected_semantic_difference'', [''v2 has no completeness''])
         else if s1 = Some ''complete'' \<and> s2 = Some ''incomplete'' then (Some ''v2_defect'', [''v2 incomplete''])
         else if s2 = Some ''complete'' \<and> s1 \<noteq> Some ''complete'' then (Some ''v1_loss'', [''v1 never complete''])
         else (None, [''completeness differs''])) in
      \<lparr>d_id = rid, d_kind = ''boq_completeness_mismatch'', d_field = Some ''completeness_status'', d_v1 = json_opt s1, d_v2 = json_opt s2,
       bucket = b, reason = why\<rparr>)"

text \<open>The parts of the loop over the common ids, in its order.\<close>

definition status_part :: "(string \<Rightarrow> (int \<times> bool) option) \<Rightarrow> string list option \<Rightarrow> string \<Rightarrow> shadow_record \<Rightarrow> shadow_record \<Rightarrow> api_error + discrepancy list" where
  "status_part fromiso expected rid a b =
     (if record_status a \<noteq> record_status b then
        sum_bind (classify_field_mismatch fromiso rid ''status'' (json_opt (record_status a)) (json_opt (record_status b)) a b expected) (\<lambda>d. Inr [d])
      else Inr [])"

definition common_keys :: "jobject \<Rightarrow> jobject \<Rightarrow> string list" where
  "common_keys x y = sorted_set (filter (\<lambda>k. k \<in> fst ` set y) (map fst x))"

definition keys_only_in :: "jobject \<Rightarrow> jobject \<Rightarrow> string list" where
  "keys_only_in x y = sorted_set (filter (\<lambda>k. k \<notin> fst ` set y) (map fst x))"

definition details_part :: "(string \<Rightarrow> (int \<times> bool) option) \<Rightarrow> string list option \<Rightarrow> string \<Rightarrow> shadow_record \<Rightarrow> shadow_record \<Rightarrow> api_error + discrepancy list" where
  "details_part fromiso expected rid a b =
     sum_map (\<lambda>k. classify_field_mismatch fromiso rid k (jget (key_details a) k) (jget (key_details b) k) a b expected)
       (filter (\<lambda>k. \<not> py_eq (jget (key_details a) k) (jget (key_details b) k)) (common_keys (key_details a) (key_details b)))"

definition structural_part :: "string \<Rightarrow> shadow_record \<Rightarrow> shadow_record \<Rightarrow> discrepancy list" where
  "structural_part rid a b =
     map (\<lambda>k. \<lparr>d_id = rid, d_kind = ''field_mismatch'', d_field = Some k, d_v1 = jget (key_details a) k, d_v2 = JNull,
        bucket = Some ''expected_semantic_difference'', reason = [''not on v2'', k]\<rparr>) (keys_only_in (key_details a) (key_details b)) @
     map (\<lambda>k. \<lparr>d_id = rid, d_kind = ''field_mismatch'', d_field = Some k, d_v1 = JNull, d_v2 = jget (key_details b) k,
        bucket = Some ''expected_semantic_difference'', reason = [''not on v1'', k]\<rparr>) (keys_only_in (key_details b) (key_details a))"

definition has_boq :: "shadow_record \<Rightarrow> bool" where
  "has_boq r = (case record_boq r of None \<Rightarrow> False | Some q \<Rightarrow> boq_present q)"

definition completeness_of :: "shadow_record \<Rightarrow> string option" where
  "completeness_of r = (case record_boq r of None \<Rightarrow> None | Some q \<Rightarrow> completeness_status q)"

definition boq_part :: "string list option \<Rightarrow> string list option \<Rightarrow> string \<Rightarrow> shadow_record \<Rightarrow> shadow_record \<Rightarrow> discrepancy list" where
  "boq_part cov1 cov2 rid a b =
     (if has_boq a \<and> \<not> has_boq b then [classify_scoped_absence rid ''boq_presence_mismatch'' (record_kind a) cov2 ''v2'' ''v2_defect'' True False]
      else if has_boq b \<and> \<not> has_boq a then [classify_scoped_absence rid ''boq_presence_mismatch'' (record_kind b) cov1 ''v1'' ''v1_loss'' False True]
      else if has_boq a \<and> has_boq b \<and> completeness_of a \<noteq> completeness_of b
      then [classify_boq_completeness_mismatch rid (completeness_of a) (completeness_of b)]
      else [])"

definition compare_records :: "(string \<Rightarrow> (int \<times> bool) option) \<Rightarrow> string list option \<Rightarrow> string list option \<Rightarrow> string list option \<Rightarrow>
    string \<Rightarrow> shadow_record \<Rightarrow> shadow_record \<Rightarrow> api_error + discrepancy list" where
  "compare_records fromiso cov1 cov2 expected rid a b =
     sum_bind (status_part fromiso expected rid a b) (\<lambda>ds1.
     sum_bind (details_part fromiso expected rid a b) (\<lambda>ds2.
     Inr (ds1 @ ds2 @ structural_part rid a b @ boq_part cov1 cov2 rid a b)))"

definition count_bucket :: "discrepancy list \<Rightarrow> string option \<Rightarrow> nat" where
  "count_bucket ds b = length (filter (\<lambda>d. bucket d = b) ds)"

definition compare_snapshots :: "(string \<Rightarrow> (int \<times> bool) option) \<Rightarrow> string list option \<Rightarrow> string list option \<Rightarrow> string list option \<Rightarrow>
    shadow_record list \<Rightarrow> shadow_record list \<Rightarrow> api_error + shadow_report" where
  "compare_snapshots fromiso cov1 cov2 expected v1 v2 =
     (let (idx1, dup1) = index_by_id v1;
          (idx2, dup2) = index_by_id v2;
          only1 = sorted_set (filter (\<lambda>i. i \<notin> fst ` set idx2) (map fst idx1));
          only2 = sorted_set (filter (\<lambda>i. i \<notin> fst ` set idx1) (map fst idx2));
          common = sorted_set (filter (\<lambda>i. i \<in> fst ` set idx2) (map fst idx1));
          absent2 = map (\<lambda>i. classify_scoped_absence i ''missing_from_v2'' (record_kind (the (map_of idx1 i))) cov2 ''v2'' ''v2_defect'' True False) only1;
          absent1 = map (\<lambda>i. classify_scoped_absence i ''missing_from_v1'' (record_kind (the (map_of idx2 i))) cov1 ''v1'' ''v1_loss'' False True) only2 in
      sum_bind (sum_map (\<lambda>i. compare_records fromiso cov1 cov2 expected i (the (map_of idx1 i)) (the (map_of idx2 i))) common) (\<lambda>shared.
      let ds = absent2 @ absent1 @ concat shared in
      Inr \<lparr>v1_count = length v1, v2_count = length v2, matched_count = length common, duplicates_v1 = dup1, duplicates_v2 = dup2,
        discrepancies = ds,
        bucket_counts = map (\<lambda>b. (b, count_bucket ds (Some b))) BUCKETS @ [(''unresolved'', count_bucket ds None)]\<rparr>))"

section \<open>The index\<close>

lemma index_from_spec:
  assumes "index_from idx dups rs = (idx', dups')" "distinct (map fst idx)"
  shows "distinct (map fst idx') \<and> fst ` set idx' = fst ` set idx \<union> source_record_id ` set rs \<and>
    length idx' + length dups' = length idx + length dups + length rs \<and>
    map_of idx' i = (case map_of idx i of Some r \<Rightarrow> Some r | None \<Rightarrow> find (\<lambda>r. source_record_id r = i) rs)"
  using assms
proof (induction rs arbitrary: idx dups)
  case Nil
  then show ?case by (simp split: option.split)
next
  case (Cons r rs)
  let ?rid = "source_record_id r"
  show ?case
  proof (cases "?rid \<in> fst ` set idx")
    case True
    then have "map_of idx ?rid \<noteq> None" by (simp add: map_of_eq_None_iff)
    with Cons.IH[of idx "dups @ [?rid]"] Cons.prems True show ?thesis by (auto split: option.splits)
  next
    case False
    then have "map_of (idx @ [(?rid, r)]) i = (if i = ?rid then Some r else map_of idx i)" "map_of idx ?rid = None"
      by (simp_all add: map_of_snoc map_of_eq_None_iff del: map_of_append)
    with Cons.IH[of "idx @ [(?rid, r)]" dups] Cons.prems False show ?thesis
      by (auto simp del: map_of_append split: option.splits)
  qed
qed

definition first_record :: "shadow_record list \<Rightarrow> string \<Rightarrow> shadow_record option" where
  "first_record rs i = find (\<lambda>r. source_record_id r = i) rs"

lemma index_by_id_spec:
  assumes "index_by_id rs = (idx, dups)"
  shows "distinct (map fst idx)" "fst ` set idx = source_record_id ` set rs" "length idx + length dups = length rs"
    "map_of idx = first_record rs"
  using index_from_spec[of "[]" "[]" rs idx dups] assms by (simp_all add: index_by_id_def first_record_def fun_eq_iff)

section \<open>Two records\<close>

definition detail_keys :: "shadow_record \<Rightarrow> string set" where
  "detail_keys r = fst ` set (key_details r)"

definition agrees :: "shadow_record \<Rightarrow> shadow_record \<Rightarrow> bool" where
  "agrees a b \<longleftrightarrow> record_status a = record_status b \<and> detail_keys a = detail_keys b \<and>
     (\<forall>k \<in> detail_keys a. py_eq (jget (key_details a) k) (jget (key_details b) k)) \<and>
     has_boq a = has_boq b \<and> (has_boq a \<longrightarrow> completeness_of a = completeness_of b)"

definition sorted_out :: "discrepancy \<Rightarrow> bool" where
  "sorted_out d \<longleftrightarrow> bucket d \<in> set (map Some BUCKETS @ [None])"

definition kinds :: "discrepancy list \<Rightarrow> string set" where
  "kinds ds = d_kind ` set ds"

lemma scoped_absence: "d_kind (classify_scoped_absence i k rk c sd df x y) = k"
  "df \<in> set BUCKETS \<Longrightarrow> sorted_out (classify_scoped_absence i k rk c sd df x y)"
  by (auto simp: classify_scoped_absence_def sorted_out_def BUCKETS_def split: option.splits prod.splits)

lemma field_mismatch: "classify_field_mismatch fromiso i f x y a b e = Inr d \<Longrightarrow> d_kind d = ''field_mismatch'' \<and> sorted_out d"
  by (auto simp: classify_field_mismatch_def sum_bind_Inr sorted_out_def BUCKETS_def split: if_splits option.splits)

lemma completeness_mismatch: "d_kind (classify_boq_completeness_mismatch i x y) = ''boq_completeness_mismatch''"
  "sorted_out (classify_boq_completeness_mismatch i x y)"
  by (auto simp: classify_boq_completeness_mismatch_def sorted_out_def BUCKETS_def)

lemma status_part_Inr:
  assumes "status_part fromiso e i a b = Inr ds"
  shows "(ds = [] \<longleftrightarrow> record_status a = record_status b) \<and> (\<forall>d \<in> set ds. d_kind d = ''field_mismatch'' \<and> sorted_out d)"
  using assms field_mismatch by (fastforce simp: status_part_def sum_bind_Inr split: if_splits)

lemma details_part_Inr:
  assumes "details_part fromiso e i a b = Inr ds"
  shows "(ds = [] \<longleftrightarrow> (\<forall>k \<in> detail_keys a \<inter> detail_keys b. py_eq (jget (key_details a) k) (jget (key_details b) k))) \<and>
    (\<forall>d \<in> set ds. d_kind d = ''field_mismatch'' \<and> sorted_out d)"
proof -
  let ?ks = "filter (\<lambda>k. \<not> py_eq (jget (key_details a) k) (jget (key_details b) k)) (common_keys (key_details a) (key_details b))"
  have l: "list_all2 (\<lambda>k d. classify_field_mismatch fromiso i k (jget (key_details a) k) (jget (key_details b) k) a b e = Inr d) ?ks ds"
    using assms unfolding details_part_def sum_map_Inr .
  have "ds = [] \<longleftrightarrow> ?ks = []" using list_all2_lengthD[OF l] by auto
  also have "\<dots> \<longleftrightarrow> (\<forall>k \<in> detail_keys a \<inter> detail_keys b. py_eq (jget (key_details a) k) (jget (key_details b) k))"
    by (auto simp: filter_empty_conv common_keys_def detail_keys_def)
  finally have e: "ds = [] \<longleftrightarrow> (\<forall>k \<in> detail_keys a \<inter> detail_keys b. py_eq (jget (key_details a) k) (jget (key_details b) k))" .
  from l have "list_all2 (\<lambda>k d. d_kind d = ''field_mismatch'' \<and> sorted_out d) ?ks ds" by (rule list_all2_mono) (rule field_mismatch)
  with e show ?thesis by (auto simp: list_all2_conv_all_nth in_set_conv_nth)
qed

lemma structural_part_spec:
  "structural_part i a b = [] \<longleftrightarrow> detail_keys a = detail_keys b"
  "d \<in> set (structural_part i a b) \<Longrightarrow> d_kind d = ''field_mismatch'' \<and> sorted_out d"
  by (auto simp: structural_part_def keys_only_in_def filter_empty_conv sorted_out_def BUCKETS_def detail_keys_def)

lemma boq_part_spec:
  "boq_part c1 c2 i a b = [] \<longleftrightarrow> has_boq a = has_boq b \<and> (has_boq a \<longrightarrow> completeness_of a = completeness_of b)"
  "d \<in> set (boq_part c1 c2 i a b) \<Longrightarrow> d_kind d \<in> {''boq_presence_mismatch'', ''boq_completeness_mismatch''} \<and> sorted_out d"
  by (auto simp: boq_part_def scoped_absence completeness_mismatch BUCKETS_def split: if_splits)

lemma compare_records_Inr:
  assumes "compare_records fromiso c1 c2 e i a b = Inr ds"
  shows "ds = [] \<longleftrightarrow> agrees a b"
    "d \<in> set ds \<Longrightarrow> d_kind d \<in> {''field_mismatch'', ''boq_presence_mismatch'', ''boq_completeness_mismatch''} \<and> sorted_out d"
proof -
  from assms obtain ds1 ds2 where p: "status_part fromiso e i a b = Inr ds1" "details_part fromiso e i a b = Inr ds2"
    "ds = ds1 @ ds2 @ structural_part i a b @ boq_part c1 c2 i a b"
    by (auto simp: compare_records_def sum_bind_Inr)
  note q = status_part_Inr[OF p(1)] details_part_Inr[OF p(2)]
  show "ds = [] \<longleftrightarrow> agrees a b"
    using q by (auto simp: p(3) agrees_def structural_part_spec(1) boq_part_spec(1))
  show "d \<in> set ds \<Longrightarrow> d_kind d \<in> {''field_mismatch'', ''boq_presence_mismatch'', ''boq_completeness_mismatch''} \<and> sorted_out d"
    using q structural_part_spec(2) boq_part_spec(2) unfolding p(3) by fastforce
qed

lemma compare_all_records:
  assumes "list_all2 (\<lambda>i ds. compare_records fromiso c1 c2 e i (f i) (g i) = Inr ds) ids shared"
  shows "(concat shared = [] \<longleftrightarrow> (\<forall>i \<in> set ids. agrees (f i) (g i))) \<and>
    (\<forall>d \<in> set (concat shared). d_kind d \<in> {''field_mismatch'', ''boq_presence_mismatch'', ''boq_completeness_mismatch''} \<and> sorted_out d)"
  using assms
proof (induction rule: list_all2_induct)
  case (Cons i ids ds shared)
  then show ?case using compare_records_Inr(2)[OF Cons.hyps(1)] by (simp only: concat.simps append_is_Nil_conv compare_records_Inr(1)[OF Cons.hyps(1)] set_append Un_iff list.set ball_simps) blast
qed simp

section \<open>The report\<close>

lemma count_bucket_total:
  assumes "\<And>d. d \<in> set ds \<Longrightarrow> sorted_out d"
  shows "sum_list (map (count_bucket ds) (map Some BUCKETS @ [None])) = length ds"
proof -
  have c: "count_bucket ds = count_list (map bucket ds)"
    by (rule ext, induction ds) (auto simp: count_bucket_def)
  have "distinct (map Some BUCKETS @ [None])" by (simp add: BUCKETS_def)
  moreover have "set (map bucket ds) \<subseteq> set (map Some BUCKETS @ [None])" using assms by (auto simp: sorted_out_def)
  ultimately show ?thesis
    using sum_count_set[of "map bucket ds" "set (map Some BUCKETS @ [None])"]
    by (simp only: c sum_list_distinct_conv_sum_set length_map List.finite_set)
qed

lemma partition_ids:
  assumes "distinct xs"
  shows "length (sorted_set (filter p xs)) + length (sorted_set (filter (\<lambda>x. \<not> p x) xs)) = length xs"
  using assms by (simp add: sorted_set_def distinct_remdups_id sum_length_filter_compl)

lemma compare_snapshots_Inr:
  assumes "compare_snapshots fromiso c1 c2 e v1 v2 = Inr rep" "index_by_id v1 = (idx1, dup1)" "index_by_id v2 = (idx2, dup2)"
  obtains shared absent1 absent2 where
    "list_all2 (\<lambda>i ds. compare_records fromiso c1 c2 e i (the (first_record v1 i)) (the (first_record v2 i)) = Inr ds)
       (sorted_set (filter (\<lambda>i. i \<in> fst ` set idx2) (map fst idx1))) shared"
    "discrepancies rep = absent2 @ absent1 @ concat shared"
    "length absent2 = length (sorted_set (filter (\<lambda>i. i \<notin> fst ` set idx2) (map fst idx1)))"
    "length absent1 = length (sorted_set (filter (\<lambda>i. i \<notin> fst ` set idx1) (map fst idx2)))"
    "\<forall>d \<in> set absent2. d_kind d = ''missing_from_v2'' \<and> sorted_out d"
    "\<forall>d \<in> set absent1. d_kind d = ''missing_from_v1'' \<and> sorted_out d"
    "matched_count rep = length (sorted_set (filter (\<lambda>i. i \<in> fst ` set idx2) (map fst idx1)))" "duplicates_v1 rep = dup1" "duplicates_v2 rep = dup2"
    "map snd (bucket_counts rep) = map (count_bucket (discrepancies rep)) (map Some BUCKETS @ [None])"
proof -
  note m = index_by_id_spec(4)[OF assms(2)] index_by_id_spec(4)[OF assms(3)]
  from assms(1) obtain shared where sh: "sum_map (\<lambda>i. compare_records fromiso c1 c2 e i (the (first_record v1 i)) (the (first_record v2 i)))
      (sorted_set (filter (\<lambda>i. i \<in> fst ` set idx2) (map fst idx1))) = Inr shared"
    unfolding compare_snapshots_def assms(2,3) prod.case Let_def sum_bind_Inr m by blast
  show thesis
  proof (rule that)
    show "list_all2 (\<lambda>i ds. compare_records fromiso c1 c2 e i (the (first_record v1 i)) (the (first_record v2 i)) = Inr ds)
       (sorted_set (filter (\<lambda>i. i \<in> fst ` set idx2) (map fst idx1))) shared" using sh unfolding sum_map_Inr .
    show "discrepancies rep = map (\<lambda>i. classify_scoped_absence i ''missing_from_v2'' (record_kind (the (first_record v1 i))) c2 ''v2'' ''v2_defect'' True False)
          (sorted_set (filter (\<lambda>i. i \<notin> fst ` set idx2) (map fst idx1))) @
        map (\<lambda>i. classify_scoped_absence i ''missing_from_v1'' (record_kind (the (first_record v2 i))) c1 ''v1'' ''v1_loss'' False True)
          (sorted_set (filter (\<lambda>i. i \<notin> fst ` set idx1) (map fst idx2))) @ concat shared"
      using assms(1) sh unfolding compare_snapshots_def assms(2,3) prod.case Let_def m sum_bind_def by auto
    show "matched_count rep = length (sorted_set (filter (\<lambda>i. i \<in> fst ` set idx2) (map fst idx1)))" "duplicates_v1 rep = dup1" "duplicates_v2 rep = dup2"
      "map snd (bucket_counts rep) = map (count_bucket (discrepancies rep)) (map Some BUCKETS @ [None])"
      using assms(1) sh unfolding compare_snapshots_def assms(2,3) prod.case Let_def m sum_bind_def by auto
  qed (auto simp: scoped_absence BUCKETS_def)
qed

text \<open>
  C39. A shadow comparison accounts for every record: on each side the records are the matched ones,
  those reported missing from the other side and the duplicates; every discrepancy is counted in
  exactly one bucket or as unresolved; and nothing is reported exactly when both sides hold the
  same ids and the first records of each id agree on status, details, BOQ presence and
  completeness.
\<close>

theorem shadow_report_accounts:
  assumes "compare_snapshots fromiso c1 c2 e v1 v2 = Inr rep"
  shows "length v1 = matched_count rep + length (filter (\<lambda>d. d_kind d = ''missing_from_v2'') (discrepancies rep)) + length (duplicates_v1 rep) \<and>
    length v2 = matched_count rep + length (filter (\<lambda>d. d_kind d = ''missing_from_v1'') (discrepancies rep)) + length (duplicates_v2 rep) \<and>
    sum_list (map snd (bucket_counts rep)) = length (discrepancies rep) \<and>
    (discrepancies rep = [] \<longleftrightarrow> source_record_id ` set v1 = source_record_id ` set v2 \<and>
       (\<forall>i \<in> source_record_id ` set v1. agrees (the (first_record v1 i)) (the (first_record v2 i))))"
proof -
  obtain idx1 dup1 idx2 dup2 where x: "index_by_id v1 = (idx1, dup1)" "index_by_id v2 = (idx2, dup2)" by (meson prod.exhaust)
  note s1 = index_by_id_spec[OF x(1)] and s2 = index_by_id_spec[OF x(2)]
  obtain shared absent1 absent2 where r:
    "list_all2 (\<lambda>i ds. compare_records fromiso c1 c2 e i (the (first_record v1 i)) (the (first_record v2 i)) = Inr ds)
       (sorted_set (filter (\<lambda>i. i \<in> fst ` set idx2) (map fst idx1))) shared"
    "discrepancies rep = absent2 @ absent1 @ concat shared"
    "length absent2 = length (sorted_set (filter (\<lambda>i. i \<notin> fst ` set idx2) (map fst idx1)))"
    "length absent1 = length (sorted_set (filter (\<lambda>i. i \<notin> fst ` set idx1) (map fst idx2)))"
    "\<forall>d \<in> set absent2. d_kind d = ''missing_from_v2'' \<and> sorted_out d"
    "\<forall>d \<in> set absent1. d_kind d = ''missing_from_v1'' \<and> sorted_out d"
    and rep: "matched_count rep = length (sorted_set (filter (\<lambda>i. i \<in> fst ` set idx2) (map fst idx1)))" "duplicates_v1 rep = dup1" "duplicates_v2 rep = dup2"
      "map snd (bucket_counts rep) = map (count_bucket (discrepancies rep)) (map Some BUCKETS @ [None])"
    by (rule compare_snapshots_Inr[OF assms x])
  let ?common = "sorted_set (filter (\<lambda>i. i \<in> fst ` set idx2) (map fst idx1))"
  note all = compare_all_records[OF r(1)]
  have other: "\<forall>d \<in> set (concat shared). d_kind d \<noteq> ''missing_from_v2'' \<and> d_kind d \<noteq> ''missing_from_v1'' \<and> sorted_out d"
    using conjunct2[OF all] by fastforce
  have missing: "filter (\<lambda>d. d_kind d = ''missing_from_v2'') (discrepancies rep) = absent2"
    "filter (\<lambda>d. d_kind d = ''missing_from_v1'') (discrepancies rep) = absent1"
    using r(5,6) other unfolding r(2) filter_append by (simp_all add: filter_empty_conv filter_id_conv del: set_concat)
  have "set (filter (\<lambda>i. i \<in> fst ` set idx2) (map fst idx1)) = set (filter (\<lambda>i. i \<in> fst ` set idx1) (map fst idx2))" by auto
  then have common: "?common = sorted_set (filter (\<lambda>i. i \<in> fst ` set idx1) (map fst idx2))" by (rule sorted_set_cong)
  have "length idx1 = matched_count rep + length absent2"
    using partition_ids[OF s1(1), of "\<lambda>i. i \<in> fst ` set idx2"] by (simp add: rep(1) r(3))
  moreover have "length idx2 = matched_count rep + length absent1"
    using partition_ids[OF s2(1), of "\<lambda>i. i \<in> fst ` set idx1"] by (simp only: rep(1) r(4) common length_map)
  moreover have "sum_list (map snd (bucket_counts rep)) = length (discrepancies rep)"
    unfolding rep(4) by (rule count_bucket_total) (use r(5,6) other in \<open>auto simp: r(2) simp del: set_concat\<close>)
  moreover have "discrepancies rep = [] \<longleftrightarrow> source_record_id ` set v1 = source_record_id ` set v2 \<and>
       (\<forall>i \<in> source_record_id ` set v1. agrees (the (first_record v1 i)) (the (first_record v2 i)))"
  proof -
    have "absent2 = [] \<longleftrightarrow> source_record_id ` set v1 \<subseteq> source_record_id ` set v2"
      unfolding s1(2)[symmetric] s2(2)[symmetric] length_0_conv[symmetric] r(3) by (auto simp: filter_empty_conv)
    moreover have "absent1 = [] \<longleftrightarrow> source_record_id ` set v2 \<subseteq> source_record_id ` set v1"
      unfolding s1(2)[symmetric] s2(2)[symmetric] length_0_conv[symmetric] r(4) by (auto simp: filter_empty_conv)
    moreover have "set ?common = source_record_id ` set v1 \<inter> source_record_id ` set v2"
      unfolding s1(2)[symmetric] s2(2)[symmetric] by auto
    ultimately show ?thesis unfolding r(2) append_is_Nil_conv conjunct1[OF all] by auto
  qed
  ultimately show ?thesis using s1(3) s2(3) missing rep(2,3) by simp
qed

definition demo_record :: "string \<Rightarrow> string \<Rightarrow> shadow_record" where
  "demo_record i st = \<lparr>source_record_id = i, record_kind = Some ''design_tender'', record_status = Some st, key_details = [(''title'', JStr ''x'')],
     captured_at = None, record_boq = None\<rparr>"

definition demo_report :: "api_error + shadow_report" where
  "demo_report = compare_snapshots (\<lambda>_. None) None (Some [''design_tender'']) None
     [demo_record ''a'' ''open'', demo_record ''a'' ''open'', demo_record ''b'' ''open''] [demo_record ''a'' ''closed'', demo_record ''c'' ''open'']"

theorem shadow_report_accounts_witness:
  "\<exists>rep. demo_report = Inr rep \<and> sum_list (map snd (bucket_counts rep)) = length (discrepancies rep) \<and>
     map bucket (discrepancies rep) = [Some ''v2_defect'', None, None]"
proof -
  have c: "(case demo_report of Inr rep \<Rightarrow> map bucket (discrepancies rep) = [Some ''v2_defect'', None, None] | Inl _ \<Rightarrow> False)" by code_simp
  obtain rep where r: "demo_report = Inr rep" "map bucket (discrepancies rep) = [Some ''v2_defect'', None, None]"
  proof (cases demo_report)
    case (Inl e)
    from c show thesis unfolding Inl by simp
  next
    case (Inr rep)
    from c show thesis unfolding Inr sum.case by (rule that[OF Inr])
  qed
  from shadow_report_accounts[OF r(1)[unfolded demo_report_def]] have b: "sum_list (map snd (bucket_counts rep)) = length (discrepancies rep)"
    by (elim conjE)
  show ?thesis by (intro exI[of _ rep] conjI r b)
qed

end
