(* ===== verification/Case_Builder.thy ===== *)
theory Case_Builder
  imports Matching Simulation
begin

text \<open>
  Simulation cases from the facts of the decision layer,
  \<open>packages/decision/simulation_case_builder.py\<close>. \<open>Decimal(value)\<close> is an argument; \<open>None\<close> is its
  \<open>InvalidOperation\<close>.
\<close>

definition parse_decimal :: "(string \<Rightarrow> dec option) \<Rightarrow> string option \<Rightarrow> dec option" where
  "parse_decimal decimal v = (case v of None \<Rightarrow> None | Some x \<Rightarrow> decimal x)"

text \<open>\<open>human_overrides or {}\<close>: a missing dict and an empty one are the same.\<close>

definition overrides_or_empty :: "(string \<times> string) list option \<Rightarrow> (string \<times> string) list" where
  "overrides_or_empty v = (case v of None \<Rightarrow> [] | Some d \<Rightarrow> d)"

definition build_case_from_bid_readiness :: "bid_readiness_candidate \<Rightarrow> string \<Rightarrow> string option \<Rightarrow> string option \<Rightarrow> (string \<times> string) list option \<Rightarrow> simulation_case" where
  "build_case_from_bid_readiness c cid cur label overrides =
     (let s = summary c in
      \<lparr>case_id = cid,
       inputs = [(''coverage_pct'', JFloat (float64 (green_pct s + yellow_pct s))), (''green_pct'', JFloat (green_pct s)),
         (''yellow_pct'', JFloat (yellow_pct s)), (''red_pct'', JFloat (red_pct s)), (''is_lottery'', JBool (is_lottery c)),
         (''critical_line_count'', JInt (int (length (critical_lines c)))), (''unpriced_line_count'', JInt (int (unpriced_line_count s))),
         (''non_matchable_line_count'', JInt (int (non_matchable_line_count s)))],
       human_overrides = overrides_or_empty overrides, case_amount = Some (total_priced_amount s), case_currency = cur,
       case_outcome = label\<rparr>)"

text \<open>The three entries of an outcome that are read; a missing \<open>outcome\<close> raises a \<open>KeyError\<close> in the caller's dict, which always has it.\<close>

record outcome_facts =
  of_outcome :: string
  of_our_submitted_amount :: "string option"
  of_currency :: "string option"

definition build_case_from_tender_outcome :: "(string \<Rightarrow> dec option) \<Rightarrow> outcome_facts \<Rightarrow> string \<Rightarrow> (string \<times> string) list option \<Rightarrow> simulation_case" where
  "build_case_from_tender_outcome decimal x cid overrides =
     (let amount = parse_decimal decimal (of_our_submitted_amount x) in
      \<lparr>case_id = cid, inputs = [(''outcome'', JStr (of_outcome x))], human_overrides = overrides_or_empty overrides, case_amount = amount,
       case_currency = (if amount \<noteq> None then of_currency x else None), case_outcome = Some (of_outcome x)\<rparr>)"

text \<open>The case of a candidate carries the coverage that the lottery mark was computed from.\<close>

lemma case_keeps_lottery_mark:
  assumes "Some c = build_bid_readiness_candidate low tid lines offers as_of t" "x = build_case_from_bid_readiness c cid cur label ov"
  shows "\<exists>q. jget (inputs x) ''coverage_pct'' = JFloat q \<and> jget (inputs x) ''is_lottery'' = JBool (q < LOTTERY_COVERAGE_THRESHOLD_PCT)"
  using assms by (simp add: build_case_from_bid_readiness_def build_bid_readiness_candidate_def Let_def jget_def split: option.splits)

end
