(* ===== verification/Operations.thy ===== *)
theory Operations
  imports Registers Signals Jobs
begin

text \<open>
  The tools around the running system: the pilot users (\<open>scripts/seed_pilot_users.py\<close>), the alerts
  (\<open>packages/platform/alerts.py\<close>, \<open>scripts/check_alerts.py\<close>, \<open>scripts/check_invariants.py\<close>), restore
  drills (\<open>restore_drill.py\<close>, \<open>scripts/run_restore_drill.py\<close>), the age of the last backup
  (\<open>backup_signals.py\<close>), the OCR adapter (\<open>ollama_ocr_engine.py\<close>) and the error envelope
  (\<open>errors.py\<close>).

  \<open>pg_dump\<close> and \<open>pg_restore\<close>, the HTTP client, \<open>strptime\<close>, base64, the password hasher and the random
  passwords are arguments.
\<close>

section \<open>Pilot users\<close>

type_synonym ('s, 'a) platform_op = "('s platform_db_scheme, api_error, 'a) db"

definition PILOT_ROLES :: "(string \<times> string list) list" where
  "PILOT_ROLES =
     [(''worker'', [''decision.bid_readiness.read'', ''decision.recalc_flags.read'', ''decision.execution_facts.read'',
        ''decision.execution_facts.create'', ''tender.forecast_snapshot.read'', ''platform.feedback.submit'']),
      (''tender'', [''decision.bid_readiness.read'', ''decision.recalc_flags.read'', ''decision.decisions.create'', ''decision.go_no_go.create'',
        ''tender.forecast_snapshot.read'', ''tender.forecast_snapshot.write'', ''platform.feedback.submit'']),
      (''procurement'', [''decision.execution_facts.read'', ''decision.execution_facts.create'', ''decision.execution_facts.close_project'',
        ''decision.outcome.read'', ''decision.outcome.write'', ''platform.feedback.submit'']),
      (''technical_specialist'', [''algorithm.policy.read'', ''algorithm.policy.write'', ''algorithm.policy.approve'', ''algorithm.policy.activate'',
        ''algorithm.simulation.read'', ''algorithm.simulation.write'', ''admin.users.create'', ''admin.users.read'', ''admin.users.update'',
        ''admin.users.disable'', ''admin.users.set_password'', ''platform.feedback.submit'', ''platform.feedback.triage''])]"

definition PILOT_HEADCOUNT :: "(string \<times> nat) list" where
  "PILOT_HEADCOUNT = [(''worker'', 6), (''tender'', 2), (''procurement'', 2), (''technical_specialist'', 2)]"

definition upsert_role :: "string \<Rightarrow> ('s, int) platform_op" where
  "upsert_role name =
     bind (gets (\<lambda>s. find (\<lambda>(i, n). n = name) (roles s))) (\<lambda>row.
     case row of
       Some (i, n) \<Rightarrow> ret i
     | None \<Rightarrow>
         bind (gets (\<lambda>s. next_id (roles s))) (\<lambda>i.
         then_db (modify (\<lambda>s. s\<lparr>roles := roles s @ [(i, name)]\<rparr>)) (ret i)))"

definition upsert_permission :: "string \<Rightarrow> ('s, int) platform_op" where
  "upsert_permission name =
     bind (gets (\<lambda>s. find (\<lambda>(i, n). n = name) (permissions s))) (\<lambda>row.
     case row of
       Some (i, n) \<Rightarrow> ret i
     | None \<Rightarrow>
         bind (gets (\<lambda>s. next_id (permissions s))) (\<lambda>i.
         then_db (modify (\<lambda>s. s\<lparr>permissions := permissions s @ [(i, name)]\<rparr>)) (ret i)))"

definition ensure_role_permission :: "int \<Rightarrow> int \<Rightarrow> ('s, unit) platform_op" where
  "ensure_role_permission rid pid =
     modify (\<lambda>s. if (rid, pid) \<in> set (role_permissions s) then s else s\<lparr>role_permissions := role_permissions s @ [(rid, pid)]\<rparr>)"

definition user_exists :: "'s platform_db_scheme \<Rightarrow> string \<Rightarrow> bool" where
  "user_exists s name \<longleftrightarrow> list_ex (\<lambda>(i, u). username u = name) (users s)"

definition insert_pilot :: "(string \<Rightarrow> string) \<Rightarrow> string \<Rightarrow> string \<Rightarrow> int \<Rightarrow> string \<Rightarrow> ('s, unit) platform_op" where
  "insert_pilot hash name disp rid pw =
     modify (\<lambda>s. s\<lparr>users := users s @ [(user_seq s,
         \<lparr>username = name, display_name = disp, role_id = rid, user_status = ''active'', user_version = 1,
          password_hash = Some (hash pw), failed_login_count = 0, locked_until = None\<rparr>)], user_seq := user_seq s + 1\<rparr>)"

definition seed_role :: "string \<times> string list \<Rightarrow> ('s, string \<times> int) platform_op" where
  "seed_role r =
     (case r of (name, perms) \<Rightarrow>
        bind (upsert_role name) (\<lambda>rid.
        then_db (for_each (\<lambda>p. bind (upsert_permission p) (ensure_role_permission rid)) perms)
        (ret (name, rid))))"

fun seed_roles :: "(string \<times> string list) list \<Rightarrow> ('s, (string \<times> int) list) platform_op" where
  "seed_roles [] = ret []"
| "seed_roles (r # rs) = bind (seed_role r) (\<lambda>x. bind (seed_roles rs) (\<lambda>xs. ret (x # xs)))"

definition pilots :: "(string \<times> nat) list" where
  "pilots = concat (map (\<lambda>(r, n). map (\<lambda>k. (r, k)) [1..<Suc n]) PILOT_HEADCOUNT)"

definition pilot_username :: "string \<times> nat \<Rightarrow> string" where
  "pilot_username x = (case x of (r, k) \<Rightarrow> ''pilot_'' @ r @ ''_'' @ str_int (int k))"

definition pilot_display_name :: "string \<times> nat \<Rightarrow> string" where
  "pilot_display_name x = (case x of (r, k) \<Rightarrow> ''Pilot '' @ r @ '' #'' @ str_int (int k) @ '' (placeholder -- rename once assigned)'')"

text \<open>The loop over the users; the results are the created credentials and the names that existed.\<close>

fun seed_users :: "(string \<Rightarrow> string) \<Rightarrow> (string \<Rightarrow> string) \<Rightarrow> (string \<times> int) list \<Rightarrow> (string \<times> nat) list \<Rightarrow>
    ('s, (string \<times> string) list \<times> string list) platform_op" where
  "seed_users hash token ids [] = ret ([], [])"
| "seed_users hash token ids (x # rest) =
     (let name = pilot_username x in
      bind (gets (\<lambda>s. user_exists s name)) (\<lambda>known.
      if known then bind (seed_users hash token ids rest) (\<lambda>(created, skipped). ret (created, name # skipped))
      else (case map_of ids (fst x) of
         None \<Rightarrow> raise (Exc ''KeyError'' [fst x])
       | Some rid \<Rightarrow>
           then_db (insert_pilot hash name (pilot_display_name x) rid (token name)) (
           bind (seed_users hash token ids rest) (\<lambda>(created, skipped). ret ((name, token name) # created, skipped))))))"

definition seed_pilot_users :: "(string \<Rightarrow> string) \<Rightarrow> (string \<Rightarrow> string) \<Rightarrow> ('s, (string \<times> string) list \<times> string list) platform_op" where
  "seed_pilot_users hash token =
     transaction (bind (seed_roles PILOT_ROLES) (\<lambda>ids. seed_users hash token ids pilots))"

section \<open>Alerts\<close>

record alert_result =
  alert_name :: string
  firing :: bool
  alert_detail :: "string list"

definition dead_lettered_jobs_present :: "work_db \<Rightarrow> alert_result" where
  "dead_lettered_jobs_present w =
     (let dead = list_dead_lettered w in
      if dead \<noteq> [] then \<lparr>alert_name = ''dead_lettered_jobs_present'', firing = True,
        alert_detail = str_int (int (length dead)) # map (str_int \<circ> fst) dead\<rparr>
      else \<lparr>alert_name = ''dead_lettered_jobs_present'', firing = False, alert_detail = []\<rparr>)"

definition exception_queue_has_open_items :: "'t tender_db_scheme \<Rightarrow> alert_result" where
  "exception_queue_has_open_items s =
     (let rows = list_open s None in
      if rows \<noteq> [] then \<lparr>alert_name = ''exception_queue_has_open_items'', firing = True, alert_detail = [str_int (int (length rows))]\<rparr>
      else \<lparr>alert_name = ''exception_queue_has_open_items'', firing = False, alert_detail = []\<rparr>)"

definition invariant_violation_detected :: "(int \<times> int) list option \<Rightarrow> registers_db \<Rightarrow> alert_result" where
  "invariant_violation_detected notifications s =
     (let failing = map ir_name (filter (\<lambda>r. \<not> ir_passed r) (all_checks notifications s)) in
      if failing \<noteq> [] then \<lparr>alert_name = ''invariant_violation_detected'', firing = True, alert_detail = failing\<rparr>
      else \<lparr>alert_name = ''invariant_violation_detected'', firing = False, alert_detail = []\<rparr>)"

definition freshness_alert :: "'t tender_db_scheme \<Rightarrow> alert_result" where
  "freshness_alert s =
     (let missing = source_never_succeeded s in
      \<lparr>alert_name = ''source_never_succeeded'', firing = (missing \<noteq> []), alert_detail = missing\<rparr>)"

text \<open>The exit codes of the two gates.\<close>

definition check_alerts :: "work_db \<Rightarrow> 't tender_db_scheme \<Rightarrow> (int \<times> int) list option \<Rightarrow> registers_db \<Rightarrow> nat" where
  "check_alerts w s notifications r =
     (if list_ex firing [dead_lettered_jobs_present w, exception_queue_has_open_items s, invariant_violation_detected notifications r, freshness_alert s]
      then 1 else 0)"

definition check_invariants :: "(int \<times> int) list option \<Rightarrow> registers_db \<Rightarrow> nat" where
  "check_invariants notifications r = (if list_all ir_passed (all_checks notifications r) then 0 else 1)"

section \<open>Backups and restore drills\<close>

record restore_drill =
  backup_filename :: string
  target_database :: string
  drill_passed :: bool
  drill_detail :: "string list"
  drilled_at :: int

record drill_db =
  restore_drill_runs :: "(int \<times> restore_drill) list"
  drill_clock :: int

definition record_restore_drill :: "string \<Rightarrow> string \<Rightarrow> bool \<Rightarrow> string list \<Rightarrow> (drill_db, api_error, int) db" where
  "record_restore_drill file target passed detail =
     bind (gets (\<lambda>s. next_id (restore_drill_runs s))) (\<lambda>i.
     then_db (modify (\<lambda>s. s\<lparr>restore_drill_runs := restore_drill_runs s @ [(i,
        \<lparr>backup_filename = file, target_database = target, drill_passed = passed, drill_detail = detail, drilled_at = drill_clock s\<rparr>)]\<rparr>))
     (ret i))"

text \<open>\<open>ORDER BY drilled_at DESC, id DESC LIMIT 1\<close>\<close>

definition latest_passing_drill :: "drill_db \<Rightarrow> (int \<times> restore_drill) option" where
  "latest_passing_drill s =
     (case sort_key (\<lambda>(i, d). - drilled_at d) (sort_key (\<lambda>(i, d). - i) (filter (\<lambda>(i, d). drill_passed d) (restore_drill_runs s))) of
        [] \<Rightarrow> None | x # _ \<Rightarrow> Some x)"

text \<open>\<open>backup\<close> is the file name or the text of the \<open>BackupError\<close>, \<open>restore\<close> the text of a \<open>RestoreError\<close>; \<open>redact\<close> drops the credentials.\<close>

definition run_drill :: "(string \<Rightarrow> string) \<Rightarrow> string + string \<Rightarrow> (string \<Rightarrow> string option) \<Rightarrow> string \<Rightarrow> (drill_db, api_error, nat) db" where
  "run_drill redact backup restore target =
     (let (file, passed, detail) =
        (case backup of
           Inl why \<Rightarrow> (''(backup failed)'', False, [why])
         | Inr f \<Rightarrow> (case restore f of None \<Rightarrow> (f, True, [f]) | Some why \<Rightarrow> (f, False, [why]))) in
      then_db (transaction (bind (record_restore_drill file (redact target) passed detail) (\<lambda>_. ret ())))
      (ret (if passed then 0 else 1)))"

definition BACKUP_PREFIX :: string where "BACKUP_PREFIX = ''backup_''"
definition BACKUP_SUFFIX :: string where "BACKUP_SUFFIX = ''.dump''"

definition backup_time :: "(string \<Rightarrow> int option) \<Rightarrow> string \<Rightarrow> int option" where
  "backup_time strptime name =
     (if take (length BACKUP_PREFIX) name = BACKUP_PREFIX \<and> drop (length name - length BACKUP_SUFFIX) name = BACKUP_SUFFIX
      then strptime (drop (length BACKUP_PREFIX) (take (length name - length BACKUP_SUFFIX) name)) else None)"

text \<open>The names of a directory, \<open>None\<close> when it is none, and the newest time.\<close>

fun newest_of :: "(string \<Rightarrow> int option) \<Rightarrow> int option \<Rightarrow> string list \<Rightarrow> int option" where
  "newest_of strptime newest [] = newest"
| "newest_of strptime newest (n # ns) =
     newest_of strptime
       (case backup_time strptime n of
          None \<Rightarrow> newest
        | Some t \<Rightarrow> (case newest of None \<Rightarrow> Some t | Some m \<Rightarrow> if m < t then Some t else Some m)) ns"

definition latest_backup_at :: "(string \<Rightarrow> int option) \<Rightarrow> string list option \<Rightarrow> int option" where
  "latest_backup_at strptime dir = (case dir of None \<Rightarrow> None | Some names \<Rightarrow> newest_of strptime None names)"

section \<open>The OCR adapter and the error envelope\<close>

record ocr_engine =
  ocr_base_url :: string
  ocr_model :: string
  ocr_prompt :: string

definition mk_ocr_engine :: "string \<Rightarrow> string \<Rightarrow> string \<Rightarrow> api_error + ocr_engine" where
  "mk_ocr_engine base model prompt =
     (if model = [] then Inl (Exc ''ValueError'' [''model_name''])
      else Inr \<lparr>ocr_base_url = rev (dropWhile (\<lambda>c. c = CHR 0x2F) (rev base)), ocr_model = model, ocr_prompt = prompt\<rparr>)"

text \<open>\<open>post\<close> returns the status and the body, \<open>None\<close> for an \<open>httpx.HTTPError\<close>; a body that is not an object has no \<open>get\<close>.\<close>

definition parse_document :: "(string \<Rightarrow> jobject \<Rightarrow> (nat \<times> string) option) \<Rightarrow> (string \<Rightarrow> json option) \<Rightarrow> (string \<Rightarrow> string) \<Rightarrow> ocr_engine \<Rightarrow> string \<Rightarrow>
    api_error + string" where
  "parse_document post loads b64 e img =
     (case post (ocr_base_url e @ ''/api/generate'')
         [(''model'', JStr (ocr_model e)), (''prompt'', JStr (ocr_prompt e)), (''images'', JArr [JStr (b64 img)]), (''stream'', JBool False)] of
        None \<Rightarrow> Inl (Exc ''OcrEngineError'' [''unreachable'', ocr_base_url e])
      | Some (st, text) \<Rightarrow>
          if st \<noteq> 200 then Inl (Exc ''OcrEngineError'' [''status'', str_int (int st), text])
          else (case loads text of
             None \<Rightarrow> Inl (Exc ''OcrEngineError'' [''non-JSON''])
           | Some (JObj d) \<Rightarrow> (case jget d ''response'' of JStr t \<Rightarrow> if t = [] then Inl (Exc ''OcrEngineError'' [''response'']) else Inr t
                              | _ \<Rightarrow> Inl (Exc ''OcrEngineError'' [''response'']))
           | Some _ \<Rightarrow> Inl (Exc ''AttributeError'' [''get''])))"

definition bind_correlation_id :: "string \<Rightarrow> string option \<Rightarrow> ('s, string) platform_op" where
  "bind_correlation_id fresh v =
     (let c = (case v of None \<Rightarrow> fresh | Some x \<Rightarrow> if x = [] then fresh else x) in
      then_db (modify (\<lambda>s. s\<lparr>correlation_id_var := Some c\<rparr>)) (ret c))"

record error_response =
  er_status :: nat
  er_code :: string
  er_message :: "string list"
  er_correlation :: "string option"
  er_headers :: "(string \<times> string) list"

definition envelope_response :: "'s platform_db_scheme \<Rightarrow> nat \<Rightarrow> string \<Rightarrow> string list \<Rightarrow> error_response" where
  "envelope_response s st cd msg =
     \<lparr>er_status = st, er_code = cd, er_message = msg, er_correlation = correlation_id_var s,
      er_headers = (case correlation_id_var s of None \<Rightarrow> [] | Some c \<Rightarrow> if c = [] then [] else [(''X-Correlation-Id'', c)])\<rparr>"

text \<open>The handlers: an \<open>ApiError\<close> keeps its status and code, anything else is an internal error without its text.\<close>

definition handle_error :: "'s platform_db_scheme \<Rightarrow> api_error \<Rightarrow> error_response" where
  "handle_error s e =
     (case e of
        ApiError st cd msg \<Rightarrow> envelope_response s st cd msg
      | Exc cls args \<Rightarrow> envelope_response s 500 ''internal_error'' [''unexpected server error''])"

end
