(* ===== verification/Operations_Theorems.thy ===== *)
theory Operations_Theorems
  imports Operations
begin

text \<open>
  What the operational tools promise: seeding can be repeated and touches no existing account, the
  alert gate passes exactly when nothing is wrong, a drill is recorded whatever its result.
\<close>

section \<open>Statements that can be repeated\<close>

definition accounts_grow :: "'s platform_db_scheme \<Rightarrow> 's platform_db_scheme \<Rightarrow> bool" where
  "accounts_grow s t \<longleftrightarrow> extends (roles s) (roles t) \<and> extends (permissions s) (permissions t) \<and>
     extends (role_permissions s) (role_permissions t) \<and> extends (users s) (users t)"

interpretation growing: preorder_rel accounts_grow
  by unfold_locales (auto simp: accounts_grow_def intro: extends_trans)

text \<open>After it ran once, the statement finds what it needs in every larger state and changes nothing.\<close>

definition settles :: "('s, 'a) platform_op \<Rightarrow> bool" where
  "settles m \<longleftrightarrow> (\<forall>s x s1. m s = (Inr x, s1) \<longrightarrow> accounts_grow s s1 \<and> (\<forall>t. accounts_grow s1 t \<longrightarrow> m t = (Inr x, t)))"

lemma settlesI: "(\<And>s x s1. m s = (Inr x, s1) \<Longrightarrow> accounts_grow s s1) \<Longrightarrow> (\<And>s x s1 t. m s = (Inr x, s1) \<Longrightarrow> accounts_grow s1 t \<Longrightarrow> m t = (Inr x, t)) \<Longrightarrow> settles m"
  unfolding settles_def by blast

lemma settlesD: "settles m \<Longrightarrow> m s = (Inr x, s1) \<Longrightarrow> accounts_grow s s1" "settles m \<Longrightarrow> m s = (Inr x, s1) \<Longrightarrow> accounts_grow s1 t \<Longrightarrow> m t = (Inr x, t)"
  unfolding settles_def by blast+

lemma settles_ret: "settles (ret x)"
  by (simp add: settles_def growing.refl)

lemma settles_bind:
  assumes "settles m" "\<And>x. settles (k x)"
  shows "settles (bind m k)"
proof (rule settlesI)
  fix s y s2 assume "bind m k s = (Inr y, s2)"
  then obtain x s1 where r: "m s = (Inr x, s1)" "k x s1 = (Inr y, s2)" by (auto simp: bind_Inr)
  note g = settlesD(1)[OF assms(1) r(1)] settlesD(1)[OF assms(2) r(2)]
  then show "accounts_grow s s2" by (rule growing.trans)
  fix t assume t: "accounts_grow s2 t"
  have "m t = (Inr x, t)" by (rule settlesD(2)[OF assms(1) r(1) growing.trans[OF g(2) t]])
  moreover have "k x t = (Inr y, t)" by (rule settlesD(2)[OF assms(2) r(2) t])
  ultimately show "bind m k t = (Inr y, t)" by (simp add: bind_eq)
qed

lemma settles_then: "settles m \<Longrightarrow> settles k \<Longrightarrow> settles (then_db m k)"
  by (simp add: then_db_def settles_bind)

lemma settles_for_each: "(\<And>x. settles (f x)) \<Longrightarrow> settles (for_each f xs)"
  by (induction xs) (auto intro: settles_ret settles_then)

lemma find_extends: "find p xs = Some y \<Longrightarrow> extends xs ys \<Longrightarrow> find p ys = Some y"
proof -
  have "find p xs = Some y \<Longrightarrow> find p (xs @ zs) = Some y" for zs by (induction xs) auto
  then show "find p xs = Some y \<Longrightarrow> extends xs ys \<Longrightarrow> find p ys = Some y" by (auto simp: extends_def)
qed

lemma find_snoc: "find p xs = None \<Longrightarrow> p y \<Longrightarrow> find p (xs @ [y]) = Some y"
  by (induction xs) (auto split: if_splits)

lemma upsert_role_found:
  assumes "upsert_role name s = (Inr i, s1)"
  shows "accounts_grow s s1 \<and> (\<exists>n. find (\<lambda>(i, n). n = name) (roles s1) = Some (i, n))"
  using assms by (auto simp: upsert_role_def bind_eq then_db_eq accounts_grow_def find_snoc split: option.splits)

lemma upsert_permission_found:
  assumes "upsert_permission name s = (Inr i, s1)"
  shows "accounts_grow s s1 \<and> (\<exists>n. find (\<lambda>(i, n). n = name) (permissions s1) = Some (i, n))"
  using assms by (auto simp: upsert_permission_def bind_eq then_db_eq accounts_grow_def find_snoc split: option.splits)

lemma settles_upserts: "settles (upsert_role name)" "settles (upsert_permission name)" "settles (ensure_role_permission rid pid)"
proof -
  show "settles (upsert_role name)"
  proof (rule settlesI)
    fix s i s1 t assume r: "upsert_role name s = (Inr i, s1)"
    show "accounts_grow s s1" using upsert_role_found[OF r] ..
    assume "accounts_grow s1 t"
    then show "upsert_role name t = (Inr i, t)"
      using upsert_role_found[OF r] by (auto simp: upsert_role_def bind_eq accounts_grow_def dest: find_extends)
  qed
  show "settles (upsert_permission name)"
  proof (rule settlesI)
    fix s i s1 t assume r: "upsert_permission name s = (Inr i, s1)"
    show "accounts_grow s s1" using upsert_permission_found[OF r] ..
    assume "accounts_grow s1 t"
    then show "upsert_permission name t = (Inr i, t)"
      using upsert_permission_found[OF r] by (auto simp: upsert_permission_def bind_eq accounts_grow_def dest: find_extends)
  qed
  show "settles (ensure_role_permission rid pid)"
    by (rule settlesI) (auto simp: ensure_role_permission_def accounts_grow_def extends_def split: if_splits)
qed

lemma settles_seed_roles: "settles (seed_roles rs)"
proof (induction rs)
  case Nil
  show ?case unfolding seed_roles.simps by (rule settles_ret)
next
  case (Cons r rs)
  have "settles (seed_role r)"
    by (cases r) (auto simp: seed_role_def intro!: settles_bind settles_then settles_for_each settles_ret settles_upserts)
  with Cons show ?case by (auto intro!: settles_bind settles_ret)
qed

section \<open>Seeding\<close>

lemma user_exists_kept: "user_exists s name \<Longrightarrow> accounts_grow s t \<Longrightarrow> user_exists t name"
  by (auto simp: user_exists_def accounts_grow_def extends_def)

lemma seed_users_skips:
  "(\<And>x. x \<in> set xs \<Longrightarrow> user_exists t (pilot_username x)) \<Longrightarrow> seed_users hash token ids xs t = (Inr ([], map pilot_username xs), t)"
  by (induction xs) (simp_all add: bind_eq Let_def)

lemma seed_users_effect:
  assumes "\<And>x. x \<in> set xs \<Longrightarrow> map_of ids (fst x) \<noteq> None" "distinct (map pilot_username xs)"
  shows "\<exists>created skipped t. seed_users hash token ids xs s = (Inr (created, skipped), t) \<and> accounts_grow s t \<and>
    (\<forall>x \<in> set xs. user_exists t (pilot_username x)) \<and>
    map fst created = filter (\<lambda>n. \<not> user_exists s n) (map pilot_username xs) \<and> skipped = filter (user_exists s) (map pilot_username xs)"
  using assms
proof (induction xs arbitrary: s)
  case Nil
  show ?case by (simp add: growing.refl)
next
  case (Cons x xs)
  let ?n = "pilot_username x"
  have xs: "\<And>x. x \<in> set xs \<Longrightarrow> map_of ids (fst x) \<noteq> None" "distinct (map pilot_username xs)" using Cons.prems by auto
  show ?case
  proof (cases "user_exists s ?n")
    case True
    obtain created skipped t where r: "seed_users hash token ids xs s = (Inr (created, skipped), t)" "accounts_grow s t"
      "\<forall>x \<in> set xs. user_exists t (pilot_username x)" "map fst created = filter (\<lambda>n. \<not> user_exists s n) (map pilot_username xs)"
      "skipped = filter (user_exists s) (map pilot_username xs)" using Cons.IH[OF xs, of s] by blast
    moreover have "user_exists t ?n" by (rule user_exists_kept[OF True r(2)])
    ultimately show ?thesis using True by (simp add: bind_eq Let_def)
  next
    case False
    from Cons.prems(1)[of x] obtain rid where rid: "map_of ids (fst x) = Some rid" by auto
    define s1 where "s1 = snd (insert_pilot hash ?n (pilot_display_name x) rid (token ?n) s)"
    have i: "insert_pilot hash ?n (pilot_display_name x) rid (token ?n) s = (Inr (), s1)" by (simp add: s1_def insert_pilot_def)
    have g: "accounts_grow s s1" by (simp add: s1_def insert_pilot_def accounts_grow_def)
    have ex: "user_exists s1 m \<longleftrightarrow> m = ?n \<or> user_exists s m" for m by (auto simp: s1_def insert_pilot_def user_exists_def)
    obtain created skipped t where r: "seed_users hash token ids xs s1 = (Inr (created, skipped), t)" "accounts_grow s1 t"
      "\<forall>x \<in> set xs. user_exists t (pilot_username x)" "map fst created = filter (\<lambda>n. \<not> user_exists s1 n) (map pilot_username xs)"
      "skipped = filter (user_exists s1) (map pilot_username xs)" using Cons.IH[OF xs, of s1] by blast
    have same: "filter (\<lambda>n. \<not> user_exists s1 n) (map pilot_username xs) = filter (\<lambda>n. \<not> user_exists s n) (map pilot_username xs)"
      "filter (user_exists s1) (map pilot_username xs) = filter (user_exists s) (map pilot_username xs)"
    proof -
      have eq: "user_exists s1 n = user_exists s n" if "n \<in> set (map pilot_username xs)" for n
      proof -
        have "n \<noteq> ?n" using that Cons.prems(2) by (metis distinct.simps(2) list.simps(9))
        then show ?thesis by (simp add: ex)
      qed
      show "filter (\<lambda>n. \<not> user_exists s1 n) (map pilot_username xs) = filter (\<lambda>n. \<not> user_exists s n) (map pilot_username xs)"
        "filter (user_exists s1) (map pilot_username xs) = filter (user_exists s) (map pilot_username xs)"
        by (rule filter_cong[OF refl], simp only: eq)+
    qed
    have "user_exists t ?n" by (rule user_exists_kept[OF _ r(2)]) (simp add: ex)
    with False rid r i growing.trans[OF g r(2)] same show ?thesis by (simp add: bind_eq then_db_eq Let_def)
  qed
qed

lemma upserts_return: "\<exists>i t. upsert_role name s = (Inr i, t)" "\<exists>i t. upsert_permission name s = (Inr i, t)"
  "\<exists>t. ensure_role_permission rid pid s = (Inr (), t)"
  by (simp_all add: upsert_role_def upsert_permission_def ensure_role_permission_def bind_eq then_db_eq split: option.split)

lemma permissions_return: "\<exists>t. for_each (\<lambda>p. bind (upsert_permission p) (ensure_role_permission rid)) ps s = (Inr (), t)"
proof (induction ps arbitrary: s)
  case (Cons p ps)
  obtain i s1 where "upsert_permission p s = (Inr i, s1)" using upserts_return(2) by blast
  moreover obtain s2 where "ensure_role_permission rid i s1 = (Inr (), s2)" using upserts_return(3) by blast
  ultimately show ?case using Cons[of s2] by (simp add: then_db_eq bind_eq)
qed simp

lemma seed_roles_return: "\<exists>xs t. seed_roles rs s = (Inr xs, t) \<and> map fst xs = map fst rs"
proof (induction rs arbitrary: s)
  case (Cons r rs)
  obtain name ps where r: "r = (name, ps)" by (rule prod.exhaust)
  obtain i s1 where 1: "upsert_role name s = (Inr i, s1)" using upserts_return(1) by blast
  obtain s2 where 2: "for_each (\<lambda>p. bind (upsert_permission p) (ensure_role_permission i)) ps s1 = (Inr (), s2)" using permissions_return by blast
  obtain xs t where "seed_roles rs s2 = (Inr xs, t)" "map fst xs = map fst rs" using Cons by blast
  with 1 2 show ?case by (simp add: r seed_role_def bind_eq then_db_eq)
qed simp

interpretation same_users: preorder_rel "\<lambda>s t :: 's platform_db_scheme. users t = users s"
  by unfold_locales auto

lemma seed_roles_users: "does (\<lambda>s t. users t = users s) (seed_roles rs)"
proof -
  have u: "does (\<lambda>s t. users t = users s) (upsert_role n)" "does (\<lambda>s t. users t = users s) (upsert_permission n)"
    "does (\<lambda>s t. users t = users s) (ensure_role_permission i j)" for n i j
    by (auto simp: does_def upsert_role_def upsert_permission_def ensure_role_permission_def bind_eq then_db_eq split: option.splits)
  have r: "does (\<lambda>s t. users t = users s) (seed_role r)" for r
    by (cases r) (simp add: seed_role_def, intro same_users.does_rules u)
  show ?thesis by (induction rs) (auto simp only: seed_roles.simps intro!: same_users.does_rules r)
qed

lemma pilots_known: "list_all (\<lambda>x. fst x \<in> set (map fst PILOT_ROLES)) pilots" and pilots_distinct: "distinct (map pilot_username pilots)"
  by code_simp+

text \<open>
  C40. Seeding the pilot users always returns, only appends to the accounts it finds, creates exactly
  the missing ones, and can be repeated: a second run, with other random passwords, creates
  nothing and leaves the database as it was.
\<close>

theorem seeding_repeats:
  "\<exists>created skipped t. seed_pilot_users hash token s = (Inr (created, skipped), t) \<and>
     (\<exists>new. users t = users s @ new) \<and>
     map fst created = filter (\<lambda>n. \<not> user_exists s n) (map pilot_username pilots) \<and>
     skipped = filter (user_exists s) (map pilot_username pilots) \<and>
     seed_pilot_users hash' token' t = (Inr ([], map pilot_username pilots), t)"
proof -
  obtain ids s1 where ids: "seed_roles PILOT_ROLES s = (Inr ids, s1)" "map fst ids = map fst PILOT_ROLES" using seed_roles_return by blast
  note g = settlesD(1)[OF settles_seed_roles ids(1)]
  have "map_of ids (fst x) \<noteq> None" if "x \<in> set pilots" for x
  proof -
    have "fst x \<in> set (map fst ids)" unfolding ids(2) using that pilots_known by (simp add: list_all_iff)
    then show ?thesis by (simp add: map_of_eq_None_iff)
  qed
  from seed_users_effect[OF this pilots_distinct, of hash token s1] obtain created skipped t where
    u: "seed_users hash token ids pilots s1 = (Inr (created, skipped), t)" "accounts_grow s1 t" "\<forall>x \<in> set pilots. user_exists t (pilot_username x)"
      "map fst created = filter (\<lambda>n. \<not> user_exists s1 n) (map pilot_username pilots)" "skipped = filter (user_exists s1) (map pilot_username pilots)"
    by blast
  have users: "users s1 = users s" using seed_roles_users[of PILOT_ROLES, unfolded does_def, rule_format, of s] by (simp add: ids(1))
  have "seed_pilot_users hash token s = (Inr (created, skipped), t)"
    using ids(1) u(1) by (simp add: seed_pilot_users_def bind_Inr)
  moreover have "seed_roles PILOT_ROLES t = (Inr ids, t)" by (rule settlesD(2)[OF settles_seed_roles ids(1) u(2)])
  then have "seed_pilot_users hash' token' t = (Inr ([], map pilot_username pilots), t)"
    using u(3) by (simp add: seed_pilot_users_def bind_Inr seed_users_skips)
  moreover have "extends (users s) (users t)" using growing.trans[OF g u(2)] by (simp add: accounts_grow_def)
  then have "\<exists>new. users t = users s @ new" by (simp add: extends_def)
  moreover have "user_exists s1 = user_exists s" by (simp add: fun_eq_iff user_exists_def users)
  ultimately show ?thesis using u(4,5) by (intro exI[of _ created] exI[of _ skipped] exI[of _ t]) auto
qed

section \<open>Alerts, drills and backups\<close>

lemma alert_gate_exact:
  "check_alerts w s ns r = 0 \<longleftrightarrow> list_dead_lettered w = [] \<and> list_open s None = [] \<and> check_invariants ns r = 0 \<and> source_never_succeeded s = []"
  by (auto simp: check_alerts_def dead_lettered_jobs_present_def exception_queue_has_open_items_def invariant_violation_detected_def
      freshness_alert_def check_invariants_def Let_def filter_empty_conv list_all_iff)

lemma drill_always_recorded:
  "\<exists>code t d. run_drill redact backup restore target s = (Inr code, t) \<and>
     restore_drill_runs t = restore_drill_runs s @ [(next_id (restore_drill_runs s), d)] \<and> (code = 0 \<longleftrightarrow> drill_passed d) \<and>
     target_database d = redact target"
  by (simp add: run_drill_def record_restore_drill_def bind_eq then_db_eq transaction_def split: sum.split option.split)

lemma newest_of_max:
  "newest_of strptime newest names = Some t \<Longrightarrow>
     (newest = Some t \<or> (\<exists>n \<in> set names. backup_time strptime n = Some t)) \<and> (\<forall>n \<in> set names. \<forall>u. backup_time strptime n = Some u \<longrightarrow> u \<le> t) \<and>
     (\<forall>u. newest = Some u \<longrightarrow> u \<le> t)"
proof (induction names arbitrary: newest)
  case (Cons n ns)
  from Cons.prems Cons.IH show ?case
    by (cases "backup_time strptime n"; cases newest) (fastforce split: if_splits)+
qed simp

lemma latest_backup_newest:
  assumes "latest_backup_at strptime dir = Some t"
  shows "\<exists>names. dir = Some names \<and> (\<exists>n \<in> set names. backup_time strptime n = Some t) \<and>
    (\<forall>n \<in> set names. \<forall>u. backup_time strptime n = Some u \<longrightarrow> u \<le> t)"
  using assms newest_of_max[of strptime None _ t] by (auto simp: latest_backup_at_def split: option.splits)

end
