(* ===== verification/Spec2Isabelle.thy ===== *)
theory Spec2Isabelle
  imports Simulation_Theorems Worker_Theorems Accounts_Theorems Matching_Theorems Decision_Theorems Egress_Theorems
    Completeness Changes_Theorems Signals_Theorems Registers_Theorems
    Vendor_Providers Migrations_Theorems Shadow Case_Builder Operations_Theorems
begin

text \<open>
  UNIWATCH is a procurement service: it ingests public tenders, matches their bills of quantities
  against vendor offers, lets people decide whether to bid, watches submitted tenders for changes,
  records how a project was executed and how a tender ended, and keeps versioned decision
  policies ("algorithms") that are validated, simulated, approved and activated. It consists of
  two HTTP APIs (tenders and vendors) and a worker around PostgreSQL databases. This development
  models its Python code and proves what the components promise each other.

  \<^bold>\<open>How the code is modelled.\<close> A statement on a database connection is a function from the state to a
  result and a new state (\<open>db\<close> in \<open>Prelude\<close>); \<open>Inl\<close> is an exception, and \<open>transaction\<close> is
  \<open>get_connection\<close>, which rolls back when one is raised. Tables are lists of rows with their ids, the
  constraints of the migrations are branches that raise \<open>IntegrityError\<close>. Strings are their UTF-8
  bytes, time is an integer clock, decimals are Python decimals with 28 digits (\<open>Decimals\<close>), a
  percentage is rounded as binary64 (\<open>float64\<close>). What is not the program's own code is an argument
  of the definitions: the password hasher, SHA-256, random tokens and numbers, \<open>str.lower\<close>, ISO dates,
  regular expressions, the JSON and CSV readers, URL parsing, the resolver and the network, the OCR
  engine, the execution of a migration's SQL. A message is kept as the list of the values it
  interpolates.

  \<^bold>\<open>Concurrency.\<close> A transaction of an API is one step, so the states of a service are those of its
  requests one after another. Where a lock or the \<open>WHERE\<close> clause of an update carries the argument
  (\<open>claim\<close>, \<open>heartbeat\<close>, \<open>complete\<close>, \<open>checkpoint\<close>) this is what the database does. Where the code reads
  without a lock and writes later it is not, and two of these places are modelled in their parts: the
  report of a failed job (\<open>fail_select\<close>, \<open>fail_update\<close>), which other workers interrupt in \<open>Worker\<close>, and the change of a
  user (\<open>prepare_update\<close>, \<open>apply_update\<close>). \<open>lease_excludes\<close> and \<open>conditional_update\<close> say what is lost
  there. Among the others are \<open>transition_version_status\<close> and the mutability check of \<open>add_nodes\<close> and \<open>add_edges\<close> in
  \<open>policy_store.py\<close>, the counters of \<open>record_page_fetched\<close> and the attempts of concurrent logins: there
  the theorems hold for transactions that do not overlap.

  \<^bold>\<open>Shared theories.\<close>
  \<^item> \<open>Prelude\<close>: statements, exceptions, dictionaries, JSON values. \<open>Systems\<close>: the interfaces of all
    stateful components as locales: \<open>invariant_system\<close> (a predicate kept by every step holds in every
    reachable state), \<open>append_only\<close> (a history only grows) and \<open>preorder_rel\<close> (a relation that every
    statement of a program respects). \<open>Numbered\<close>: tables whose ids count from one.
  \<^item> \<open>Pagination\<close>, \<open>Listing\<close>: \<open>packages/platform/pagination.py\<close> (a cursor decodes to the key it was made
    from) and what the listing routes do with it. The locale \<open>cursor_listing\<close> proves once that a client
    that follows the cursors gets every row exactly once; the user list and the offer list interpret it.

  \<^bold>\<open>Policies.\<close>
  \<^item> \<open>Policy_Model\<close>, \<open>Policy_Validator\<close>, \<open>Tarjan\<close>, \<open>Validator_Spec\<close>: \<open>packages/algorithm/policy_model.py\<close>,
    \<open>policy_lifecycle.py\<close> and \<open>policy_validator.py\<close>. The validator reports no issue exactly for the
    graphs that satisfy a specification by paths and cycles; its Tarjan computes the strongly
    connected components.
  \<^item> \<open>Policy_Store\<close>, \<open>Policy_Store_Spec\<close>, \<open>Policy_Store_Calls\<close>, \<open>Policy_Theorems\<close>: \<open>policy_store.py\<close> and
    \<open>research_dossier_store.py\<close> as a system of calls: at most one active version per graph, the
    transition log replays the lifecycle, the approval gate and maker/checker, immutable content.
  \<^item> \<open>Decimals\<close>, \<open>Simulation\<close>, \<open>Simulation_Store\<close>, \<open>Simulation_Theorems\<close>: \<open>simulation_engine.py\<close> and
    \<open>simulation_store.py\<close>. A run follows the edges its test cases justify and always returns; an
    acyclic graph never reaches the step cap. \<open>Case_Builder\<close>: \<open>simulation_case_builder.py\<close>.
  \<^item> \<open>Policy_Api\<close>, \<open>Policy_Api_Theorems\<close>: \<open>apps/api_tender/routers/algoritm.py\<close>. A request is denied or is
    one call of the store, so every state the API reaches is a state the store reaches.

  \<^bold>\<open>Platform.\<close>
  \<^item> \<open>Jobs\<close>, \<open>Worker\<close>, \<open>Worker_Spec\<close>, \<open>Worker_Theorems\<close>: \<open>packages/platform/jobs.py\<close>, \<open>outbox.py\<close> and
    \<open>apps/worker\<close> as interleaved transactions of several workers with crashes and expiring leases:
    every page is processed exactly once, the attempt counter is bounded (it counts reported failures,
    not crashes), and a lease excludes other workers except from a failure report that began before the
    lease was lost.
  \<^item> \<open>Platform\<close>, \<open>Accounts\<close>, \<open>Accounts_Spec\<close>, \<open>Accounts_Theorems\<close>: roles, sessions, lockout, idempotency
    keys, audit log and version preconditions (\<open>packages/platform\<close>) with the routers \<open>auth.py\<close> and
    \<open>admin_users.py\<close>: deny by default, the lock after the fifth wrong password, replays of a request
    and the version check of a change.
  \<^item> \<open>Egress\<close>, \<open>Egress_Theorems\<close>: \<open>packages/platform/egress\<close>. Whatever a fetch contacts, redirects
    included, is a trusted host at resolved addresses that are not blocked; the address classes are
    those of \<open>ipaddress\<close> in Python 3.12.
  \<^item> \<open>Registers\<close>, \<open>Registers_Theorems\<close>: the register of official sources, pilot feedback, deployment
    authorizations (two persons, the digest and version that were reviewed) and the live invariant
    checks.
  \<^item> \<open>Migrations\<close>, \<open>Migrations_Theorems\<close>: \<open>migrations_runner.py\<close>. A run applies the pending migrations in
    order, and a run after a failure resumes where the schema stands.
  \<^item> \<open>Operations\<close>, \<open>Operations_Theorems\<close>: \<open>scripts/seed_pilot_users.py\<close>, alerts, restore drills, the age of
    backups, the OCR adapter and the error envelope.

  \<^bold>\<open>Tenders.\<close>
  \<^item> \<open>Tender_Tables\<close>: \<open>packages/tender/raw_snapshot.py\<close>, \<open>normalized.py\<close>, \<open>boq_lines_store.py\<close> and
    \<open>packages/platform/exception_queue.py\<close>.
  \<^item> \<open>Contracts\<close>, \<open>Ingestion\<close>, \<open>Ingestion_Theorems\<close>, \<open>Completeness\<close>: the source contracts, the eTender
    connector, the line parser, BOQ completeness and the page job. A payload without drift is typed and
    is normalised without an exception; a page is stored in full or queued for a human; an import that
    counts as complete has all announced lines.
  \<^item> \<open>Changes\<close>, \<open>Changes_Theorems\<close>: detection of changes after submission and the job that checks them:
    the check returns, and flags exactly what differs.
  \<^item> \<open>Signals\<close>, \<open>Signals_Theorems\<close>: signal models, their stores and the forecast snapshots.
  \<^item> \<open>Shadow\<close>: \<open>shadow_comparison.py\<close>; the report accounts for every record of both systems.

  \<^bold>\<open>Decisions and vendors.\<close>
  \<^item> \<open>Matching\<close>, \<open>Matching_Theorems\<close>: \<open>packages/decision/matching.py\<close>, \<open>boq_summary.py\<close>,
    \<open>bid_readiness.py\<close> and \<open>calibration_summary.py\<close>.
  \<^item> \<open>Decision\<close>, \<open>Ledger\<close>, \<open>Calibration\<close>: \<open>packages/decision\<close> with the routers \<open>decision.py\<close>,
    \<open>execution_ledger.py\<close> and \<open>calibration.py\<close>. \<open>Book\<close> is their abstract specification, a book that is
    only written at its end; \<open>Decision_Spec\<close> shows that every route refines it and \<open>Decision_Theorems\<close>
    draws the conclusions.
  \<^item> \<open>Vendors\<close>, \<open>Vendors_Theorems\<close>: \<open>packages/vendor\<close>, \<open>apps/api_vendor\<close> and its client
    \<open>packages/contracts/vendor_api.py\<close>: a vendor reads its own offers and no others, and the client
    collects every offer of a data realm. \<open>Vendor_Providers\<close>: offers from CSV price lists, photographed
    price lists and the synthetic generator.

  \<^bold>\<open>Bounds.\<close> Every definition is total. The loops of the program are recursions on lists except these:
  the policy simulation, whose own step cap bounds it; Tarjan's recursion and the search of the
  validator, which decrease the number of unvisited nodes (Python's recursion limit is not modelled); redirects, which \<open>DEFAULT_MAX_REDIRECTS\<close>
  bounds; the page walk of a change check, which takes fuel (\<open>walk_pages\<close>) that
  \<open>change_check_terminates\<close> shows to suffice; and the page loop of the vendor client, a
  \<open>partial_function (option)\<close> that \<open>vendor_client_gets_all_offers\<close> proves to return. \<open>follow_cursors\<close>
  counts the requests of a listing client and is a reference definition, not code.

  \<^bold>\<open>Not modelled.\<close> Settings, logging and the construction of database engines; the collection of signals
  from their sources and the counters of the source catalogue; the subprocess calls of \<open>pg_dump\<close> and
  \<open>pg_restore\<close>, smoke-test scripts and \<open>tools/check_v1_untouched.py\<close>: they only call external programs
  or read the environment. The pinned sockets of \<open>egress/fetch.py\<close> are the network argument of the
  fetch, \<open>app_factory.py\<close> only assembles the routers, and the response classes of the routes that copy
  the columns of a row are left out in favour of the row. The web client is TypeScript.
\<close>

end
